(* ===== verification/Prelude.thy ===== *)
theory Prelude
  imports Main "HOL-Library.Word"
begin

text \<open>
  Shared vocabulary of the development: NUL-terminated C strings as lists of characters, the
  few \<^verbatim>\<open>printf\<close> conversions, string searches and token scanners the program uses from the C
  library, 32-bit integers, results that may be an error, and the lemma collections the other
  theories use.
\<close>

unbundle bit_operations_syntax

subsection \<open>Machine integers\<close>

type_synonym u8 = "8 word"
type_synonym u16 = "16 word"
type_synonym u32 = "32 word"

text \<open>The value a 32-bit register holds when read as a signed \<^verbatim>\<open>int32_t\<close>.\<close>

definition i32 :: "int \<Rightarrow> int" where
  "i32 x = sint (word_of_int x :: u32)"

lemma i32_small: "- (2 ^ 31) \<le> x \<Longrightarrow> x < 2 ^ 31 \<Longrightarrow> i32 x = x"
  by (simp add: i32_def sint_sbintrunc' signed_take_bit_int_eq_self)

text \<open>C's \<^verbatim>\<open>/\<close> and \<^verbatim>\<open>%\<close> truncate towards zero.\<close>

definition c_div :: "int \<Rightarrow> int \<Rightarrow> int" where
  "c_div a b = sgn a * sgn b * (\<bar>a\<bar> div \<bar>b\<bar>)"

definition c_mod :: "int \<Rightarrow> int \<Rightarrow> int" where
  "c_mod a b = a - b * c_div a b"

lemma c_div_mod_nonneg [simp]: "0 \<le> a \<Longrightarrow> 0 < b \<Longrightarrow> c_div a b = a div b"
  "0 \<le> a \<Longrightarrow> 0 < b \<Longrightarrow> c_mod a b = a mod b"
proof -
  show "0 \<le> a \<Longrightarrow> 0 < b \<Longrightarrow> c_div a b = a div b" by (cases "a = 0") (auto simp: c_div_def)
  then show "0 \<le> a \<Longrightarrow> 0 < b \<Longrightarrow> c_mod a b = a mod b" by (simp add: c_mod_def minus_mult_div_eq_mod)
qed

subsection \<open>Errors as values\<close>

text \<open>
  The failures of the C++ code that are undefined behaviour or an abort: a write behind the
  end of a character array or of a byte buffer, a read or write outside an array, a failed
  \<^verbatim>\<open>assert\<close>, the cast of a floating point value that the integer type cannot hold,
  \<^verbatim>\<open>ABORT\<close>, which exits the process, and the use of a variable that was never assigned.
\<close>

datatype c_error =
    BufferOverflow nat nat \<comment> \<open>capacity, and the number of bytes that were written\<close>
  | OutOfBounds nat nat \<comment> \<open>size, and the index used\<close>
  | AssertionFailed
  | InvalidCast \<comment> \<open>a floating point value that the integer type cannot hold\<close>
  | Exited
  | Uninitialised

type_synonym 'a result = "c_error + 'a"

definition rbind :: "'a result \<Rightarrow> ('a \<Rightarrow> 'b result) \<Rightarrow> 'b result" where
  "rbind m f = (case m of Inl e \<Rightarrow> Inl e | Inr x \<Rightarrow> f x)"

named_theorems result_simps \<comment> \<open>equations of the result type\<close>

lemma rbind_simps [simp, result_simps]:
  "rbind (Inl e) f = Inl e" "rbind (Inr x) f = f x"
  by (simp_all add: rbind_def)

lemma rbind_Inr_iff [result_simps]: "rbind m f = Inr y \<longleftrightarrow> (\<exists>x. m = Inr x \<and> f x = Inr y)"
  by (cases m) simp_all

lemma rbind_assoc: "rbind (rbind m f) g = rbind m (\<lambda>x. rbind (f x) g)"
  by (cases m) simp_all

subsection \<open>C strings\<close>

text \<open>
  A C string is the list of its characters without the terminating NUL. \<open>snprintf_s n s\<close> is
  what \<^verbatim>\<open>snprintf(buf, n, "%s", s)\<close> leaves in \<^verbatim>\<open>buf\<close>; \<open>sprintf_s n s\<close> is the unchecked
  \<^verbatim>\<open>sprintf\<close> into an array of \<open>n\<close> bytes, an error when text and NUL do not fit.
\<close>

definition snprintf_s :: "nat \<Rightarrow> string \<Rightarrow> string" where
  "snprintf_s n s = take (n - 1) s"

definition sprintf_s :: "nat \<Rightarrow> string \<Rightarrow> string result" where
  "sprintf_s n s = (if length s < n then Inr s else Inl (BufferOverflow n (length s + 1)))"

lemma snprintf_s_length: "0 < n \<Longrightarrow> length (snprintf_s n s) < n"
  by (simp add: snprintf_s_def)

lemma snprintf_s_id [simp]: "length s < n \<Longrightarrow> snprintf_s n s = s"
  by (simp add: snprintf_s_def)

lemma snprintf_s_idem [simp]: "snprintf_s n (snprintf_s n s) = snprintf_s n s"
  by (simp add: snprintf_s_def)

lemma sprintf_s_Inr_iff [result_simps]: "sprintf_s n s = Inr t \<longleftrightarrow> length s < n \<and> t = s"
  by (auto simp: sprintf_s_def)

lemma sprintf_s_fits [simp]: "length s < n \<Longrightarrow> sprintf_s n s = Inr s"
  by (simp add: sprintf_s_def)

definition newline :: string where "newline = [char_of (10::nat)]"

text \<open>\<^verbatim>\<open>!strncmp(s, t, strlen(t))\<close>: \<open>s\<close> starts with \<open>t\<close>.\<close>

definition strncmp_eq :: "string \<Rightarrow> string \<Rightarrow> bool" where
  "strncmp_eq s t \<longleftrightarrow> take (length t) s = t"

lemma strncmp_eq_refl [simp]: "strncmp_eq s s"
  by (simp add: strncmp_eq_def)

lemma strncmp_eq_append [simp]: "strncmp_eq (s @ t) s"
  by (simp add: strncmp_eq_def)

text \<open>ASCII case conversion and comparison (C locale).\<close>

definition code :: "char \<Rightarrow> nat" where
  "code c = of_char c"

definition toupper_c :: "char \<Rightarrow> char" where
  "toupper_c c = (if 97 \<le> code c \<and> code c \<le> 122 then char_of (code c - 32) else c)"

definition strcasecmp_eq :: "string \<Rightarrow> string \<Rightarrow> bool" where
  "strcasecmp_eq s t \<longleftrightarrow> map toupper_c s = map toupper_c t"

definition isdigit_c :: "char \<Rightarrow> bool" where
  "isdigit_c c \<longleftrightarrow> 48 \<le> code c \<and> code c \<le> 57"

definition isspace_c :: "char \<Rightarrow> bool" where
  "isspace_c c \<longleftrightarrow> code c = 32 \<or> 9 \<le> code c \<and> code c \<le> 13"

text \<open>\<^verbatim>\<open>atoi\<close> (base 10), and the value of a digit string.\<close>

definition digits_val :: "string \<Rightarrow> int" where
  "digits_val ds = foldl (\<lambda>a c. 10 * a + (int (code c) - 48)) 0 ds"

definition atoi :: "string \<Rightarrow> int" where
  "atoi s = (case dropWhile isspace_c s of
      [] \<Rightarrow> 0
    | c # r \<Rightarrow> (if c = CHR ''-'' then - digits_val (takeWhile isdigit_c r)
                else if c = CHR ''+'' then digits_val (takeWhile isdigit_c r)
                else digits_val (takeWhile isdigit_c (c # r))))"

subsection \<open>Decimal output\<close>

definition digit_char :: "nat \<Rightarrow> char" where
  "digit_char n = char_of (48 + n)"

fun nat_dec :: "nat \<Rightarrow> string" where
  "nat_dec n = (if n < 10 then [digit_char n] else nat_dec (n div 10) @ [digit_char (n mod 10)])"

declare nat_dec.simps [simp del]

text \<open>\<^verbatim>\<open>%d\<close>; and \<^verbatim>\<open>%0wd\<close>, which pads with zeros after the sign.\<close>

definition int_dec :: "int \<Rightarrow> string" where
  "int_dec i = (if i < 0 then ''-'' @ nat_dec (nat (- i)) else nat_dec (nat i))"

definition int_dec0 :: "nat \<Rightarrow> int \<Rightarrow> string" where
  "int_dec0 w i =
     (let sg = (if i < 0 then ''-'' else []); ds = nat_dec (nat \<bar>i\<bar>)
      in sg @ replicate (w - length sg - length ds) CHR ''0'' @ ds)"

lemma nat_dec_small [simp]: "n < 10 \<Longrightarrow> nat_dec n = [digit_char n]"
  by (subst nat_dec.simps) simp

lemma nat_dec_step: "10 \<le> n \<Longrightarrow> nat_dec n = nat_dec (n div 10) @ [digit_char (n mod 10)]"
  by (subst nat_dec.simps) simp

lemma nat_dec_length: "n < 10 ^ k \<Longrightarrow> 0 < k \<Longrightarrow> length (nat_dec n) \<le> k"
proof (induction k arbitrary: n)
  case (Suc k)
  show ?case
  proof (cases "n < 10")
    case False
    with Suc.prems have "k \<noteq> 0" by (cases k) auto
    moreover have "n div 10 < 10 ^ k" using Suc.prems by (simp add: less_mult_imp_div_less mult.commute)
    ultimately have "length (nat_dec (n div 10)) \<le> k" using Suc.IH by simp
    with False show ?thesis by (simp add: nat_dec_step)
  qed simp
qed simp

lemma nat_dec_nonempty [simp]: "nat_dec n \<noteq> []"
  by (subst nat_dec.simps) simp

lemma code_digit_char [simp]: "n < 10 \<Longrightarrow> code (digit_char n) = 48 + n"
  by (simp add: code_def digit_char_def)

lemma isdigit_digit_char [simp]: "n < 10 \<Longrightarrow> isdigit_c (digit_char n)"
  by (simp add: isdigit_c_def)

lemma nat_dec_digits: "c \<in> set (nat_dec n) \<Longrightarrow> isdigit_c c"
proof (induction n rule: nat_dec.induct)
  case (1 n)
  then show ?case by (cases "n < 10") (auto simp: nat_dec_step)
qed

lemma digits_val_snoc: "digits_val (s @ [c]) = 10 * digits_val s + (int (code c) - 48)"
  by (simp add: digits_val_def)

lemma digits_val_nat_dec [simp]: "digits_val (nat_dec n) = int n"
proof (induction n rule: nat_dec.induct)
  case (1 n)
  show ?case
  proof (cases "n < 10")
    case True
    then show ?thesis by (simp add: digits_val_def)
  next
    case False
    with "1.IH" show ?thesis
      by (simp add: nat_dec_step digits_val_snoc) presburger
  qed
qed

lemma digit_not_space: "isdigit_c c \<Longrightarrow> \<not> isspace_c c \<and> c \<noteq> CHR '' '' \<and> c \<noteq> CHR ''-'' \<and> c \<noteq> CHR ''+''"
  by (auto simp: isdigit_c_def isspace_c_def code_def)

lemma takeWhile_digits [simp]: "takeWhile isdigit_c (nat_dec n) = nat_dec n"
  by (simp add: takeWhile_eq_all_conv nat_dec_digits)

lemma atoi_nat_dec: "atoi (nat_dec n) = int n"
proof -
  obtain c r where cr: "nat_dec n = c # r" by (cases "nat_dec n") auto
  then have "isdigit_c c" using nat_dec_digits[of c n] by simp
  then have c: "\<not> isspace_c c" "c \<noteq> CHR ''-''" "c \<noteq> CHR ''+''" using digit_not_space by auto
  have "takeWhile isdigit_c (c # r) = c # r" using takeWhile_digits[of n] cr by simp
  moreover have "digits_val (c # r) = int n" using digits_val_nat_dec[of n] cr by simp
  ultimately show ?thesis using c by (simp add: atoi_def cr)
qed

text \<open>Reading back what \<^verbatim>\<open>%d\<close> printed gives the number again.\<close>

lemma atoi_int_dec: "atoi (int_dec i) = i"
proof (cases "i < 0")
  case True
  then show ?thesis by (simp add: int_dec_def atoi_def isspace_c_def code_def)
next
  case False
  then show ?thesis by (simp add: int_dec_def atoi_nat_dec)
qed

lemma int_dec_length: "\<bar>i\<bar> < 10 ^ k \<Longrightarrow> 0 < k \<Longrightarrow> length (int_dec i) \<le> k + 1"
proof -
  assume a: "\<bar>i\<bar> < 10 ^ k" "0 < k"
  then have "nat \<bar>i\<bar> < 10 ^ k" by (simp add: nat_less_iff)
  then have "length (nat_dec (nat \<bar>i\<bar>)) \<le> k" using a(2) nat_dec_length by blast
  then show ?thesis by (auto simp: int_dec_def abs_if split: if_splits)
qed

lemma int_dec_no_space: "CHR '' '' \<notin> set (int_dec i)"
  using nat_dec_digits digit_not_space by (auto simp: int_dec_def)

lemma int_dec_nonempty [simp]: "int_dec i \<noteq> []"
  by (simp add: int_dec_def)

text \<open>Evaluation of the conversions on numerals.\<close>

named_theorems dec_eval \<comment> \<open>rules that evaluate decimal output and input on literals\<close>

lemma nat_dec_numeral [dec_eval]:
  "nat_dec (numeral k) = (if (numeral k :: nat) < 10 then [digit_char (numeral k)]
     else nat_dec (numeral k div 10) @ [digit_char (numeral k mod 10)])"
  by (subst nat_dec.simps) simp

lemma nat_dec_01 [dec_eval]: "nat_dec 0 = [digit_char 0]" "nat_dec (Suc 0) = [digit_char (Suc 0)]"
  by simp_all

lemma digit_char_values [dec_eval]:
  "digit_char 0 = CHR ''0''" "digit_char (Suc 0) = CHR ''1''" "digit_char 1 = CHR ''1''"
  "digit_char 2 = CHR ''2''" "digit_char 3 = CHR ''3''" "digit_char 4 = CHR ''4''"
  "digit_char 5 = CHR ''5''" "digit_char 6 = CHR ''6''" "digit_char 7 = CHR ''7''"
  "digit_char 8 = CHR ''8''" "digit_char 9 = CHR ''9''"
  by code_simp+

lemmas [dec_eval] = int_dec_def int_dec0_def isdigit_c_def isspace_c_def code_def atoi_def
  digits_val_def Let_def

subsection \<open>Token scanning\<close>

text \<open>
  One call of \<^verbatim>\<open>strtok\<close> on the text that is left: skip delimiters, take the token, step over
  the one delimiter that ended it. \<open>None\<close> is the NULL it returns when nothing is left.
\<close>

definition strtok :: "char set \<Rightarrow> string \<Rightarrow> (string \<times> string) option" where
  "strtok ds s = (case dropWhile (\<lambda>c. c \<in> ds) s of
      [] \<Rightarrow> None
    | t \<Rightarrow> Some (takeWhile (\<lambda>c. c \<notin> ds) t, drop 1 (dropWhile (\<lambda>c. c \<notin> ds) t)))"

text \<open>The words of a text: what repeated \<^verbatim>\<open>strtok(.., " ")\<close> yields.\<close>

fun words_from :: "string \<Rightarrow> string \<Rightarrow> string list" where
  "words_from w [] = (if w = [] then [] else [w])"
| "words_from w (c # cs) =
     (if c = CHR '' '' then (if w = [] then [] else [w]) @ words_from [] cs
      else words_from (w @ [c]) cs)"

definition c_words :: "string \<Rightarrow> string list" where
  "c_words s = words_from [] s"

definition is_word :: "string \<Rightarrow> bool" where
  "is_word w \<longleftrightarrow> w \<noteq> [] \<and> CHR '' '' \<notin> set w"

lemma words_from_word: "CHR '' '' \<notin> set v \<Longrightarrow> words_from w (v @ r) = words_from (w @ v) r"
  by (induction v arbitrary: w) auto

lemma c_words_nil [simp]: "c_words [] = []"
  by (simp add: c_words_def)

lemma c_words_single [simp]: "is_word w \<Longrightarrow> c_words w = [w]"
  using words_from_word[of w "[]" "[]"] by (simp add: c_words_def is_word_def)

lemma c_words_cons [simp]: "is_word w \<Longrightarrow> c_words (w @ CHR '' '' # r) = w # c_words r"
  by (simp add: c_words_def is_word_def words_from_word)

lemma is_word_int_dec [simp]: "is_word (int_dec i)"
  by (simp add: is_word_def int_dec_no_space)

subsection \<open>Lists\<close>

lemma nth_update_len: "length (xs[i := x]) = length xs"
  by simp

lemma drop_Suc_nth: "i < length xs \<Longrightarrow> drop i xs = xs ! i # drop (Suc i) xs"
  by (rule Cons_nth_drop_Suc [symmetric])

end
