(* ===== verification/FT8Types.thy ===== *)
theory FT8Types
  imports Prelude
begin

text \<open>
  The data that crosses thread and process boundaries: the socket message of
  \<^verbatim>\<open>ft8tx/FT8Types.h\<close>, the queue elements and option records of \<^verbatim>\<open>rtlsdr_ft8d.h\<close>, the slot
  arithmetic, and the broken-down time the C library hands out. Character arrays are strings;
  the bound that the array's size imposes is \<open>plain_ok\<close> and \<open>opts_ok\<close>.
\<close>

subsection \<open>Constants\<close>

definition SIGNAL_LENGHT :: nat where "SIGNAL_LENGHT = 15"
definition SIGNAL_SAMPLE_RATE :: nat where "SIGNAL_SAMPLE_RATE = 6400" \<comment> \<open>the default, wide build\<close>
definition SAMPLING_RATE :: nat where "SAMPLING_RATE = 2400000"
definition FS4_RATE :: nat where "FS4_RATE = SAMPLING_RATE div 4"
definition DOWNSAMPLING :: nat where "DOWNSAMPLING = SAMPLING_RATE div SIGNAL_SAMPLE_RATE"
definition FIR_TAPS :: nat where "FIR_TAPS = 56"
definition K_MAX_MESSAGES :: nat where "K_MAX_MESSAGES = 50"
definition FT8_PERIOD :: int where "FT8_PERIOD = 15"
definition FT8_TXTIME :: nat where "FT8_TXTIME = 12600000"
definition FT8_BUFRESET :: nat where "FT8_BUFRESET = 15000000"
definition RTL_STALL_TIMEOUT :: int where "RTL_STALL_TIMEOUT = 30"
definition RTL_MAX_RESTART :: nat where "RTL_MAX_RESTART = 3"
definition MAXMSGSIZE :: nat where "MAXMSGSIZE = 40"

subsection \<open>Slots\<close>

datatype ft8slot = even_slot | odd_slot

text \<open>\<^verbatim>\<open>((t / FT8_PERIOD) & 0x01) ? odd : even\<close>, for a time of day \<open>t\<close> in seconds.\<close>

definition slot_of_time :: "int \<Rightarrow> ft8slot" where
  "slot_of_time t = (if odd (t div FT8_PERIOD) then odd_slot else even_slot)"

fun other_slot :: "ft8slot \<Rightarrow> ft8slot" where
  "other_slot even_slot = odd_slot"
| "other_slot odd_slot = even_slot"

lemma other_slot_neq [simp]: "other_slot s \<noteq> s" "s \<noteq> other_slot s"
  by (cases s; simp)+

lemma slot_of_time_next: "slot_of_time (t + FT8_PERIOD) = other_slot (slot_of_time t)"
proof -
  have "(t + 15) div 15 = t div 15 + 1" by simp
  then show ?thesis by (simp add: slot_of_time_def FT8_PERIOD_def)
qed

subsection \<open>The socket message\<close>

datatype SignalType =
    SEND_F8_REQ | CHANGE_RTX_STATE | TEST_SEND | SEND_ACK | REJECTED | SEND_WSPR
  | UnknownSignal int \<comment> \<open>any other value of the enum's integer, as a peer may send it\<close>

record FT8Msg =
  msg_type :: SignalType
  ft8Message :: string
  RTXstate :: bool

subsection \<open>Queue elements and options\<close>

record plain_message =
  src :: string
  dest :: string
  loc :: string
  message :: string
  freq :: int
  snr :: int
  tempus :: int
  slot :: ft8slot

record decoder_results =
  r_cmd :: string
  r_call :: string
  r_dest :: string
  r_loc :: string
  r_freq :: int
  r_snr :: int
  r_tempus :: int

record decoder_options =
  d_freq :: u32
  rcall :: string
  rloc :: string

text \<open>The array bounds of the records, NUL included.\<close>

definition plain_ok :: "plain_message \<Rightarrow> bool" where
  "plain_ok m \<longleftrightarrow> length (src m) < 13 \<and> length (dest m) < 13 \<and> length (loc m) < 13
     \<and> length (message m) < 40"

definition opts_ok :: "decoder_options \<Rightarrow> bool" where
  "opts_ok d \<longleftrightarrow> length (rcall d) < 13 \<and> length (rloc d) < 7"

subsection \<open>Broken-down time\<close>

record tm =
  tm_year :: int
  tm_mon :: int
  tm_mday :: int
  tm_hour :: int
  tm_min :: int
  tm_sec :: int

text \<open>\<^verbatim>\<open>%02d:%02d:%02d\<close>, \<^verbatim>\<open>%Y-%m-%d\<close> and \<^verbatim>\<open>%Y-%m-%d %H:%M:%S\<close>.\<close>

definition hms :: "string \<Rightarrow> tm \<Rightarrow> string" where
  "hms sep t = int_dec0 2 (tm_hour t) @ sep @ int_dec0 2 (tm_min t) @ sep @ int_dec0 2 (tm_sec t)"

definition ymd :: "tm \<Rightarrow> string" where
  "ymd t = int_dec (tm_year t + 1900) @ ''-'' @ int_dec0 2 (tm_mon t + 1) @ ''-'' @ int_dec0 2 (tm_mday t)"

end
