(* ===== verification/TSQueue.thy ===== *)
theory TSQueue
  imports Prelude "HOL-Library.Multiset"
begin

text \<open>
  \<^verbatim>\<open>tsqueue.h\<close>: the mutex-protected queues between the decoder, the PSK reporter, the UI and the
  QSO handler. Every helper holds the queue's mutex for its whole body, so an execution of
  several threads is an interleaving of whole operations; \<open>run_ops\<close> runs such an interleaving.
  The contract the threads rely on is the locale \<open>fifo\<close>.
\<close>

subsection \<open>The helpers\<close>

definition tsq_push :: "'a list \<Rightarrow> 'a \<Rightarrow> 'a list" where
  "tsq_push q v = q @ [v]"

definition tsq_size :: "'a list \<Rightarrow> nat" where
  "tsq_size q = length q"

definition tsq_pop :: "'a list \<Rightarrow> 'a option \<times> 'a list" where
  "tsq_pop q = (case q of [] \<Rightarrow> (None, []) | x # xs \<Rightarrow> (Some x, xs))"

text \<open>The consumer's loop \<^verbatim>\<open>while (tsq_pop(q, &m, &x)) body(x);\<close> with nobody pushing meanwhile.\<close>

function tsq_drain :: "('a \<Rightarrow> 's \<Rightarrow> 's) \<Rightarrow> 'a list \<Rightarrow> 's \<Rightarrow> 'a list \<times> 's" where
  "tsq_drain body q s =
     (case tsq_pop q of (Some x, q') \<Rightarrow> tsq_drain body q' (body x s) | (None, q') \<Rightarrow> (q', s))"
  by pat_completeness auto
termination
  by (relation "measure (\<lambda>(b, q, s). length q)") (auto simp: tsq_pop_def split: list.splits)

declare tsq_drain.simps [simp del]

subsection \<open>Operations of the threads and their interleavings\<close>

datatype 'a qop = Push 'a | Pop

text \<open>An interleaving of operations: the popped elements in order, and the queue left.\<close>

fun run_ops :: "('q \<Rightarrow> 'a \<Rightarrow> 'q) \<Rightarrow> ('q \<Rightarrow> 'a option \<times> 'q) \<Rightarrow> 'q \<Rightarrow> 'a qop list \<Rightarrow> 'a list \<times> 'q" where
  "run_ops psh pp q [] = ([], q)"
| "run_ops psh pp q (Push v # ops) = run_ops psh pp (psh q v) ops"
| "run_ops psh pp q (Pop # ops) =
     (case pp q of
        (None, q') \<Rightarrow> run_ops psh pp q' ops
      | (Some x, q') \<Rightarrow> (let (out, r) = run_ops psh pp q' ops in (x # out, r)))"

fun pushed :: "'a qop list \<Rightarrow> 'a list" where
  "pushed [] = []"
| "pushed (Push v # ops) = v # pushed ops"
| "pushed (Pop # ops) = pushed ops"

subsection \<open>The contract\<close>

locale fifo =
  fixes push :: "'q \<Rightarrow> 'a \<Rightarrow> 'q"
    and pop :: "'q \<Rightarrow> 'a option \<times> 'q"
    and size_of :: "'q \<Rightarrow> nat"
    and contents :: "'q \<Rightarrow> 'a list"
  assumes contents_push: "contents (push q v) = contents q @ [v]"
    and pop_empty: "contents q = [] \<Longrightarrow> fst (pop q) = None \<and> contents (snd (pop q)) = []"
    and pop_cons: "contents q = x # xs \<Longrightarrow> fst (pop q) = Some x \<and> contents (snd (pop q)) = xs"
    and size_contents: "size_of q = length (contents q)"
begin

lemma pop_contents:
  "contents q = (case fst (pop q) of None \<Rightarrow> [] | Some x \<Rightarrow> [x]) @ contents (snd (pop q))"
  using pop_empty[of q] pop_cons[of q] by (cases "contents q") auto

lemma pop_None_iff: "fst (pop q) = None \<longleftrightarrow> size_of q = 0"
  using pop_empty[of q] pop_cons[of q] by (cases "contents q") (auto simp: size_contents)

text \<open>Whatever the interleaving, nothing is lost, duplicated or reordered.\<close>

lemma run_conserves:
  "fst (run_ops push pop q ops) @ contents (snd (run_ops push pop q ops)) = contents q @ pushed ops"
proof (induction ops arbitrary: q)
  case (Cons op ops)
  show ?case
  proof (cases op)
    case (Push v)
    with Cons[of "push q v"] show ?thesis by (simp add: contents_push)
  next
    case Pop
    obtain r q' where p: "pop q = (r, q')" by (cases "pop q")
    have "contents q = (case r of None \<Rightarrow> [] | Some x \<Rightarrow> [x]) @ contents q'"
      using pop_contents[of q] p by simp
    with Cons[of q'] Pop p show ?thesis
      by (auto split: option.splits prod.splits)
  qed
qed simp

end

interpretation tsq: fifo tsq_push tsq_pop tsq_size "\<lambda>q. q"
  by unfold_locales (auto simp: tsq_push_def tsq_pop_def tsq_size_def)

lemma tsq_pop_simps [simp]: "tsq_pop [] = (None, [])" "tsq_pop (x # xs) = (Some x, xs)"
  by (simp_all add: tsq_pop_def)

text \<open>The consumer's loop handles every element once, in order, and ends with an empty queue.\<close>

lemma tsq_drain_fold: "tsq_drain body q s = ([], fold body q s)"
  by (induction q arbitrary: s) (simp_all add: tsq_drain.simps)

text \<open>
  The queues are linearizable FIFOs: for every interleaving of the producers' pushes and
  the consumers' pops, the elements popped so far followed by what is still queued are exactly
  the initial contents followed by everything pushed, in that order.
\<close>

theorem queue_fifo_any_interleaving:
  "fst (run_ops tsq_push tsq_pop q ops) @ snd (run_ops tsq_push tsq_pop q ops) = q @ pushed ops"
  by (rule tsq.run_conserves)

end
