(* ===== verification/QsoHandler.thy ===== *)
theory QsoHandler
  imports FT8Types TSQueue
begin

text \<open>
  \<^verbatim>\<open>qsoHandler.cpp\<close>: the state machine that runs one contact (QSO) at a time. The file-scope
  variables are the record \<open>qso\<close>, with the queues it shares with the other threads and the log
  files it writes; everything it reads from elsewhere (options, clock conversion, whether a file
  can be opened, the contents of uninitialised locals) is the record \<open>qenv\<close>. Each C function is
  one definition; \<open>QSOHandler_iter\<close> is one turn of the thread's loop and \<open>qso_step\<close> interleaves
  it with what the other threads do to the shared state.
\<close>

subsection \<open>State\<close>

datatype qsostate = idle | replyLoc | replySig | replyRR73 | reply73 | cqIng

datatype peermsg = cqMsg | locMsg | sigMsg | RR73Msg | s73Msg

definition MAXQSOPEERS :: nat where "MAXQSOPEERS = 512"
definition MAXQSOLIFETIME :: u32 where "MAXQSOLIFETIME = 8"
definition QUERYCQDELAY :: u32 where "QUERYCQDELAY = 3"

record qso =
  qsoState :: qsostate
  qsoOldState :: qsostate
  currentQSO :: plain_message
  ft8time :: u32
  ft8tick :: u32
  txBusy :: bool
  peers :: "u32 list"
  peersIdx :: nat
  autoCq :: bool
  autoCqReply :: bool
  autoQSO :: bool
  qsoExit :: bool
  activeSlot :: ft8slot
  queryRepeat :: u32 \<comment> \<open>the static local of \<^verbatim>\<open>queryCQ\<close>\<close>
  adiFileName :: string
  tick_queue :: "ft8slot list"
  qsoh_queue :: "plain_message list"
  tx_queue :: "FT8Msg list"
  qso_queue :: "plain_message list"
  displayed :: "string list" \<comment> \<open>texts passed to \<^verbatim>\<open>displayTxString\<close>\<close>
  files :: "string \<rightharpoonup> string" \<comment> \<open>the log files, by name\<close>

record qenv =
  dec_options :: decoder_options
  rx_dialfreq :: u32
  version :: string
  home :: "string option" \<comment> \<open>\<^verbatim>\<open>getenv("HOME")\<close>\<close>
  can_open :: "string \<Rightarrow> bool" \<comment> \<open>whether \<^verbatim>\<open>fopen(name, "a")\<close> succeeds\<close>
  now :: int \<comment> \<open>\<^verbatim>\<open>time(NULL)\<close>\<close>
  localtime :: "int \<Rightarrow> tm"
  junk_letter :: FT8Msg \<comment> \<open>an uninitialised \<^verbatim>\<open>FT8Msg\<close>\<close>
  junk_plain :: plain_message \<comment> \<open>an uninitialised \<^verbatim>\<open>plain_message\<close>\<close>
  junk_slot :: ft8slot \<comment> \<open>an uninitialised \<^verbatim>\<open>tick_message\<close>\<close>

text \<open>Appending to a file that could be opened.\<close>

definition append_file :: "string \<Rightarrow> string \<Rightarrow> qso \<Rightarrow> qso" where
  "append_file name s q =
     q\<lparr>files := (files q)(name \<mapsto> (case files q name of None \<Rightarrow> [] | Some t \<Rightarrow> t) @ s)\<rparr>"

subsection \<open>QSO logging\<close>

definition createADIheader :: "qenv \<Rightarrow> qso \<Rightarrow> qso" where
  "createADIheader env q =
     (let homeDir = (case home env of None \<Rightarrow> ''.'' | Some h \<Rightarrow> h);
          name = homeDir @ ''/ft8QSOdir/'' @ ymd (localtime env (now env)) @ ''.adi'';
          q = q\<lparr>adiFileName := name\<rparr>
      in if files q name \<noteq> None then q
         else if \<not> can_open env name then q
         else append_file name
                (''<PROGRAMID:11>rtlsdr-ft8d<PROGRAMVERSION:5>'' @ version env
                 @ ''<ADIF_VER:5>3.1.3'' @ newline @ ''<EOH>'' @ newline @ newline) q)"

definition adi_record :: "qenv \<Rightarrow> plain_message \<Rightarrow> string" where
  "adi_record env m =
     (let t = localtime env (tempus m);
          buff = int_dec (c_div (freq m) 1000000) @ ''.'' @ int_dec0 6 (c_mod (freq m) 1000000)
      in ''<CALL:'' @ nat_dec (length (src m)) @ ''>'' @ src m
         @ ''<TIME_ON:6>'' @ hms '''' t
         @ ''<QSO_DATE_OFF:8>'' @ int_dec (tm_year t + 1900) @ int_dec0 2 (tm_mon t + 1)
         @ int_dec0 2 (tm_mday t)
         @ ''<FREQ_RX:'' @ nat_dec (length buff) @ ''>'' @ buff
         @ ''<BAND:3>20M<BAND_RX:3>20M<MODE:3>FT8''
         @ ''<MY_GRIDSQUARE:6>'' @ rloc (dec_options env)
         @ ''<OPERATOR:6>'' @ rcall (dec_options env)
         @ newline @ ''<EOR>'' @ newline @ newline)"

definition logToAdi :: "qenv \<Rightarrow> plain_message \<Rightarrow> qso \<Rightarrow> qso" where
  "logToAdi env m q =
     (if can_open env (adiFileName q) then append_file (adiFileName q) (adi_record env m) q else q)"

definition logQSO :: "qenv \<Rightarrow> plain_message \<Rightarrow> qso \<Rightarrow> qso" where
  "logQSO env m q =
     (if can_open env ''QSOLOG.txt'' then
        append_file ''QSOLOG.txt''
          (ymd (localtime env (tempus m)) @ '' '' @ hms '':'' (localtime env (tempus m))
           @ '' '' @ int_dec (freq m) @ '' '' @ int_dec0 2 (snr m)
           @ '' '' @ src m @ '' '' @ dest m @ '' '' @ newline) q
      else q)"

definition cleared_message :: "plain_message \<Rightarrow> plain_message" where
  "cleared_message m =
     m\<lparr>src := [], dest := [], message := [], freq := 0, snr := 0, tempus := 0, slot := odd_slot\<rparr>"

definition initQsoState :: "qenv \<Rightarrow> qso \<Rightarrow> qso" where
  "initQsoState env q =
     createADIheader env
       (q\<lparr>qsoState := idle, qsoOldState := idle, ft8time := 0, ft8tick := 0,
          currentQSO := cleared_message (currentQSO q), txBusy := False\<rparr>)"

definition resetQsoState :: "qso \<Rightarrow> qso" where
  "resetQsoState q =
     q\<lparr>qsoState := idle, qsoOldState := idle,
       currentQSO := cleared_message (currentQSO q), ft8time := ft8tick q\<rparr>"

subsection \<open>Peers already worked\<close>

text \<open>\<^verbatim>\<open>char\<close> is signed on the receiver's x86 build and unsigned on ARM; the characters of a
  call sign are ASCII, where both agree.\<close>

definition hash_digit :: "char \<Rightarrow> u32" where
  "hash_digit c = (if 65 \<le> code c then word_of_int (int (code c) - 48) + (48 + 10 - 65)
                   else word_of_int (int (code c) - 48))"

fun hash_loop :: "nat \<Rightarrow> u32 \<Rightarrow> string \<Rightarrow> u32 \<times> string" where
  "hash_loop 0 h s = (h, s)"
| "hash_loop (Suc i) h [] = (h, [])"
| "hash_loop (Suc i) h (c # s) = hash_loop i (h * 36 + hash_digit c) s"

definition hashCallId :: "string \<Rightarrow> u32" where
  "hashCallId callId =
     (case hash_loop 6 0 callId of
        (h, []) \<Rightarrow> h
      | (h, c # r) \<Rightarrow>
          (let h = h OR 0x80000000;
               h = h XOR (of_nat (code c) AND 0x7F);
               d = (case r of [] \<Rightarrow> 0 | c' # _ \<Rightarrow> of_nat (code c'))
           in h XOR push_bit 7 (d AND 0x7F)))"

definition checkPeer :: "qso \<Rightarrow> string \<Rightarrow> bool" where
  "checkPeer q p \<longleftrightarrow> hashCallId p \<in> set (take (peersIdx q) (peers q))"

definition addPeer :: "string \<Rightarrow> qso \<Rightarrow> bool \<times> qso" where
  "addPeer p q =
     (if checkPeer q p then (False, q)
      else (True, q\<lparr>peers := (peers q)[peersIdx q := hashCallId p],
                    peersIdx := (if peersIdx q + 1 \<ge> MAXQSOPEERS then 0 else peersIdx q + 1)\<rparr>))"

subsection \<open>Transmitting\<close>

text \<open>\<^verbatim>\<open>sprintf\<close> into the 40 bytes of \<^verbatim>\<open>ft8Message\<close> is not bounded by the code.\<close>

definition queueTx :: "qenv \<Rightarrow> string \<Rightarrow> qso \<Rightarrow> qso result" where
  "queueTx env txString q =
     rbind (sprintf_s MAXMSGSIZE txString)
       (\<lambda>t. Inr (q\<lparr>tx_queue := tsq_push (tx_queue q) ((junk_letter env)\<lparr>ft8Message := t\<rparr>)\<rparr>))"

text \<open>\<^verbatim>\<open>"+%02d"\<close> for a non-negative level, \<^verbatim>\<open>"%03d"\<close> otherwise.\<close>

definition level_text :: "int \<Rightarrow> string" where
  "level_text n = (if 0 \<le> n then ''+'' @ int_dec0 2 n else int_dec0 3 n)"

definition tx_text :: "qenv \<Rightarrow> qso \<Rightarrow> string \<Rightarrow> string" where
  "tx_text env q w =
     ''FT8Tx '' @ int_dec (freq (currentQSO q)) @ '' '' @ src (currentQSO q) @ '' ''
     @ rcall (dec_options env) @ '' '' @ w"

text \<open>The two pushes of every transmitting branch of \<^verbatim>\<open>handleTx\<close>, and the message it shows.\<close>

definition tx_and_show :: "qenv \<Rightarrow> ft8slot \<Rightarrow> string \<Rightarrow> qso \<Rightarrow> qso result" where
  "tx_and_show env txSlot w q =
     (let qsoMsg = (junk_plain env)
            \<lparr>src := snprintf_s 13 (rcall (dec_options env)), dest := snprintf_s 13 (src (currentQSO q)),
             freq := freq (currentQSO q), slot := txSlot, message := snprintf_s 40 w\<rparr>
      in rbind (queueTx env (tx_text env q w) q)
           (\<lambda>q. Inr (q\<lparr>qso_queue := tsq_push (qso_queue q) qsoMsg\<rparr>)))"

definition handleTx :: "qenv \<Rightarrow> ft8slot \<Rightarrow> qso \<Rightarrow> (bool \<times> qso) result" where
  "handleTx env txSlot q =
     (if qsoState q = idle then Inr (False, q)
      else rbind
        (if slot (currentQSO q) = txSlot then
           (case qsoState q of
              replyLoc \<Rightarrow> tx_and_show env txSlot (rloc (dec_options env)) q
            | replySig \<Rightarrow> tx_and_show env txSlot (level_text (snr (currentQSO q))) q
            | replyRR73 \<Rightarrow> tx_and_show env txSlot ''RR73'' q
            | reply73 \<Rightarrow> tx_and_show env txSlot ''73'' (q\<lparr>qsoState := idle\<rparr>)
            | _ \<Rightarrow> Inr (q\<lparr>qsoState := idle\<rparr>))
         else Inr q)
        (\<lambda>q. Inr (qsoState q \<noteq> idle, q)))"

definition cq_text :: "qenv \<Rightarrow> string" where
  "cq_text env = int_dec (sint (rx_dialfreq env)) @ '' CQ '' @ rcall (dec_options env) @ '' ''
     @ rloc (dec_options env)"

definition queryCQ :: "qenv \<Rightarrow> ft8slot \<Rightarrow> qso \<Rightarrow> qso result" where
  "queryCQ env theSlot q =
     (if \<not> autoCq q then Inr q
      else if theSlot \<noteq> activeSlot q then Inr q
      else if queryRepeat q \<le> ft8tick q then
        rbind (queueTx env (''FT8Tx '' @ cq_text env) q)
          (\<lambda>q. Inr (q\<lparr>displayed := displayed q @ [cq_text env],
                      queryRepeat := ft8tick q + QUERYCQDELAY\<rparr>))
      else Inr q)"

definition updateQsoMachine :: "qenv \<Rightarrow> ft8slot \<Rightarrow> qso \<Rightarrow> qso result" where
  "updateQsoMachine env theSlot q =
     rbind
       (if ft8time q \<le> ft8tick q then
          (let q = (if qsoState q \<noteq> replyLoc \<and> qsoState q \<noteq> replySig \<and> qsoState q \<noteq> idle
                    then logToAdi env (currentQSO q) q else q)
           in Inr ((resetQsoState q)\<lparr>txBusy := False\<rparr>))
        else if theSlot = activeSlot q then
          rbind (handleTx env theSlot q) (\<lambda>(b, q). Inr (q\<lparr>txBusy := b\<rparr>))
        else Inr (q\<lparr>txBusy := False\<rparr>))
       (\<lambda>q. if \<not> txBusy q \<and> theSlot = activeSlot q then queryCQ env theSlot q else Inr q)"

subsection \<open>Receiving\<close>

definition parseMsg :: "string \<Rightarrow> peermsg" where
  "parseMsg msg =
     (if msg \<noteq> [] \<and> isdigit_c (hd msg) then (if atoi msg = 73 then s73Msg else sigMsg)
      else if msg \<noteq> [] \<and> (hd msg = CHR ''+'' \<or> hd msg = CHR ''-'') then sigMsg
      else if msg = ''RR73'' then RR73Msg
      else if length msg = 4 then
        (if msg ! 0 = CHR ''R'' \<and> (msg ! 1 = CHR ''+'' \<or> msg ! 1 = CHR ''-'') then sigMsg
         else locMsg)
      else locMsg)"

definition addQso :: "qenv \<Rightarrow> plain_message \<Rightarrow> qso \<Rightarrow> qso" where
  "addQso env new q =
     (if \<not> autoQSO q then q
      else if slot new \<noteq> activeSlot q then q
      else if qsoState q = idle then
        (if checkPeer q (src new) then q
         else
           (let q = q\<lparr>ft8time := ft8tick q + MAXQSOLIFETIME,
                      currentQSO := (currentQSO q)\<lparr>src := src new, dest := dest new,
                        message := message new, freq := freq new, snr := snr new,
                        tempus := tempus new, slot := slot new\<rparr>\<rparr>;
                q = (case parseMsg (message (currentQSO q)) of
                       locMsg \<Rightarrow> q\<lparr>qsoState := replySig\<rparr>
                     | sigMsg \<Rightarrow> q\<lparr>qsoState := replySig\<rparr>
                     | _ \<Rightarrow> q)
            in q\<lparr>qso_queue := tsq_push (qso_queue q) new\<rparr>))
      else if src new \<noteq> src (currentQSO q) then q
      else
        (let q = q\<lparr>currentQSO := (currentQSO q)\<lparr>message := message new\<rparr>\<rparr>;
             q = (case parseMsg (message (currentQSO q)) of
                    locMsg \<Rightarrow> q\<lparr>qsoState := replySig, qsoOldState := replySig\<rparr>
                  | sigMsg \<Rightarrow> (if qsoState q = replySig then q\<lparr>qsoState := replyRR73\<rparr>
                              else q\<lparr>qsoState := replySig\<rparr>)
                  | RR73Msg \<Rightarrow>
                      (let q = q\<lparr>qsoState := reply73\<rparr>; q = logToAdi env (currentQSO q) q
                       in snd (addPeer (src new) q))
                  | s73Msg \<Rightarrow> resetQsoState q
                  | cqMsg \<Rightarrow> resetQsoState q)
         in q\<lparr>qso_queue := tsq_push (qso_queue q) new\<rparr>))"

definition addCQ :: "plain_message \<Rightarrow> qso \<Rightarrow> qso" where
  "addCQ new q =
     (if \<not> autoCqReply q then q
      else if qsoState q \<noteq> idle then q
      else if slot new \<noteq> activeSlot q then q
      else if checkPeer q (src new) then q
      else q\<lparr>ft8time := ft8tick q + MAXQSOLIFETIME,
             currentQSO := (currentQSO q)\<lparr>src := src new, dest := [], message := ''CQ'',
               freq := freq new, snr := snr new, tempus := tempus new, slot := slot new\<rparr>,
             qsoState := replyLoc\<rparr>)"

subsection \<open>Switches and queries\<close>

datatype qcmd =
    EnableAutoCQ | DisableAutoCQ | EnableAutoCQReply | DisableAutoCQReply
  | EnableAutoQSO | DisableAutoQSO | SetActiveSlot ft8slot | CloseQsoHandler

fun set_switch :: "qcmd \<Rightarrow> qso \<Rightarrow> qso" where
  "set_switch EnableAutoCQ q = q\<lparr>autoCq := True\<rparr>"
| "set_switch DisableAutoCQ q = q\<lparr>autoCq := False\<rparr>"
| "set_switch EnableAutoCQReply q = q\<lparr>autoCqReply := True\<rparr>"
| "set_switch DisableAutoCQReply q = q\<lparr>autoCqReply := False\<rparr>"
| "set_switch EnableAutoQSO q = q\<lparr>autoQSO := True\<rparr>"
| "set_switch DisableAutoQSO q = q\<lparr>autoQSO := False\<rparr>"
| "set_switch (SetActiveSlot s) q = q\<lparr>activeSlot := s\<rparr>"
| "set_switch CloseQsoHandler q = q\<lparr>qsoExit := True\<rparr>"

definition qsoInProgress :: "qso \<Rightarrow> bool" where
  "qsoInProgress q \<longleftrightarrow> qsoState q \<noteq> idle"

definition getActiveQsoFreq :: "qso \<Rightarrow> int" where
  "getActiveQsoFreq q = (if qsoState q \<noteq> idle then freq (currentQSO q) else 0)"

definition getActiveQsoPeer :: "qso \<Rightarrow> string" where
  "getActiveQsoPeer q = (if qsoState q \<noteq> idle then src (currentQSO q) else [])"

definition getActiveQsoPeerSlot :: "qso \<Rightarrow> ft8slot" where
  "getActiveQsoPeerSlot q = slot (currentQSO q)"

subsection \<open>The thread\<close>

definition dispatch :: "qenv \<Rightarrow> plain_message \<Rightarrow> qso \<Rightarrow> qso" where
  "dispatch env m q =
     (if dest m = ''CQ'' then addCQ m q
      else if dest m = rcall (dec_options env) then addQso env m q
      else q)"

text \<open>
  The body of \<^verbatim>\<open>while (qsoExit.load() == false)\<close>. Without a tick and without the exit flag the
  inner loop sleeps on (\<open>None\<close>); a turn that only the exit flag releases runs the machine with the
  slot of an uninitialised \<^verbatim>\<open>tick_message\<close>. An element pushed while a drain loop runs is popped by
  that same loop, so a turn takes what is queued when it is taken as a whole.
\<close>

definition QSOHandler_iter :: "qenv \<Rightarrow> qso \<Rightarrow> qso result option" where
  "QSOHandler_iter env q =
     (if tick_queue q = [] \<and> \<not> qsoExit q then None
      else
        (let (tq, (n, last)) = tsq_drain (\<lambda>s (n, last). (n + 1, s)) (tick_queue q) (0, junk_slot env);
             q = q\<lparr>tick_queue := tq, ft8tick := ft8tick q + n\<rparr>;
             (mq, q) = tsq_drain (dispatch env) (qsoh_queue q) q
         in Some (updateQsoMachine env last (q\<lparr>qsoh_queue := mq\<rparr>))))"

subsection \<open>The threads around it\<close>

text \<open>The values of the file-scope variables before \<^verbatim>\<open>main\<close> runs.\<close>

definition init_globals :: qso where
  "init_globals =
     \<lparr>qsoState = idle, qsoOldState = idle,
      currentQSO = \<lparr>src = [], dest = [], loc = [], message = [], freq = 0, snr = 0, tempus = 0,
                    slot = even_slot\<rparr>,
      ft8time = 0, ft8tick = 0, txBusy = False, peers = replicate MAXQSOPEERS 0, peersIdx = 0,
      autoCq = False, autoCqReply = False, autoQSO = False, qsoExit = False,
      activeSlot = even_slot, queryRepeat = 0, adiFileName = [], tick_queue = [], qsoh_queue = [],
      tx_queue = [], qso_queue = [], displayed = [], files = Map.empty\<rparr>"

text \<open>
  Where the handler thread is: at the loop's head, in the loop's body, returned, or dead of a
  write behind an array.
\<close>

datatype qpc = Head | Body | Ended | Crashed

text \<open>
  The interleaving of the handler thread with the decoder (which pushes ticks and messages), the
  keyboard (switches), the transmit thread (which takes requests) and the UI (which takes what is
  shown). \<open>ok\<close> restricts the messages the decoder delivers.
\<close>

inductive qso_step :: "qenv \<Rightarrow> (plain_message \<Rightarrow> bool) \<Rightarrow> qpc \<times> qso \<Rightarrow> qpc \<times> qso \<Rightarrow> bool"
  for env :: qenv and ok :: "plain_message \<Rightarrow> bool" where
  tick: "qso_step env ok (pc, q) (pc, q\<lparr>tick_queue := tsq_push (tick_queue q) s\<rparr>)"
| deliver: "ok m \<Longrightarrow> qso_step env ok (pc, q) (pc, q\<lparr>qsoh_queue := tsq_push (qsoh_queue q) m\<rparr>)"
| switch: "qso_step env ok (pc, q) (pc, set_switch c q)"
| tx_taken: "qso_step env ok (pc, q) (pc, q\<lparr>tx_queue := snd (tsq_pop (tx_queue q))\<rparr>)"
| shown: "qso_step env ok (pc, q) (pc, q\<lparr>qso_queue := snd (tsq_pop (qso_queue q))\<rparr>)"
| head_go: "\<not> qsoExit q \<Longrightarrow> qso_step env ok (Head, q) (Body, q)"
| head_end: "qsoExit q \<Longrightarrow> qso_step env ok (Head, q) (Ended, q)"
| turn: "QSOHandler_iter env q = Some (Inr q') \<Longrightarrow> qso_step env ok (Body, q) (Head, q')"
| crash: "QSOHandler_iter env q = Some (Inl e) \<Longrightarrow> qso_step env ok (Body, q) (Crashed, q)"

inductive qso_reach :: "qenv \<Rightarrow> (plain_message \<Rightarrow> bool) \<Rightarrow> qpc \<times> qso \<Rightarrow> bool"
  for env :: qenv and ok :: "plain_message \<Rightarrow> bool" where
  start: "qso_reach env ok (Head, initQsoState env init_globals)"
| step: "qso_reach env ok s \<Longrightarrow> qso_step env ok s t \<Longrightarrow> qso_reach env ok t"

end
