(* ===== verification/QsoInvariant.thy ===== *)
theory QsoInvariant
  imports QsoHandler
begin

text \<open>
  Lemmas about the operations of \<open>QsoHandler\<close>: what each of them leaves unchanged, the invariant
  of the handler's state over every interleaving of the threads, and the bound on the text it
  writes into a transmit request.
\<close>

subsection \<open>What the small operations leave alone\<close>

named_theorems qso_frame \<comment> \<open>fields an operation does not touch\<close>

lemma append_file_frame [qso_frame, simp]:
  "qsoState (append_file n t q) = qsoState q"
  "currentQSO (append_file n t q) = currentQSO q"
  "ft8time (append_file n t q) = ft8time q" "ft8tick (append_file n t q) = ft8tick q"
  "peers (append_file n t q) = peers q" "peersIdx (append_file n t q) = peersIdx q"
  "tx_queue (append_file n t q) = tx_queue q" "activeSlot (append_file n t q) = activeSlot q"
  "autoCq (append_file n t q) = autoCq q" "qsoh_queue (append_file n t q) = qsoh_queue q"
  "adiFileName (append_file n t q) = adiFileName q" "queryRepeat (append_file n t q) = queryRepeat q"
  by (simp_all add: append_file_def)

lemma logToAdi_frame [qso_frame, simp]:
  "qsoState (logToAdi env m q) = qsoState q" "currentQSO (logToAdi env m q) = currentQSO q"
  "ft8time (logToAdi env m q) = ft8time q" "ft8tick (logToAdi env m q) = ft8tick q"
  "peers (logToAdi env m q) = peers q" "peersIdx (logToAdi env m q) = peersIdx q"
  "tx_queue (logToAdi env m q) = tx_queue q" "activeSlot (logToAdi env m q) = activeSlot q"
  "autoCq (logToAdi env m q) = autoCq q" "qsoh_queue (logToAdi env m q) = qsoh_queue q"
  "adiFileName (logToAdi env m q) = adiFileName q" "queryRepeat (logToAdi env m q) = queryRepeat q"
  by (simp_all add: logToAdi_def)

lemma resetQsoState_frame [qso_frame, simp]:
  "qsoState (resetQsoState q) = idle" "ft8time (resetQsoState q) = ft8tick q"
  "ft8tick (resetQsoState q) = ft8tick q" "currentQSO (resetQsoState q) = cleared_message (currentQSO q)"
  "peers (resetQsoState q) = peers q" "peersIdx (resetQsoState q) = peersIdx q"
  "tx_queue (resetQsoState q) = tx_queue q" "activeSlot (resetQsoState q) = activeSlot q"
  "autoCq (resetQsoState q) = autoCq q" "qsoh_queue (resetQsoState q) = qsoh_queue q"
  "files (resetQsoState q) = files q" "queryRepeat (resetQsoState q) = queryRepeat q"
  by (simp_all add: resetQsoState_def)

lemma addPeer_frame [qso_frame, simp]:
  "qsoState (snd (addPeer p q)) = qsoState q" "currentQSO (snd (addPeer p q)) = currentQSO q"
  "ft8time (snd (addPeer p q)) = ft8time q" "ft8tick (snd (addPeer p q)) = ft8tick q"
  "tx_queue (snd (addPeer p q)) = tx_queue q" "files (snd (addPeer p q)) = files q"
  "activeSlot (snd (addPeer p q)) = activeSlot q" "qsoh_queue (snd (addPeer p q)) = qsoh_queue q"
  by (simp_all add: addPeer_def)

lemma cleared_message_simps [simp]:
  "src (cleared_message m) = []" "dest (cleared_message m) = []" "message (cleared_message m) = []"
  "loc (cleared_message m) = loc m" "freq (cleared_message m) = 0" "snr (cleared_message m) = 0"
  by (simp_all add: cleared_message_def)

subsection \<open>The invariant\<close>

text \<open>
  The stored state is never the unused \<^verbatim>\<open>cqIng\<close>; the peer table keeps its 512 entries and its
  index stays inside; the current contact satisfies \<open>P\<close>, a property of cleared and delivered
  messages, and so does every message still queued.
\<close>

definition qso_inv :: "(plain_message \<Rightarrow> bool) \<Rightarrow> qso \<Rightarrow> bool" where
  "qso_inv ok q \<longleftrightarrow> qsoState q \<noteq> cqIng \<and> length (peers q) = MAXQSOPEERS \<and> peersIdx q < MAXQSOPEERS
     \<and> (\<forall>m \<in> set (qsoh_queue q). ok m)
     \<and> (qsoState q \<noteq> idle \<longrightarrow> (\<exists>m. ok m \<and> src (currentQSO q) = src m \<and> freq (currentQSO q) = freq m
            \<and> snr (currentQSO q) = snr m \<and> slot (currentQSO q) = slot m))"

lemma addPeer_peers:
  assumes "length (peers q) = MAXQSOPEERS" "peersIdx q < MAXQSOPEERS"
  shows "length (peers (snd (addPeer p q))) = MAXQSOPEERS" "peersIdx (snd (addPeer p q)) < MAXQSOPEERS"
  using assms by (auto simp: addPeer_def MAXQSOPEERS_def)

lemma addCQ_inv: "qso_inv ok q \<Longrightarrow> ok m \<Longrightarrow> qso_inv ok (addCQ m q)"
  by (auto simp: qso_inv_def addCQ_def)

lemma addQso_inv:
  assumes "qso_inv ok q" "ok m"
  shows "qso_inv ok (addQso env m q)"
proof -
  have a: "length (peers q) = MAXQSOPEERS" "peersIdx q < MAXQSOPEERS"
    using assms(1) by (auto simp: qso_inv_def)
  show ?thesis
    using assms addPeer_peers[of "logToAdi env ((currentQSO q)\<lparr>message := message m\<rparr>)
        (q\<lparr>currentQSO := (currentQSO q)\<lparr>message := message m\<rparr>, qsoState := reply73\<rparr>)" "src m"] a
    by (auto simp: qso_inv_def addQso_def Let_def split: peermsg.splits)
qed

lemma dispatch_inv: "qso_inv ok q \<Longrightarrow> ok m \<Longrightarrow> qso_inv ok (dispatch env m q)"
  by (simp add: dispatch_def addCQ_inv addQso_inv)

lemma queueTx_frame:
  assumes "queueTx env t q = Inr q'"
  shows "length t < MAXMSGSIZE"
    "q' = q\<lparr>tx_queue := tx_queue q @ [(junk_letter env)\<lparr>ft8Message := t\<rparr>]\<rparr>"
  using assms by (auto simp: queueTx_def result_simps tsq_push_def)

lemma tx_and_show_inv: "qso_inv ok q \<Longrightarrow> tx_and_show env s w q = Inr q' \<Longrightarrow> qso_inv ok q'"
  by (auto simp: tx_and_show_def Let_def result_simps qso_inv_def dest!: queueTx_frame(2))

lemma qso_inv_idle: "qso_inv ok q \<Longrightarrow> qso_inv ok (q\<lparr>qsoState := idle\<rparr>)"
  by (simp add: qso_inv_def)

lemma handleTx_inv: "qso_inv ok q \<Longrightarrow> handleTx env s q = Inr (b, q') \<Longrightarrow> qso_inv ok q'"
  by (auto simp: handleTx_def result_simps split: if_splits qsostate.splits
      intro: tx_and_show_inv qso_inv_idle)

lemma queryCQ_inv: "qso_inv ok q \<Longrightarrow> queryCQ env s q = Inr q' \<Longrightarrow> qso_inv ok q'"
  by (auto simp: queryCQ_def result_simps qso_inv_def split: if_splits dest!: queueTx_frame(2))

lemma reset_inv: "qso_inv ok q \<Longrightarrow> qso_inv ok (resetQsoState q)"
  by (simp add: qso_inv_def)

lemma qso_inv_other_fields [simp]:
  "qso_inv ok (q\<lparr>txBusy := b\<rparr>) = qso_inv ok q"
  "qso_inv ok (q\<lparr>tick_queue := tq, ft8tick := n\<rparr>) = qso_inv ok q"
  "qso_inv ok (q\<lparr>tick_queue := tq\<rparr>) = qso_inv ok q" "qso_inv ok (q\<lparr>tx_queue := xq\<rparr>) = qso_inv ok q"
  "qso_inv ok (q\<lparr>qso_queue := yq\<rparr>) = qso_inv ok q"
  "qso_inv ok (logToAdi env m q) = qso_inv ok q" "qso_inv ok (append_file f t q) = qso_inv ok q"
  by (simp_all add: qso_inv_def)

text \<open>The two halves of \<open>updateQsoMachine\<close>: the timeout or the reply, and then the CQ.\<close>

definition machine_reply :: "qenv \<Rightarrow> ft8slot \<Rightarrow> qso \<Rightarrow> qso result" where
  "machine_reply env theSlot q =
     (if ft8time q \<le> ft8tick q then
        Inr ((resetQsoState (if qsoState q \<noteq> replyLoc \<and> qsoState q \<noteq> replySig \<and> qsoState q \<noteq> idle
                    then logToAdi env (currentQSO q) q else q))\<lparr>txBusy := False\<rparr>)
      else if theSlot = activeSlot q then
        rbind (handleTx env theSlot q) (\<lambda>(b, q). Inr (q\<lparr>txBusy := b\<rparr>))
      else Inr (q\<lparr>txBusy := False\<rparr>))"

lemma updateQsoMachine_eq:
  "updateQsoMachine env s q = rbind (machine_reply env s q)
     (\<lambda>q. if \<not> txBusy q \<and> s = activeSlot q then queryCQ env s q else Inr q)"
  by (simp add: updateQsoMachine_def machine_reply_def Let_def)

lemma machine_reply_inv:
  assumes "qso_inv ok q" "machine_reply env s q = Inr q'"
  shows "qso_inv ok q'"
proof (cases "ft8time q \<le> ft8tick q")
  case True
  then have "q' = (resetQsoState (if qsoState q \<noteq> replyLoc \<and> qsoState q \<noteq> replySig \<and> qsoState q \<noteq> idle
                    then logToAdi env (currentQSO q) q else q))\<lparr>txBusy := False\<rparr>"
    using assms(2) by (simp add: machine_reply_def)
  with assms(1) show ?thesis by (simp add: reset_inv)
next
  case False
  with assms show ?thesis
    by (auto simp: machine_reply_def result_simps handleTx_inv split: if_splits)
qed

lemma updateQsoMachine_inv:
  assumes "qso_inv ok q" "updateQsoMachine env s q = Inr q'"
  shows "qso_inv ok q'"
proof -
  from assms(2) obtain q1 where q1: "machine_reply env s q = Inr q1"
    and q2: "(if \<not> txBusy q1 \<and> s = activeSlot q1 then queryCQ env s q1 else Inr q1) = Inr q'"
    by (auto simp: updateQsoMachine_eq result_simps)
  have "qso_inv ok q1" using assms(1) q1 by (rule machine_reply_inv)
  with q2 show ?thesis by (auto split: if_splits intro: queryCQ_inv)
qed

lemma fold_dispatch_inv:
  "qso_inv ok q \<Longrightarrow> (\<forall>m \<in> set ms. ok m) \<Longrightarrow> qso_inv ok (fold (dispatch env) ms q)"
  by (induction ms arbitrary: q) (auto intro: dispatch_inv)

lemma fold_dispatch_queue: "qsoh_queue (fold (dispatch env) ms q) = qsoh_queue q"
proof -
  have "qsoh_queue (dispatch env m q) = qsoh_queue q" for m q
    by (simp add: dispatch_def addCQ_def addQso_def Let_def split: peermsg.splits)
  then show ?thesis by (induction ms arbitrary: q) auto
qed

text \<open>One turn of the thread, with the drain loops in closed form.\<close>

definition after_ticks :: "qso \<Rightarrow> qso" where
  "after_ticks q = q\<lparr>tick_queue := [], ft8tick := ft8tick q + of_nat (length (tick_queue q))\<rparr>"

lemma fold_ticks:
  "fold (\<lambda>s (n, last). (n + 1, s)) ss (n, l) = ((n :: u32) + of_nat (length ss), last (l # ss))"
  by (induction ss arbitrary: n l) (auto simp: algebra_simps)

lemma QSOHandler_iter_eq:
  "QSOHandler_iter env q =
     (if tick_queue q = [] \<and> \<not> qsoExit q then None
      else Some (updateQsoMachine env (last (junk_slot env # tick_queue q))
        ((fold (dispatch env) (qsoh_queue q) (after_ticks q))\<lparr>qsoh_queue := []\<rparr>)))"
  by (simp add: QSOHandler_iter_def tsq_drain_fold fold_ticks after_ticks_def)

lemma iter_inv:
  assumes "qso_inv ok q" "QSOHandler_iter env q = Some (Inr q')"
  shows "qso_inv ok q'"
proof -
  let ?f = "fold (dispatch env) (qsoh_queue q) (after_ticks q)"
  have "qso_inv ok (after_ticks q)" using assms(1) by (simp add: after_ticks_def)
  moreover have "\<forall>m \<in> set (qsoh_queue q). ok m" using assms(1) by (simp add: qso_inv_def)
  ultimately have "qso_inv ok ?f" by (rule fold_dispatch_inv)
  then have "qso_inv ok (?f\<lparr>qsoh_queue := []\<rparr>)" by (simp add: qso_inv_def)
  moreover have "updateQsoMachine env (last (junk_slot env # tick_queue q)) (?f\<lparr>qsoh_queue := []\<rparr>) = Inr q'"
    using assms(2) by (simp add: QSOHandler_iter_eq split: if_splits)
  ultimately show ?thesis by (rule updateQsoMachine_inv)
qed

lemma init_inv: "qso_inv ok (initQsoState env init_globals)"
  by (simp add: qso_inv_def initQsoState_def createADIheader_def init_globals_def Let_def MAXQSOPEERS_def)

lemma set_switch_inv [simp]: "qso_inv ok (set_switch c q) = qso_inv ok q"
  by (cases c) (simp_all add: qso_inv_def)

lemma qso_step_inv: "qso_step env ok s t \<Longrightarrow> qso_inv ok (snd s) \<Longrightarrow> qso_inv ok (snd t)"
proof (induction rule: qso_step.induct)
  case (deliver m pc q)
  then show ?case by (simp add: qso_inv_def tsq_push_def)
next
  case (turn q q')
  then show ?case by (auto intro: iter_inv)
qed simp_all

lemma reach_inv: "qso_reach env ok s \<Longrightarrow> qso_inv ok (snd s)"
  by (induction rule: qso_reach.induct) (auto intro: qso_step_inv init_inv)

end
