(* ===== verification/QsoTransmit.thy ===== *)
theory QsoTransmit
  imports QsoInvariant
begin

text \<open>
  What the QSO handler transmits: the exact text of each request, how many requests one turn can
  make, when none is made, and when the unchecked \<^verbatim>\<open>sprintf\<close> of \<^verbatim>\<open>queueTx\<close> writes behind the
  40 bytes of the socket message.
\<close>

subsection \<open>A concrete environment for the witnesses\<close>

definition demo_env :: qenv where
  "demo_env =
     \<lparr>dec_options = \<lparr>d_freq = 14074000, rcall = ''SA0PRF'', rloc = ''JO99''\<rparr>,
      rx_dialfreq = 14074000, version = ''0.8.9'', home = None, can_open = (\<lambda>_. True), now = 0,
      localtime = (\<lambda>_. \<lparr>tm_year = 70, tm_mon = 0, tm_mday = 1, tm_hour = 0, tm_min = 0, tm_sec = 0\<rparr>),
      junk_letter = \<lparr>msg_type = UnknownSignal 0, ft8Message = [], RTXstate = False\<rparr>,
      junk_plain = \<lparr>src = [], dest = [], loc = [], message = [], freq = 0, snr = 0, tempus = 0,
                    slot = even_slot\<rparr>,
      junk_slot = even_slot\<rparr>"

definition demo_msg :: "string \<Rightarrow> string \<Rightarrow> string \<Rightarrow> plain_message" where
  "demo_msg s d t = \<lparr>src = s, dest = d, loc = [], message = t, freq = 14075000, snr = -7,
     tempus = 100, slot = even_slot\<rparr>"

definition demo_qso :: "qsostate \<Rightarrow> qso" where
  "demo_qso st = init_globals\<lparr>qsoState := st, currentQSO := demo_msg ''F1ABC'' ''SA0PRF'' ''JN99'',
     ft8tick := 5, ft8time := 9, autoCq := True, autoQSO := True, autoCqReply := True\<rparr>"

subsection \<open>The pushes\<close>

lemma queueTx_eq:
  "queueTx env t q = (if length t < MAXMSGSIZE
     then Inr (q\<lparr>tx_queue := tx_queue q @ [(junk_letter env)\<lparr>ft8Message := t\<rparr>]\<rparr>)
     else Inl (BufferOverflow MAXMSGSIZE (length t + 1)))"
  by (simp add: queueTx_def sprintf_s_def tsq_push_def)

lemma tx_and_show_eq:
  "tx_and_show env s w q = (if length (tx_text env q w) < MAXMSGSIZE
     then Inr (q\<lparr>tx_queue := tx_queue q @ [(junk_letter env)\<lparr>ft8Message := tx_text env q w\<rparr>],
                qso_queue := qso_queue q @ [(junk_plain env)
                  \<lparr>src := snprintf_s 13 (rcall (dec_options env)), dest := snprintf_s 13 (src (currentQSO q)),
                   freq := freq (currentQSO q), slot := s, message := snprintf_s 40 w\<rparr>]\<rparr>)
     else Inl (BufferOverflow MAXMSGSIZE (length (tx_text env q w) + 1)))"
  by (simp add: tx_and_show_def queueTx_eq Let_def tsq_push_def)

text \<open>The word each state answers with.\<close>

fun reply_word :: "qenv \<Rightarrow> qso \<Rightarrow> qsostate \<Rightarrow> string" where
  "reply_word env q replyLoc = rloc (dec_options env)"
| "reply_word env q replySig = level_text (snr (currentQSO q))"
| "reply_word env q replyRR73 = ''RR73''"
| "reply_word env q reply73 = ''73''"
| "reply_word env q _ = []"

lemma handleTx_eq:
  assumes "qsoState q \<in> {replyLoc, replySig, replyRR73, reply73}"
  shows "handleTx env s q =
    (if slot (currentQSO q) \<noteq> s then Inr (True, q)
     else let text = tx_text env q (reply_word env q (qsoState q)) in
       if MAXMSGSIZE \<le> length text then Inl (BufferOverflow MAXMSGSIZE (length text + 1))
       else Inr (qsoState q \<noteq> reply73,
         q\<lparr>qsoState := (if qsoState q = reply73 then idle else qsoState q),
           tx_queue := tx_queue q @ [(junk_letter env)\<lparr>ft8Message := text\<rparr>],
           qso_queue := qso_queue q @ [(junk_plain env)
             \<lparr>src := snprintf_s 13 (rcall (dec_options env)), dest := snprintf_s 13 (src (currentQSO q)),
              freq := freq (currentQSO q), slot := s,
              message := snprintf_s 40 (reply_word env q (qsoState q))\<rparr>]\<rparr>))"
proof -
  have t: "tx_text env (q\<lparr>qsoState := st\<rparr>) w = tx_text env q w" for st w
    by (simp add: tx_text_def)
  have same: "q\<lparr>qsoState := qsoState q\<rparr> = q" by simp
  show ?thesis
    using assms by (auto simp: handleTx_def tx_and_show_eq t Let_def)
qed


lemma demo_tx_text:
  "tx_text demo_env (demo_qso st) w = ''FT8Tx 14075000 F1ABC SA0PRF '' @ w"
  by (simp add: tx_text_def demo_env_def demo_qso_def demo_msg_def dec_eval)

lemma demo_cq_text: "cq_text demo_env = ''14074000 CQ SA0PRF JO99''"
  by (simp add: cq_text_def demo_env_def dec_eval)


subsection \<open>How many requests a turn makes\<close>

lemma handleTx_new:
  assumes "handleTx env s q = Inr (b, q')"
  shows "\<exists>new. tx_queue q' = tx_queue q @ new \<and> length new \<le> 1
     \<and> (new \<noteq> [] \<longrightarrow> b \<or> qsoState q = reply73) \<and> activeSlot q' = activeSlot q"
  using assms
  by (auto simp: handleTx_def tx_and_show_eq result_simps split: if_splits qsostate.splits)

lemma queryCQ_new:
  assumes "queryCQ env s q = Inr q'"
  shows "\<exists>new. tx_queue q' = tx_queue q @ new \<and> length new \<le> 1"
  using assms by (auto simp: queryCQ_def queueTx_eq result_simps split: if_splits)

lemma machine_reply_new:
  assumes "machine_reply env s q = Inr q1"
  shows "\<exists>new. tx_queue q1 = tx_queue q @ new \<and> length new \<le> 1 \<and> activeSlot q1 = activeSlot q
     \<and> (new \<noteq> [] \<longrightarrow> (txBusy q1 \<or> qsoState q = reply73) \<and> s = activeSlot q)"
  using assms
  by (auto simp: machine_reply_def result_simps split: if_splits dest!: handleTx_new)

text \<open>
  Radio discipline of one turn of the state machine: requests are only appended to the
  transmit queue, none is made outside the active slot, and at most one is made, except that a
  turn which sends the closing 73 may make two.
\<close>

theorem tx_requests_per_turn:
  assumes "updateQsoMachine env s q = Inr q'"
  shows "\<exists>new. tx_queue q' = tx_queue q @ new
    \<and> length new \<le> (if qsoState q = reply73 then 2 else 1) \<and> (s \<noteq> activeSlot q \<longrightarrow> new = [])"
proof -
  obtain q1 where q1: "machine_reply env s q = Inr q1"
    and q2: "(if \<not> txBusy q1 \<and> s = activeSlot q1 then queryCQ env s q1 else Inr q1) = Inr q'"
    using assms by (auto simp: updateQsoMachine_eq result_simps)
  from machine_reply_new[OF q1] obtain n1 where n1: "tx_queue q1 = tx_queue q @ n1" "length n1 \<le> 1"
    "activeSlot q1 = activeSlot q" "n1 \<noteq> [] \<longrightarrow> (txBusy q1 \<or> qsoState q = reply73) \<and> s = activeSlot q"
    by blast
  show ?thesis
  proof (cases "\<not> txBusy q1 \<and> s = activeSlot q1")
    case True
    then obtain n2 where n2: "tx_queue q' = tx_queue q1 @ n2" "length n2 \<le> 1"
      using q2 queryCQ_new by fastforce
    with n1 True show ?thesis by (intro exI[of _ "n1 @ n2"]) auto
  next
    case False
    with q2 have "q' = q1" by (simp split: if_splits)
    with n1 show ?thesis by (intro exI[of _ n1]) auto
  qed
qed

lemma demo_cq_turn:
  "\<exists>q'. updateQsoMachine demo_env even_slot (demo_qso idle) = Inr q'"
  by (simp add: updateQsoMachine_def handleTx_def queryCQ_def queueTx_eq demo_cq_text MAXMSGSIZE_def
      demo_qso_def init_globals_def)

theorem tx_requests_per_turn_witness:
  "\<exists>q' new. updateQsoMachine demo_env even_slot (demo_qso idle) = Inr q'
     \<and> tx_queue q' = tx_queue (demo_qso idle) @ new \<and> length new \<le> 1"
proof -
  obtain q' where q': "updateQsoMachine demo_env even_slot (demo_qso idle) = Inr q'"
    using demo_cq_turn by blast
  have "qsoState (demo_qso idle) \<noteq> reply73" by (simp add: demo_qso_def)
  with q' tx_requests_per_turn[OF q'] show ?thesis by auto
qed

subsection \<open>The closing 73 and a CQ in one turn\<close>

text \<open>
  C28. A turn that sends the closing 73 also sends a CQ when self-CQ is on and due: \<^verbatim>\<open>handleTx\<close>
  returns false once it is idle again, so \<^verbatim>\<open>updateQsoMachine\<close> takes the transmitter for free. Two
  requests for the same 15 second slot reach the transmit queue.
\<close>

theorem closing_73_then_cq:
  assumes st: "qsoState q = reply73" and fresh: "\<not> ft8time q \<le> ft8tick q"
    and sl: "slot (currentQSO q) = activeSlot q"
    and cq: "autoCq q" "queryRepeat q \<le> ft8tick q"
    and fit: "length (tx_text env q ''73'') < MAXMSGSIZE" "length (''FT8Tx '' @ cq_text env) < MAXMSGSIZE"
  shows "\<exists>q'. updateQsoMachine env (activeSlot q) q = Inr q' \<and> qsoState q' = idle
    \<and> map ft8Message (tx_queue q') =
        map ft8Message (tx_queue q) @ [tx_text env q ''73'', ''FT8Tx '' @ cq_text env]"
proof -
  have t: "tx_text env (q\<lparr>qsoState := idle\<rparr>) w = tx_text env q w" for w
    by (simp add: tx_text_def)
  show ?thesis
    using assms t by (simp add: updateQsoMachine_def handleTx_def tx_and_show_eq queryCQ_def queueTx_eq)
qed

theorem closing_73_then_cq_witness:
  "\<exists>q'. updateQsoMachine demo_env even_slot (demo_qso reply73) = Inr q' \<and> qsoState q' = idle
    \<and> map ft8Message (tx_queue q') =
        [''FT8Tx 14075000 F1ABC SA0PRF 73'', ''FT8Tx 14074000 CQ SA0PRF JO99'']"
proof -
  have h: "qsoState (demo_qso reply73) = reply73" "\<not> ft8time (demo_qso reply73) \<le> ft8tick (demo_qso reply73)"
    "slot (currentQSO (demo_qso reply73)) = activeSlot (demo_qso reply73)"
    "autoCq (demo_qso reply73)" "queryRepeat (demo_qso reply73) \<le> ft8tick (demo_qso reply73)"
    "activeSlot (demo_qso reply73) = even_slot" "tx_queue (demo_qso reply73) = []"
    by (simp_all add: demo_qso_def demo_msg_def init_globals_def)
  show ?thesis
    using closing_73_then_cq[OF h(1-5), of demo_env] h(6,7)
    by (simp add: demo_tx_text demo_cq_text MAXMSGSIZE_def)
qed

subsection \<open>When the request always fits\<close>

text \<open>Messages of stations with a standard call sign, received on a frequency that fits the field.\<close>

definition short_call_msg :: "plain_message \<Rightarrow> bool" where
  "short_call_msg m \<longleftrightarrow> length (src m) \<le> 6 \<and> 0 \<le> freq m \<and> freq m < 2 ^ 31
     \<and> - 100 < snr m \<and> snr m < 100"

lemma int_dec_i32_length: "0 \<le> i \<Longrightarrow> i < 2 ^ 31 \<Longrightarrow> length (int_dec i) \<le> 11"
  using int_dec_length[of i 10] by simp

lemma level_text_length: "- 100 < n \<Longrightarrow> n < 100 \<Longrightarrow> length (level_text n) \<le> 4"
proof -
  assume "- 100 < n" "n < 100"
  then have "length (nat_dec (nat \<bar>n\<bar>)) \<le> 2"
    using nat_dec_length[of "nat \<bar>n\<bar>" 2] by simp
  then show ?thesis by (auto simp: level_text_def int_dec0_def Let_def)
qed

lemma reply_word_length:
  "opts_ok (dec_options env) \<Longrightarrow> - 100 < snr (currentQSO q) \<Longrightarrow> snr (currentQSO q) < 100 \<Longrightarrow>
   length (reply_word env q st) \<le> 6"
  using level_text_length[of "snr (currentQSO q)"] by (cases st) (auto simp: opts_ok_def)

lemma short_tx_text:
  assumes "qso_inv short_call_msg q" "qsoState q \<noteq> idle" "opts_ok (dec_options env)"
    "length (rcall (dec_options env)) \<le> 6"
  shows "length (tx_text env q (reply_word env q st)) < MAXMSGSIZE"
proof -
  from assms(1,2) obtain m where m: "short_call_msg m" "src (currentQSO q) = src m"
    "freq (currentQSO q) = freq m" "snr (currentQSO q) = snr m"
    by (auto simp: qso_inv_def)
  then have "length (int_dec (freq (currentQSO q))) \<le> 11" "length (src (currentQSO q)) \<le> 6"
    "length (reply_word env q st) \<le> 6"
    using int_dec_i32_length assms(3) reply_word_length[of env q st] by (auto simp: short_call_msg_def)
  then show ?thesis using assms(4) by (simp add: tx_text_def MAXMSGSIZE_def)
qed

lemma short_handleTx:
  assumes "qso_inv short_call_msg q" "opts_ok (dec_options env)" "length (rcall (dec_options env)) \<le> 6"
  shows "\<exists>r. handleTx env s q = Inr r"
proof (cases "qsoState q")
  case idle
  then have "handleTx env s q = Inr (False, q)" by (simp add: handleTx_def)
  then show ?thesis by blast
next
  case cqIng
  with assms(1) show ?thesis by (simp add: qso_inv_def)
qed (insert short_tx_text[OF assms(1) _ assms(2,3), of "qsoState q"],
     simp_all add: handleTx_eq Let_def, metis+)

lemma short_queryCQ:
  assumes "opts_ok (dec_options env)" "length (rcall (dec_options env)) \<le> 6"
    "0 \<le> sint (rx_dialfreq env)"
  shows "\<exists>r. queryCQ env s q = Inr r"
proof -
  have "sint (rx_dialfreq env) < 2 ^ 31"
    using sint_lt[of "rx_dialfreq env"] by simp
  then have "length (''FT8Tx '' @ cq_text env) < MAXMSGSIZE"
    using assms int_dec_i32_length[of "sint (rx_dialfreq env)"]
    by (simp add: cq_text_def opts_ok_def MAXMSGSIZE_def)
  then show ?thesis by (auto simp: queryCQ_def queueTx_eq)
qed

lemma short_update:
  assumes "qso_inv short_call_msg q" "opts_ok (dec_options env)"
    "length (rcall (dec_options env)) \<le> 6" "0 \<le> sint (rx_dialfreq env)"
  shows "\<exists>r. updateQsoMachine env s q = Inr r"
proof -
  obtain b q2 where q2: "handleTx env s q = Inr (b, q2)"
    using short_handleTx[OF assms(1-3)] by (metis surj_pair)
  then have "isl (machine_reply env s q) = False"
    by (cases "s = activeSlot q") (simp_all add: machine_reply_def)
  then obtain q1 where "machine_reply env s q = Inr q1" by (cases "machine_reply env s q") auto
  moreover obtain r where "queryCQ env s q1 = Inr r" using short_queryCQ[OF assms(2-4)] by blast
  ultimately show ?thesis by (auto simp: updateQsoMachine_eq)
qed

lemma short_no_crash_step:
  assumes "qso_step env short_call_msg s t" "qso_inv short_call_msg (snd s)" "fst s \<noteq> Crashed"
    "opts_ok (dec_options env)" "length (rcall (dec_options env)) \<le> 6" "0 \<le> sint (rx_dialfreq env)"
  shows "fst t \<noteq> Crashed"
  using assms(1)
proof (cases rule: qso_step.cases)
  case (crash q e)
  let ?f = "fold (dispatch env) (qsoh_queue q) (after_ticks q)"
  have iq: "qso_inv short_call_msg q" using crash assms(2) by simp
  then have "qso_inv short_call_msg ?f"
    by (intro fold_dispatch_inv) (simp_all add: after_ticks_def, simp add: qso_inv_def)
  then have "qso_inv short_call_msg (?f\<lparr>qsoh_queue := []\<rparr>)" by (simp add: qso_inv_def)
  then obtain r where
    "updateQsoMachine env (last (junk_slot env # tick_queue q)) (?f\<lparr>qsoh_queue := []\<rparr>) = Inr r"
    using short_update[OF _ assms(4-6)] by blast
  with crash show ?thesis
    unfolding QSOHandler_iter_eq by (simp split: if_splits)
qed (use assms(3) in auto)

text \<open>
  C21. With call signs of at most six characters on both sides, a locator that fits its array and
  a dial frequency below 2 GHz, no interleaving of the threads makes the handler write behind the
  40-byte message array: the \<^verbatim>\<open>Crashed\<close> state is unreachable.
\<close>

theorem short_calls_never_overflow:
  assumes "qso_reach env short_call_msg s" "opts_ok (dec_options env)"
    "length (rcall (dec_options env)) \<le> 6" "0 \<le> sint (rx_dialfreq env)"
  shows "fst s \<noteq> Crashed"
  using assms(1)
proof (induction rule: qso_reach.induct)
  case (step s t)
  then show ?case using short_no_crash_step reach_inv assms(2-4) by blast
qed simp

theorem short_calls_never_overflow_witness:
  "fst (Body, (initQsoState demo_env init_globals)) \<noteq> Crashed
   \<and> qso_reach demo_env short_call_msg (Body, initQsoState demo_env init_globals)"
proof -
  have r: "qso_reach demo_env short_call_msg (Body, initQsoState demo_env init_globals)"
    by (rule qso_reach.step[OF qso_reach.start], rule qso_step.head_go)
      (simp add: initQsoState_def createADIheader_def init_globals_def Let_def append_file_def)
  have "opts_ok (dec_options demo_env)" "length (rcall (dec_options demo_env)) \<le> 6"
    "0 \<le> sint (rx_dialfreq demo_env)"
    by (simp_all add: demo_env_def opts_ok_def)
  with short_calls_never_overflow[OF r] r show ?thesis by blast
qed

end
