(* ===== verification/QsoContacts.thy ===== *)
theory QsoContacts
  imports QsoTransmit
begin

text \<open>
  Whole contacts: which message moves the contact where, that nobody but the peer moves it, how
  long a silent one lives, what the database of worked peers remembers, and the two exchanges of
  an FT8 contact from the first message to the last.
\<close>

subsection \<open>More frame facts\<close>

lemma logToAdi_frame2 [qso_frame, simp]:
  "qso_queue (logToAdi env m q) = qso_queue q" "autoQSO (logToAdi env m q) = autoQSO q"
  "autoCqReply (logToAdi env m q) = autoCqReply q" "qsoExit (logToAdi env m q) = qsoExit q"
  "tick_queue (logToAdi env m q) = tick_queue q" "txBusy (logToAdi env m q) = txBusy q"
  by (simp_all add: logToAdi_def append_file_def)

lemma addPeer_frame2 [qso_frame, simp]:
  "qso_queue (snd (addPeer p q)) = qso_queue q" "autoQSO (snd (addPeer p q)) = autoQSO q"
  "autoCq (snd (addPeer p q)) = autoCq q" "autoCqReply (snd (addPeer p q)) = autoCqReply q"
  "tick_queue (snd (addPeer p q)) = tick_queue q"
  by (simp_all add: addPeer_def)

lemma resetQsoState_frame2 [qso_frame, simp]:
  "qso_queue (resetQsoState q) = qso_queue q" "autoQSO (resetQsoState q) = autoQSO q"
  "autoCqReply (resetQsoState q) = autoCqReply q" "tick_queue (resetQsoState q) = tick_queue q"
  by (simp_all add: resetQsoState_def)

subsection \<open>The documented table\<close>

text \<open>The rows of the table in the comment above \<^verbatim>\<open>parseMsg\<close>, for messages that are not CQs.\<close>

fun table :: "peermsg \<Rightarrow> qsostate \<Rightarrow> qsostate option" where
  "table locMsg idle = Some replySig"
| "table locMsg replyLoc = Some replySig"
| "table locMsg replySig = Some replySig"
| "table sigMsg idle = Some replySig"
| "table sigMsg replyLoc = Some replySig"
| "table sigMsg replySig = Some replyRR73"
| "table sigMsg replyRR73 = Some replyRR73"
| "table RR73Msg idle = Some reply73"
| "table RR73Msg replyLoc = Some reply73"
| "table RR73Msg replySig = Some reply73"
| "table RR73Msg replyRR73 = Some reply73"
| "table s73Msg idle = Some idle"
| "table s73Msg replyLoc = Some idle"
| "table s73Msg replySig = Some idle"
| "table s73Msg replyRR73 = Some idle"
| "table _ _ = None"

lemma parseMsg_not_cq [simp]: "parseMsg t \<noteq> cqMsg"
  by (simp add: parseMsg_def)

text \<open>
  C19. An accepted message moves the contact as the documented table says, on every row but two: a
  report received while RR73 is being sent goes back to sending the own report, and an RR73
  received when idle is ignored. A contact is logged, and its peer remembered, on an RR73 only.
\<close>

theorem contact_follows_table:
  assumes "autoQSO q" "slot m = activeSlot q"
    and "qsoState q = idle \<Longrightarrow> \<not> checkPeer q (src m)"
    and "qsoState q \<noteq> idle \<Longrightarrow> src m = src (currentQSO q)"
    and "table (parseMsg (message m)) (qsoState q) = Some st'"
  shows "qsoState (addQso env m q) =
      (if parseMsg (message m) = sigMsg \<and> qsoState q = replyRR73 then replySig
       else if parseMsg (message m) = RR73Msg \<and> qsoState q = idle then idle else st')
    \<and> qso_queue (addQso env m q) = qso_queue q @ [m]
    \<and> (parseMsg (message m) \<noteq> RR73Msg \<or> qsoState q = idle \<longrightarrow>
         files (addQso env m q) = files q \<and> peers (addQso env m q) = peers q)
    \<and> (parseMsg (message m) = RR73Msg \<and> qsoState q \<noteq> idle \<and> can_open env (adiFileName q) \<longrightarrow>
         files (addQso env m q) (adiFileName q) = Some ((case files q (adiFileName q) of None \<Rightarrow> []
             | Some t \<Rightarrow> t) @ adi_record env ((currentQSO q)\<lparr>message := message m\<rparr>)))"
proof (cases "qsoState q = idle")
  case True
  with assms show ?thesis
    by (cases "parseMsg (message m)") (auto simp: addQso_def tsq_push_def Let_def)
next
  case False
  then have "src m = src (currentQSO q)" using assms(4) by simp
  with False assms(1,2,5) show ?thesis
    by (cases "parseMsg (message m)"; cases "qsoState q")
      (auto simp: addQso_def tsq_push_def Let_def logToAdi_def append_file_def)
qed

lemma demo_parse: "parseMsg ''R-07'' = sigMsg" "parseMsg ''RR73'' = RR73Msg" "parseMsg ''-07'' = sigMsg"
    "parseMsg ''73'' = s73Msg" "parseMsg ''JN99'' = locMsg" "parseMsg ''RRR'' = locMsg"
  by (simp_all add: parseMsg_def dec_eval)

theorem contact_follows_table_witness:
  "qsoState (addQso demo_env (demo_msg ''F1ABC'' ''SA0PRF'' ''R-07'') (demo_qso replyRR73)) = replySig
   \<and> table (parseMsg ''R-07'') replyRR73 = Some replyRR73"
proof -
  let ?m = "demo_msg ''F1ABC'' ''SA0PRF'' ''R-07''" and ?q = "demo_qso replyRR73"
  have h: "autoQSO ?q" "slot ?m = activeSlot ?q" "qsoState ?q = replyRR73"
    "src ?m = src (currentQSO ?q)" "message ?m = ''R-07''"
    by (simp_all add: demo_qso_def demo_msg_def init_globals_def)
  have "table (parseMsg (message ?m)) (qsoState ?q) = Some replyRR73" by (simp add: h demo_parse)
  from contact_follows_table[OF h(1,2) _ h(4) this, of demo_env] h show ?thesis
    by (simp add: demo_parse)
qed

subsection \<open>Only the peer\<close>

text \<open>
  C32. While a contact is in progress, no sequence of messages from other stations, whatever they
  say and to whomever, changes anything in the handler's state.
\<close>

theorem contact_exclusive:
  assumes "qsoState q \<noteq> idle" "\<forall>m \<in> set ms. src m \<noteq> src (currentQSO q)"
  shows "fold (dispatch env) ms q = q"
  using assms
proof (induction ms)
  case (Cons m ms)
  then have "dispatch env m q = q" by (simp add: dispatch_def addCQ_def addQso_def)
  with Cons show ?case by simp
qed simp

theorem contact_exclusive_witness:
  "fold (dispatch demo_env) [demo_msg ''G4XYZ'' ''SA0PRF'' ''73'', demo_msg ''G4XYZ'' ''CQ'' ''IO91'']
     (demo_qso replySig) = demo_qso replySig"
  by (rule contact_exclusive) (simp_all add: demo_qso_def demo_msg_def)

subsection \<open>Turns\<close>

text \<open>Successive turns of the thread, each released by the tick of one slot with the messages
  decoded in it.\<close>

fun rounds :: "qenv \<Rightarrow> (ft8slot \<times> plain_message list) list \<Rightarrow> qso \<Rightarrow> qso result" where
  "rounds env [] q = Inr q"
| "rounds env ((s, ms) # rs) q =
     (case QSOHandler_iter env (q\<lparr>tick_queue := [s], qsoh_queue := ms\<rparr>) of
        None \<Rightarrow> Inr q
      | Some r \<Rightarrow> rbind r (rounds env rs))"

definition ticked :: "plain_message list \<Rightarrow> qso \<Rightarrow> qso" where
  "ticked ms q = q\<lparr>qsoh_queue := ms, tick_queue := [], ft8tick := ft8tick q + 1\<rparr>"

lemma rounds_Cons:
  "rounds env ((s, ms) # rs) q =
     rbind (updateQsoMachine env s ((fold (dispatch env) ms (ticked ms q))\<lparr>qsoh_queue := []\<rparr>)) (rounds env rs)"
  by (simp add: QSOHandler_iter_eq after_ticks_def ticked_def)

declare rounds.simps(2) [simp del]

lemma rounds_silent:
  "rounds env ((s, []) # rs) q =
     rbind (updateQsoMachine env s (ticked [] q)) (rounds env rs)"
proof -
  have "(ticked [] q)\<lparr>qsoh_queue := []\<rparr> = ticked [] q" by (cases q) (simp add: ticked_def)
  then show ?thesis by (simp add: rounds_Cons)
qed

lemma handleTx_time: "handleTx env s q = Inr (b, q') \<Longrightarrow> ft8time q' = ft8time q \<and> ft8tick q' = ft8tick q"
  by (auto simp: handleTx_def tx_and_show_eq result_simps split: if_splits qsostate.splits)

lemma queryCQ_time:
  "queryCQ env s q = Inr q' \<Longrightarrow> ft8time q' = ft8time q \<and> ft8tick q' = ft8tick q \<and> qsoState q' = qsoState q"
  by (auto simp: queryCQ_def queueTx_eq result_simps split: if_splits)

lemma update_time:
  assumes "updateQsoMachine env s q = Inr q'"
  shows "ft8tick q' = ft8tick q \<and> (if ft8time q \<le> ft8tick q then qsoState q' = idle \<and> ft8time q' = ft8tick q
      else ft8time q' = ft8time q)"
proof -
  obtain q1 where q1: "machine_reply env s q = Inr q1"
    and q2: "(if \<not> txBusy q1 \<and> s = activeSlot q1 then queryCQ env s q1 else Inr q1) = Inr q'"
    using assms by (auto simp: updateQsoMachine_eq result_simps)
  have "ft8tick q1 = ft8tick q \<and> (if ft8time q \<le> ft8tick q then qsoState q1 = idle \<and> ft8time q1 = ft8tick q
      else ft8time q1 = ft8time q)"
    using q1 by (auto simp: machine_reply_def result_simps handleTx_time split: if_splits dest: handleTx_time)
  then show ?thesis using q2 by (auto split: if_splits dest: queryCQ_time)
qed

lemma ticked_inv: "qso_inv ok q \<Longrightarrow> qso_inv ok (ticked [] q)"
  by (simp add: qso_inv_def ticked_def)

lemma u32_tick: "unat (t :: u32) + 1 < 2 ^ 32 \<Longrightarrow> unat (t + 1) = unat t + 1"
  by (simp add: unat_word_ariths)

lemma silent_rounds_expire:
  assumes "qso_inv short_call_msg q" "opts_ok (dec_options env)"
    "length (rcall (dec_options env)) \<le> 6" "0 \<le> sint (rx_dialfreq env)"
    "unat (ft8time q) \<le> unat (ft8tick q) + length ss" "unat (ft8tick q) + length ss < 2 ^ 32" "ss \<noteq> []"
  shows "\<exists>q'. rounds env (map (\<lambda>s. (s, [])) ss) q = Inr q' \<and> qsoState q' = idle"
  using assms(1,5-7)
proof (induction ss arbitrary: q)
  case (Cons s ss)
  have i: "qso_inv short_call_msg (ticked [] q)" using Cons.prems(1) by (rule ticked_inv)
  obtain q1 where q1: "updateQsoMachine env s (ticked [] q) = Inr q1"
    using short_update[OF i assms(2-4)] by blast
  have i1: "qso_inv short_call_msg q1" using i q1 by (rule updateQsoMachine_inv)
  have k: "unat (ft8tick q + 1) = unat (ft8tick q) + 1" using Cons.prems(3) by (intro u32_tick) simp
  have tk: "ft8tick q1 = ft8tick q + 1" and
    ex: "if ft8time q \<le> ft8tick q + 1 then qsoState q1 = idle \<and> ft8time q1 = ft8tick q + 1
         else ft8time q1 = ft8time q"
    using update_time[OF q1] by (simp_all add: ticked_def)
  show ?case
  proof (cases "ss = []")
    case True
    then have "ft8time q \<le> ft8tick q + 1" using Cons.prems(2) k by (simp add: word_le_nat_alt)
    with ex True q1 show ?thesis by (simp add: rounds_silent)
  next
    case False
    have "unat (ft8time q1) \<le> unat (ft8tick q1) + length ss"
      using ex Cons.prems(2) k tk by (auto split: if_splits)
    moreover have "unat (ft8tick q1) + length ss < 2 ^ 32" using Cons.prems(3) k tk by simp
    ultimately obtain q' where "rounds env (map (\<lambda>s. (s, [])) ss) q1 = Inr q'" "qsoState q' = idle"
      using Cons.IH[OF i1] False by blast
    with q1 show ?thesis by (simp add: rounds_silent)
  qed
qed simp



subsection \<open>The database of worked peers\<close>

text \<open>A standard call sign: at most six letters and digits, the first of them not a zero.\<close>

definition call_char :: "char \<Rightarrow> bool" where
  "call_char c \<longleftrightarrow> isdigit_c c \<or> 65 \<le> code c \<and> code c \<le> 90"

definition std_call :: "string \<Rightarrow> bool" where
  "std_call s \<longleftrightarrow> length s \<le> 6 \<and> (\<forall>c \<in> set s. call_char c) \<and> (s = [] \<or> hd s \<noteq> CHR ''0'')"

definition dig36 :: "char \<Rightarrow> nat" where
  "dig36 c = (if 65 \<le> code c then code c - 55 else code c - 48)"

definition b36 :: "string \<Rightarrow> nat" where
  "b36 s = foldl (\<lambda>h c. h * 36 + dig36 c) 0 s"

lemma b36_simps [simp]: "b36 [] = 0" "b36 (s @ [c]) = b36 s * 36 + dig36 c"
  by (simp_all add: b36_def)

lemma dig36_less: "call_char c \<Longrightarrow> dig36 c < 36"
  by (auto simp: call_char_def dig36_def isdigit_c_def)

lemma code_inj: "code c = code d \<Longrightarrow> c = d"
  by (simp add: code_def)

lemma dig36_inj: "call_char c \<Longrightarrow> call_char d \<Longrightarrow> dig36 c = dig36 d \<Longrightarrow> c = d"
  by (rule code_inj) (auto simp: call_char_def dig36_def isdigit_c_def split: if_splits)

lemma dig36_pos: "call_char c \<Longrightarrow> c \<noteq> CHR ''0'' \<Longrightarrow> 0 < dig36 c"
proof -
  assume a: "call_char c" "c \<noteq> CHR ''0''"
  have z: "call_char CHR ''0''" "dig36 CHR ''0'' = 0" by (simp_all add: call_char_def dig36_def isdigit_c_def code_def)
  with a dig36_inj[of c "CHR ''0''"] show ?thesis by auto
qed

lemma hash_digit_dig36: "call_char c \<Longrightarrow> hash_digit c = of_nat (dig36 c)"
proof (cases "65 \<le> code c")
  case True
  assume "call_char c"
  have "(of_nat (code c - 55) :: u32) = of_int (int (code c) - 48) + (48 + 10 - 65)"
    using True by (simp add: of_nat_diff)
  then show ?thesis using True by (simp add: hash_digit_def dig36_def)
next
  case False
  assume "call_char c"
  then have "48 \<le> code c" using False by (simp add: call_char_def isdigit_c_def)
  then show ?thesis using False
    by (simp add: hash_digit_def dig36_def of_nat_diff)
qed

lemma hash_loop_b36:
  "length s \<le> n \<Longrightarrow> \<forall>c \<in> set s. call_char c \<Longrightarrow>
   hash_loop n (of_nat h) s = (of_nat (foldl (\<lambda>h c. h * 36 + dig36 c) h s), [])"
proof (induction s arbitrary: n h)
  case Nil
  then show ?case by (cases n) auto
next
  case (Cons c s)
  then obtain m where n: "n = Suc m" by (cases n) auto
  have "(of_nat h * 36 + hash_digit c :: u32) = of_nat (h * 36 + dig36 c)"
    using Cons.prems(2) hash_digit_dig36[of c] by simp
  moreover have "length s \<le> m" "\<forall>c \<in> set s. call_char c" using Cons.prems n by auto
  ultimately show ?case using Cons.IH[of m "h * 36 + dig36 c"] n by (simp only: hash_loop.simps foldl_Cons)
qed

lemma b36_bound: "\<forall>c \<in> set s. call_char c \<Longrightarrow> b36 s < 36 ^ length s"
proof (induction s rule: rev_induct)
  case (snoc c s)
  then have "b36 s + 1 \<le> 36 ^ length s" "dig36 c < 36" by (auto simp: dig36_less)
  then have "(b36 s + 1) * 36 \<le> 36 ^ length s * 36" by (intro mult_le_mono) auto
  with \<open>dig36 c < 36\<close> show ?case by (simp add: algebra_simps)
qed simp

lemma b36_pos: "\<forall>c \<in> set s. call_char c \<Longrightarrow> s \<noteq> [] \<Longrightarrow> hd s \<noteq> CHR ''0'' \<Longrightarrow> 0 < b36 s"
proof (induction s rule: rev_induct)
  case (snoc c s)
  then show ?case using b36_simps(2)[of "[]" c] by (cases "s = []") (auto simp: dig36_pos)
qed simp

lemma digit_cancel: "(a::nat) * 36 + x = b * 36 + y \<Longrightarrow> x < 36 \<Longrightarrow> y < 36 \<Longrightarrow> x = y \<and> a = b"
  by presburger

lemma b36_inj:
  assumes "\<forall>c \<in> set s. call_char c" "\<forall>c \<in> set t. call_char c"
    "s = [] \<or> hd s \<noteq> CHR ''0''" "t = [] \<or> hd t \<noteq> CHR ''0''" "b36 s = b36 t"
  shows "s = t"
  using assms
proof (induction s arbitrary: t rule: rev_induct)
  case Nil
  then show ?case using b36_pos[of t] by auto
next
  case (snoc c s)
  have "0 < b36 (s @ [c])" using snoc.prems(1,3) by (intro b36_pos) auto
  with snoc.prems(5) have "t \<noteq> []" by auto
  then obtain u d where t: "t = u @ [d]" by (cases t rule: rev_cases) auto
  have cd: "dig36 c < 36" "dig36 d < 36" using snoc.prems(1,2) t by (auto intro: dig36_less)
  have e: "b36 s * 36 + dig36 c = b36 u * 36 + dig36 d" using snoc.prems(5) t by simp
  then have "dig36 c = dig36 d" "b36 s = b36 u" using digit_cancel[OF e cd] by auto
  moreover have "s = [] \<or> hd s \<noteq> CHR ''0''" "u = [] \<or> hd u \<noteq> CHR ''0''"
    using snoc.prems(3,4) t by (cases s; cases u; simp)+
  moreover have "\<forall>c \<in> set s. call_char c" "\<forall>c \<in> set u. call_char c" "call_char c" "call_char d"
    using snoc.prems(1,2) t by auto
  ultimately have "s = u" "c = d" using snoc.IH[of u] dig36_inj[of c d] by blast+
  with t show ?case by simp
qed

lemma hash_std: "std_call s \<Longrightarrow> hashCallId s = of_nat (b36 s) \<and> b36 s < 2 ^ 32"
proof -
  assume s: "std_call s"
  then have "hash_loop 6 (of_nat 0) s = (of_nat (b36 s), [])"
    unfolding b36_def by (intro hash_loop_b36) (auto simp: std_call_def)
  then have "hash_loop 6 0 s = (of_nat (b36 s), [])" by simp
  then have "hashCallId s = of_nat (b36 s)" by (simp only: hashCallId_def prod.case list.case)
  moreover have "b36 s < 36 ^ length s" using s b36_bound by (simp add: std_call_def)
  moreover have "(36::nat) ^ length s \<le> 36 ^ 6" using s by (intro power_increasing) (auto simp: std_call_def)
  moreover have "(36::nat) ^ 6 < 2 ^ 32" by simp
  ultimately show ?thesis by linarith
qed

lemma hash_inj: "std_call s \<Longrightarrow> std_call t \<Longrightarrow> hashCallId s = hashCallId t \<longleftrightarrow> s = t"
proof -
  assume st: "std_call s" "std_call t"
  then have h: "hashCallId s = of_nat (b36 s)" "hashCallId t = of_nat (b36 t)"
    and b: "b36 s < 2 ^ LENGTH(32)" "b36 t < 2 ^ LENGTH(32)" using hash_std by auto
  have "unat (of_nat (b36 s) :: u32) = b36 s" "unat (of_nat (b36 t) :: u32) = b36 t"
    using b by (simp_all add: unat_of_nat take_bit_nat_eq_self)
  then have "hashCallId s = hashCallId t \<longleftrightarrow> b36 s = b36 t" unfolding h by metis
  moreover have "b36 s = b36 t \<longleftrightarrow> s = t" using st b36_inj[of s t] by (auto simp: std_call_def)
  ultimately show ?thesis by simp
qed

text \<open>The database holds the hashes of the peers added, in its first entries.\<close>

definition peers_are :: "string list \<Rightarrow> qso \<Rightarrow> bool" where
  "peers_are ps q \<longleftrightarrow> length (peers q) = MAXQSOPEERS \<and> peersIdx q < MAXQSOPEERS
     \<and> set (take (peersIdx q) (peers q)) = hashCallId ` set ps \<and> peersIdx q \<le> length ps"

lemma checkPeer_iff:
  "peers_are ps q \<Longrightarrow> (\<forall>p \<in> set ps. std_call p) \<Longrightarrow> std_call p \<Longrightarrow> checkPeer q p \<longleftrightarrow> p \<in> set ps"
  using hash_inj by (auto simp: checkPeer_def peers_are_def)

lemma addPeer_are:
  assumes "peers_are ps q" "length ps + 1 < MAXQSOPEERS"
  shows "peers_are (ps @ [p]) (snd (addPeer p q))"
proof (cases "checkPeer q p")
  case True
  with assms show ?thesis by (auto simp: addPeer_def checkPeer_def peers_are_def)
next
  case False
  have l: "peersIdx q < length (peers q)" using assms by (simp add: peers_are_def)
  then have "take (Suc (peersIdx q)) ((peers q)[peersIdx q := hashCallId p])
      = take (peersIdx q) (peers q) @ [hashCallId p]"
    by (simp add: take_Suc_conv_app_nth)
  with False assms l show ?thesis by (auto simp: addPeer_def peers_are_def)
qed

lemma addPeers_are:
  "peers_are ps q \<Longrightarrow> length ps + length new < MAXQSOPEERS \<Longrightarrow>
   peers_are (ps @ new) (fold (\<lambda>p q. snd (addPeer p q)) new q)"
proof (induction new arbitrary: ps q)
  case (Cons p new)
  have "peers_are (ps @ [p]) (snd (addPeer p q))" using Cons.prems by (intro addPeer_are) auto
  with Cons.IH[of "ps @ [p]"] Cons.prems(2) show ?case by simp
qed simp

text \<open>
  For standard call signs the database of worked peers is exact although it only keeps 32-bit
  hashes: after adding fewer than 512 stations to the empty table, a station is found if and only
  if it was added.
\<close>

theorem peer_database_exact:
  assumes "length ps < MAXQSOPEERS" "\<forall>p \<in> set ps. std_call p" "std_call p"
  shows "checkPeer (fold (\<lambda>p q. snd (addPeer p q)) ps init_globals) p \<longleftrightarrow> p \<in> set ps"
proof (rule checkPeer_iff)
  have "peers_are [] init_globals" by (simp add: peers_are_def init_globals_def MAXQSOPEERS_def)
  from addPeers_are[OF this, of ps] assms(1)
  show "peers_are ps (fold (\<lambda>p q. snd (addPeer p q)) ps init_globals)" by simp
qed (use assms in auto)

theorem peer_database_exact_witness:
  "checkPeer (fold (\<lambda>p q. snd (addPeer p q)) [''SA0PRF'', ''G4XYZ''] init_globals) ''G4XYZ''
   \<and> \<not> checkPeer (fold (\<lambda>p q. snd (addPeer p q)) [''SA0PRF'', ''G4XYZ''] init_globals) ''F1ABC''"
proof -
  let ?ps = "[''SA0PRF'', ''G4XYZ'']"
  have c: "std_call ''SA0PRF''" "std_call ''G4XYZ''" "std_call ''F1ABC''"
    by (simp_all add: std_call_def call_char_def isdigit_c_def code_def)
  have l: "length ?ps < MAXQSOPEERS" "\<forall>p \<in> set ?ps. std_call p" using c by (simp_all add: MAXQSOPEERS_def)
  show ?thesis
    unfolding peer_database_exact[OF l c(2)] peer_database_exact[OF l c(3)] by simp
qed

text \<open>
  C33. The 512th new peer wraps the index to zero, and with it \<^verbatim>\<open>checkPeer\<close> forgets every station
  worked so far, the one just added included.
\<close>

theorem peer_database_wraps_empty:
  assumes "peersIdx q = MAXQSOPEERS - 1" "\<not> checkPeer q p"
  shows "\<not> checkPeer (snd (addPeer p q)) p'"
  using assms by (simp add: addPeer_def checkPeer_def MAXQSOPEERS_def)

theorem peer_database_wraps_empty_witness:
  "\<not> checkPeer (snd (addPeer ''SA0PRF'' (init_globals\<lparr>peersIdx := 511\<rparr>))) ''SA0PRF''"
proof (rule peer_database_wraps_empty)
  have "std_call ''SA0PRF''" by (simp add: std_call_def call_char_def isdigit_c_def code_def)
  moreover have "0 < b36 ''SA0PRF''" by (simp add: b36_def dig36_def code_def)
  ultimately have "hashCallId ''SA0PRF'' \<noteq> 0"
    using hash_std[of "''SA0PRF''"] by (auto simp: word_of_nat_eq_0_iff)
  then show "\<not> checkPeer (init_globals\<lparr>peersIdx := 511\<rparr>) ''SA0PRF''"
    by (auto simp: checkPeer_def init_globals_def dest!: in_set_takeD)
qed (simp add: MAXQSOPEERS_def)

subsection \<open>The two exchanges\<close>

text \<open>What a turn that only transmits leaves alone.\<close>

definition same_base :: "qso \<Rightarrow> qso \<Rightarrow> bool" where
  "same_base q q' \<longleftrightarrow> currentQSO q' = currentQSO q \<and> ft8time q' = ft8time q \<and> ft8tick q' = ft8tick q
     \<and> peers q' = peers q \<and> peersIdx q' = peersIdx q \<and> files q' = files q \<and> autoCq q' = autoCq q
     \<and> autoCqReply q' = autoCqReply q \<and> autoQSO q' = autoQSO q \<and> activeSlot q' = activeSlot q
     \<and> adiFileName q' = adiFileName q"

lemma reply_turn:
  assumes "ft8tick q < ft8time q" "qsoState q \<in> {replyLoc, replySig, replyRR73, reply73}"
    "slot (currentQSO q) = activeSlot q" "\<not> autoCq q"
    "length (tx_text env q (reply_word env q (qsoState q))) < MAXMSGSIZE"
  shows "\<exists>q'. updateQsoMachine env (activeSlot q) q = Inr q' \<and> same_base q q'
     \<and> qsoState q' = (if qsoState q = reply73 then idle else qsoState q)
     \<and> map ft8Message (tx_queue q') =
         map ft8Message (tx_queue q) @ [tx_text env q (reply_word env q (qsoState q))]"
  using assms
  by (auto simp: updateQsoMachine_eq machine_reply_def handleTx_eq Let_def same_base_def queryCQ_def
      not_le[symmetric])

lemma idle_turn:
  assumes "qsoState q = idle" "\<not> autoCq q"
  shows "\<exists>q'. updateQsoMachine env s q = Inr q' \<and> qsoState q' = idle \<and> tx_queue q' = tx_queue q
     \<and> files q' = files q \<and> peers q' = peers q \<and> peersIdx q' = peersIdx q"
  using assms by (auto simp: updateQsoMachine_eq machine_reply_def handleTx_def queryCQ_def)

lemma short_text:
  assumes "short_call_msg m" "src (currentQSO q) = src m" "freq (currentQSO q) = freq m"
    "snr (currentQSO q) = snr m" "opts_ok (dec_options env)" "length (rcall (dec_options env)) \<le> 6"
  shows "length (tx_text env q (reply_word env q st)) < MAXMSGSIZE"
proof -
  have "length (int_dec (freq (currentQSO q))) \<le> 11" "length (src (currentQSO q)) \<le> 6"
    "length (reply_word env q st) \<le> 6"
    using assms int_dec_i32_length reply_word_length[of env q st] by (auto simp: short_call_msg_def)
  then show ?thesis using assms(6) by (simp add: tx_text_def MAXMSGSIZE_def)
qed

lemma tx_text_cong:
  "src (currentQSO q) = src (currentQSO q') \<Longrightarrow> freq (currentQSO q) = freq (currentQSO q') \<Longrightarrow>
   tx_text env q w = tx_text env q' w"
  by (simp add: tx_text_def)

text \<open>The text of a reply to \<open>m\<close>.\<close>

definition reply_to :: "qenv \<Rightarrow> plain_message \<Rightarrow> string \<Rightarrow> string" where
  "reply_to env m w = ''FT8Tx '' @ int_dec (freq m) @ '' '' @ src m @ '' '' @ rcall (dec_options env) @ '' '' @ w"

lemma tick_steps:
  assumes "unat (t :: u32) + 16 < 2 ^ 32"
  shows "t + 1 < t + 1 + 8" "t + 1 + 1 < t + 1 + 8" "t + 1 + 1 + 1 < t + 1 + 8"
  using assms by (simp_all add: word_less_nat_alt unat_word_ariths)

lemma ticked_simps [simp]:
  "qsoState (ticked ms q) = qsoState q" "currentQSO (ticked ms q) = currentQSO q"
  "ft8time (ticked ms q) = ft8time q" "ft8tick (ticked ms q) = ft8tick q + 1"
  "peers (ticked ms q) = peers q" "peersIdx (ticked ms q) = peersIdx q"
  "tx_queue (ticked ms q) = tx_queue q" "files (ticked ms q) = files q"
  "autoCq (ticked ms q) = autoCq q" "autoCqReply (ticked ms q) = autoCqReply q"
  "autoQSO (ticked ms q) = autoQSO q" "activeSlot (ticked ms q) = activeSlot q"
  "adiFileName (ticked ms q) = adiFileName q" "checkPeer (ticked ms q) = checkPeer q"
  by (simp_all add: ticked_def checkPeer_def fun_eq_iff)

text \<open>What holds of the handler in the middle of a contact with the sender of \<open>m\<close>, in its \<open>n\<close>-th slot.\<close>

definition in_contact :: "qso \<Rightarrow> plain_message \<Rightarrow> u32 \<Rightarrow> qso \<Rightarrow> bool" where
  "in_contact q0 m n q \<longleftrightarrow> src (currentQSO q) = src m \<and> freq (currentQSO q) = freq m
     \<and> snr (currentQSO q) = snr m \<and> slot (currentQSO q) = slot m \<and> tempus (currentQSO q) = tempus m
     \<and> ft8time q = ft8tick q0 + 1 + 8 \<and> ft8tick q = n \<and> peers q = peers q0 \<and> peersIdx q = peersIdx q0
     \<and> files q = files q0 \<and> \<not> autoCq q \<and> autoQSO q \<and> activeSlot q = activeSlot q0
     \<and> adiFileName q = adiFileName q0"

lemma in_contact_step:
  assumes "in_contact q0 m n q" "n < ft8tick q0 + 1 + 8"
    "qsoState q \<in> {replyLoc, replySig, replyRR73, reply73}" "slot m = activeSlot q0"
    "short_call_msg m" "opts_ok (dec_options env)" "length (rcall (dec_options env)) \<le> 6"
  shows "\<exists>q'. updateQsoMachine env (activeSlot q0) q = Inr q' \<and> in_contact q0 m n q'
     \<and> qsoState q' = (if qsoState q = reply73 then idle else qsoState q)
     \<and> map ft8Message (tx_queue q') =
         map ft8Message (tx_queue q) @ [reply_to env m (reply_word env q (qsoState q))]"
proof -
  have a: "activeSlot q = activeSlot q0" "ft8tick q < ft8time q" "slot (currentQSO q) = activeSlot q" "\<not> autoCq q"
    using assms(1,2,4) by (simp_all add: in_contact_def)
  have c: "src (currentQSO q) = src m" "freq (currentQSO q) = freq m" "snr (currentQSO q) = snr m"
    using assms(1) by (simp_all add: in_contact_def)
  have t: "tx_text env q w = reply_to env m w" for w using c by (simp add: tx_text_def reply_to_def)
  from reply_turn[OF a(2) assms(3) a(3,4) short_text[OF assms(5) c assms(6,7)]] a(1) t
  obtain q' where "updateQsoMachine env (activeSlot q0) q = Inr q'" "same_base q q'"
    "qsoState q' = (if qsoState q = reply73 then idle else qsoState q)"
    "map ft8Message (tx_queue q') =
         map ft8Message (tx_queue q) @ [reply_to env m (reply_word env q (qsoState q))]"
    by auto
  moreover from \<open>same_base q q'\<close> assms(1) have "in_contact q0 m n q'"
    by (simp add: in_contact_def same_base_def)
  ultimately show ?thesis by blast
qed

text \<open>A message of the peer that moves the contact without ending it.\<close>

lemma in_contact_message:
  assumes "in_contact q0 m n q" "qsoState q \<noteq> idle" "src m' = src m" "slot m' = activeSlot q0"
    "dest m' = rcall (dec_options env)" "rcall (dec_options env) \<noteq> ''CQ''"
    "parseMsg (message m') \<in> {locMsg, sigMsg}"
  defines "q' \<equiv> (fold (dispatch env) [m'] (ticked [m'] q))\<lparr>qsoh_queue := []\<rparr>"
  shows "in_contact q0 m (n + 1) q' \<and> tx_queue q' = tx_queue q
     \<and> qsoState q' = (if parseMsg (message m') = sigMsg \<and> qsoState q = replySig then replyRR73 else replySig)"
  using assms
  by (auto simp: in_contact_def dispatch_def addQso_def Let_def)

lemma adi_record_cong:
  "src a = src b \<Longrightarrow> freq a = freq b \<Longrightarrow> tempus a = tempus b \<Longrightarrow> adi_record env a = adi_record env b"
  by (simp add: adi_record_def)

lemma rr73_completes:
  assumes c: "in_contact q m n q2" "qsoState q2 = replySig"
    and m3: "dest m3 = rcall (dec_options env)" "src m3 = src m" "slot m3 = slot m" "slot m = activeSlot q"
      "parseMsg (message m3) = RR73Msg" "dest m3 \<noteq> ''CQ''"
    and peers: "\<not> checkPeer q (src m)" "peersIdx q + 1 < MAXQSOPEERS" "length (peers q) = MAXQSOPEERS"
    and log: "can_open env (adiFileName q)"
  defines "a3 \<equiv> (fold (dispatch env) [m3] (ticked [m3] q2))\<lparr>qsoh_queue := []\<rparr>"
  shows "qsoState a3 = reply73" "src (currentQSO a3) = src m" "freq (currentQSO a3) = freq m"
    "snr (currentQSO a3) = snr m" "slot (currentQSO a3) = activeSlot a3" "activeSlot a3 = slot m" "\<not> autoCq a3"
    "ft8tick a3 = n + 1" "ft8time a3 = ft8tick q + 1 + 8" "tx_queue a3 = tx_queue q2" "checkPeer a3 (src m)"
    "files a3 (adiFileName q) = Some ((case files q (adiFileName q) of None \<Rightarrow> [] | Some t \<Rightarrow> t) @ adi_record env m)"
proof -
  have base: "src (currentQSO q2) = src m" "freq (currentQSO q2) = freq m" "slot (currentQSO q2) = slot m"
    "tempus (currentQSO q2) = tempus m" "snr (currentQSO q2) = snr m" "ft8time q2 = ft8tick q + 1 + 8" "ft8tick q2 = n"
    "peers q2 = peers q" "peersIdx q2 = peersIdx q" "files q2 = files q" "\<not> autoCq q2" "autoQSO q2"
    "activeSlot q2 = slot m" "adiFileName q2 = adiFileName q"
    using c(1) m3(4) by (simp_all add: in_contact_def)
  show "qsoState a3 = reply73" "src (currentQSO a3) = src m" "freq (currentQSO a3) = freq m"
    "snr (currentQSO a3) = snr m" "slot (currentQSO a3) = activeSlot a3" "activeSlot a3 = slot m" "\<not> autoCq a3"
    "ft8tick a3 = n + 1" "ft8time a3 = ft8tick q + 1 + 8" "tx_queue a3 = tx_queue q2"
    using m3 base c(2) by (simp_all add: a3_def dispatch_def addQso_def Let_def)
  show "files a3 (adiFileName q) = Some ((case files q (adiFileName q) of None \<Rightarrow> [] | Some t \<Rightarrow> t) @ adi_record env m)"
    using m3 base c(2) log adi_record_cong[of "(currentQSO q2)\<lparr>message := message m3\<rparr>" m env]
    by (simp add: a3_def dispatch_def addQso_def Let_def logToAdi_def append_file_def)
  show "checkPeer a3 (src m)"
    using peers m3 base c(2)
    by (simp add: a3_def dispatch_def addQso_def Let_def addPeer_def checkPeer_def take_Suc_conv_app_nth)
qed

text \<open>
  C1. Answering a CQ completes and is recorded: a CQ, a report and an RR73 from one new station,
  each in its slot, make an idle handler send its locator, its report and 73, in this order and
  nothing else, append one ADIF record, remember the station and end idle.
\<close>

theorem answered_cq_completes:
  assumes "qsoState q = idle" "autoCqReply q" "autoQSO q" "\<not> autoCq q" "\<not> checkPeer q (src m1)"
    and "unat (ft8tick q) + 16 < 2 ^ 32" "peersIdx q + 1 < MAXQSOPEERS" "length (peers q) = MAXQSOPEERS"
    and "dest m1 = ''CQ''" "dest m2 = rcall (dec_options env)" "dest m3 = rcall (dec_options env)"
    and "src m2 = src m1" "src m3 = src m1" "slot m1 = s" "slot m2 = s" "slot m3 = s" "s = activeSlot q"
    and "parseMsg (message m2) = sigMsg" "parseMsg (message m3) = RR73Msg"
    and "short_call_msg m1" "opts_ok (dec_options env)" "length (rcall (dec_options env)) \<le> 6"
    and "rcall (dec_options env) \<noteq> ''CQ''" "can_open env (adiFileName q)"
  shows "\<exists>q'. rounds env [(s, [m1]), (s, [m2]), (s, [m3])] q = Inr q' \<and> qsoState q' = idle
    \<and> map ft8Message (tx_queue q') = map ft8Message (tx_queue q) @
        [reply_to env m1 (rloc (dec_options env)), reply_to env m1 (level_text (snr m1)), reply_to env m1 ''73'']
    \<and> checkPeer q' (src m1)
    \<and> files q' (adiFileName q) = Some ((case files q (adiFileName q) of None \<Rightarrow> [] | Some t \<Rightarrow> t)
        @ adi_record env m1)"
proof -
  note tm = tick_steps[OF assms(6)]
  note sh = assms(20-22)
  define a1 where "a1 = (fold (dispatch env) [m1] (ticked [m1] q))\<lparr>qsoh_queue := []\<rparr>"
  have a1: "in_contact q m1 (ft8tick q + 1) a1" "qsoState a1 = replyLoc" "tx_queue a1 = tx_queue q"
    using assms by (simp_all add: a1_def dispatch_def addCQ_def in_contact_def MAXQSOLIFETIME_def)
  obtain q1 where q1: "updateQsoMachine env s a1 = Inr q1" "in_contact q m1 (ft8tick q + 1) q1"
    "qsoState q1 = replyLoc" "map ft8Message (tx_queue q1) =
         map ft8Message (tx_queue q) @ [reply_to env m1 (rloc (dec_options env))]"
    using in_contact_step[OF a1(1) tm(1), of env] a1 sh assms(14,17) by auto
  define a2 where "a2 = (fold (dispatch env) [m2] (ticked [m2] q1))\<lparr>qsoh_queue := []\<rparr>"
  have a2: "in_contact q m1 (ft8tick q + 1 + 1) a2" "qsoState a2 = replySig" "tx_queue a2 = tx_queue q1"
    using in_contact_message[OF q1(2), of m2 env] q1(3) assms by (simp_all add: a2_def)
  have snr2: "snr (currentQSO a2) = snr m1" using a2(1) by (simp add: in_contact_def)
  obtain q2 where q2: "updateQsoMachine env s a2 = Inr q2" "in_contact q m1 (ft8tick q + 1 + 1) q2"
    "qsoState q2 = replySig" "map ft8Message (tx_queue q2) =
         map ft8Message (tx_queue q1) @ [reply_to env m1 (level_text (snr m1))]"
    using in_contact_step[OF a2(1) tm(2), of env] a2 sh assms(14,17) snr2 by auto
  define a3 where "a3 = (fold (dispatch env) [m3] (ticked [m3] q2))\<lparr>qsoh_queue := []\<rparr>"
  have m3: "dest m3 = rcall (dec_options env)" "src m3 = src m1" "slot m3 = slot m1" "slot m1 = activeSlot q"
    "parseMsg (message m3) = RR73Msg" "dest m3 \<noteq> ''CQ''" using assms by simp_all
  note a3 = rr73_completes[OF q2(2,3) m3 assms(5,7,8,24), folded a3_def]
  have "reply_word env a3 (qsoState a3) = ''73''" by (simp add: a3(1))
  moreover have "tx_text env a3 w = reply_to env m1 w" for w by (simp add: tx_text_def reply_to_def a3)
  ultimately obtain q3 where q3: "updateQsoMachine env s a3 = Inr q3" "same_base a3 q3" "qsoState q3 = idle"
    "map ft8Message (tx_queue q3) = map ft8Message (tx_queue q2) @ [reply_to env m1 ''73'']"
    using reply_turn[of a3 env, OF _ _ a3(5,7) short_text[OF sh(1) a3(2-4) sh(2,3)]] tm(3) a3 assms(14) by auto
  have "rounds env [(s, [m1]), (s, [m2]), (s, [m3])] q = Inr q3"
    using q1(1) q2(1) q3(1) unfolding a1_def a2_def a3_def by (simp add: rounds_Cons)
  moreover have "checkPeer q3 (src m1)" "files q3 (adiFileName q) = files a3 (adiFileName q)"
    using a3(11) q3(2) by (simp_all add: same_base_def checkPeer_def)
  ultimately show ?thesis using a3(12) q3(3,4) q2(4) q1(4) a2(3) by auto
qed

theorem answered_cq_completes_witness:
  "\<exists>q'. rounds demo_env
      [(even_slot, [demo_msg ''F1ABC'' ''CQ'' ''JN99'']), (even_slot, [demo_msg ''F1ABC'' ''SA0PRF'' ''-07'']),
       (even_slot, [demo_msg ''F1ABC'' ''SA0PRF'' ''RR73''])] (demo_qso idle\<lparr>autoCq := False\<rparr>) = Inr q'
    \<and> qsoState q' = idle \<and> map ft8Message (tx_queue q') =
        [''FT8Tx 14075000 F1ABC SA0PRF JO99'', ''FT8Tx 14075000 F1ABC SA0PRF -07'',
         ''FT8Tx 14075000 F1ABC SA0PRF 73'']"
proof -
  let ?q = "demo_qso idle\<lparr>autoCq := False\<rparr>"
  let ?m = "\<lambda>d t. demo_msg ''F1ABC'' d t"
  have e: "rcall (dec_options demo_env) = ''SA0PRF''" "rloc (dec_options demo_env) = ''JO99''"
    "opts_ok (dec_options demo_env)" "can_open demo_env n" for n
    by (simp_all add: demo_env_def opts_ok_def)
  have q: "qsoState ?q = idle" "autoCqReply ?q" "autoQSO ?q" "\<not> autoCq ?q" "peersIdx ?q = 0"
    "length (peers ?q) = MAXQSOPEERS" "ft8tick ?q = 5" "activeSlot ?q = even_slot" "tx_queue ?q = []"
    by (simp_all add: demo_qso_def init_globals_def)
  then have "\<not> checkPeer ?q (src (?m ''CQ'' ''JN99''))" by (simp add: checkPeer_def)
  have m: "src (?m d t) = ''F1ABC''" "dest (?m d t) = d" "message (?m d t) = t" "slot (?m d t) = even_slot"
    "short_call_msg (?m d t)" for d t
    by (simp_all add: demo_msg_def short_call_msg_def)
  have r: "reply_to demo_env (?m d t) w = ''FT8Tx 14075000 F1ABC SA0PRF '' @ w"
    "level_text (snr (?m d t)) = ''-07''" for d t w
    by (simp_all add: reply_to_def demo_msg_def demo_env_def level_text_def dec_eval)
  from answered_cq_completes[of ?q "?m ''CQ'' ''JN99''" "?m ''SA0PRF'' ''-07''" demo_env
      "?m ''SA0PRF'' ''RR73''" even_slot] e q m r
  show ?thesis by (auto simp: checkPeer_def MAXQSOPEERS_def demo_parse)
qed

text \<open>
  C18. The contacts the own CQ starts are never recorded: a locator, an R-report and the final 73
  of a new station make the handler send its report and RR73, but the 73 only resets the machine.
  No ADIF record is written, and the station is not remembered, so it can be worked again.
\<close>

theorem own_cq_contact_not_logged:
  assumes "qsoState q = idle" "autoQSO q" "\<not> autoCq q" "\<not> checkPeer q (src m1)"
    and "unat (ft8tick q) + 16 < 2 ^ 32"
    and "dest m1 = rcall (dec_options env)" "dest m2 = rcall (dec_options env)" "dest m3 = rcall (dec_options env)"
    and "src m2 = src m1" "src m3 = src m1" "slot m1 = s" "slot m2 = s" "slot m3 = s" "s = activeSlot q"
    and "parseMsg (message m1) = locMsg" "parseMsg (message m2) = sigMsg" "parseMsg (message m3) = s73Msg"
    and "short_call_msg m1" "opts_ok (dec_options env)" "length (rcall (dec_options env)) \<le> 6"
    and "rcall (dec_options env) \<noteq> ''CQ''"
  shows "\<exists>q'. rounds env [(s, [m1]), (s, [m2]), (s, [m3])] q = Inr q' \<and> qsoState q' = idle
    \<and> map ft8Message (tx_queue q') = map ft8Message (tx_queue q) @
        [reply_to env m1 (level_text (snr m1)), reply_to env m1 ''RR73'']
    \<and> files q' = files q \<and> peers q' = peers q \<and> \<not> checkPeer q' (src m1)"
proof -
  note tm = tick_steps[OF assms(5)]
  note sh = assms(18-20)
  define a1 where "a1 = (fold (dispatch env) [m1] (ticked [m1] q))\<lparr>qsoh_queue := []\<rparr>"
  have a1: "in_contact q m1 (ft8tick q + 1) a1" "qsoState a1 = replySig" "tx_queue a1 = tx_queue q"
    using assms by (simp_all add: a1_def dispatch_def addQso_def in_contact_def MAXQSOLIFETIME_def)
  have snr1: "snr (currentQSO a1) = snr m1" using a1(1) by (simp add: in_contact_def)
  obtain q1 where q1: "updateQsoMachine env s a1 = Inr q1" "in_contact q m1 (ft8tick q + 1) q1"
    "qsoState q1 = replySig" "map ft8Message (tx_queue q1) =
         map ft8Message (tx_queue q) @ [reply_to env m1 (level_text (snr m1))]"
    using in_contact_step[OF a1(1) tm(1), of env] a1 sh assms(11,14) snr1 by auto
  define a2 where "a2 = (fold (dispatch env) [m2] (ticked [m2] q1))\<lparr>qsoh_queue := []\<rparr>"
  have a2: "in_contact q m1 (ft8tick q + 1 + 1) a2" "qsoState a2 = replyRR73" "tx_queue a2 = tx_queue q1"
    using in_contact_message[OF q1(2), of m2 env] q1(3) assms by (simp_all add: a2_def)
  obtain q2 where q2: "updateQsoMachine env s a2 = Inr q2" "in_contact q m1 (ft8tick q + 1 + 1) q2"
    "qsoState q2 = replyRR73" "map ft8Message (tx_queue q2) =
         map ft8Message (tx_queue q1) @ [reply_to env m1 ''RR73'']"
    using in_contact_step[OF a2(1) tm(2), of env] a2 sh assms(11,14) by auto
  define a3 where "a3 = (fold (dispatch env) [m3] (ticked [m3] q2))\<lparr>qsoh_queue := []\<rparr>"
  have a3: "qsoState a3 = idle" "\<not> autoCq a3" "tx_queue a3 = tx_queue q2" "files a3 = files q"
    "peers a3 = peers q" "peersIdx a3 = peersIdx q"
    using assms(6-17) assms(21) q2(2,3)
    by (simp_all add: a3_def dispatch_def addQso_def Let_def in_contact_def)
  obtain q3 where q3: "updateQsoMachine env s a3 = Inr q3" "qsoState q3 = idle" "tx_queue q3 = tx_queue q2"
    "files q3 = files q" "peers q3 = peers q" "peersIdx q3 = peersIdx q"
    using idle_turn[OF a3(1,2)] a3(3-6) by metis
  have "rounds env [(s, [m1]), (s, [m2]), (s, [m3])] q = Inr q3"
    using q1(1) q2(1) q3(1) unfolding a1_def a2_def a3_def by (simp add: rounds_Cons)
  with q3(2-6) q2(4) q1(4) a2(3) assms(4) show ?thesis by (auto simp: checkPeer_def)
qed

theorem own_cq_contact_not_logged_witness:
  "\<exists>q'. rounds demo_env
      [(even_slot, [demo_msg ''F1ABC'' ''SA0PRF'' ''JN99'']), (even_slot, [demo_msg ''F1ABC'' ''SA0PRF'' ''R-07'']),
       (even_slot, [demo_msg ''F1ABC'' ''SA0PRF'' ''73''])] (demo_qso idle\<lparr>autoCq := False\<rparr>) = Inr q'
    \<and> files q' = Map.empty \<and> \<not> checkPeer q' ''F1ABC''"
proof -
  let ?q = "demo_qso idle\<lparr>autoCq := False\<rparr>"
  let ?m = "\<lambda>t. demo_msg ''F1ABC'' ''SA0PRF'' t"
  have e: "rcall (dec_options demo_env) = ''SA0PRF''" "opts_ok (dec_options demo_env)"
    by (simp_all add: demo_env_def opts_ok_def)
  have q: "qsoState ?q = idle" "autoQSO ?q" "\<not> autoCq ?q" "peersIdx ?q = 0"
    "ft8tick ?q = 5" "activeSlot ?q = even_slot" "files ?q = Map.empty"
    by (simp_all add: demo_qso_def init_globals_def)
  have m: "src (?m t) = ''F1ABC''" "dest (?m t) = ''SA0PRF''" "message (?m t) = t" "slot (?m t) = even_slot"
    "short_call_msg (?m t)" for t
    by (simp_all add: demo_msg_def short_call_msg_def)
  from own_cq_contact_not_logged[of ?q "?m ''JN99''" demo_env "?m ''R-07''" "?m ''73''" even_slot] e q m
  show ?thesis by (auto simp: checkPeer_def demo_parse)
qed

end
