(* ===== verification/PskReporter.thy ===== *)
theory PskReporter
  imports FT8Types TSQueue
begin

text \<open>
  \<^verbatim>\<open>pskreporter.cpp\<close>, the IPFIX datagrams sent to pskreporter.info, and the uploader thread of
  \<^verbatim>\<open>rtlsdr_ft8d.cpp\<close> that fills them. A datagram is a list of bytes written through pointers; a
  store outside the allocated block is the error \<open>OutOfBounds\<close>. Time, the random identifier and
  the outcome of the network calls are parameters.
\<close>

subsection \<open>Writing bytes into a block\<close>

definition put :: "nat \<Rightarrow> u8 list \<Rightarrow> u8 list \<Rightarrow> u8 list result" where
  "put p bs buf =
     (if p + length bs \<le> length buf then Inr (take p buf @ bs @ drop (p + length bs) buf)
      else Inl (OutOfBounds (length buf) (p + length bs - 1)))"

definition byte_of :: "char \<Rightarrow> u8" where
  "byte_of c = of_nat (code c)"

text \<open>\<^verbatim>\<open>htons\<close> and \<^verbatim>\<open>htonl\<close> followed by the store: the big-endian bytes.\<close>

definition be16 :: "nat \<Rightarrow> u8 list" where
  "be16 n = [of_nat (n div 256), of_nat n]"

definition be32 :: "u32 \<Rightarrow> u8 list" where
  "be32 w = [of_nat (unat w div 16777216), of_nat (unat w div 65536), of_nat (unat w div 256), of_nat (unat w)]"

lemma be_length [simp]: "length (be16 n) = 2" "length (be32 w) = 4"
  by (simp_all add: be16_def be32_def)

subsection \<open>The reporter\<close>

record SenderRecord =
  callsign :: string
  frequency :: u32
  s_snr :: u8
  s_mode :: string
  infoSource :: u8
  flowTimeSeconds :: u32

record PskReporter =
  currentSequenceNumber :: u32
  randomIdentifier :: u32
  receiverCallsign :: string
  receiverGridSquare :: string
  decodingSoftware :: string
  recordList :: "SenderRecord list"

definition rxFormatHeader :: "u8 list" where
  "rxFormatHeader =
    [0x00, 0x03, 0x00, 0x24, 0x99, 0x92, 0x00, 0x03, 0x00, 0x00,
     0x80, 0x02, 0xFF, 0xFF, 0x00, 0x00, 0x76, 0x8F,
     0x80, 0x04, 0xFF, 0xFF, 0x00, 0x00, 0x76, 0x8F,
     0x80, 0x08, 0xFF, 0xFF, 0x00, 0x00, 0x76, 0x8F,
     0x00, 0x00]"

definition txFormatHeader :: "u8 list" where
  "txFormatHeader =
    [0x00, 0x02, 0x00, 0x34, 0x99, 0x93, 0x00, 0x06,
     0x80, 0x01, 0xFF, 0xFF, 0x00, 0x00, 0x76, 0x8F,
     0x80, 0x05, 0x00, 0x04, 0x00, 0x00, 0x76, 0x8F,
     0x80, 0x06, 0x00, 0x01, 0x00, 0x00, 0x76, 0x8F,
     0x80, 0x0A, 0xFF, 0xFF, 0x00, 0x00, 0x76, 0x8F,
     0x80, 0x0B, 0x00, 0x01, 0x00, 0x00, 0x76, 0x8F,
     0x00, 0x96, 0x00, 0x04]"

definition mkSenderRecord :: "u32 \<Rightarrow> string \<Rightarrow> u32 \<Rightarrow> u8 \<Rightarrow> SenderRecord" where
  "mkSenderRecord now c f s =
     \<lparr>callsign = c, frequency = f, s_snr = s, s_mode = ''FT8'', infoSource = 1, flowTimeSeconds = now\<rparr>"

definition recordSize :: "SenderRecord \<Rightarrow> nat" where
  "recordSize r = (1 + length (callsign r)) + 4 + 1 + (1 + length (s_mode r)) + 1 + 4"

text \<open>\<^verbatim>\<open>SenderRecord::encode\<close> with \<^verbatim>\<open>buf\<close> pointing at offset \<open>p\<close> of the block.\<close>

definition encode_record :: "SenderRecord \<Rightarrow> nat \<Rightarrow> u8 list \<Rightarrow> u8 list result" where
  "encode_record r p buf =
     rbind (put p [of_nat (length (callsign r))] buf) (\<lambda>buf.
     rbind (put (p + 1) (map byte_of (callsign r)) buf) (\<lambda>buf.
     let p = p + (1 + length (callsign r)) in
     rbind (put p (be32 (frequency r)) buf) (\<lambda>buf.
     let p = p + 4 in
     rbind (put p [s_snr r] buf) (\<lambda>buf.
     let p = p + 1 in
     rbind (put p [of_nat (length (s_mode r))] buf) (\<lambda>buf.
     rbind (put (p + 1) (map byte_of (s_mode r)) buf) (\<lambda>buf.
     let p = p + (1 + length (s_mode r)) in
     rbind (put p [infoSource r] buf) (\<lambda>buf.
     put (p + 1) (be32 (flowTimeSeconds r)) buf)))))))"

definition newPskReporter :: "u32 \<Rightarrow> string \<Rightarrow> string \<Rightarrow> string \<Rightarrow> PskReporter" where
  "newPskReporter rnd c g s =
     \<lparr>currentSequenceNumber = 0, randomIdentifier = rnd, receiverCallsign = c, receiverGridSquare = g,
      decodingSoftware = s, recordList = []\<rparr>"

definition addReceiveRecord :: "u32 \<Rightarrow> string \<Rightarrow> u32 \<Rightarrow> u8 \<Rightarrow> PskReporter \<Rightarrow> PskReporter" where
  "addReceiveRecord now c f s r = r\<lparr>recordList := recordList r @ [mkSenderRecord now c f s]\<rparr>"

definition pad4 :: "nat \<Rightarrow> nat" where
  "pad4 n = (if 0 < n mod 4 then n + (4 - n mod 4) else n)"

definition getRxDataSize :: "PskReporter \<Rightarrow> nat" where
  "getRxDataSize r = pad4 (4 + (1 + length (receiverCallsign r)) + (1 + length (receiverGridSquare r))
     + (1 + length (decodingSoftware r)))"

definition getTxDataSize :: "PskReporter \<Rightarrow> nat" where
  "getTxDataSize r = (if recordList r = [] then 0
     else pad4 (foldl (\<lambda>n item. n + recordSize item) 4 (recordList r)))"

definition encodeReceiverRecord :: "PskReporter \<Rightarrow> nat \<Rightarrow> u8 list \<Rightarrow> u8 list result" where
  "encodeReceiverRecord r p buf =
     rbind (put p [0x99] buf) (\<lambda>buf.
     rbind (put (p + 1) [0x92] buf) (\<lambda>buf.
     rbind (put (p + 2) (be16 (getRxDataSize r)) buf) (\<lambda>buf.
     let p = p + 2 + 2 in
     rbind (put p [of_nat (length (receiverCallsign r))] buf) (\<lambda>buf.
     rbind (put (p + 1) (map byte_of (receiverCallsign r)) buf) (\<lambda>buf.
     let p = p + (1 + length (receiverCallsign r)) in
     rbind (put p [of_nat (length (receiverGridSquare r))] buf) (\<lambda>buf.
     rbind (put (p + 1) (map byte_of (receiverGridSquare r)) buf) (\<lambda>buf.
     let p = p + (1 + length (receiverGridSquare r)) in
     rbind (put p [of_nat (length (decodingSoftware r))] buf) (\<lambda>buf.
     put (p + 1) (map byte_of (decodingSoftware r)) buf))))))))"

fun encode_records :: "SenderRecord list \<Rightarrow> nat \<Rightarrow> u8 list \<Rightarrow> u8 list result" where
  "encode_records [] p buf = Inr buf"
| "encode_records (r # rs) p buf =
     rbind (encode_record r p buf) (encode_records rs (p + recordSize r))"

definition encodeSenderRecords :: "PskReporter \<Rightarrow> nat \<Rightarrow> u8 list \<Rightarrow> u8 list result" where
  "encodeSenderRecords r p buf =
     (if recordList r = [] then Inr buf
      else
        rbind (put p [0x99] buf) (\<lambda>buf.
        rbind (put (p + 1) [0x93] buf) (\<lambda>buf.
        rbind (put (p + 2) (be16 (getTxDataSize r)) buf) (\<lambda>buf.
        encode_records (recordList r) (p + 2 + 2) buf))))"

text \<open>The outcomes of \<^verbatim>\<open>getaddrinfo\<close>, \<^verbatim>\<open>socket\<close> and \<^verbatim>\<open>sendto\<close>.\<close>

datatype net = NoAddress | NoSocket | SendFails | Delivered

definition dgSize :: "PskReporter \<Rightarrow> nat" where
  "dgSize r =
     (let n = 16 + length rxFormatHeader + length txFormatHeader + getRxDataSize r + getTxDataSize r
      in if getTxDataSize r = 0 then n - length txFormatHeader else n)"

text \<open>
  \<^verbatim>\<open>PskReporter::send\<close>: the datagram it built, the boolean it returns, and the reporter afterwards.
\<close>

definition send :: "u32 \<Rightarrow> net \<Rightarrow> PskReporter \<Rightarrow> (u8 list \<times> bool \<times> PskReporter) result" where
  "send now nt r =
     (let packet = replicate (dgSize r) 0 in
     rbind (put 0 [0x00] packet) (\<lambda>packet.
     rbind (put 1 [0x0A] packet) (\<lambda>packet.
     rbind (put 2 (be16 (dgSize r)) packet) (\<lambda>packet.
     let p = 2 + 2 in
     rbind (put p (be32 now) packet) (\<lambda>packet.
     let p = p + 4 in
     rbind (put p (be32 (currentSequenceNumber r)) packet) (\<lambda>packet.
     let r = r\<lparr>currentSequenceNumber := currentSequenceNumber r + 1\<rparr>; p = p + 4 in
     rbind (put p (be32 (randomIdentifier r)) packet) (\<lambda>packet.
     let p = p + 4 in
     rbind (put p rxFormatHeader packet) (\<lambda>packet.
     let p = p + length rxFormatHeader in
     rbind (if 0 < getTxDataSize r then put p txFormatHeader packet else Inr packet) (\<lambda>packet.
     let p = (if 0 < getTxDataSize r then p + length txFormatHeader else p) in
     rbind (encodeReceiverRecord r p packet) (\<lambda>packet.
     let p = p + getRxDataSize r in
     rbind (encodeSenderRecords r p packet) (\<lambda>packet.
     Inr (packet, nt = Delivered, r\<lparr>recordList := []\<rparr>))))))))))))"

subsection \<open>The uploader\<close>

definition MAX_REPORTS_PER_PACKET :: nat where "MAX_REPORTS_PER_PACKET = 64"

text \<open>
  The drain loop of \<^verbatim>\<open>pskUploader\<close> over any reporter: \<open>s\<close> is the reporter's state, \<open>out\<close> what was
  handed to the network, \<open>n\<close> the variable \<^verbatim>\<open>inPacket\<close> and \<open>any\<close> the flag \<^verbatim>\<open>anyInPacket\<close>.
\<close>

fun upload_loop :: "('d \<Rightarrow> 's \<Rightarrow> 's) \<Rightarrow> ('s \<Rightarrow> ('p \<times> 's) result) \<Rightarrow> 'd list \<Rightarrow> nat \<Rightarrow> bool \<Rightarrow> 's
    \<Rightarrow> ('p list \<times> 's) result" where
  "upload_loop add flush [] n any s =
     (if any then rbind (flush s) (\<lambda>(p, s). Inr ([p], s)) else Inr ([], s))"
| "upload_loop add flush (dr # q) n any s =
     (let s = add dr s; n = n + 1 in
      if MAX_REPORTS_PER_PACKET \<le> n then
        rbind (flush s) (\<lambda>(p, s). rbind (upload_loop add flush q 0 False s) (\<lambda>(ps, s). Inr (p # ps, s)))
      else upload_loop add flush q n True s)"

text \<open>
  One round of the thread after its wait of a minute: the reports queued at that time are drained;
  without reporting, or without a reporter, they are discarded. The result is the datagrams with
  what \<^verbatim>\<open>send\<close> returned for each, the reporter and the emptied queue. \<open>clock\<close> is what \<^verbatim>\<open>time(0)\<close>
  reads and \<open>nets\<close> how the network calls end, by sequence number.
\<close>

definition add_result :: "(PskReporter \<Rightarrow> u32) \<Rightarrow> decoder_results \<Rightarrow> PskReporter \<Rightarrow> PskReporter" where
  "add_result clock dr r =
     addReceiveRecord (clock r) (r_call dr) (word_of_int (r_freq dr)) (word_of_int (r_snr dr)) r"

definition flush_packet ::
  "(PskReporter \<Rightarrow> u32) \<Rightarrow> (u32 \<Rightarrow> net) \<Rightarrow> PskReporter \<Rightarrow> ((u8 list \<times> bool) \<times> PskReporter) result" where
  "flush_packet clock nets r =
     rbind (send (clock r) (nets (currentSequenceNumber r)) r) (\<lambda>(p, b, r). Inr ((p, b), r))"

definition pskUploader_round ::
  "(PskReporter \<Rightarrow> u32) \<Rightarrow> (u32 \<Rightarrow> net) \<Rightarrow> bool \<Rightarrow> decoder_results list \<Rightarrow> PskReporter option
     \<Rightarrow> ((u8 list \<times> bool) list \<times> PskReporter option \<times> decoder_results list) result" where
  "pskUploader_round clock nets noreport q rep =
     (case rep of
        None \<Rightarrow> Inr ([], rep, [])
      | Some r \<Rightarrow>
          if noreport then Inr ([], rep, [])
          else rbind (upload_loop (add_result clock) (flush_packet clock nets) q 0 False r)
                 (\<lambda>(ps, r). Inr (ps, Some r, [])))"

text \<open>\<^verbatim>\<open>postSpots\<close>: \<open>junk\<close> is the uninitialised local, \<open>results\<close> the array \<^verbatim>\<open>dec_results\<close>.\<close>

definition postSpots :: "bool \<Rightarrow> u32 \<Rightarrow> decoder_results \<Rightarrow> decoder_results list \<Rightarrow> nat
    \<Rightarrow> decoder_results list \<Rightarrow> decoder_results list result" where
  "postSpots noreport dial junk results n queue =
     (if noreport then Inr queue
      else if length results < n then Inl (OutOfBounds (length results) (length results))
      else Inr (fold (\<lambda>r q. tsq_push q
              (junk\<lparr>r_call := snprintf_s 13 (take 12 (r_call r)),
                    r_freq := sint (word_of_int (r_freq r) + dial), r_snr := r_snr r\<rparr>))
            (take n results) queue))"

subsection \<open>What an IPFIX collector reads\<close>

definition get16 :: "u8 \<Rightarrow> u8 \<Rightarrow> nat" where
  "get16 a b = unat a * 256 + unat b"

definition get32 :: "u8 \<Rightarrow> u8 \<Rightarrow> u8 \<Rightarrow> u8 \<Rightarrow> u32" where
  "get32 a b c d = of_nat (unat a * 16777216 + unat b * 65536 + unat c * 256 + unat d)"

definition char_of_byte :: "u8 \<Rightarrow> char" where
  "char_of_byte b = char_of (unat b)"

text \<open>A field with a length byte in front, and the text behind it.\<close>

fun get_field :: "u8 list \<Rightarrow> (string \<times> u8 list) option" where
  "get_field [] = None"
| "get_field (n # bs) =
     (if length bs < unat n then None
      else Some (map char_of_byte (take (unat n) bs), drop (unat n) bs))"

definition get_report :: "u8 list \<Rightarrow> (SenderRecord \<times> u8 list) option" where
  "get_report bs =
     (case get_field bs of
        Some (c, f1 # f2 # f3 # f4 # s # bs) \<Rightarrow>
          (case get_field bs of
             Some (m, i # t1 # t2 # t3 # t4 # bs) \<Rightarrow>
               Some (\<lparr>callsign = c, frequency = get32 f1 f2 f3 f4, s_snr = s, s_mode = m, infoSource = i,
                      flowTimeSeconds = get32 t1 t2 t3 t4\<rparr>, bs)
           | _ \<Rightarrow> None)
      | _ \<Rightarrow> None)"

text \<open>Records up to the padding of less than a word; the fuel is the number of bytes.\<close>

fun get_reports :: "nat \<Rightarrow> u8 list \<Rightarrow> SenderRecord list option" where
  "get_reports 0 bs = (if length bs < 4 then Some [] else None)"
| "get_reports (Suc k) bs =
     (if length bs < 4 then Some []
      else case get_report bs of
             None \<Rightarrow> None
           | Some (r, bs) \<Rightarrow> map_option (Cons r) (get_reports k bs))"

text \<open>The data set that follows the templates, if it is the sender records' (\<^verbatim>\<open>0x9993\<close>).\<close>

definition collect :: "u8 list \<Rightarrow> SenderRecord list option" where
  "collect p =
     (if length p < 16 + 36 + 52 + 4 then None
      else
        let tx = drop (16 + 36 + 52) p; rxlen = get16 (tx ! 2) (tx ! 3); ds = drop rxlen tx
        in if get16 (p ! 2) (p ! 3) \<noteq> length p \<or> take 2 tx \<noteq> [0x99, 0x92] \<or> length ds < 4
              \<or> take 2 ds \<noteq> [0x99, 0x93] \<or> get16 (ds ! 2) (ds ! 3) \<noteq> length ds then None
           else get_reports (length ds) (drop 4 ds))"

end
