(* ===== verification/PskDatagram.thy ===== *)
theory PskDatagram
  imports PskReporter
begin

text \<open>
  Correctness of the reporter: every store of \<open>send\<close> is inside the block it allocated, the
  datagram is the concatenation its fields prescribe, a collector reads the reports back, and the
  uploader hands every queued report to exactly one datagram of at most 64. The uploader is proved
  once over the interface \<open>report_sink\<close>, which the reporter provides.
\<close>

subsection \<open>Blocks filled from the front\<close>

definition filled :: "u8 list \<Rightarrow> nat \<Rightarrow> u8 list" where
  "filled pre n = pre @ replicate n 0"

lemma put_filled [simp]:
  "p = length pre \<Longrightarrow> length bs \<le> n \<Longrightarrow> put p bs (filled pre n) = Inr (filled (pre @ bs) (n - length bs))"
  by (simp add: put_def filled_def)

lemma filled_skip: "k \<le> n \<Longrightarrow> filled pre n = filled (pre @ replicate k 0) (n - k)"
  by (simp add: filled_def flip: replicate_add)

lemma filled_0 [simp]: "filled pre 0 = pre"
  by (simp add: filled_def)

definition text_field :: "string \<Rightarrow> u8 list" where
  "text_field s = of_nat (length s) # map byte_of s"

definition record_bytes :: "SenderRecord \<Rightarrow> u8 list" where
  "record_bytes r = text_field (callsign r) @ be32 (frequency r) @ s_snr r # text_field (s_mode r)
     @ infoSource r # be32 (flowTimeSeconds r)"

lemma length_text_field [simp]: "length (text_field s) = Suc (length s)"
  by (simp add: text_field_def)

lemma length_record_bytes [simp]: "length (record_bytes r) = recordSize r"
  by (simp add: record_bytes_def recordSize_def)

lemma encode_record_filled [simp]:
  "p = length pre \<Longrightarrow> recordSize r \<le> n \<Longrightarrow>
   encode_record r p (filled pre n) = Inr (filled (pre @ record_bytes r) (n - recordSize r))"
  by (simp add: encode_record_def record_bytes_def text_field_def recordSize_def Let_def)

lemma encode_records_filled:
  "p = length pre \<Longrightarrow> sum_list (map recordSize rs) \<le> n \<Longrightarrow>
   encode_records rs p (filled pre n)
     = Inr (filled (pre @ concat (map record_bytes rs)) (n - sum_list (map recordSize rs)))"
proof (induction rs arbitrary: p pre n)
  case (Cons a rs)
  then have "encode_records rs (p + recordSize a) (filled (pre @ record_bytes a) (n - recordSize a))
      = Inr (filled ((pre @ record_bytes a) @ concat (map record_bytes rs))
          (n - recordSize a - sum_list (map recordSize rs)))"
    by (intro Cons.IH) simp_all
  with Cons.prems show ?case by simp
qed simp

subsection \<open>The datagram\<close>

definition padded :: "u8 list \<Rightarrow> u8 list" where
  "padded bs = bs @ replicate (pad4 (length bs) - length bs) 0"

lemma pad4_ge: "n \<le> pad4 n" and pad4_dvd: "4 dvd pad4 n" and pad4_less: "pad4 n < n + 4"
  unfolding pad4_def by presburger+

lemma length_padded [simp]: "length (padded bs) = pad4 (length bs)"
  using pad4_ge by (simp add: padded_def)

definition rx_set :: "PskReporter \<Rightarrow> u8 list" where
  "rx_set r = padded ([0x99, 0x92] @ be16 (getRxDataSize r) @ text_field (receiverCallsign r)
     @ text_field (receiverGridSquare r) @ text_field (decodingSoftware r))"

definition tx_set :: "PskReporter \<Rightarrow> u8 list" where
  "tx_set r = (if recordList r = [] then []
     else padded ([0x99, 0x93] @ be16 (getTxDataSize r) @ concat (map record_bytes (recordList r))))"

definition datagram :: "u32 \<Rightarrow> PskReporter \<Rightarrow> u8 list" where
  "datagram now r = [0x00, 0x0A] @ be16 (dgSize r) @ be32 now @ be32 (currentSequenceNumber r)
     @ be32 (randomIdentifier r) @ rxFormatHeader @ (if recordList r = [] then [] else txFormatHeader)
     @ rx_set r @ tx_set r"

lemma foldl_sizes: "foldl (\<lambda>n item. n + recordSize item) k rs = k + sum_list (map recordSize rs)"
  by (induction rs arbitrary: k) simp_all

lemma getTxDataSize_eq:
  "getTxDataSize r = (if recordList r = [] then 0 else pad4 (4 + sum_list (map recordSize (recordList r))))"
  by (simp add: getTxDataSize_def foldl_sizes)

lemma getTxDataSize_pos [simp]: "getTxDataSize r = 0 \<longleftrightarrow> recordList r = []" "0 < getTxDataSize r \<longleftrightarrow> recordList r \<noteq> []"
proof -
  have "4 \<le> pad4 (4 + n)" for n using pad4_ge[of "4 + n"] by linarith
  then have "0 < pad4 (4 + n)" for n by (metis not_numeral_le_zero not_gr_zero)
  then show "getTxDataSize r = 0 \<longleftrightarrow> recordList r = []" "0 < getTxDataSize r \<longleftrightarrow> recordList r \<noteq> []"
    by (simp_all add: getTxDataSize_eq)
qed

lemma length_headers [simp]: "length rxFormatHeader = 36" "length txFormatHeader = 52"
  by (simp_all add: rxFormatHeader_def txFormatHeader_def)

definition rx_bytes :: "PskReporter \<Rightarrow> u8 list" where
  "rx_bytes r = [0x99, 0x92] @ be16 (getRxDataSize r) @ text_field (receiverCallsign r)
     @ text_field (receiverGridSquare r) @ text_field (decodingSoftware r)"

lemma rx_set_eq: "rx_set r = padded (rx_bytes r)"
  by (simp add: rx_set_def rx_bytes_def)

lemma getRxDataSize_eq: "getRxDataSize r = pad4 (length (rx_bytes r))"
proof -
  have "length (rx_bytes r) = 4 + (1 + length (receiverCallsign r)) + (1 + length (receiverGridSquare r))
     + (1 + length (decodingSoftware r))" by (simp add: rx_bytes_def)
  then show ?thesis by (simp only: getRxDataSize_def)
qed

lemma length_records: "length (concat (map record_bytes rs)) = sum_list (map recordSize rs)"
  by (induction rs) simp_all

definition tx_bytes :: "PskReporter \<Rightarrow> u8 list" where
  "tx_bytes r = [0x99, 0x93] @ be16 (getTxDataSize r) @ concat (map record_bytes (recordList r))"

lemma length_tx_bytes: "length (tx_bytes r) = 4 + sum_list (map recordSize (recordList r))"
  using length_records[of "recordList r"] by (simp add: tx_bytes_def)

lemma tx_set_eq: "tx_set r = (if recordList r = [] then [] else padded (tx_bytes r))"
  by (simp add: tx_set_def tx_bytes_def)

lemma length_sets [simp]: "length (rx_set r) = getRxDataSize r" "length (tx_set r) = getTxDataSize r"
proof -
  show "length (rx_set r) = getRxDataSize r" by (simp add: rx_set_eq getRxDataSize_eq)
  show "length (tx_set r) = getTxDataSize r"
    by (cases "recordList r = []") (simp_all add: tx_set_eq getTxDataSize_eq length_tx_bytes)
qed

lemma dgSize_eq: "dgSize r = 16 + 36 + (if recordList r = [] then 0 else 52) + getRxDataSize r + getTxDataSize r"
  by (simp add: dgSize_def Let_def)

lemma length_datagram: "length (datagram now r) = dgSize r"
  by (simp add: datagram_def dgSize_eq)

lemma filled_padded:
  "length bs \<le> n \<Longrightarrow> pad4 (length bs) \<le> n \<Longrightarrow>
   filled (pre @ bs) (n - length bs) = filled (pre @ padded bs) (n - pad4 (length bs))"
  using filled_skip[of "pad4 (length bs) - length bs" "n - length bs" "pre @ bs"] pad4_ge[of "length bs"]
  by (simp add: padded_def)

lemma encodeReceiverRecord_filled [simp]:
  assumes "p = length pre" "getRxDataSize r \<le> n"
  shows "encodeReceiverRecord r p (filled pre n) = Inr (filled (pre @ rx_set r) (n - getRxDataSize r))"
proof -
  have n: "length (rx_bytes r) \<le> n" using assms(2) pad4_ge[of "length (rx_bytes r)"] by (simp add: getRxDataSize_eq)
  have "encodeReceiverRecord r p (filled pre n) = Inr (filled (pre @ rx_bytes r) (n - length (rx_bytes r)))"
    using assms(1) n by (simp add: encodeReceiverRecord_def rx_bytes_def text_field_def Let_def add.assoc)
  with n assms(2) show ?thesis by (simp add: filled_padded rx_set_eq getRxDataSize_eq)
qed

lemma encodeSenderRecords_filled [simp]:
  assumes "p = length pre" "getTxDataSize r \<le> n"
  shows "encodeSenderRecords r p (filled pre n) = Inr (filled (pre @ tx_set r) (n - getTxDataSize r))"
proof (cases "recordList r = []")
  case True
  then show ?thesis by (simp add: encodeSenderRecords_def tx_set_eq getTxDataSize_eq)
next
  case False
  then have sz: "getTxDataSize r = pad4 (length (tx_bytes r))" by (simp add: getTxDataSize_eq length_tx_bytes)
  then have n: "length (tx_bytes r) \<le> n" using assms(2) pad4_ge[of "length (tx_bytes r)"] by simp
  then have m: "4 + sum_list (map recordSize (recordList r)) \<le> n" by (simp add: length_tx_bytes)
  have "encodeSenderRecords r p (filled pre n) = Inr (filled (pre @ tx_bytes r) (n - length (tx_bytes r)))"
    using assms(1) m False by (simp add: encodeSenderRecords_def tx_bytes_def encode_records_filled length_records)
  with n assms(2) sz False show ?thesis by (simp add: filled_padded tx_set_eq)
qed

lemma send_eq:
  "send now nt r = Inr (datagram now r, nt = Delivered,
     r\<lparr>currentSequenceNumber := currentSequenceNumber r + 1, recordList := []\<rparr>)"
proof -
  let ?r = "r\<lparr>currentSequenceNumber := currentSequenceNumber r + 1\<rparr>"
  have e: "getRxDataSize ?r = getRxDataSize r" "getTxDataSize ?r = getTxDataSize r" "rx_set ?r = rx_set r"
    "tx_set ?r = tx_set r" "recordList ?r = recordList r"
    by (simp_all add: getRxDataSize_def getTxDataSize_def rx_set_def tx_set_def)
  have z: "replicate (dgSize r) 0 = filled [] (dgSize r)" by (simp add: filled_def)
  show ?thesis
    unfolding send_def z Let_def
    by (cases "recordList r = []") (simp_all add: e dgSize_eq datagram_def)
qed

text \<open>
  C30. \<^verbatim>\<open>PskReporter::send\<close> computes the size of the datagram it fills exactly: no store is outside the
  allocated block, whatever the texts and the number of reports; the block holds header, templates,
  the receiver set and the sender set, both padded to words; and the list of reports is cleared
  whether the network took the datagram or not.
\<close>

theorem send_in_bounds:
  "send now nt r = Inr (datagram now r, nt = Delivered,
     r\<lparr>currentSequenceNumber := currentSequenceNumber r + 1, recordList := []\<rparr>)
   \<and> length (datagram now r) = dgSize r \<and> 4 dvd dgSize r"
proof -
  have "4 dvd getRxDataSize r" "4 dvd getTxDataSize r"
    by (simp_all add: getRxDataSize_eq getTxDataSize_eq pad4_dvd)
  then have "4 dvd dgSize r" by (simp add: dgSize_eq)
  then show ?thesis using send_eq length_datagram by blast
qed

subsection \<open>The collector reads the reports back\<close>

lemma get16_be16: "n < 65536 \<Longrightarrow> get16 (of_nat (n div 256)) (of_nat n) = n"
proof -
  assume "n < 65536"
  then have "n div 256 < 256" by auto
  then show ?thesis by (simp add: get16_def unat_of_nat take_bit_eq_mod)
qed

lemma bytes_sum:
  assumes "n < (4294967296 :: nat)"
  shows "n div 16777216 mod 256 * 16777216 + n div 65536 mod 256 * 65536 + n div 256 mod 256 * 256 + n mod 256 = n"
proof -
  let ?a = "n div 256" and ?b = "n div 256 div 256" and ?c = "n div 256 div 256 div 256"
  have d: "n div 65536 = ?b" "n div 16777216 = ?c" by (simp_all add: div_mult2_eq[symmetric])
  have "?c < 256" using assms by (simp add: div_mult2_eq[symmetric] less_mult_imp_div_less)
  then have "?c mod 256 = ?c" by simp
  moreover have "n = 256 * ?a + n mod 256" "?a = 256 * ?b + ?a mod 256" "?b = 256 * ?c + ?b mod 256" by simp_all
  ultimately show ?thesis unfolding d by linarith
qed

lemma unat_byte: "unat (of_nat n :: u8) = n mod 256"
  by (simp add: unat_of_nat take_bit_eq_mod)

lemma get32_be32: "get32 (of_nat (unat w div 16777216)) (of_nat (unat w div 65536)) (of_nat (unat w div 256)) (of_nat (unat w)) = w"
proof -
  have "unat w < 4294967296" using unsigned_less[of w] by simp
  from bytes_sum[OF this] have "get32 (of_nat (unat w div 16777216)) (of_nat (unat w div 65536))
      (of_nat (unat w div 256)) (of_nat (unat w)) = of_nat (unat w)"
    unfolding get32_def unat_byte by (rule arg_cong)
  then show ?thesis by simp
qed

lemmas get32_ucast [simp] = get32_be32 [simplified]

lemma char_of_byte_of [simp]: "char_of_byte (byte_of c) = c"
proof -
  have "code c < 256" using range_nat_of_char by (auto simp: code_def)
  then show ?thesis by (simp add: char_of_byte_def byte_of_def unat_of_nat take_bit_eq_mod code_def)
qed

lemma char_of_byte_map [simp]: "map (char_of_byte \<circ> byte_of) s = s"
  by (simp add: map_idI)

lemma get_field_text [simp]: "length s < 256 \<Longrightarrow> get_field (text_field s @ rest) = Some (s, rest)"
  by (simp add: text_field_def unat_of_nat take_bit_eq_mod)

definition record_ok :: "SenderRecord \<Rightarrow> bool" where
  "record_ok r \<longleftrightarrow> length (callsign r) < 256 \<and> length (s_mode r) < 256"

lemma get_report_bytes: "record_ok r \<Longrightarrow> get_report (record_bytes r @ rest) = Some (r, rest)"
  by (simp add: get_report_def record_bytes_def record_ok_def be32_def)

lemma get_reports_bytes:
  "\<forall>r \<in> set rs. record_ok r \<Longrightarrow> length z < 4 \<Longrightarrow> length rs \<le> k \<Longrightarrow>
   get_reports k (concat (map record_bytes rs) @ z) = Some rs"
proof (induction rs arbitrary: k)
  case Nil
  then show ?case by (cases k) auto
next
  case (Cons r rs)
  then obtain m where k: "k = Suc m" by (cases k) auto
  have "\<not> length (record_bytes r @ concat (map record_bytes rs) @ z) < 4" by (simp add: recordSize_def)
  moreover have "get_report (record_bytes r @ concat (map record_bytes rs) @ z) = Some (r, concat (map record_bytes rs) @ z)"
    using Cons.prems(1) by (intro get_report_bytes) simp
  ultimately show ?case using Cons k by simp
qed

lemma count_le_size: "length rs \<le> sum_list (map recordSize rs)"
  by (induction rs) (simp_all add: recordSize_def)

lemma collect_datagram:
  assumes "recordList r \<noteq> []" "\<forall>x \<in> set (recordList r). record_ok x" "dgSize r < 65536"
  shows "collect (datagram now r) = Some (recordList r)"
proof -
  let ?p = "datagram now r"
  have p: "?p = ([0x00, 0x0A] @ be16 (dgSize r)) @ (be32 now @ be32 (currentSequenceNumber r)
     @ be32 (randomIdentifier r) @ rxFormatHeader @ txFormatHeader) @ rx_set r @ tx_set r"
    using assms(1) by (simp add: datagram_def)
  have d: "drop (16 + 36 + 52) ?p = rx_set r @ tx_set r" unfolding p by simp
  have sz: "getRxDataSize r < 65536" "getTxDataSize r < 65536" using assms(3) by (simp_all add: dgSize_eq)
  have n: "get16 (?p ! 2) (?p ! 3) = length ?p" using assms(3) unfolding length_datagram
    by (simp add: p be16_def get16_be16)
  obtain x where x: "rx_set r = [0x99, 0x92] @ be16 (getRxDataSize r) @ x" by (simp add: rx_set_def padded_def)
  let ?z = "replicate (pad4 (length (tx_bytes r)) - length (tx_bytes r)) (0 :: u8)"
  have t: "tx_set r = [0x99, 0x93] @ be16 (getTxDataSize r) @ concat (map record_bytes (recordList r)) @ ?z"
    using assms(1) by (simp add: tx_set_eq tx_bytes_def padded_def)
  have z: "length ?z < 4" using pad4_less[of "length (tx_bytes r)"] by simp
  have rx: "get16 ((rx_set r @ tx_set r) ! 2) ((rx_set r @ tx_set r) ! 3) = getRxDataSize r"
    using sz(1) by (simp add: x be16_def get16_be16)
  have tx: "get16 (tx_set r ! 2) (tx_set r ! 3) = length (tx_set r)"
  proof -
    have "get16 (tx_set r ! 2) (tx_set r ! 3) = getTxDataSize r"
      using sz(2) by (simp add: t be16_def get16_be16)
    then show ?thesis by simp
  qed
  have len: "4 \<le> length (tx_set r)" by (simp add: t del: length_sets)
  have big: "\<not> length ?p < 16 + 36 + 52 + 4" using len unfolding p by simp
  have cnt: "length (recordList r) \<le> length (tx_set r)"
    using count_le_size[of "recordList r"] by (simp add: t length_records del: length_sets)
  have dr: "drop (getRxDataSize r) (rx_set r @ tx_set r) = tx_set r" by simp
  have tk: "take 2 (rx_set r @ tx_set r) = [0x99, 0x92]" "take 2 (tx_set r) = [0x99, 0x93]" by (simp_all add: x t)
  have "drop 4 (tx_set r) = concat (map record_bytes (recordList r)) @ ?z" by (simp add: t be16_def)
  then have "get_reports (length (tx_set r)) (drop 4 (tx_set r)) = Some (recordList r)"
    using get_reports_bytes[OF assms(2) z cnt] by simp
  then show ?thesis
    unfolding collect_def Let_def using big n tx len by (simp only: d rx dr tk if_False) simp
qed

text \<open>
  C13. Round trip: what \<^verbatim>\<open>send\<close> emits for at least one report, a collector that follows the lengths in
  the datagram decodes to exactly the reports added, in order and with every field, as long as the
  texts have fewer than 256 characters and the datagram fits its 16-bit length.
\<close>

theorem datagram_roundtrip:
  assumes "recordList r \<noteq> []" "\<forall>x \<in> set (recordList r). record_ok x" "dgSize r < 65536"
    and "send now nt r = Inr (p, b, r')"
  shows "collect p = Some (recordList r)"
  using assms collect_datagram[of r now] send_eq[of now nt r] by auto

definition demo_reporter :: PskReporter where
  "demo_reporter = addReceiveRecord 1000 ''F1ABC'' 14075000 (- 7)
     (newPskReporter 42 ''SA0PRF'' ''JO99'' ''rtlsdr-ft8d'')"

theorem datagram_roundtrip_witness:
  "\<exists>p b r'. send 2000 Delivered demo_reporter = Inr (p, b, r')
     \<and> collect p = Some [\<lparr>callsign = ''F1ABC'', frequency = 14075000, s_snr = - 7, s_mode = ''FT8'',
         infoSource = 1, flowTimeSeconds = 1000\<rparr>]"
proof -
  have l: "recordList demo_reporter = [\<lparr>callsign = ''F1ABC'', frequency = 14075000, s_snr = - 7,
      s_mode = ''FT8'', infoSource = 1, flowTimeSeconds = 1000\<rparr>]"
    by (simp add: demo_reporter_def addReceiveRecord_def newPskReporter_def mkSenderRecord_def)
  have g: "getRxDataSize demo_reporter = 28"
    by (simp add: getRxDataSize_def demo_reporter_def addReceiveRecord_def newPskReporter_def pad4_def)
  have "recordList demo_reporter \<noteq> []" "\<forall>x \<in> set (recordList demo_reporter). record_ok x"
    "dgSize demo_reporter < 65536"
    using g by (simp_all add: l record_ok_def dgSize_eq getTxDataSize_eq recordSize_def pad4_def)
  from datagram_roundtrip[OF this send_eq[of 2000 Delivered]] show ?thesis
    using send_eq[of 2000 Delivered demo_reporter] l by auto
qed

subsection \<open>The uploader over any reporter\<close>

text \<open>
  What the uploader relies on: adding a report appends it to those pending, and flushing a
  reporter with some, but not too many, pending reports succeeds, emits exactly them and leaves
  none. \<open>key\<close> is the report a queue element becomes, \<open>reports\<close> what a reader finds in a packet.
\<close>

locale report_sink =
  fixes add :: "'d \<Rightarrow> 's \<Rightarrow> 's"
    and flush :: "'s \<Rightarrow> ('p \<times> 's) result"
    and pending :: "'s \<Rightarrow> 'r list"
    and key :: "'d \<Rightarrow> 'r"
    and reports :: "'p \<Rightarrow> 'r list"
    and good :: "'s \<Rightarrow> bool"
    and small :: "'d \<Rightarrow> bool"
  assumes add_pending: "pending (add d s) = pending s @ [key d]"
    and add_good: "good s \<Longrightarrow> small d \<Longrightarrow> good (add d s)"
    and flush_pending: "good s \<Longrightarrow> pending s \<noteq> [] \<Longrightarrow> length (pending s) \<le> MAX_REPORTS_PER_PACKET \<Longrightarrow>
      \<exists>p s'. flush s = Inr (p, s') \<and> reports p = pending s \<and> pending s' = [] \<and> good s'"
begin

text \<open>The loop emits what was pending and queued, in order, in packets of 1 to 64 reports.\<close>

lemma upload_all:
  assumes "good s" "\<forall>d \<in> set q. small d" "length (pending s) = n" "n < MAX_REPORTS_PER_PACKET"
    "any \<longleftrightarrow> 0 < n"
  shows "\<exists>ps s'. upload_loop add flush q n any s = Inr (ps, s')
     \<and> concat (map reports ps) = pending s @ map key q \<and> pending s' = [] \<and> good s'
     \<and> (\<forall>p \<in> set ps. reports p \<noteq> [] \<and> length (reports p) \<le> MAX_REPORTS_PER_PACKET)"
  using assms
proof (induction q arbitrary: n any s)
  case Nil
  show ?case
  proof (cases any)
    case True
    with Nil obtain p s' where "flush s = Inr (p, s')" "reports p = pending s" "pending s' = []" "good s'"
      using flush_pending[of s] by auto
    with True Nil show ?thesis by auto
  next
    case False
    with Nil show ?thesis by auto
  qed
next
  case (Cons d q)
  let ?s = "add d s"
  have s: "pending ?s = pending s @ [key d]" "good ?s" using Cons.prems by (simp_all add: add_pending add_good)
  have q: "\<forall>d \<in> set q. small d" using Cons.prems by simp
  show ?case
  proof (cases "MAX_REPORTS_PER_PACKET \<le> n + 1")
    case True
    with s Cons.prems obtain p s1 where p: "flush ?s = Inr (p, s1)" "reports p = pending ?s" "pending s1 = []" "good s1"
      using flush_pending[of ?s] by auto
    from Cons.IH[OF p(4) q, of 0 False] p(3) obtain ps s' where
      "upload_loop add flush q 0 False s1 = Inr (ps, s')" "concat (map reports ps) = map key q"
      "pending s' = []" "good s'" "\<forall>p \<in> set ps. reports p \<noteq> [] \<and> length (reports p) \<le> MAX_REPORTS_PER_PACKET"
      by (auto simp: MAX_REPORTS_PER_PACKET_def)
    with p True s Cons.prems show ?thesis by (auto simp: Let_def)
  next
    case False
    with s Cons.prems Cons.IH[OF s(2) q, of "n + 1" True] show ?thesis by (auto simp: Let_def)
  qed
qed

end

definition report_of :: "SenderRecord \<Rightarrow> string \<times> u32 \<times> u8" where
  "report_of x = (callsign x, frequency x, s_snr x)"

definition queued_report :: "decoder_results \<Rightarrow> string \<times> u32 \<times> u8" where
  "queued_report d = (r_call d, word_of_int (r_freq d), word_of_int (r_snr d))"

definition decoded :: "u8 list \<times> bool \<Rightarrow> (string \<times> u32 \<times> u8) list" where
  "decoded pb = (case collect (fst pb) of None \<Rightarrow> [] | Some rs \<Rightarrow> map report_of rs)"

text \<open>A reporter with short receiver data and records of call signs that fit the decoder's arrays.\<close>

definition reporter_ok :: "PskReporter \<Rightarrow> bool" where
  "reporter_ok r \<longleftrightarrow> getRxDataSize r < 1024
     \<and> (\<forall>x \<in> set (recordList r). length (callsign x) < 13 \<and> s_mode x = ''FT8'')"

lemma records_size:
  "\<forall>x \<in> set rs. length (callsign x) < 13 \<and> s_mode x = ''FT8'' \<Longrightarrow> sum_list (map recordSize rs) \<le> 27 * length rs"
  by (induction rs) (auto simp: recordSize_def)

lemma reporter_dgSize:
  assumes "reporter_ok r" "length (recordList r) \<le> MAX_REPORTS_PER_PACKET"
  shows "dgSize r < 65536"
proof -
  have "sum_list (map recordSize (recordList r)) \<le> 27 * length (recordList r)"
    using assms(1) by (intro records_size) (simp add: reporter_ok_def)
  then have "getTxDataSize r < 65536 - 2048"
    using assms(2) pad4_less[of "4 + sum_list (map recordSize (recordList r))"]
    by (simp add: getTxDataSize_eq MAX_REPORTS_PER_PACKET_def)
  then show ?thesis using assms(1) by (simp add: dgSize_eq reporter_ok_def)
qed

lemma flush_packet_ok:
  assumes "reporter_ok r" "recordList r \<noteq> []" "length (recordList r) \<le> MAX_REPORTS_PER_PACKET"
  shows "\<exists>p r'. flush_packet clock nets r = Inr (p, r') \<and> decoded p = map report_of (recordList r)
     \<and> recordList r' = [] \<and> reporter_ok r'"
proof -
  have "\<forall>x \<in> set (recordList r). record_ok x"
    using assms(1) by (auto simp: reporter_ok_def record_ok_def)
  then have "collect (datagram (clock r) r) = Some (recordList r)"
    using collect_datagram assms reporter_dgSize by blast
  moreover have "getRxDataSize (r\<lparr>currentSequenceNumber := n, recordList := []\<rparr>) = getRxDataSize r" for n
    by (simp add: getRxDataSize_def)
  ultimately show ?thesis using assms(1) by (simp add: flush_packet_def send_eq decoded_def reporter_ok_def)
qed

interpretation psk: report_sink "add_result clock" "flush_packet clock nets"
  "\<lambda>r. map report_of (recordList r)" queued_report decoded reporter_ok "\<lambda>d. length (r_call d) < 13"
  for clock nets
proof
  show "map report_of (recordList (add_result clock d r)) = map report_of (recordList r) @ [queued_report d]" for d r
    by (simp add: add_result_def addReceiveRecord_def report_of_def queued_report_def mkSenderRecord_def)
  show "reporter_ok (add_result clock d r)" if "reporter_ok r" "length (r_call d) < 13" for r d
    using that by (auto simp: reporter_ok_def add_result_def addReceiveRecord_def mkSenderRecord_def getRxDataSize_def)
qed (use flush_packet_ok in auto)

text \<open>
  C28. The uploader loses and duplicates nothing on its side: every report queued is in exactly one
  datagram, in order, with call sign, frequency and level as queued; every datagram has between 1
  and 64 reports; queue and reporter end empty, whatever time, random numbers and network do.
\<close>

theorem uploader_sends_every_report:
  assumes "\<forall>d \<in> set q. length (r_call d) < 13" "recordList r = []" "getRxDataSize r < 1024"
  shows "\<exists>ps r'. pskUploader_round clock nets False q (Some r) = Inr (ps, Some r', [])
     \<and> concat (map decoded ps) = map queued_report q \<and> recordList r' = []
     \<and> (\<forall>p \<in> set ps. decoded p \<noteq> [] \<and> length (decoded p) \<le> MAX_REPORTS_PER_PACKET)"
proof -
  have "reporter_ok r" using assms by (simp add: reporter_ok_def)
  from psk.upload_all[OF this assms(1), of 0 False clock nets] assms(2) show ?thesis
    by (fastforce simp: pskUploader_round_def MAX_REPORTS_PER_PACKET_def)
qed

theorem uploader_sends_every_report_witness:
  "\<exists>ps r'. pskUploader_round (\<lambda>_. 0) (\<lambda>_. NoAddress) False
      (replicate 65 \<lparr>r_cmd = [], r_call = ''F1ABC'', r_dest = [], r_loc = [], r_freq = 14075000,
         r_snr = - 7, r_tempus = 0\<rparr>) (Some (newPskReporter 1 ''SA0PRF'' ''JO99'' ''x'')) = Inr (ps, Some r', [])
     \<and> concat (map decoded ps) = replicate 65 (''F1ABC'', 14075000, - 7)"
proof -
  let ?d = "\<lparr>r_cmd = [], r_call = ''F1ABC'', r_dest = [], r_loc = [], r_freq = 14075000,
         r_snr = - 7, r_tempus = 0\<rparr>"
  let ?r = "newPskReporter 1 ''SA0PRF'' ''JO99'' ''x''"
  have h: "\<forall>d \<in> set (replicate 65 ?d). length (r_call d) < 13" "recordList ?r = []" "getRxDataSize ?r < 1024"
    by (simp_all add: newPskReporter_def getRxDataSize_def pad4_def)
  have k: "map queued_report (replicate 65 ?d) = replicate 65 (''F1ABC'', 14075000, - 7)"
    by (simp add: queued_report_def)
  from uploader_sends_every_report[OF h, of "\<lambda>_. 0" "\<lambda>_. NoAddress"] show ?thesis unfolding k by blast
qed

text \<open>
  C35. \<^verbatim>\<open>postSpots\<close> queues one report per decoded message, in order behind the older ones, with the
  first 12 characters of the call sign and the absolute frequency, dial plus audio, in 32 bits;
  it reads outside the result array exactly when asked for more results than the array holds, and
  then that is the outcome; nothing is queued while reporting is off.
\<close>

theorem postSpots_queues:
  "postSpots noreport dial junk results n queue =
    (if noreport then Inr queue
     else if length results < n then Inl (OutOfBounds (length results) (length results))
     else Inr (queue @ map (\<lambda>r. junk\<lparr>r_call := take 12 (r_call r),
             r_freq := i32 (r_freq r + uint dial), r_snr := r_snr r\<rparr>) (take n results)))"
proof -
  have f: "fold (\<lambda>r q. tsq_push q (f r)) rs q = q @ map f rs" for f :: "'a \<Rightarrow> 'b" and rs q
    by (induction rs arbitrary: q) (simp_all add: tsq_push_def)
  have w: "(word_of_int k + dial :: u32) = word_of_int (k + uint dial)" for k by simp
  show ?thesis unfolding postSpots_def f w by (simp add: snprintf_s_def i32_def)
qed

end
