(* ===== verification/Probing.thy ===== *)
theory Probing
  imports Prelude
begin

text \<open>
  Linear probing without deletion, as two tables of the receiver use it: the call sign hash table
  and the duplicate table of the decoder. A table is seen as the key each of its \<open>N\<close> slots holds,
  if any; a key is searched from its home slot upwards, wrapping round.
\<close>

definition pslot :: "nat \<Rightarrow> ('k \<Rightarrow> nat) \<Rightarrow> 'k \<Rightarrow> nat \<Rightarrow> nat" where
  "pslot N home k d = (home k + d) mod N"

text \<open>Between a key's home and the slot that holds it there is no hole and no second copy.\<close>

definition probe_ok :: "nat \<Rightarrow> ('k \<Rightarrow> nat) \<Rightarrow> (nat \<Rightarrow> 'k option) \<Rightarrow> bool" where
  "probe_ok N home occ \<longleftrightarrow> (\<forall>k. \<forall>d < N. occ (pslot N home k d) = Some k \<longrightarrow>
     (\<forall>d' < d. occ (pslot N home k d') \<noteq> None \<and> occ (pslot N home k d') \<noteq> Some k))"

text \<open>The search for \<open>k\<close> stops at distance \<open>d\<close>: at a hole or at the key itself.\<close>

definition stops_at :: "nat \<Rightarrow> ('k \<Rightarrow> nat) \<Rightarrow> (nat \<Rightarrow> 'k option) \<Rightarrow> 'k \<Rightarrow> nat \<Rightarrow> bool" where
  "stops_at N home occ k d \<longleftrightarrow> d < N
     \<and> (occ (pslot N home k d) = None \<or> occ (pslot N home k d) = Some k)
     \<and> (\<forall>d' < d. occ (pslot N home k d') \<noteq> None \<and> occ (pslot N home k d') \<noteq> Some k)"

definition pkeys :: "nat \<Rightarrow> (nat \<Rightarrow> 'k option) \<Rightarrow> 'k set" where
  "pkeys N occ = {k. \<exists>i < N. occ i = Some k}"

locale open_addressing =
  fixes N :: nat and home :: "'k \<Rightarrow> nat"
  assumes N_pos: "0 < N"
begin

lemma slot_less: "pslot N home k d < N"
  using N_pos by (simp add: pslot_def)

lemma slot_inj: "d < N \<Longrightarrow> d' < N \<Longrightarrow> pslot N home k d = pslot N home k d' \<Longrightarrow> d = d'"
proof (induction d d' rule: linorder_wlog)
  case (le d d')
  then have "N dvd (home k + d') - (home k + d)"
    by (metis mod_eq_dvd_iff_nat add_le_cancel_left pslot_def)
  then have "N dvd d' - d" by simp
  moreover have "d' - d < N" using le by simp
  ultimately have "d' - d = 0" by (metis dvd_imp_le not_less not_gr_zero)
  with le show ?case by simp
next
  case (sym d d')
  then show ?case by metis
qed

lemma slot_surj: assumes "i < N" shows "\<exists>d < N. pslot N home k d = i"
proof -
  let ?f = "pslot N home k"
  have "inj_on ?f {..<N}" by (rule inj_onI) (simp add: slot_inj)
  moreover have "?f ` {..<N} \<subseteq> {..<N}" using slot_less by auto
  ultimately have "?f ` {..<N} = {..<N}" by (simp add: endo_inj_surj)
  with assms show ?thesis by (metis imageE lessThan_iff)
qed

lemma holder_unique:
  assumes "probe_ok N home occ" "i < N" "j < N" "occ i = Some k" "occ j = Some k"
  shows "i = j"
proof -
  obtain d e where d: "d < N" "pslot N home k d = i" and e: "e < N" "pslot N home k e = j"
    using slot_surj assms(2,3) by metis
  have "\<not> d < e" "\<not> e < d" using assms(1,4,5) d e unfolding probe_ok_def by metis+
  then show ?thesis using d e by (metis nat_neq_iff)
qed

lemma stop_absent:
  assumes "probe_ok N home occ" "stops_at N home occ k d" "occ (pslot N home k d) = None"
  shows "k \<notin> pkeys N occ"
proof
  assume "k \<in> pkeys N occ"
  then obtain i where "i < N" "occ i = Some k" by (auto simp: pkeys_def)
  then obtain e where e: "e < N" "occ (pslot N home k e) = Some k" using slot_surj by metis
  have "e \<noteq> d" "\<not> e < d" using assms(2,3) e by (auto simp: stops_at_def)
  then have "d < e" by simp
  with assms(1,3) e show False unfolding probe_ok_def by blast
qed

lemma stop_unless_full:
  assumes "\<not> (\<exists>d. stops_at N home occ k d)"
  shows "k \<notin> pkeys N occ" "\<forall>i < N. occ i \<noteq> None"
proof -
  have n: "occ (pslot N home k d) \<noteq> None \<and> occ (pslot N home k d) \<noteq> Some k" if "d < N" for d
    using that
  proof (induction d rule: less_induct)
    case (less d)
    then have "\<forall>d' < d. occ (pslot N home k d') \<noteq> None \<and> occ (pslot N home k d') \<noteq> Some k" by simp
    with assms less.prems have "\<not> (occ (pslot N home k d) = None \<or> occ (pslot N home k d) = Some k)"
      unfolding stops_at_def by metis
    then show ?case by metis
  qed
  then show "k \<notin> pkeys N occ" "\<forall>i < N. occ i \<noteq> None"
    using slot_surj unfolding pkeys_def by (auto, metis+)
qed

lemma insert_ok:
  assumes "probe_ok N home occ" "stops_at N home occ k d"
  shows "probe_ok N home (occ(pslot N home k d := Some k))"
  unfolding probe_ok_def
proof (intro allI impI)
  fix l e e'
  assume e: "e < N" "(occ(pslot N home k d := Some k)) (pslot N home l e) = Some l" "e' < e"
  have d: "d < N" "occ (pslot N home k d) = None \<or> occ (pslot N home k d) = Some k"
    "\<forall>d' < d. occ (pslot N home k d') \<noteq> None \<and> occ (pslot N home k d') \<noteq> Some k"
    using assms(2) by (auto simp: stops_at_def)
  show "(occ(pslot N home k d := Some k)) (pslot N home l e') \<noteq> None
      \<and> (occ(pslot N home k d := Some k)) (pslot N home l e') \<noteq> Some l"
  proof (cases "l = k")
    case True
    have "\<not> d < e"
    proof
      assume "d < e"
      then have "pslot N home k d \<noteq> pslot N home k e" using d(1) e(1) slot_inj by (metis less_irrefl)
      then have "occ (pslot N home k e) = Some k" using e(2) True by auto
      with assms(1) e(1) \<open>d < e\<close> d(2) show False unfolding probe_ok_def by blast
    qed
    then have "e' < d" using e(3) by simp
    moreover have "pslot N home k e' \<noteq> pslot N home k d" using \<open>e' < d\<close> d(1) slot_inj[of e' d k] by auto
    ultimately show ?thesis using d(3) True by simp
  next
    case False
    then have "occ (pslot N home l e) = Some l" using e(2) by (auto split: if_splits)
    then have "occ (pslot N home l e') \<noteq> None \<and> occ (pslot N home l e') \<noteq> Some l"
      using assms(1) e(1,3) unfolding probe_ok_def by blast
    with False show ?thesis by auto
  qed
qed

lemma keys_insert:
  assumes "stops_at N home occ k d"
  shows "pkeys N (occ(pslot N home k d := Some k)) = insert k (pkeys N occ)"
proof -
  have "occ (pslot N home k d) = None \<or> occ (pslot N home k d) = Some k" using assms by (simp add: stops_at_def)
  then have "occ i = Some l \<Longrightarrow> i \<noteq> pslot N home k d \<or> l = k" for i l by auto
  then show ?thesis using slot_less[of k d] unfolding pkeys_def by (auto split: if_splits)
qed

lemma keys_finite: "finite (pkeys N occ)" and card_keys: "card (pkeys N occ) \<le> N"
proof -
  have s: "pkeys N occ \<subseteq> (\<lambda>i. the (occ i)) ` {..<N}" by (force simp: pkeys_def)
  then show "finite (pkeys N occ)" by (rule finite_subset) simp
  have "card (pkeys N occ) \<le> card ((\<lambda>i. the (occ i)) ` {..<N})" using s by (intro card_mono) auto
  also have "\<dots> \<le> N" by (metis card_image_le card_lessThan finite_lessThan)
  finally show "card (pkeys N occ) \<le> N" .
qed

text \<open>A table with fewer keys than slots has a hole.\<close>

lemma full_card:
  assumes "probe_ok N home occ" "\<forall>i < N. occ i \<noteq> None"
  shows "card (pkeys N occ) = N"
proof -
  have "inj_on (\<lambda>i. the (occ i)) {..<N}"
    using assms holder_unique by (intro inj_onI) (metis lessThan_iff option.collapse)
  moreover have "(\<lambda>i. the (occ i)) ` {..<N} = pkeys N occ"
    using assms(2) by (force simp: pkeys_def)
  ultimately show ?thesis by (metis card_image card_lessThan)
qed

lemma stop_exists:
  assumes "probe_ok N home occ" "k \<in> pkeys N occ \<or> card (pkeys N occ) < N"
  shows "\<exists>d. stops_at N home occ k d"
  using assms stop_unless_full full_card by (metis less_irrefl)

lemma empty_ok: "probe_ok N home (\<lambda>_. None)" "pkeys N (\<lambda>_. None) = {}"
  by (simp_all add: probe_ok_def pkeys_def)

end

text \<open>Searching a list after one of its elements changed.\<close>

lemma find_update_other: "\<not> P x \<Longrightarrow> (j < length t \<Longrightarrow> \<not> P (t ! j)) \<Longrightarrow> List.find P (t[j := x]) = List.find P t"
proof (induction t arbitrary: j)
  case (Cons a t)
  then show ?case by (cases j) auto
qed simp

lemma find_update_only:
  "P x \<Longrightarrow> j < length t \<Longrightarrow> (\<And>i. i < length t \<Longrightarrow> i \<noteq> j \<Longrightarrow> \<not> P (t ! i)) \<Longrightarrow> List.find P (t[j := x]) = Some x"
proof (induction t arbitrary: j)
  case (Cons a t)
  show ?case
  proof (cases j)
    case (Suc i)
    have "\<not> P a" using Cons.prems(3)[of 0] Suc by simp
    moreover have "List.find P (t[i := x]) = Some x"
      using Cons.prems Suc by (intro Cons.IH) (auto, metis Suc_less_eq Suc_inject nth_Cons_Suc)
    ultimately show ?thesis using Suc by simp
  qed (use Cons.prems in simp)
qed simp

end
