(* ===== verification/CallsignHash.thy ===== *)
theory CallsignHash
  imports FT8Types Probing
begin

text \<open>
  The call sign hash table of \<^verbatim>\<open>rtlsdr_ft8d.cpp\<close> (\<^verbatim>\<open>hashtable_init\<close>, \<^verbatim>\<open>hashtable_add\<close>,
  \<^verbatim>\<open>hashtable_lookup\<close>), which the message codec reaches through
  \<^verbatim>\<open>ftx_callsign_hash_interface_t\<close>, here the locale \<open>callsign_store\<close>; and \<^verbatim>\<open>stripBrackets\<close>. The
  table refines a finite map from hashes to call signs.
\<close>

subsection \<open>The table\<close>

definition CALLSIGN_HASH_TABLE_SIZE :: nat where "CALLSIGN_HASH_TABLE_SIZE = 256"

record callsign_hash_entry =
  used :: bool
  n22 :: u32
  entry_call :: string

type_synonym hashtable = "callsign_hash_entry list"

datatype hash_type = HASH_22_BITS | HASH_12_BITS | HASH_10_BITS

definition hashtable_init :: "hashtable \<Rightarrow> hashtable" where
  "hashtable_init t = map (\<lambda>e. e\<lparr>used := False\<rparr>) t"

definition hashtable_cleanup :: "u8 \<Rightarrow> hashtable \<Rightarrow> hashtable" where
  "hashtable_cleanup max_age t = t"

function add_probe :: "string \<Rightarrow> u32 \<Rightarrow> nat \<Rightarrow> nat \<Rightarrow> hashtable \<Rightarrow> hashtable" where
  "add_probe c h start i t =
     (if CALLSIGN_HASH_TABLE_SIZE \<le> i then t
      else
        (let idx = (start + i) mod CALLSIGN_HASH_TABLE_SIZE in
         if \<not> used (t ! idx) then t[idx := \<lparr>used = True, n22 = h, entry_call = snprintf_s 12 c\<rparr>]
         else if n22 (t ! idx) = h then t[idx := (t ! idx)\<lparr>entry_call := snprintf_s 12 c\<rparr>]
         else add_probe c h start (i + 1) t))"
  by pat_completeness auto
termination by (relation "measure (\<lambda>(c, h, start, i, t). CALLSIGN_HASH_TABLE_SIZE - i)") auto

declare add_probe.simps [simp del]

definition hashtable_add :: "string \<Rightarrow> u32 \<Rightarrow> hashtable \<Rightarrow> hashtable" where
  "hashtable_add c h t =
     (if c = [] then t else add_probe c h (unat h mod CALLSIGN_HASH_TABLE_SIZE) 0 t)"

text \<open>A stored hash reduced to the width of a query.\<close>

fun reduce_hash :: "hash_type \<Rightarrow> u32 \<Rightarrow> u32" where
  "reduce_hash HASH_22_BITS n = n AND 0x3FFFFF"
| "reduce_hash HASH_12_BITS n = drop_bit 10 n AND 0xFFF"
| "reduce_hash HASH_10_BITS n = drop_bit 12 n AND 0x3FF"

fun hashtable_lookup :: "hash_type \<Rightarrow> u32 \<Rightarrow> hashtable \<Rightarrow> string option" where
  "hashtable_lookup ty h [] = None"
| "hashtable_lookup ty h (e # t) =
     (if \<not> used e then hashtable_lookup ty h t
      else if reduce_hash ty (n22 e) = h then Some (snprintf_s 12 (entry_call e))
      else hashtable_lookup ty h t)"

text \<open>\<^verbatim>\<open>stripBrackets(token, out, outsz)\<close>: the text it leaves in \<open>out\<close>.\<close>

definition stripBrackets :: "string option \<Rightarrow> nat \<Rightarrow> string" where
  "stripBrackets tok outsz =
     (case tok of
        None \<Rightarrow> []
      | Some s \<Rightarrow>
          (let s = (if 2 \<le> length s \<and> hd s = CHR ''<'' \<and> last s = CHR ''>'' then butlast (tl s) else s)
           in if outsz \<le> length s then take (outsz - 1) s else s))"

lemma stripBrackets_plain [simp]:
  "length s < n \<Longrightarrow> hd s \<noteq> CHR ''<'' \<Longrightarrow> stripBrackets (Some s) n = s"
  "length s < n \<Longrightarrow> stripBrackets (Some (CHR ''<'' # s @ ''>'')) n = s"
  by (simp_all add: stripBrackets_def butlast_append)

subsection \<open>The contract of the codec\<close>

locale callsign_store =
  fixes save :: "string \<Rightarrow> u32 \<Rightarrow> 't \<Rightarrow> 't"
    and lookup :: "hash_type \<Rightarrow> u32 \<Rightarrow> 't \<Rightarrow> string option"
    and stored :: "'t \<Rightarrow> u32 \<Rightarrow> string option"
    and good :: "'t \<Rightarrow> bool"
  assumes save_good: "good t \<Longrightarrow> h < 0x400000 \<Longrightarrow> good (save c h t)"
    and save_stored: "good t \<Longrightarrow> c \<noteq> [] \<Longrightarrow> h < 0x400000 \<Longrightarrow>
      h \<in> dom (stored t) \<or> card (dom (stored t)) < CALLSIGN_HASH_TABLE_SIZE \<Longrightarrow>
      stored (save c h t) = (stored t)(h \<mapsto> take 11 c)"
    and lookup_22: "good t \<Longrightarrow> lookup HASH_22_BITS h t = stored t h"
    and lookup_some: "good t \<Longrightarrow> lookup ty x t = Some c \<Longrightarrow> \<exists>h. stored t h = Some c \<and> reduce_hash ty h = x"
    and lookup_none: "good t \<Longrightarrow> lookup ty x t = None \<Longrightarrow> h \<in> dom (stored t) \<Longrightarrow> reduce_hash ty h \<noteq> x"
    and finite_stored: "good t \<Longrightarrow> finite (dom (stored t))"
begin

lemma saves_stored:
  assumes "good t" "\<forall>(c, h) \<in> set cs. c \<noteq> [] \<and> h < 0x400000"
    "card (dom (stored t) \<union> snd ` set cs) \<le> CALLSIGN_HASH_TABLE_SIZE"
  shows "good (fold (\<lambda>(c, h). save c h) cs t) \<and> stored (fold (\<lambda>(c, h). save c h) cs t)
     = stored t ++ map_of (rev (map (\<lambda>(c, h). (h, take 11 c)) cs))"
  using assms
proof (induction cs arbitrary: t)
  case (Cons x cs)
  obtain c h where x: "x = (c, h)" by (cases x)
  let ?all = "dom (stored t) \<union> snd ` set (x # cs)"
  have h: "c \<noteq> []" "h < 0x400000" using Cons.prems(2) x by auto
  have fin: "finite ?all" using finite_stored[OF Cons.prems(1)] by simp
  have "h \<in> dom (stored t) \<or> card (dom (stored t)) < CALLSIGN_HASH_TABLE_SIZE"
  proof (cases "h \<in> dom (stored t)")
    case False
    then have "dom (stored t) \<subset> ?all" using x by auto
    then have "card (dom (stored t)) < card ?all" using fin by (rule psubset_card_mono[rotated])
    with Cons.prems(3) show ?thesis by simp
  qed simp
  then have s: "stored (save c h t) = (stored t)(h \<mapsto> take 11 c)" "good (save c h t)"
    using Cons.prems(1) h save_stored save_good by auto
  have "dom (stored (save c h t)) \<union> snd ` set cs = ?all" using s(1) x by auto
  then have "card (dom (stored (save c h t)) \<union> snd ` set cs) \<le> CALLSIGN_HASH_TABLE_SIZE"
    using Cons.prems(3) by simp
  moreover have "\<forall>(c, h) \<in> set cs. c \<noteq> [] \<and> h < 0x400000" using Cons.prems(2) by simp
  ultimately have "good (fold (\<lambda>(c, h). save c h) cs (save c h t))
      \<and> stored (fold (\<lambda>(c, h). save c h) cs (save c h t))
        = stored (save c h t) ++ map_of (rev (map (\<lambda>(c, h). (h, take 11 c)) cs))"
    using Cons.IH[OF s(2)] by blast
  then show ?case by (simp add: x s(1))
qed simp

end

subsection \<open>The table is such a store\<close>

definition entry_key :: "hashtable \<Rightarrow> nat \<Rightarrow> u32 option" where
  "entry_key t i = (if i < length t \<and> used (t ! i) then Some (n22 (t ! i)) else None)"

definition home_slot :: "u32 \<Rightarrow> nat" where
  "home_slot h = unat h mod CALLSIGN_HASH_TABLE_SIZE"

interpretation callhash: open_addressing CALLSIGN_HASH_TABLE_SIZE home_slot
  by unfold_locales (simp add: CALLSIGN_HASH_TABLE_SIZE_def)

definition table_stored :: "hashtable \<Rightarrow> u32 \<Rightarrow> string option" where
  "table_stored t h = map_option entry_call (List.find (\<lambda>e. used e \<and> n22 e = h) t)"

definition table_good :: "hashtable \<Rightarrow> bool" where
  "table_good t \<longleftrightarrow> length t = CALLSIGN_HASH_TABLE_SIZE
     \<and> probe_ok CALLSIGN_HASH_TABLE_SIZE home_slot (entry_key t)
     \<and> (\<forall>e \<in> set t. used e \<longrightarrow> n22 e < 0x400000 \<and> length (entry_call e) \<le> 11)"

lemma refresh_entry:
  "used e \<Longrightarrow> n22 e = h \<Longrightarrow> e\<lparr>entry_call := x\<rparr> = \<lparr>used = True, n22 = h, entry_call = x\<rparr>"
  by (cases e) simp

lemma add_probe_stop:
  assumes "stops_at CALLSIGN_HASH_TABLE_SIZE home_slot (entry_key t) h d"
    "length t = CALLSIGN_HASH_TABLE_SIZE" "i \<le> d"
  shows "add_probe c h (home_slot h) i t =
    t[pslot CALLSIGN_HASH_TABLE_SIZE home_slot h d := \<lparr>used = True, n22 = h, entry_call = snprintf_s 12 c\<rparr>]"
  using assms(3)
proof (induction "d - i" arbitrary: i)
  case 0
  then have "i = d" by simp
  have d: "d < CALLSIGN_HASH_TABLE_SIZE" using assms(1) by (simp add: stops_at_def)
  let ?j = "pslot CALLSIGN_HASH_TABLE_SIZE home_slot h d"
  have j: "?j < length t" using callhash.slot_less assms(2) by simp
  show ?case
  proof (cases "used (t ! ?j)")
    case True
    have "n22 (t ! ?j) = h" using True assms(1) j by (simp add: stops_at_def entry_key_def)
    with True d \<open>i = d\<close> show ?thesis
      by (subst add_probe.simps) (simp add: pslot_def[symmetric] Let_def refresh_entry)
  next
    case False
    with d \<open>i = d\<close> show ?thesis by (subst add_probe.simps) (simp add: pslot_def[symmetric] Let_def)
  qed
next
  case (Suc m)
  then have "i < d" by simp
  let ?j = "pslot CALLSIGN_HASH_TABLE_SIZE home_slot h i"
  have "?j < length t" using callhash.slot_less assms(2) by simp
  then have "used (t ! ?j)" "n22 (t ! ?j) \<noteq> h" "i < CALLSIGN_HASH_TABLE_SIZE"
    using assms(1) \<open>i < d\<close> by (auto simp: stops_at_def entry_key_def split: if_splits)
  moreover have "add_probe c h (home_slot h) (i + 1) t =
    t[pslot CALLSIGN_HASH_TABLE_SIZE home_slot h d := \<lparr>used = True, n22 = h, entry_call = snprintf_s 12 c\<rparr>]"
    using Suc by (intro Suc.hyps(1)) simp_all
  ultimately show ?case by (subst add_probe.simps) (simp add: pslot_def[symmetric] Let_def)
qed

lemma add_probe_full:
  assumes "\<not> (\<exists>d. stops_at CALLSIGN_HASH_TABLE_SIZE home_slot (entry_key t) h d)"
    "length t = CALLSIGN_HASH_TABLE_SIZE"
  shows "add_probe c h (home_slot h) i t = t"
proof (induction "CALLSIGN_HASH_TABLE_SIZE - i" arbitrary: i)
  case (Suc m)
  let ?j = "pslot CALLSIGN_HASH_TABLE_SIZE home_slot h i"
  have j: "?j < CALLSIGN_HASH_TABLE_SIZE" by (rule callhash.slot_less)
  then have "entry_key t ?j \<noteq> None" "entry_key t ?j \<noteq> Some h"
    using callhash.stop_unless_full[OF assms(1)] unfolding pkeys_def by auto
  then have "used (t ! ?j)" "n22 (t ! ?j) \<noteq> h" using j assms(2) by (auto simp: entry_key_def split: if_splits)
  moreover have "add_probe c h (home_slot h) (i + 1) t = t" using Suc by (intro Suc.hyps(1)) simp
  ultimately show ?case by (subst add_probe.simps) (simp add: pslot_def[symmetric] Let_def)
qed (simp add: add_probe.simps)

lemma table_stored_dom: "length t = CALLSIGN_HASH_TABLE_SIZE \<Longrightarrow>
    dom (table_stored t) = pkeys CALLSIGN_HASH_TABLE_SIZE (entry_key t)"
  by (auto simp: table_stored_def pkeys_def entry_key_def find_Some_iff find_None_iff dom_def in_set_conv_nth
      split: if_splits)

lemma entry_key_update:
  "j < length t \<Longrightarrow> entry_key (t[j := \<lparr>used = True, n22 = h, entry_call = x\<rparr>]) = (entry_key t)(j := Some h)"
  by (rule ext) (auto simp: entry_key_def nth_list_update)

lemma hashtable_add_good:
  assumes "table_good t" "h < 0x400000"
  shows "table_good (hashtable_add c h t)"
proof (cases "c = [] \<or> \<not> (\<exists>d. stops_at CALLSIGN_HASH_TABLE_SIZE home_slot (entry_key t) h d)")
  case True
  have "length t = CALLSIGN_HASH_TABLE_SIZE" using assms(1) by (simp add: table_good_def)
  with True assms(1) show ?thesis
    using add_probe_full[of t h] by (auto simp: hashtable_add_def home_slot_def)
next
  case False
  then obtain d where d: "stops_at CALLSIGN_HASH_TABLE_SIZE home_slot (entry_key t) h d" "c \<noteq> []" by blast
  let ?j = "pslot CALLSIGN_HASH_TABLE_SIZE home_slot h d"
  let ?e = "\<lparr>used = True, n22 = h, entry_call = snprintf_s 12 c\<rparr>"
  have l: "length t = CALLSIGN_HASH_TABLE_SIZE" "?j < length t"
    using assms(1) callhash.slot_less by (simp_all add: table_good_def)
  have e: "hashtable_add c h t = t[?j := ?e]"
    using add_probe_stop[OF d(1) l(1), of 0] d(2) by (simp add: hashtable_add_def home_slot_def)
  have "probe_ok CALLSIGN_HASH_TABLE_SIZE home_slot ((entry_key t)(?j := Some h))"
    using assms(1) d(1) callhash.insert_ok by (simp add: table_good_def)
  then have "probe_ok CALLSIGN_HASH_TABLE_SIZE home_slot (entry_key (t[?j := ?e]))"
    using entry_key_update[OF l(2)] by simp
  moreover have "\<forall>x \<in> set (t[?j := ?e]). used x \<longrightarrow> n22 x < 0x400000 \<and> length (entry_call x) \<le> 11"
    using assms set_update_subset_insert[of t ?j ?e] by (auto simp: table_good_def snprintf_s_def)
  ultimately show ?thesis using e l(1) by (simp add: table_good_def)
qed

lemma hashtable_add_stored:
  assumes "table_good t" "c \<noteq> []"
    "h \<in> dom (table_stored t) \<or> card (dom (table_stored t)) < CALLSIGN_HASH_TABLE_SIZE"
  shows "table_stored (hashtable_add c h t) = (table_stored t)(h \<mapsto> take 11 c)"
proof -
  let ?j = "\<lambda>d. pslot CALLSIGN_HASH_TABLE_SIZE home_slot h d"
  let ?e = "\<lparr>used = True, n22 = h, entry_call = snprintf_s 12 c\<rparr>"
  have l: "length t = CALLSIGN_HASH_TABLE_SIZE" and ok: "probe_ok CALLSIGN_HASH_TABLE_SIZE home_slot (entry_key t)"
    using assms(1) by (simp_all add: table_good_def)
  obtain d where d: "stops_at CALLSIGN_HASH_TABLE_SIZE home_slot (entry_key t) h d"
  proof -
    have "h \<in> pkeys CALLSIGN_HASH_TABLE_SIZE (entry_key t)
        \<or> card (pkeys CALLSIGN_HASH_TABLE_SIZE (entry_key t)) < CALLSIGN_HASH_TABLE_SIZE"
      using assms(3) table_stored_dom[OF l] by simp
    from callhash.stop_exists[OF ok this] show ?thesis using that by blast
  qed
  have j: "?j d < length t" using callhash.slot_less l by simp
  have e: "hashtable_add c h t = t[?j d := ?e]"
    using add_probe_stop[OF d l, of 0] assms(2) by (simp add: hashtable_add_def home_slot_def)
  have other: "\<not> (used (t ! i) \<and> n22 (t ! i) = h)" if "i < length t" "i \<noteq> ?j d" for i
  proof
    assume u: "used (t ! i) \<and> n22 (t ! i) = h"
    then have i: "entry_key t i = Some h" using that by (simp add: entry_key_def)
    have "probe_ok CALLSIGN_HASH_TABLE_SIZE home_slot ((entry_key t)(?j d := Some h))"
      using ok d by (rule callhash.insert_ok)
    from callhash.holder_unique[OF this, of i "?j d" h] i that j l show False by simp
  qed
  show ?thesis
  proof
    fix k
    show "table_stored (hashtable_add c h t) k = ((table_stored t)(h \<mapsto> take 11 c)) k"
    proof (cases "k = h")
      case True
      have "List.find (\<lambda>e. used e \<and> n22 e = h) (t[?j d := ?e]) = Some ?e"
        using j other by (intro find_update_only) simp_all
      with True show ?thesis by (simp add: e table_stored_def snprintf_s_def)
    next
      case False
      have "\<not> (used (t ! ?j d) \<and> n22 (t ! ?j d) = k)"
        using d j False by (auto simp: stops_at_def entry_key_def split: if_splits)
      then have "List.find (\<lambda>e. used e \<and> n22 e = k) (t[?j d := ?e]) = List.find (\<lambda>e. used e \<and> n22 e = k) t"
        using False by (intro find_update_other) simp_all
      with False show ?thesis by (simp add: e table_stored_def)
    qed
  qed
qed

lemma lookup_find:
  "\<forall>e \<in> set t. used e \<longrightarrow> length (entry_call e) \<le> 11 \<Longrightarrow>
   hashtable_lookup ty h t = map_option entry_call (List.find (\<lambda>e. used e \<and> reduce_hash ty (n22 e) = h) t)"
  by (induction t) (auto simp: snprintf_s_def)

lemma take_bit_word_small: "unat n < 2 ^ k \<Longrightarrow> take_bit k n = (n :: u32)"
proof -
  assume "unat n < 2 ^ k"
  then have "unat (take_bit k n) = unat n" by (simp add: unsigned_take_bit_eq take_bit_nat_eq_self)
  then show ?thesis by (simp only: word_unat_eq_iff)
qed

lemma reduce_22: "n < 0x400000 \<Longrightarrow> reduce_hash HASH_22_BITS n = n"
proof -
  assume "n < 0x400000"
  then have "unat n < 2 ^ 22" by (simp add: word_less_nat_alt)
  then have "take_bit 22 n = n" by (rule take_bit_word_small)
  moreover have "reduce_hash HASH_22_BITS n = take_bit 22 n" by (simp add: take_bit_eq_mask mask_eq_exp_minus_1)
  ultimately show ?thesis by simp
qed

lemma find_holder:
  assumes "probe_ok CALLSIGN_HASH_TABLE_SIZE home_slot (entry_key t)" "length t = CALLSIGN_HASH_TABLE_SIZE"
    "i < length t" "used (t ! i)"
  shows "table_stored t (n22 (t ! i)) = Some (entry_call (t ! i))"
proof -
  have "j = i" if "j < length t" "used (t ! j)" "n22 (t ! j) = n22 (t ! i)" for j
    using callhash.holder_unique[OF assms(1), of i j "n22 (t ! i)"] assms(2-4) that by (simp add: entry_key_def)
  then have "List.find (\<lambda>e. used e \<and> n22 e = n22 (t ! i)) (t[i := t ! i]) = Some (t ! i)"
    using assms(3,4) by (intro find_update_only) auto
  then show ?thesis by (simp add: table_stored_def)
qed

lemma find_cong_set: "(\<And>x. x \<in> set xs \<Longrightarrow> P x = Q x) \<Longrightarrow> List.find P xs = List.find Q xs"
  by (induction xs) auto

interpretation calls: callsign_store hashtable_add hashtable_lookup table_stored table_good
proof
  fix t :: hashtable and h x :: u32 and c :: string and ty
  assume g: "table_good t"
  have l: "length t = CALLSIGN_HASH_TABLE_SIZE" and ok: "probe_ok CALLSIGN_HASH_TABLE_SIZE home_slot (entry_key t)"
    and b: "\<forall>e \<in> set t. used e \<longrightarrow> length (entry_call e) \<le> 11" "\<forall>e \<in> set t. used e \<longrightarrow> n22 e < 0x400000"
    using g by (auto simp: table_good_def)
  note look = lookup_find[OF b(1)]
  show "finite (dom (table_stored t))" using table_stored_dom[OF l] callhash.keys_finite by simp
  show "hashtable_lookup HASH_22_BITS h t = table_stored t h"
    unfolding look table_stored_def using b(2)
    by (intro arg_cong[of _ _ "map_option entry_call"] find_cong_set) (auto simp: reduce_22 simp del: reduce_hash.simps)
  show "\<exists>h. table_stored t h = Some c \<and> reduce_hash ty h = x" if s: "hashtable_lookup ty x t = Some c"
  proof -
    from s obtain i where "i < length t" "used (t ! i)" "reduce_hash ty (n22 (t ! i)) = x" "entry_call (t ! i) = c"
      unfolding look by (auto simp: find_Some_iff)
    with find_holder[OF ok l] show ?thesis by blast
  qed
  show "reduce_hash ty h \<noteq> x" if n: "hashtable_lookup ty x t = None" "h \<in> dom (table_stored t)"
  proof -
    obtain e where "e \<in> set t" "used e" "n22 e = h"
      using n(2) by (auto simp: table_stored_def dom_def find_Some_iff dest: nth_mem)
    with n(1) show ?thesis unfolding look by (auto simp: find_None_iff)
  qed
qed (simp_all add: hashtable_add_good hashtable_add_stored)

lemma hashtable_init_good:
  assumes "length t = CALLSIGN_HASH_TABLE_SIZE"
  shows "table_good (hashtable_init t)" "table_stored (hashtable_init t) = Map.empty"
proof -
  have "entry_key (hashtable_init t) = (\<lambda>_. None)" by (rule ext) (simp add: entry_key_def hashtable_init_def)
  with assms show "table_good (hashtable_init t)"
    using callhash.empty_ok by (auto simp: table_good_def hashtable_init_def)
  show "table_stored (hashtable_init t) = Map.empty"
    by (rule ext) (auto simp: table_stored_def find_None_iff hashtable_init_def)
qed

text \<open>
  C17. The call sign table refines a finite map: after \<^verbatim>\<open>hashtable_init\<close> and any sequence of saves of
  at most 256 distinct 22-bit hashes, a 22-bit lookup returns the call sign saved last under that
  hash, cut to 11 characters, or nothing when there is none, whatever hash collisions the probing
  met; a 12- or 10-bit lookup returns a saved call sign whose hash begins with the given bits, and
  fails only if there is none.
\<close>

theorem hashtable_refines_map:
  assumes "length t = CALLSIGN_HASH_TABLE_SIZE" "\<forall>(c, h) \<in> set cs. c \<noteq> [] \<and> h < 0x400000"
    "card (snd ` set cs) \<le> CALLSIGN_HASH_TABLE_SIZE"
  defines "saved \<equiv> map_of (rev (map (\<lambda>(c, h). (h, take 11 c)) cs))"
    and "t' \<equiv> fold (\<lambda>(c, h). hashtable_add c h) cs (hashtable_init t)"
  shows "hashtable_lookup HASH_22_BITS h t' = saved h
    \<and> (case hashtable_lookup ty x t' of
         Some c \<Rightarrow> \<exists>h. saved h = Some c \<and> reduce_hash ty h = x
       | None \<Rightarrow> \<forall>h \<in> dom saved. reduce_hash ty h \<noteq> x)"
proof -
  note i = hashtable_init_good[OF assms(1)]
  have "card (dom (table_stored (hashtable_init t)) \<union> snd ` set cs) \<le> CALLSIGN_HASH_TABLE_SIZE"
    using assms(3) i(2) by simp
  from calls.saves_stored[OF i(1) assms(2) this] have s: "table_good t'" "table_stored t' = saved"
    by (simp_all add: t'_def saved_def i(2))
  show ?thesis
    using calls.lookup_22[OF s(1)] calls.lookup_some[OF s(1), of ty x] calls.lookup_none[OF s(1), of ty x] s(2)
    by (auto split: option.split)
qed

theorem hashtable_refines_map_witness:
  "hashtable_lookup HASH_22_BITS 0x101
     (fold (\<lambda>(c, h). hashtable_add c h) [(''SA0PRF'', 1), (''A6TEST'', 0x101)]
        (hashtable_init (replicate 256 \<lparr>used = True, n22 = 7, entry_call = ''OLD''\<rparr>))) = Some ''A6TEST''"
proof -
  let ?t = "replicate 256 \<lparr>used = True, n22 = 7, entry_call = ''OLD''\<rparr> :: hashtable"
  have "length ?t = CALLSIGN_HASH_TABLE_SIZE"
    "\<forall>(c, h) \<in> set [(''SA0PRF'', 1), (''A6TEST'', 0x101 :: u32)]. c \<noteq> [] \<and> h < 0x400000"
    "card (snd ` set [(''SA0PRF'', 1), (''A6TEST'', 0x101 :: u32)]) \<le> CALLSIGN_HASH_TABLE_SIZE"
    by (simp_all add: CALLSIGN_HASH_TABLE_SIZE_def)
  from hashtable_refines_map[OF this, of "0x101" HASH_22_BITS 0] show ?thesis by (simp del: fold.simps)
qed

end
