(* ===== verification/Decode.thy ===== *)
theory Decode
  imports CallsignHash QsoHandler
begin

text \<open>
  \<^verbatim>\<open>decode\<close> of \<^verbatim>\<open>rtlsdr_ft8d.cpp\<close>: the loop over the candidates of a slot that drops repeated
  messages, and turns each new one into a spot, a message for the QSO handler, a line for the
  display and a line for the log. What the library \<^verbatim>\<open>ft8_lib\<close> computes for a candidate is data of
  the model: the decoded message if any, the audio frequency (already truncated to \<^verbatim>\<open>int32_t\<close>), the
  rounded level; \<open>unpack\<close> is \<^verbatim>\<open>ftx_message_decode\<close>, which reads and updates the call sign table.
\<close>

subsection \<open>Candidates and state\<close>

record ftx_message =
  payload :: "u8 list"
  msg_hash :: u16

record candidate =
  decoded_msg :: "ftx_message option" \<comment> \<open>\<^verbatim>\<open>ftx_decode_candidate\<close>, None when it fails\<close>
  freq_hz :: int
  est_snr :: int

type_synonym unpack = "ftx_message \<Rightarrow> hashtable \<Rightarrow> string option \<times> hashtable"

record denv =
  d_opts :: decoder_options
  d_time :: int \<comment> \<open>\<^verbatim>\<open>gettimeofday\<close>, seconds\<close>
  d_exit :: bool \<comment> \<open>\<^verbatim>\<open>rx_state.exit_flag\<close>\<close>
  d_unpack :: unpack
  d_junk :: plain_message \<comment> \<open>an uninitialised \<^verbatim>\<open>plain_message\<close>\<close>

text \<open>\<open>seen\<close> is the array of pointers into \<^verbatim>\<open>decoded\<close>; \<open>decodes\<close> the caller's result array.\<close>

record dstate =
  seen :: "ftx_message option list"
  decodes :: "decoder_results list"
  num_decoded :: nat
  calltable :: hashtable
  qsoh_out :: "plain_message list"
  qso_out :: "plain_message list"
  log_out :: "plain_message list"

definition FTX_MAX_MESSAGE_LENGTH :: nat where "FTX_MAX_MESSAGE_LENGTH = 35"

subsection \<open>Repeated messages\<close>

datatype probe_result = EmptySlot nat | Duplicate | Aborted

text \<open>
  The \<^verbatim>\<open>do .. while\<close> loop from \<open>idx\<close>; \<open>left\<close> counts the entries until the index is back at
  \<^verbatim>\<open>check_idx\<close>, where the loop gives up as if it had found a duplicate.
\<close>

fun probe :: "bool \<Rightarrow> ftx_message option list \<Rightarrow> ftx_message \<Rightarrow> nat \<Rightarrow> nat \<Rightarrow> probe_result" where
  "probe exiting tab m idx 0 = Duplicate"
| "probe exiting tab m idx (Suc left) =
     (if exiting then Aborted
      else case tab ! idx of
          None \<Rightarrow> EmptySlot idx
        | Some m' \<Rightarrow>
            if msg_hash m' = msg_hash m \<and> payload m' = payload m then Duplicate
            else probe exiting tab m ((idx + 1) mod K_MAX_MESSAGES) left)"

subsection \<open>Handling a new message\<close>

definition abs_freq :: "denv \<Rightarrow> candidate \<Rightarrow> int" where
  "abs_freq env c = i32 (freq_hz c + uint (d_freq (d_opts env)))"

definition this_slot :: "denv \<Rightarrow> ft8slot" where
  "this_slot env = slot_of_time (d_time env)"

text \<open>One call of \<^verbatim>\<open>strtok\<close>: the token and what is left.\<close>

definition next_token :: "char set \<Rightarrow> string \<Rightarrow> string option \<times> string" where
  "next_token ds s = (case strtok ds s of None \<Rightarrow> (None, []) | Some (t, r) \<Rightarrow> (Some t, r))"

definition or_empty :: "string option \<Rightarrow> string" where
  "or_empty t = (case t of None \<Rightarrow> [] | Some s \<Rightarrow> s)"

abbreviation spaces :: "char set" where "spaces \<equiv> {CHR '' ''}"
abbreviation spaces_nl :: "char set" where "spaces_nl \<equiv> {CHR '' '', char_of (10::nat)}"

text \<open>A CQ: \<open>rest\<close> is the text behind the first token. A bare CQ is skipped (\<open>None\<close>).\<close>

definition handle_cq :: "denv \<Rightarrow> candidate \<Rightarrow> string \<Rightarrow> dstate \<Rightarrow> dstate option result" where
  "handle_cq env c rest s =
     (let (tok, rest) = next_token spaces rest in
      case tok of
        None \<Rightarrow> Inr None
      | Some t \<Rightarrow>
          if length (decodes s) \<le> num_decoded s then Inl (OutOfBounds (length (decodes s)) (num_decoded s))
          else
            (let (cmd, tok, rest) =
                   (if length t = 2 then (let (tok, rest) = next_token spaces rest in (''CQ '' @ t, tok, rest))
                    else (''CQ   '', Some t, rest));
                 callid = snprintf_s 13 (take 12 (stripBrackets tok 13));
                 (locator, rest) = next_token spaces rest;
                 d = (decodes s ! num_decoded s)
                     \<lparr>r_cmd := cmd, r_call := callid, r_loc := snprintf_s 7 (take 6 (or_empty locator)),
                      r_freq := freq_hz c, r_snr := est_snr c, r_tempus := d_time env\<rparr>;
                 m = (d_junk env)
                     \<lparr>src := snprintf_s 13 callid, dest := ''CQ'', freq := abs_freq env c,
                      slot := this_slot env, snr := est_snr c, tempus := d_time env\<rparr>
             in Inr (Some (s\<lparr>decodes := (decodes s)[num_decoded s := d],
                             qsoh_out := tsq_push (qsoh_out s) m,
                             num_decoded := num_decoded s + 1\<rparr>))))"

text \<open>A message for the own call sign: the first token is its destination.\<close>

definition handle_ours :: "denv \<Rightarrow> candidate \<Rightarrow> string \<Rightarrow> string \<Rightarrow> dstate \<Rightarrow> dstate" where
  "handle_ours env c dst rest s =
     (let (source, rest) = next_token spaces rest;
          (msg, rest) = next_token spaces_nl rest;
          m = (d_junk env)
              \<lparr>src := snprintf_s 13 (stripBrackets source 13), dest := snprintf_s 13 (stripBrackets (Some dst) 13),
               message := snprintf_s 40 (or_empty msg), freq := abs_freq env c, snr := est_snr c,
               slot := this_slot env, tempus := d_time env\<rparr>
      in s\<lparr>qsoh_out := tsq_push (qsoh_out s) m\<rparr>)"

text \<open>Any other message: shown when it comes from the peer's frequency in the peer's slot.\<close>

definition handle_other :: "denv \<Rightarrow> qso \<Rightarrow> candidate \<Rightarrow> string \<Rightarrow> dstate \<Rightarrow> dstate" where
  "handle_other env q c msgToLog s =
     (if qsoInProgress q \<and> getActiveQsoFreq q \<noteq> 0
         \<and> \<bar>abs_freq env c - getActiveQsoFreq q\<bar> \<le> 50 \<and> this_slot env = getActiveQsoPeerSlot q then
        s\<lparr>qso_out := tsq_push (qso_out s)
            \<lparr>src = snprintf_s 13 (getActiveQsoPeer q), dest = snprintf_s 13 (rcall (d_opts env)), loc = [],
             message = snprintf_s 40 msgToLog, freq = abs_freq env c, snr = est_snr c,
             tempus = d_time env, slot = this_slot env\<rparr>\<rparr>
      else s)"

definition log_message :: "denv \<Rightarrow> candidate \<Rightarrow> string \<Rightarrow> dstate \<Rightarrow> dstate" where
  "log_message env c msgToLog s =
     (let (dst, rest) = next_token spaces msgToLog;
          (source, rest) = next_token spaces rest;
          (txt, rest) = next_token spaces_nl rest
      in s\<lparr>log_out := tsq_push (log_out s)
            ((d_junk env)\<lparr>src := snprintf_s 13 (stripBrackets source 13), dest := snprintf_s 13 (stripBrackets dst 13),
              message := snprintf_s 40 (or_empty txt), freq := abs_freq env c, snr := est_snr c,
              tempus := d_time env\<rparr>)\<rparr>)"

text \<open>What happens to a message that took an empty entry of the table.\<close>

definition handle_new :: "denv \<Rightarrow> qso \<Rightarrow> candidate \<Rightarrow> ftx_message \<Rightarrow> dstate \<Rightarrow> dstate result" where
  "handle_new env q c m s =
     (let (txt, tab) = d_unpack env m (calltable s); s = s\<lparr>calltable := tab\<rparr> in
      case txt of
        None \<Rightarrow> Inr s
      | Some text \<Rightarrow>
          (let msgToLog = snprintf_s FTX_MAX_MESSAGE_LENGTH text; (tok, rest) = next_token spaces text in
           case tok of
             None \<Rightarrow> Inr s
           | Some t \<Rightarrow>
               if strncmp_eq t ''CQ'' then
                 rbind (handle_cq env c rest s)
                   (\<lambda>r. Inr (case r of None \<Rightarrow> s | Some s' \<Rightarrow> log_message env c msgToLog s'))
               else
                 Inr (log_message env c msgToLog
                   (if strncmp_eq t (rcall (d_opts env))
                    then handle_ours env c t rest s else handle_other env q c msgToLog s))))"

subsection \<open>The loop\<close>

definition handle_candidate :: "denv \<Rightarrow> qso \<Rightarrow> candidate \<Rightarrow> dstate \<Rightarrow> dstate result" where
  "handle_candidate env q c s =
     (case decoded_msg c of
        None \<Rightarrow> Inr s
      | Some m \<Rightarrow>
          (case probe (d_exit env) (seen s) m (unat (msg_hash m) mod K_MAX_MESSAGES) K_MAX_MESSAGES of
             EmptySlot i \<Rightarrow> handle_new env q c m (s\<lparr>seen := (seen s)[i := Some m]\<rparr>)
           | _ \<Rightarrow> Inr s))"

fun decode_loop :: "denv \<Rightarrow> qso \<Rightarrow> candidate list \<Rightarrow> dstate \<Rightarrow> dstate result" where
  "decode_loop env q [] s = Inr s"
| "decode_loop env q (c # cs) s = rbind (handle_candidate env q c s) (decode_loop env q cs)"

text \<open>
  The whole function: the results, their number, the call sign table, the log, and the handler's
  queues with what was pushed to them, the tick last. The fields of the contact it shows are read
  from \<open>q\<close>.
\<close>

definition decode :: "denv \<Rightarrow> candidate list \<Rightarrow> decoder_results list \<Rightarrow> hashtable \<Rightarrow> qso
    \<Rightarrow> (decoder_results list \<times> nat \<times> hashtable \<times> plain_message list \<times> qso) result" where
  "decode env cs results tab q =
     rbind (decode_loop env q cs
        \<lparr>seen = replicate K_MAX_MESSAGES None, decodes = results, num_decoded = 0, calltable = tab,
         qsoh_out = qsoh_queue q, qso_out = qso_queue q, log_out = []\<rparr>)
       (\<lambda>s. Inr (decodes s, num_decoded s, calltable s, log_out s,
          q\<lparr>qsoh_queue := qsoh_out s, qso_queue := qso_out s,
            tick_queue := tsq_push (tick_queue q) (this_slot env)\<rparr>))"

end
