(* ===== verification/DecodeSpots.thy ===== *)
theory DecodeSpots
  imports Decode
begin

text \<open>
  What \<open>decode\<close> does as a whole: its fixed tables never overflow, the duplicate table behaves as a
  set of the messages seen, and how the texts reach the QSO handler and the log.
\<close>

subsection \<open>The duplicate table\<close>

definition home_msg :: "ftx_message \<Rightarrow> nat" where
  "home_msg m = unat (msg_hash m) mod K_MAX_MESSAGES"

definition seen_key :: "ftx_message option list \<Rightarrow> nat \<Rightarrow> ftx_message option" where
  "seen_key tab i = (if i < length tab then tab ! i else None)"

interpretation seenset: open_addressing K_MAX_MESSAGES home_msg
  by unfold_locales (simp add: K_MAX_MESSAGES_def)

lemma same_message [simp]: "msg_hash m' = msg_hash m \<and> payload m' = payload m \<longleftrightarrow> m' = (m :: ftx_message)"
  by (cases m; cases m') auto

lemma slot_next: "(pslot N hm k i + 1) mod N = pslot N hm k (i + 1)"
  by (simp add: pslot_def mod_Suc_eq)

lemma probe_stop:
  assumes "stops_at K_MAX_MESSAGES home_msg (seen_key tab) m d" "length tab = K_MAX_MESSAGES" "i \<le> d"
  shows "probe False tab m (pslot K_MAX_MESSAGES home_msg m i) (K_MAX_MESSAGES - i) =
    (if seen_key tab (pslot K_MAX_MESSAGES home_msg m d) = None
     then EmptySlot (pslot K_MAX_MESSAGES home_msg m d) else Duplicate)"
  using assms(3)
proof (induction "d - i" arbitrary: i)
  case 0
  then have i: "i = d" by simp
  have d: "d < K_MAX_MESSAGES" using assms(1) by (simp add: stops_at_def)
  then obtain l where l: "K_MAX_MESSAGES - i = Suc l" using i by (metis Suc_diff_Suc)
  have "seen_key tab (pslot K_MAX_MESSAGES home_msg m d) = tab ! pslot K_MAX_MESSAGES home_msg m d"
    using seenset.slot_less assms(2) by (simp add: seen_key_def)
  with assms(1) l i show ?case by (auto simp: stops_at_def)
next
  case (Suc k)
  then have i: "i < d" by simp
  have d: "d < K_MAX_MESSAGES" using assms(1) by (simp add: stops_at_def)
  have l: "K_MAX_MESSAGES - i = Suc (K_MAX_MESSAGES - (i + 1))" using i d by simp
  have "seen_key tab (pslot K_MAX_MESSAGES home_msg m i) = tab ! pslot K_MAX_MESSAGES home_msg m i"
    using seenset.slot_less assms(2) by (simp add: seen_key_def)
  moreover have "seen_key tab (pslot K_MAX_MESSAGES home_msg m i) \<noteq> None"
    "seen_key tab (pslot K_MAX_MESSAGES home_msg m i) \<noteq> Some m"
    using assms(1) i unfolding stops_at_def by blast+
  ultimately obtain m' where "tab ! pslot K_MAX_MESSAGES home_msg m i = Some m'" "m' \<noteq> m" by auto
  then show ?case using Suc.hyps(1)[of "i + 1"] Suc.hyps(2) i
    by (simp add: l slot_next del: One_nat_def Suc_eq_plus1)
qed

lemma probe_full:
  assumes "\<not> (\<exists>d. stops_at K_MAX_MESSAGES home_msg (seen_key tab) m d)" "length tab = K_MAX_MESSAGES"
  shows "probe False tab m (pslot K_MAX_MESSAGES home_msg m i) l = Duplicate"
proof (induction l arbitrary: i)
  case (Suc l)
  let ?j = "pslot K_MAX_MESSAGES home_msg m i"
  have "?j < K_MAX_MESSAGES" by (rule seenset.slot_less)
  then have "seen_key tab ?j \<noteq> None" "seen_key tab ?j \<noteq> Some m" "seen_key tab ?j = tab ! ?j"
    using seenset.stop_unless_full[OF assms(1)] assms(2) unfolding pkeys_def by (auto simp: seen_key_def)
  then show ?case using Suc[of "i + 1"] by (auto simp: slot_next simp del: One_nat_def Suc_eq_plus1)
qed simp

lemma seen_update: "j < length tab \<Longrightarrow> seen_key (tab[j := Some m]) = (seen_key tab)(j := Some m)"
  by (rule ext) (auto simp: seen_key_def nth_list_update)

text \<open>The table represents the set \<open>K\<close>.\<close>

definition seen_are :: "ftx_message set \<Rightarrow> ftx_message option list \<Rightarrow> bool" where
  "seen_are K tab \<longleftrightarrow> length tab = K_MAX_MESSAGES \<and> probe_ok K_MAX_MESSAGES home_msg (seen_key tab)
     \<and> pkeys K_MAX_MESSAGES (seen_key tab) = K"

lemma seen_are_empty: "seen_are {} (replicate K_MAX_MESSAGES None)"
proof -
  have "seen_key (replicate K_MAX_MESSAGES None) = (\<lambda>_. None)" by (rule ext) (simp add: seen_key_def)
  then show ?thesis using seenset.empty_ok by (simp add: seen_are_def)
qed

lemma seen_are_finite: "seen_are K tab \<Longrightarrow> finite K \<and> card K \<le> K_MAX_MESSAGES"
  using seenset.keys_finite seenset.card_keys by (auto simp: seen_are_def)

lemma probe_seen:
  assumes "seen_are K tab"
  shows "(\<exists>i. probe False tab m (home_msg m) K_MAX_MESSAGES = EmptySlot i \<and> m \<notin> K
            \<and> seen_are (insert m K) (tab[i := Some m]))
       \<or> (probe False tab m (home_msg m) K_MAX_MESSAGES = Duplicate \<and> (m \<in> K \<or> card K = K_MAX_MESSAGES))"
proof (cases "\<exists>d. stops_at K_MAX_MESSAGES home_msg (seen_key tab) m d")
  case True
  then obtain d where d: "stops_at K_MAX_MESSAGES home_msg (seen_key tab) m d" by blast
  let ?j = "pslot K_MAX_MESSAGES home_msg m d"
  have t: "length tab = K_MAX_MESSAGES" "probe_ok K_MAX_MESSAGES home_msg (seen_key tab)"
    "pkeys K_MAX_MESSAGES (seen_key tab) = K" using assms by (simp_all add: seen_are_def)
  have j: "?j < length tab" using seenset.slot_less t by simp
  have z: "pslot K_MAX_MESSAGES home_msg m 0 = home_msg m" by (simp add: pslot_def home_msg_def)
  show ?thesis
  proof (cases "seen_key tab ?j = None")
    case True
    have "m \<notin> K" using seenset.stop_absent[OF t(2) d True] t(3) by simp
    moreover have "seen_are (insert m K) (tab[?j := Some m])"
      using seenset.insert_ok[OF t(2) d] seenset.keys_insert[OF d] t by (simp add: seen_are_def seen_update[OF j])
    ultimately show ?thesis using probe_stop[OF d t(1), of 0] True z by auto
  next
    case False
    then have "seen_key tab ?j = Some m" using d by (auto simp: stops_at_def)
    then have "m \<in> K" using seenset.slot_less t(3) unfolding pkeys_def by blast
    then show ?thesis using probe_stop[OF d t(1), of 0] False z by auto
  qed
next
  case False
  have t: "length tab = K_MAX_MESSAGES" "probe_ok K_MAX_MESSAGES home_msg (seen_key tab)"
    "pkeys K_MAX_MESSAGES (seen_key tab) = K" using assms by (simp_all add: seen_are_def)
  have "pslot K_MAX_MESSAGES home_msg m 0 = home_msg m" by (simp add: pslot_def home_msg_def)
  then show ?thesis
    using probe_full[OF False t(1), of 0] seenset.stop_unless_full(2)[OF False] seenset.full_card[OF t(2)] t(3) by auto
qed

subsection \<open>The loop\<close>

text \<open>Handling a message never looks at the duplicate table.\<close>

lemma handle_new_seen:
  "handle_new env q c m (s\<lparr>seen := x\<rparr>) = map_sum id (\<lambda>s. s\<lparr>seen := x\<rparr>) (handle_new env q c m s)"
  by (auto simp: handle_new_def Let_def handle_cq_def log_message_def handle_ours_def handle_other_def
      rbind_def split: option.splits prod.splits sum.splits)

lemma handle_new_shape:
  assumes "num_decoded s < length (decodes s)"
  shows "\<exists>s'. handle_new env q c m s = Inr s' \<and> length (decodes s') = length (decodes s)
     \<and> num_decoded s' \<le> num_decoded s + 1 \<and> seen s' = seen s"
  using assms
  by (auto simp: handle_new_def Let_def handle_cq_def log_message_def handle_ours_def handle_other_def
      split: option.splits prod.splits)

text \<open>The state of the loop after the messages \<open>K\<close>.\<close>

definition loop_inv :: "ftx_message set \<Rightarrow> dstate \<Rightarrow> bool" where
  "loop_inv K s \<longleftrightarrow> seen_are K (seen s) \<and> length (decodes s) = K_MAX_MESSAGES \<and> num_decoded s \<le> card K"

lemma probe_exit: "probe True tab m i K_MAX_MESSAGES = Aborted"
proof (cases K_MAX_MESSAGES)
  case (Suc n)
  show ?thesis unfolding Suc by simp
qed (simp add: K_MAX_MESSAGES_def)

lemma handle_candidate_inv:
  assumes "loop_inv K s"
  shows "\<exists>s' K'. handle_candidate env q c s = Inr s' \<and> loop_inv K' s'"
proof (cases "decoded_msg c")
  case None
  with assms show ?thesis by (auto simp: handle_candidate_def)
next
  case (Some m)
  show ?thesis
  proof (cases "d_exit env")
    case True
    with Some have "handle_candidate env q c s = Inr s" by (simp add: handle_candidate_def probe_exit)
    with assms show ?thesis by blast
  next
    case False
    have k: "seen_are K (seen s)" using assms by (simp add: loop_inv_def)
    from probe_seen[OF k, of m] show ?thesis
    proof (elim disjE exE conjE)
      fix i assume p: "probe False (seen s) m (home_msg m) K_MAX_MESSAGES = EmptySlot i" "m \<notin> K"
        "seen_are (insert m K) ((seen s)[i := Some m])"
      let ?s = "s\<lparr>seen := (seen s)[i := Some m]\<rparr>"
      have c: "card (insert m K) = card K + 1" "card (insert m K) \<le> K_MAX_MESSAGES"
        using seen_are_finite[OF p(3)] seen_are_finite[OF k] p(2) by auto
      then have "num_decoded ?s < length (decodes ?s)" using assms by (simp add: loop_inv_def)
      from handle_new_shape[OF this, of env q c m] obtain s' where s': "handle_new env q c m ?s = Inr s'"
        "length (decodes s') = length (decodes s)" "num_decoded s' \<le> num_decoded s + 1" "seen s' = (seen s)[i := Some m]"
        by auto
      then have "loop_inv (insert m K) s'" using p(3) c(1) assms by (simp add: loop_inv_def)
      with s'(1) p(1) Some False show ?thesis by (auto simp: handle_candidate_def home_msg_def)
    qed (use Some False assms in \<open>auto simp: handle_candidate_def home_msg_def\<close>)
  qed
qed

lemma decode_loop_inv:
  "loop_inv K s \<Longrightarrow> \<exists>s' K'. decode_loop env q cs s = Inr s' \<and> loop_inv K' s'"
proof (induction cs arbitrary: K s)
  case (Cons c cs)
  obtain s' K' where "handle_candidate env q c s = Inr s'" "loop_inv K' s'"
    using handle_candidate_inv[OF Cons.prems] by blast
  then show ?case using Cons.IH by simp
qed auto

definition decode_start :: "decoder_results list \<Rightarrow> hashtable \<Rightarrow> qso \<Rightarrow> dstate" where
  "decode_start results tab q =
     \<lparr>seen = replicate K_MAX_MESSAGES None, decodes = results, num_decoded = 0, calltable = tab,
      qsoh_out = qsoh_queue q, qso_out = qso_queue q, log_out = []\<rparr>"

lemma decode_start_inv: "length results = K_MAX_MESSAGES \<Longrightarrow> loop_inv {} (decode_start results tab q)"
  by (simp add: loop_inv_def decode_start_def seen_are_empty)

text \<open>
  \<^verbatim>\<open>decode\<close> stays inside its fixed arrays whatever the candidates, their texts and the exit flag:
  it fills at most the 50 entries of the result array, returns how many, and ends by queueing
  exactly one tick with the current slot for the QSO handler.
\<close>

lemma decode_in_bounds:
  assumes "length results = K_MAX_MESSAGES"
  shows "\<exists>ds n tab' log q'. decode env cs results tab q = Inr (ds, n, tab', log, q')
    \<and> n \<le> K_MAX_MESSAGES \<and> length ds = K_MAX_MESSAGES \<and> tick_queue q' = tick_queue q @ [this_slot env]"
proof -
  obtain s K where s: "decode_loop env q cs (decode_start results tab q) = Inr s" "loop_inv K s"
    using decode_loop_inv[OF decode_start_inv[OF assms]] by blast
  have "num_decoded s \<le> K_MAX_MESSAGES" "length (decodes s) = K_MAX_MESSAGES"
    using s(2) seen_are_finite[of K "seen s"] by (auto simp: loop_inv_def)
  with s(1) show ?thesis by (simp add: decode_def decode_start_def tsq_push_def)
qed

definition no_result :: decoder_results where
  "no_result = \<lparr>r_cmd = [], r_call = [], r_dest = [], r_loc = [], r_freq = 0, r_snr = 0, r_tempus = 0\<rparr>"

definition demo_denv :: denv where
  "demo_denv = \<lparr>d_opts = \<lparr>d_freq = 14074000, rcall = ''SA0PRF'', rloc = ''JO99''\<rparr>, d_time = 30, d_exit = False,
     d_unpack = (\<lambda>m tab. (Some ''CQ F1ABC JN99'', tab)),
     d_junk = \<lparr>src = [], dest = [], loc = [], message = [], freq = 0, snr = 0, tempus = 0, slot = even_slot\<rparr>\<rparr>"

definition demo_cand :: candidate where
  "demo_cand = \<lparr>decoded_msg = Some \<lparr>payload = [1, 2], msg_hash = 7\<rparr>, freq_hz = 1000, est_snr = - 7\<rparr>"

subsection \<open>The loop refines a loop over a set\<close>

text \<open>The reference: a message is handled when it is not in the set of messages handled so far.\<close>

fun spec_loop :: "denv \<Rightarrow> qso \<Rightarrow> ftx_message set \<Rightarrow> candidate list \<Rightarrow> dstate \<Rightarrow> dstate result" where
  "spec_loop env q K [] s = Inr s"
| "spec_loop env q K (c # cs) s =
     (case decoded_msg c of
        None \<Rightarrow> spec_loop env q K cs s
      | Some m \<Rightarrow> if m \<in> K then spec_loop env q K cs s
                  else rbind (handle_new env q c m s) (spec_loop env q (insert m K) cs))"

definition messages :: "candidate list \<Rightarrow> ftx_message set" where
  "messages cs = set (List.map_filter decoded_msg cs)"

lemma messages_simps [simp]:
  "messages [] = {}"
  "messages (c # cs) = (case decoded_msg c of None \<Rightarrow> messages cs | Some m \<Rightarrow> insert m (messages cs))"
  by (simp_all add: messages_def List.map_filter_simps split: option.split)

lemma finite_messages [simp]: "finite (messages cs)"
  by (simp add: messages_def)

lemma decode_loop_spec:
  assumes "\<not> d_exit env" "seen_are K (seen s)" "card (K \<union> messages cs) \<le> K_MAX_MESSAGES"
    "s' = s\<lparr>seen := x\<rparr>"
  shows "map_sum id (\<lambda>s. s\<lparr>seen := x\<rparr>) (decode_loop env q cs s) = spec_loop env q K cs s'"
  using assms(2-4)
proof (induction cs arbitrary: K s s')
  case (Cons c cs)
  show ?case
  proof (cases "decoded_msg c")
    case None
    with Cons show ?thesis by (simp add: handle_candidate_def)
  next
    case (Some m)
    have fin: "finite K" using seen_are_finite[OF Cons.prems(1)] by simp
    have ca: "card (insert m K \<union> messages cs) \<le> K_MAX_MESSAGES" using Cons.prems(2) Some by simp
    from probe_seen[OF Cons.prems(1), of m] show ?thesis
    proof (elim disjE exE conjE)
      fix i assume p: "probe False (seen s) m (home_msg m) K_MAX_MESSAGES = EmptySlot i" "m \<notin> K"
        "seen_are (insert m K) ((seen s)[i := Some m])"
      let ?s = "s\<lparr>seen := (seen s)[i := Some m]\<rparr>"
      have h: "handle_candidate env q c s = handle_new env q c m ?s"
        using p(1) Some assms(1) by (simp add: handle_candidate_def home_msg_def)
      show ?thesis
      proof (cases "handle_new env q c m s")
        case (Inl e)
        then show ?thesis using p(2) Some Cons.prems(3) h by (simp add: handle_new_seen)
      next
        case (Inr t)
        have "map_sum id (\<lambda>s. s\<lparr>seen := x\<rparr>) (decode_loop env q cs (t\<lparr>seen := (seen s)[i := Some m]\<rparr>))
            = spec_loop env q (insert m K) cs (t\<lparr>seen := x\<rparr>)"
          using p(3) ca by (intro Cons.IH) simp_all
        then show ?thesis using p(2) Some Cons.prems(3) h Inr by (simp add: handle_new_seen id_def)
      qed
    next
      assume p: "probe False (seen s) m (home_msg m) K_MAX_MESSAGES = Duplicate"
      have h: "handle_candidate env q c s = Inr s"
        using p Some assms(1) by (simp add: handle_candidate_def home_msg_def)
      assume "m \<in> K"
      moreover have "card (K \<union> messages cs) \<le> K_MAX_MESSAGES"
        using Cons.prems(2) Some \<open>m \<in> K\<close> by (simp add: insert_absorb)
      ultimately show ?thesis using h Some Cons.IH[OF Cons.prems(1) _ Cons.prems(3)] by simp
    next
      assume p: "probe False (seen s) m (home_msg m) K_MAX_MESSAGES = Duplicate" and "card K = K_MAX_MESSAGES"
      have h: "handle_candidate env q c s = Inr s"
        using p Some assms(1) by (simp add: handle_candidate_def home_msg_def)
      have "K \<union> messages (c # cs) = K"
        using \<open>card K = K_MAX_MESSAGES\<close> Cons.prems(2) fin
        by (intro sym[OF card_seteq]) (simp_all add: finite_UnI del: messages_simps)
      then have "m \<in> K" "K \<union> messages cs = K" using Some by auto
      then have "m \<in> K" "card (K \<union> messages cs) \<le> K_MAX_MESSAGES"
        using \<open>card K = K_MAX_MESSAGES\<close> by simp_all
      then show ?thesis using h Some Cons.IH[OF Cons.prems(1) _ Cons.prems(3)] by simp
    qed
  qed
qed simp

text \<open>
  C12. Refinement: with at most 50 different messages in the slot, the hashed duplicate table makes
  \<^verbatim>\<open>decode\<close> handle every message exactly once, at its first candidate and in the order of the
  candidates, for every hash function: results, log, queues and call sign table are those of the
  loop that keeps a set.
\<close>

theorem decode_handles_each_once:
  assumes "\<not> d_exit env" "card (messages cs) \<le> K_MAX_MESSAGES"
  shows "decode env cs results tab q =
    rbind (spec_loop env q {} cs (decode_start results tab q))
      (\<lambda>s. Inr (decodes s, num_decoded s, calltable s, log_out s,
          q\<lparr>qsoh_queue := qsoh_out s, qso_queue := qso_out s,
            tick_queue := tsq_push (tick_queue q) (this_slot env)\<rparr>))"
proof -
  let ?s = "decode_start results tab q"
  have "map_sum id (\<lambda>s. s\<lparr>seen := seen ?s\<rparr>) (decode_loop env q cs ?s) = spec_loop env q {} cs ?s"
    using assms by (intro decode_loop_spec) (simp_all add: decode_start_def seen_are_empty)
  then have e: "spec_loop env q {} cs ?s = map_sum id (\<lambda>s. s\<lparr>seen := seen ?s\<rparr>) (decode_loop env q cs ?s)" by simp
  show ?thesis unfolding e
    by (cases "decode_loop env q cs ?s") (simp_all add: decode_def flip: decode_start_def)
qed

theorem decode_handles_each_once_witness:
  "map_sum id (\<lambda>(ds, n, tab, log, q). (n, map src (qsoh_queue q), length log))
     (decode demo_denv [demo_cand, demo_cand, demo_cand] [no_result, no_result] [] init_globals)
   = Inr (1, [''F1ABC''], 1)"
proof -
  let ?cs = "[demo_cand, demo_cand, demo_cand]"
  have "card (messages ?cs) \<le> K_MAX_MESSAGES" "\<not> d_exit demo_denv"
    by (simp_all add: demo_cand_def K_MAX_MESSAGES_def demo_denv_def)
  note e = decode_handles_each_once[OF this(2,1), of "[no_result, no_result]" "[]" init_globals]
  show ?thesis unfolding e
    by (simp add: demo_cand_def demo_denv_def handle_new_def handle_cq_def log_message_def decode_start_def
        init_globals_def next_token_def strtok_def stripBrackets_def snprintf_s_def tsq_push_def Let_def
        strncmp_eq_def FTX_MAX_MESSAGE_LENGTH_def)
qed

subsection \<open>Routing a standard text\<close>

lemma next_token_word:
  "is_word t \<Longrightarrow> next_token spaces (t @ CHR '' '' # r) = (Some t, r)"
proof -
  assume w: "is_word t"
  then obtain c u where t: "t = c # u" "c \<noteq> CHR '' ''" "CHR '' '' \<notin> set u"
    by (cases t) (auto simp: is_word_def)
  then have "takeWhile (\<lambda>c. c \<noteq> CHR '' '') (u @ CHR '' '' # r) = u"
    "dropWhile (\<lambda>c. c \<noteq> CHR '' '') (u @ CHR '' '' # r) = CHR '' '' # r"
    by (auto simp: takeWhile_append dropWhile_append)
  with t show ?thesis by (simp add: next_token_def strtok_def)
qed

lemma newline_char: "char_of (10::nat) = CHR 0x0A"
  by code_simp

lemma next_token_last:
  "w \<noteq> [] \<Longrightarrow> set w \<inter> spaces_nl = {} \<Longrightarrow> next_token spaces_nl w = (Some w, [])"
proof -
  assume w: "w \<noteq> []" "set w \<inter> spaces_nl = {}"
  then obtain c u where t: "w = c # u" "c \<notin> spaces_nl" "\<forall>x \<in> set u. x \<notin> spaces_nl" by (cases w) auto
  then have "takeWhile (\<lambda>c. c \<noteq> CHR '' '' \<and> c \<noteq> char_of (10::nat)) u = u"
    "dropWhile (\<lambda>c. c \<noteq> CHR '' '' \<and> c \<noteq> char_of (10::nat)) u = []"
    by (simp_all add: takeWhile_eq_all_conv dropWhile_eq_Nil_conv)
  with t show ?thesis by (simp add: next_token_def strtok_def dropWhile_eq_Nil_conv[THEN iffD2])
qed

text \<open>The three words of a standard message, and the record it becomes.\<close>

definition standard_words :: "string \<Rightarrow> string \<Rightarrow> string \<Rightarrow> bool" where
  "standard_words d s w \<longleftrightarrow> is_word d \<and> is_word s \<and> w \<noteq> [] \<and> set w \<inter> spaces_nl = {}
     \<and> length s < 13 \<and> hd s \<noteq> CHR ''<'' \<and> length d + length s + length w \<le> 32"

definition heard :: "denv \<Rightarrow> candidate \<Rightarrow> string \<Rightarrow> string \<Rightarrow> string \<Rightarrow> plain_message" where
  "heard env c d s w = (d_junk env)\<lparr>src := s, dest := d, message := w, freq := abs_freq env c,
     snr := est_snr c, tempus := d_time env\<rparr>"

lemma log_standard:
  assumes "standard_words d s w"
  shows "log_message env c (snprintf_s FTX_MAX_MESSAGE_LENGTH (d @ CHR '' '' # s @ CHR '' '' # w)) st
    = st\<lparr>log_out := log_out st @ [heard env c (stripBrackets (Some d) 13) s w]\<rparr>"
proof -
  have "length (d @ CHR '' '' # s @ CHR '' '' # w) \<le> 34" using assms by (simp add: standard_words_def)
  then have t: "snprintf_s FTX_MAX_MESSAGE_LENGTH (d @ CHR '' '' # s @ CHR '' '' # w) = d @ CHR '' '' # s @ CHR '' '' # w"
    by (simp add: snprintf_s_def FTX_MAX_MESSAGE_LENGTH_def)
  have "length (stripBrackets (Some d) 13) \<le> 12" by (simp add: stripBrackets_def Let_def)
  with assms show ?thesis unfolding t
    by (simp add: log_message_def standard_words_def next_token_word next_token_last heard_def tsq_push_def
        snprintf_s_def or_empty_def)
qed

text \<open>
  A message of three words that is not a CQ is always logged with its sender, destination and
  word; it reaches the QSO handler, with the absolute frequency, level, time and slot, exactly when
  its destination begins with the own call sign.
\<close>

theorem standard_text_routed:
  assumes "standard_words d s w" "length d < 13" "hd d \<noteq> CHR ''<''" "\<not> strncmp_eq d ''CQ''"
    and "d_unpack env m (calltable st) = (Some (d @ CHR '' '' # s @ CHR '' '' # w), tab)"
  shows "\<exists>st'. handle_new env q c m st = Inr st'
    \<and> log_out st' = log_out st @ [heard env c d s w]
    \<and> qsoh_out st' = (if strncmp_eq d (rcall (d_opts env))
        then qsoh_out st @ [(heard env c d s w)\<lparr>slot := this_slot env\<rparr>] else qsoh_out st)
    \<and> num_decoded st' = num_decoded st"
proof -
  have w: "is_word d" "is_word s" "w \<noteq> []" "set w \<inter> spaces_nl = {}" "length s < 13" "hd s \<noteq> CHR ''<''" "length w < 40"
    using assms(1) by (auto simp: standard_words_def)
  have "handle_ours env c d (s @ CHR '' '' # w) st1 = st1\<lparr>qsoh_out := qsoh_out st1 @ [(heard env c d s w)\<lparr>slot := this_slot env\<rparr>]\<rparr>" for st1
    using w assms(2,3)
    by (simp add: handle_ours_def next_token_word next_token_last heard_def tsq_push_def snprintf_s_def or_empty_def)
  moreover have "qsoh_out (handle_other env q c t st1) = qsoh_out st1" "log_out (handle_other env q c t st1) = log_out st1"
    "num_decoded (handle_other env q c t st1) = num_decoded st1" for t st1
    by (simp_all add: handle_other_def)
  ultimately show ?thesis
    using assms w by (simp add: handle_new_def log_standard next_token_word)
qed

definition demo_msg :: ftx_message where
  "demo_msg = \<lparr>payload = [1, 2], msg_hash = 7\<rparr>"

definition demo_text :: "string \<Rightarrow> denv" where
  "demo_text t = demo_denv\<lparr>d_unpack := (\<lambda>m tab. (Some t, tab))\<rparr>"

theorem standard_text_routed_witness:
  "\<exists>st'. handle_new (demo_text ''SA0PRF F1ABC -07'') init_globals demo_cand demo_msg (decode_start [] [] init_globals) = Inr st'
     \<and> qsoh_out st' = [(heard (demo_text ''SA0PRF F1ABC -07'') demo_cand ''SA0PRF'' ''F1ABC'' ''-07'')\<lparr>slot := even_slot\<rparr>]"
proof -
  let ?e = "demo_text ''SA0PRF F1ABC -07''" and ?st = "decode_start [] [] init_globals"
  have h: "standard_words ''SA0PRF'' ''F1ABC'' ''-07''" "length ''SA0PRF'' < 13" "hd ''SA0PRF'' \<noteq> CHR ''<''"
    "\<not> strncmp_eq ''SA0PRF'' ''CQ''"
    by (auto simp: standard_words_def is_word_def strncmp_eq_def newline_char)
  have u: "d_unpack ?e demo_msg (calltable ?st) = (Some (''SA0PRF'' @ CHR '' '' # ''F1ABC'' @ CHR '' '' # ''-07''), [])"
    by (simp add: demo_text_def decode_start_def)
  have e: "rcall (d_opts ?e) = ''SA0PRF''" "this_slot ?e = even_slot"
    by (simp_all add: demo_text_def demo_denv_def this_slot_def slot_of_time_def FT8_PERIOD_def)
  from standard_text_routed[OF h u, of init_globals demo_cand] show ?thesis
    unfolding e by (auto simp: decode_start_def init_globals_def)
qed

text \<open>
  A message for a hashed own call sign is not recognised: the text then has the call in angle
  brackets, which the comparison with the own call does not strip, so the QSO handler never sees it
  although the log shows it as addressed to the own station.
\<close>

theorem bracketed_own_call_ignored:
  assumes "standard_words (CHR ''<'' # rcall (d_opts env) @ ''>'') s w" "length (rcall (d_opts env)) < 13"
    "rcall (d_opts env) \<noteq> []" "hd (rcall (d_opts env)) \<noteq> CHR ''<''"
    and "d_unpack env m (calltable st)
      = (Some ((CHR ''<'' # rcall (d_opts env) @ ''>'') @ CHR '' '' # s @ CHR '' '' # w), tab)"
  shows "\<exists>st'. handle_new env q c m st = Inr st' \<and> qsoh_out st' = qsoh_out st
    \<and> log_out st' = log_out st @ [heard env c (rcall (d_opts env)) s w]"
proof -
  let ?d = "CHR ''<'' # rcall (d_opts env) @ ''>''"
  have n: "\<not> strncmp_eq ?d ''CQ''" "\<not> strncmp_eq ?d (rcall (d_opts env))"
    using assms(3,4) by (cases "rcall (d_opts env)"; auto simp: strncmp_eq_def)+
  have b: "stripBrackets (Some ?d) 13 = rcall (d_opts env)" using assms(2) by (rule stripBrackets_plain)
  have w: "is_word ?d" using assms(1) by (simp add: standard_words_def)
  have o: "qsoh_out (handle_other env q c t st1) = qsoh_out st1" "log_out (handle_other env q c t st1) = log_out st1" for t st1
    by (simp_all add: handle_other_def)
  show ?thesis
    using assms(5) n log_standard[OF assms(1)] next_token_word[OF w] b o by (simp add: handle_new_def)
qed

theorem bracketed_own_call_ignored_witness:
  "\<exists>st'. handle_new (demo_text ''<SA0PRF> F1ABC -07'') init_globals demo_cand demo_msg (decode_start [] [] init_globals) = Inr st'
     \<and> qsoh_out st' = [] \<and> map dest (log_out st') = [''SA0PRF'']"
proof -
  let ?e = "demo_text ''<SA0PRF> F1ABC -07''" and ?st = "decode_start [] [] init_globals"
  have r: "rcall (d_opts ?e) = ''SA0PRF''" by (simp add: demo_text_def demo_denv_def)
  have h: "standard_words (CHR ''<'' # rcall (d_opts ?e) @ ''>'') ''F1ABC'' ''-07''" "length (rcall (d_opts ?e)) < 13"
    "rcall (d_opts ?e) \<noteq> []" "hd (rcall (d_opts ?e)) \<noteq> CHR ''<''"
    unfolding r by (auto simp: standard_words_def is_word_def newline_char)
  have u: "d_unpack ?e demo_msg (calltable ?st) = (Some ((CHR ''<'' # rcall (d_opts ?e) @ ''>'') @ CHR '' '' # ''F1ABC'' @ CHR '' '' # ''-07''), [])"
    unfolding r by (simp add: demo_text_def decode_start_def)
  from bracketed_own_call_ignored[OF h u, of init_globals demo_cand] show ?thesis
    unfolding r by (auto simp: decode_start_def init_globals_def heard_def)
qed

end
