(* ===== verification/FakeTx.thy ===== *)
theory FakeTx
  imports FT8Types TSQueue
begin

text \<open>
  \<^verbatim>\<open>fakeTx.cpp\<close>: the hardware-free transmitter that stands in for \<^verbatim>\<open>ft8\<close> in tests, with its
  synthetic peer station; and the rule by which it and \<^verbatim>\<open>ft8.cpp\<close> choose the transmit frequency
  (the locale \<open>freq_rule\<close>, interpreted for both programs). A connection's handler is a function from
  the request and the time to its timed actions. Audio frequencies are whole hertz below the Nyquist
  frequency, which \<^verbatim>\<open>float\<close> represents exactly, and are integers here.
\<close>

subsection \<open>The band table and the choice of the frequency\<close>

definition kBandBase :: "int list" where
  "kBandBase = [1840000, 3573000, 5357000, 7074000, 10136000, 14074000, 18100000, 21074000, 24915000,
     28074000, 50313000, 70100000, 144174000]"

definition kFakeBandBase :: "int list" where
  "kFakeBandBase = [1840000, 3573000, 5357000, 7074000, 10136000, 14074000, 18100000, 21074000, 24915000,
     28074000, 50313000, 70100000, 144174000]"

fun isBandBase_loop :: "int \<Rightarrow> int list \<Rightarrow> bool" where
  "isBandBase_loop f [] = False"
| "isBandBase_loop f (b # bs) = (if f = b then True else isBandBase_loop f bs)"

definition isBandBase :: "int \<Rightarrow> bool" where
  "isBandBase f = isBandBase_loop f kBandBase"

definition fakeIsBandBase :: "int \<Rightarrow> bool" where
  "fakeIsBandBase f = isBandBase_loop f kFakeBandBase"

definition FAKETX_AUDIO_MIN :: int where "FAKETX_AUDIO_MIN = 300"
definition FAKETX_AUDIO_MAX :: int where "FAKETX_AUDIO_MAX = 2800"
definition TX_AUDIO_MIN :: int where "TX_AUDIO_MIN = 300"
definition TX_AUDIO_MAX :: int where "TX_AUDIO_MAX = 2800"
definition RAND_MAX :: int where "RAND_MAX = 2147483647"

text \<open>
  \<^verbatim>\<open>(long)(rand() / ((double)RAND_MAX + 1.0) * span)\<close>: the division is by a power of two and the
  product is below \<open>2 ^ 53\<close>, so the double is exact and the cast is the floor.
\<close>

definition rand_below :: "int \<Rightarrow> int \<Rightarrow> int" where
  "rand_below r span = (r * span) div (RAND_MAX + 1)"

definition fake_choose :: "int \<Rightarrow> int \<Rightarrow> int" where
  "fake_choose r parsed =
     (if fakeIsBandBase parsed then parsed + (FAKETX_AUDIO_MIN + rand_below r (FAKETX_AUDIO_MAX - FAKETX_AUDIO_MIN))
      else parsed)"

definition ft8_choose :: "int \<Rightarrow> int \<Rightarrow> int" where
  "ft8_choose r center =
     (if isBandBase center then center + (TX_AUDIO_MIN + rand_below r (TX_AUDIO_MAX - TX_AUDIO_MIN))
      else center)"

text \<open>What the receiver relies on: a base is left by an audio offset in the passband, anything else
  is transmitted as requested.\<close>

locale freq_rule =
  fixes is_base :: "int \<Rightarrow> bool"
    and pick :: "int \<Rightarrow> int \<Rightarrow> int"
    and lo hi :: int
  assumes window: "0 < lo" "lo < hi"
    and base_window: "is_base f \<Longrightarrow> 0 \<le> r \<Longrightarrow> r \<le> RAND_MAX \<Longrightarrow> f + lo \<le> pick r f \<and> pick r f < f + hi"
    and verbatim: "\<not> is_base f \<Longrightarrow> pick r f = f"
begin

lemma chosen_offset:
  "0 \<le> r \<Longrightarrow> r \<le> RAND_MAX \<Longrightarrow> pick r f - f \<in> {0} \<union> {lo ..< hi} \<and> (pick r f = f \<longleftrightarrow> \<not> is_base f)"
  using base_window[of f r] verbatim[of f r] window by fastforce

end

lemma rand_below_bounds: "0 \<le> r \<Longrightarrow> r \<le> RAND_MAX \<Longrightarrow> 0 < span \<Longrightarrow> 0 \<le> rand_below r span \<and> rand_below r span < span"
proof -
  assume a: "0 \<le> r" "r \<le> RAND_MAX" "0 < span"
  then have "r * span < (RAND_MAX + 1) * span" by simp
  then have "(r * span) div (RAND_MAX + 1) < span" by (simp add: RAND_MAX_def div_less_iff_less_mult mult.commute)
  with a show ?thesis by (simp add: rand_below_def RAND_MAX_def pos_imp_zdiv_nonneg_iff)
qed

interpretation ft8_freq: freq_rule isBandBase ft8_choose TX_AUDIO_MIN TX_AUDIO_MAX
  using rand_below_bounds[of _ 2500]
  by unfold_locales (auto simp: ft8_choose_def TX_AUDIO_MIN_def TX_AUDIO_MAX_def)

interpretation fake_freq: freq_rule fakeIsBandBase fake_choose FAKETX_AUDIO_MIN FAKETX_AUDIO_MAX
  using rand_below_bounds[of _ 2500]
  by unfold_locales (auto simp: fake_choose_def FAKETX_AUDIO_MIN_def FAKETX_AUDIO_MAX_def)

text \<open>The names of the bands.\<close>

definition band_freq :: "string \<Rightarrow> int option" where
  "band_freq f =
     (if strcasecmp_eq f ''160m'' then Some 1840000
      else if strcasecmp_eq f ''80m'' then Some 3573000
      else if strcasecmp_eq f ''60m'' then Some 5357000
      else if strcasecmp_eq f ''40m'' then Some 7074000
      else if strcasecmp_eq f ''30m'' then Some 10136000
      else if strcasecmp_eq f ''20m'' then Some 14074000
      else if strcasecmp_eq f ''17m'' then Some 18100000
      else if strcasecmp_eq f ''15m'' then Some 21074000
      else if strcasecmp_eq f ''12m'' then Some 24915000
      else if strcasecmp_eq f ''10m'' then Some 28074000
      else if strcasecmp_eq f ''6m'' then Some 50313000
      else if strcasecmp_eq f ''4m'' then Some 70100000
      else if strcasecmp_eq f ''2m'' then Some 144174000
      else None)"

text \<open>\<^verbatim>\<open>strtol(f, NULL, 10)\<close> on a 64-bit \<^verbatim>\<open>long\<close>, which saturates.\<close>

definition strtol10 :: "string \<Rightarrow> int" where
  "strtol10 s = max (- (2 ^ 63)) (min (2 ^ 63 - 1) (atoi s))"

definition fake_parse_freq :: "string \<Rightarrow> int" where
  "fake_parse_freq f = (case band_freq f of Some b \<Rightarrow> b | None \<Rightarrow> strtol10 f)"

subsection \<open>State\<close>

record pendingSig =
  sig_msg :: string
  audioHz :: int
  valid :: bool

record fake =
  fakeOwn :: pendingSig
  fakePeer :: pendingSig
  fakeHandlerCount :: int
  fakeDialHz :: int
  fakeEdgeMode :: bool
  fakeEdgeIdx :: nat
  fakeFreeTextMode :: bool
  fakePeerAudio :: int
  fakeTxRunning :: bool
  fakeTxStopFlag :: bool

definition depositSig :: "string \<Rightarrow> int \<Rightarrow> pendingSig \<Rightarrow> pendingSig" where
  "depositSig msg a p = p\<lparr>sig_msg := snprintf_s MAXMSGSIZE msg, audioHz := a, valid := True\<rparr>"

definition popSig :: "nat \<Rightarrow> pendingSig \<Rightarrow> (string \<times> int) option \<times> pendingSig" where
  "popSig cap p = (if valid p then (Some (snprintf_s cap (sig_msg p), audioHz p), p\<lparr>valid := False\<rparr>) else (None, p))"

definition fakeTxPopOwn :: "nat \<Rightarrow> fake \<Rightarrow> (string \<times> int) option \<times> fake" where
  "fakeTxPopOwn cap s = (let (r, p) = popSig cap (fakeOwn s) in (r, s\<lparr>fakeOwn := p\<rparr>))"

definition fakeTxPopPeer :: "nat \<Rightarrow> fake \<Rightarrow> (string \<times> int) option \<times> fake" where
  "fakeTxPopPeer cap s = (let (r, p) = popSig cap (fakePeer s) in (r, s\<lparr>fakePeer := p\<rparr>))"

subsection \<open>The peer station\<close>

definition FAKE_PEER_CALL :: string where "FAKE_PEER_CALL = ''F1ABC''"
definition FAKE_PEER_GRID :: string where "FAKE_PEER_GRID = ''JN99''"
definition FAKE_PEER_RREPORT :: string where "FAKE_PEER_RREPORT = ''R-10''"
definition FAKE_PEER_AUDIO_DELTA :: int where "FAKE_PEER_AUDIO_DELTA = 250"

definition edge_forms :: "string \<Rightarrow> string list" where
  "edge_forms rxcall =
     [rxcall @ '' F1ABC RRR'', rxcall @ '' F1ABC/P JN99'', rxcall @ '' <F1ABC> RR73'', ''TNX 73 GL'',
      rxcall @ '' F1ABC R 579 MA'', rxcall @ '' F1ABC 559 0013'']"

definition fakeEdgeMessage :: "nat \<Rightarrow> string \<Rightarrow> fake \<Rightarrow> string option \<times> fake" where
  "fakeEdgeMessage cap rxcall s =
     (if length (edge_forms rxcall) \<le> fakeEdgeIdx s then (None, s)
      else (Some (snprintf_s cap (edge_forms rxcall ! fakeEdgeIdx s)), s\<lparr>fakeEdgeIdx := fakeEdgeIdx s + 1\<rparr>))"

text \<open>The edge mode's message if there is one left, else \<open>otherwise\<close>.\<close>

definition edge_or :: "nat \<Rightarrow> string \<Rightarrow> (fake \<Rightarrow> string option \<times> fake) \<Rightarrow> fake \<Rightarrow> string option \<times> fake" where
  "edge_or cap rxcall otherwise s =
     (if fakeEdgeMode s then
        (case fakeEdgeMessage cap rxcall s of (Some m, s) \<Rightarrow> (Some m, s) | (None, s) \<Rightarrow> otherwise s)
      else otherwise s)"

definition fakePeerReply :: "nat \<Rightarrow> string option \<Rightarrow> string option \<Rightarrow> string option \<Rightarrow> fake \<Rightarrow> string option \<times> fake" where
  "fakePeerReply cap tok0 tok1 tok2 s =
     (case tok0 of
        None \<Rightarrow> (None, s)
      | Some t0 \<Rightarrow>
          if t0 = ''CQ'' \<and> tok1 \<noteq> None then
            edge_or cap (the tok1)
              (\<lambda>s. (Some (snprintf_s cap (the tok1 @ '' '' @ FAKE_PEER_CALL @ '' '' @ FAKE_PEER_GRID)), s))
              (s\<lparr>fakePeerAudio := 0\<rparr>)
          else if t0 = FAKE_PEER_CALL \<and> tok1 \<noteq> None \<and> tok2 \<noteq> None then
            edge_or cap (the tok1)
              (\<lambda>s. (if fakeFreeTextMode s then Some (snprintf_s cap ''TNX 73 GL'')
                    else if the tok2 = ''RR73'' then Some (snprintf_s cap (the tok1 @ '' '' @ FAKE_PEER_CALL @ '' 73''))
                    else if the tok2 = ''73'' then None
                    else Some (snprintf_s cap (the tok1 @ '' '' @ FAKE_PEER_CALL @ '' '' @ FAKE_PEER_RREPORT)), s))
              s
          else (None, s))"

subsection \<open>Waiting\<close>

text \<open>
  \<open>stop t\<close> is whether the stop flag is set at time \<open>t\<close>, in microseconds. The result is the time at
  which the wait ends and whether it ended without a stop.
\<close>

function fakeInterruptibleSleep :: "(int \<Rightarrow> bool) \<Rightarrow> int \<Rightarrow> int \<Rightarrow> int \<times> bool" where
  "fakeInterruptibleSleep stop t usec =
     (if 0 < usec \<and> \<not> stop t then
        (let chunk = (if usec < 50000 then usec else 50000)
         in fakeInterruptibleSleep stop (t + chunk) (usec - chunk))
      else (t, \<not> stop t))"
  by pat_completeness auto
termination by (relation "measure (\<lambda>(stop, t, usec). nat usec)") (auto simp: Let_def)

declare fakeInterruptibleSleep.simps [simp del]

definition fakeWaitSlotBoundary :: "(int \<Rightarrow> bool) \<Rightarrow> int \<Rightarrow> int \<times> bool" where
  "fakeWaitSlotBoundary stop t =
     (let sec = t div 1000000; usec = t mod 1000000;
          usecIntoPeriod = (sec mod FT8_PERIOD) * 1000000 + usec;
          toBoundary = int FT8_BUFRESET - usecIntoPeriod;
          toBoundary = (if toBoundary < 0 then 0 else toBoundary)
      in fakeInterruptibleSleep stop t toBoundary)"

subsection \<open>A connection\<close>

datatype fake_action =
    Reply FT8Msg
  | DepositOwn string int
  | DepositPeer string int
  | LogLine string

text \<open>The request \<^verbatim>\<open>FT8Tx <freq|band> <tokens..>\<close> split into words.\<close>

definition append_words :: "string list \<Rightarrow> string" where
  "append_words ws =
     fold (\<lambda>w m. take (MAXMSGSIZE - 1) (take (MAXMSGSIZE - 1) (m @ (if m \<noteq> [] then '' '' else [])) @ w)) ws []"

definition token_at :: "nat \<Rightarrow> string list \<Rightarrow> string option" where
  "token_at i ws = (if i < length ws \<and> snprintf_s 16 (ws ! i) \<noteq> [] then Some (snprintf_s 16 (ws ! i)) else None)"

text \<open>The peer's frequency, chosen once per contact.\<close>

definition peer_audio :: "int \<Rightarrow> int \<Rightarrow> int" where
  "peer_audio current ownAudio =
     (let nyq = int SIGNAL_SAMPLE_RATE div 2 in
      if current \<le> 0 then
        (let pa = ownAudio + FAKE_PEER_AUDIO_DELTA;
             pa = (if nyq - 100 \<le> pa then ownAudio - FAKE_PEER_AUDIO_DELTA else pa)
         in if pa < 100 then 100 else pa)
      else current)"

definition letter :: "SignalType \<Rightarrow> bool \<Rightarrow> string \<Rightarrow> FT8Msg" where
  "letter ty st s = \<lparr>msg_type = ty, ft8Message = snprintf_s MAXMSGSIZE s, RTXstate = st\<rparr>"

text \<open>
  The case \<^verbatim>\<open>SEND_F8_REQ\<close>: \<open>words\<close> is the outcome of \<^verbatim>\<open>wordexp\<close>, \<open>r\<close> the value of \<^verbatim>\<open>rand\<close>.
\<close>

definition fake_send_req :: "string list option \<Rightarrow> int \<Rightarrow> (int \<Rightarrow> bool) \<Rightarrow> int \<Rightarrow> fake \<Rightarrow> (int \<times> fake_action) list \<times> fake" where
  "fake_send_req words r stop t s =
     (let parsed = (case words of None \<Rightarrow> 0 | Some ws \<Rightarrow> if 2 \<le> length ws then fake_parse_freq (ws ! 1) else 0);
          absFreq = (case words of None \<Rightarrow> 0 | Some ws \<Rightarrow> fake_choose r parsed);
          message = (case words of None \<Rightarrow> [] | Some ws \<Rightarrow> append_words (drop 2 ws));
          tok = (\<lambda>i. case words of None \<Rightarrow> None | Some ws \<Rightarrow> token_at i ws);
          a = absFreq - fakeDialHz s;
          haveOwn = (message \<noteq> [] \<and> 0 < fakeDialHz s \<and> 0 < a \<and> a < int SIGNAL_SAMPLE_RATE div 2);
          (peerMsg, s) = (if haveOwn then fakePeerReply MAXMSGSIZE (tok 2) (tok 3) (tok 4) s else (None, s));
          s = (if peerMsg \<noteq> None then s\<lparr>fakePeerAudio := peer_audio (fakePeerAudio s) a\<rparr> else s);
          (t1, _) = fakeWaitSlotBoundary stop t;
          (t2, _) = fakeInterruptibleSleep stop t1 (int FT8_TXTIME)
      in ([(t, Reply (letter SEND_ACK False ''SEND_F8_REQ'')),
           (t1, Reply (letter CHANGE_RTX_STATE True (''FREQ '' @ int_dec absFreq)))]
          @ (if haveOwn then [(t1, DepositOwn message a)] else [])
          @ (case peerMsg of None \<Rightarrow> []
             | Some m \<Rightarrow> [(t2, DepositPeer m (fakePeerAudio s)), (t2, LogLine m)])
          @ [(t2, Reply (letter CHANGE_RTX_STATE False ''End of transmission'')), (t2, LogLine message)], s))"

text \<open>\<^verbatim>\<open>fakeHandler\<close>: \<open>None\<close> for a short read; the count of handlers goes down at the end.\<close>

definition fakeHandler :: "(string \<Rightarrow> string list option) \<Rightarrow> int \<Rightarrow> (int \<Rightarrow> bool) \<Rightarrow> int \<Rightarrow> FT8Msg option \<Rightarrow> fake
    \<Rightarrow> (int \<times> fake_action) list \<times> fake" where
  "fakeHandler wordexp r stop t rx s =
     (let (acts, s) =
        (case rx of
           None \<Rightarrow> ([], s)
         | Some m \<Rightarrow>
             (case msg_type m of
                SEND_F8_REQ \<Rightarrow> fake_send_req (wordexp (ft8Message m)) r stop t s
              | TEST_SEND \<Rightarrow> ([(t, Reply (letter SEND_ACK False ''TEST_SEND'')), (t, LogLine ''TEST_SEND'')], s)
              | SEND_WSPR \<Rightarrow> ([(t, Reply (letter SEND_ACK False ''SEND_WSPR_REQ'')), (t, LogLine ''SEND_WSPR'')], s)
              | _ \<Rightarrow> ([(t, Reply (letter REJECTED False ''Wrong Signal'')), (t, LogLine ''REJECTED'')], s)))
      in (acts, s\<lparr>fakeHandlerCount := fakeHandlerCount s - 1\<rparr>))"

subsection \<open>The listener\<close>

datatype select_result =
    SelTimeout | SelInterrupted | SelError
  | SelClient bool bool bool \<comment> \<open>whether accept, malloc and pthread\_create succeed\<close>

text \<open>One turn of \<^verbatim>\<open>fakeListener\<close>'s loop: whether it goes on, whether a handler was started.\<close>

definition listener_turn :: "select_result \<Rightarrow> fake \<Rightarrow> bool \<times> bool \<times> fake" where
  "listener_turn r s =
     (if fakeTxStopFlag s then (False, False, s)
      else case r of
          SelTimeout \<Rightarrow> (True, False, s)
        | SelInterrupted \<Rightarrow> (True, False, s)
        | SelError \<Rightarrow> (False, False, s)
        | SelClient accepted allocated created \<Rightarrow>
            if \<not> accepted then (True, False, s)
            else if \<not> allocated then (True, False, s)
            else
              (let s = s\<lparr>fakeHandlerCount := fakeHandlerCount s + 1\<rparr> in
               if \<not> created then (True, False, s\<lparr>fakeHandlerCount := fakeHandlerCount s - 1\<rparr>)
               else (True, True, s)))"

definition fakeTxStart :: "bool \<Rightarrow> bool \<Rightarrow> bool \<Rightarrow> int \<Rightarrow> fake \<Rightarrow> int \<times> fake" where
  "fakeTxStart edge freetext created dial s =
     (if fakeTxRunning s then (0, s)
      else
        (let s = s\<lparr>fakeDialHz := dial, fakeEdgeMode := edge, fakeEdgeIdx := 0, fakeFreeTextMode := freetext,
                  fakeTxStopFlag := False\<rparr>
         in if \<not> created then (- 1, s) else (0, s\<lparr>fakeTxRunning := True\<rparr>)))"

text \<open>
  \<^verbatim>\<open>fakeTxStop\<close> after the listener is joined: \<open>live i\<close> is the count read in the \<open>i\<close>-th of at most 50
  rounds of 20 ms. The result counts the rounds slept.
\<close>

fun drain_rounds :: "(nat \<Rightarrow> int) \<Rightarrow> nat \<Rightarrow> nat \<Rightarrow> nat" where
  "drain_rounds live i 0 = 0"
| "drain_rounds live i (Suc k) = (if live i = 0 then 0 else Suc (drain_rounds live (Suc i) k))"

definition fakeTxStop :: "(nat \<Rightarrow> int) \<Rightarrow> fake \<Rightarrow> nat \<times> fake" where
  "fakeTxStop live s =
     (if \<not> fakeTxRunning s then (0, s)
      else (drain_rounds live 0 50, s\<lparr>fakeTxStopFlag := True, fakeTxRunning := False\<rparr>))"

text \<open>The listener interleaved with handlers that end: the live handlers are the second component.\<close>

inductive fake_run :: "fake \<times> nat \<Rightarrow> fake \<times> nat \<Rightarrow> bool" where
  turn: "listener_turn r s = (go, started, s') \<Longrightarrow> fake_run (s, n) (s', if started then n + 1 else n)"
| finish: "fake_run (s, Suc n) (snd (fakeHandler we r stop t rx s), n)"
| stop: "fake_run (s, n) (s\<lparr>fakeTxStopFlag := True\<rparr>, n)"

inductive_cases fake_run_cases: "fake_run (s, n) t"

end
