(* ===== verification/FakeTiming.thy ===== *)
theory FakeTiming
  imports FakeTx
begin

text \<open>
  The fake transmitter behaves like a station: slot-aligned transmissions of 12.6 s, replies in the
  order the receiver expects, a prompt end when it is stopped, and an exact count of its handlers.
\<close>

subsection \<open>Waits\<close>

lemma sleep_undisturbed:
  assumes "\<And>t. \<not> stop t"
  shows "fakeInterruptibleSleep stop t usec = (t + max 0 usec, True)"
proof (induction "nat usec" arbitrary: t usec rule: less_induct)
  case less
  show ?case
  proof (cases "0 < usec")
    case True
    let ?c = "if usec < 50000 then usec else 50000"
    have "fakeInterruptibleSleep stop (t + ?c) (usec - ?c) = (t + ?c + max 0 (usec - ?c), True)"
      using True by (intro less) simp
    then show ?thesis using True assms by (subst fakeInterruptibleSleep.simps) (auto simp: Let_def)
  next
    case False
    then show ?thesis using assms by (subst fakeInterruptibleSleep.simps) simp
  qed
qed

lemma sleep_bounds: "t \<le> fst (fakeInterruptibleSleep stop t usec)
    \<and> fst (fakeInterruptibleSleep stop t usec) \<le> t + max 0 usec"
proof (induction "nat usec" arbitrary: t usec rule: less_induct)
  case less
  show ?case
  proof (cases "0 < usec \<and> \<not> stop t")
    case True
    let ?c = "if usec < 50000 then usec else 50000"
    have "t + ?c \<le> fst (fakeInterruptibleSleep stop (t + ?c) (usec - ?c))
      \<and> fst (fakeInterruptibleSleep stop (t + ?c) (usec - ?c)) \<le> t + ?c + max 0 (usec - ?c)"
      using True by (intro less) simp
    then show ?thesis using True by (subst (1 2) fakeInterruptibleSleep.simps) (auto simp: Let_def)
  next
    case False
    then show ?thesis by (subst (1 2) fakeInterruptibleSleep.simps) auto
  qed
qed

lemma sleep_stops:
  assumes "\<And>x. T \<le> x \<Longrightarrow> stop x"
  shows "fst (fakeInterruptibleSleep stop t usec) \<le> max t (T + 50000)"
proof (induction "nat usec" arbitrary: t usec rule: less_induct)
  case less
  show ?case
  proof (cases "0 < usec \<and> \<not> stop t")
    case True
    then have "t < T" using assms[of t] by (meson not_le)
    let ?c = "if usec < 50000 then usec else 50000"
    have "fst (fakeInterruptibleSleep stop (t + ?c) (usec - ?c)) \<le> max (t + ?c) (T + 50000)"
      using True by (intro less) simp
    then show ?thesis using True \<open>t < T\<close> by (subst fakeInterruptibleSleep.simps) (auto simp: Let_def)
  next
    case False
    then show ?thesis by (subst fakeInterruptibleSleep.simps) auto
  qed
qed

lemma to_boundary:
  "int FT8_BUFRESET - ((t div 1000000) mod FT8_PERIOD * 1000000 + t mod 1000000) = 15000000 - t mod 15000000"
proof -
  have "t mod (1000000 * 15) = 1000000 * (t div 1000000 mod 15) + t mod 1000000"
    by (rule zmod_zmult2_eq) simp
  then show ?thesis by (simp add: FT8_BUFRESET_def FT8_PERIOD_def)
qed

definition next_boundary :: "int \<Rightarrow> int" where
  "next_boundary t = (t div 15000000 + 1) * 15000000"

lemma wait_boundary:
  assumes "\<And>t. \<not> stop t"
  shows "fakeWaitSlotBoundary stop t = (next_boundary t, True)"
proof -
  have p: "\<not> 15000000 - t mod 15000000 < 0" using pos_mod_bound[of 15000000 t] by linarith
  then have "fakeWaitSlotBoundary stop t = fakeInterruptibleSleep stop t (15000000 - t mod 15000000)"
    unfolding fakeWaitSlotBoundary_def Let_def to_boundary by (simp only: if_False)
  then show ?thesis using sleep_undisturbed[OF assms] by (simp add: next_boundary_def algebra_simps minus_mod_eq_mult_div)
qed

subsection \<open>A transmission\<close>

text \<open>
  A transmission request that is not interrupted is acknowledged at once; the actual frequency
  is reported, and the own signal handed over, exactly at the next 15 s slot boundary; 12.6 s later
  the peer's reply is handed over and the end is reported. The reply is then due in the following
  slot, of the other parity.
\<close>

theorem fake_transmission_timing:
  fixes t r :: int
  assumes "\<And>x. \<not> stop x" "wordexp (ft8Message m) = Some ws" "msg_type m = SEND_F8_REQ" "2 \<le> length ws"
  defines "f \<equiv> fake_choose r (fake_parse_freq (ws ! 1))" and "b \<equiv> next_boundary t"
  shows "\<exists>own peer s'. fakeHandler wordexp r stop t (Some m) s =
      ([(t, Reply (letter SEND_ACK False ''SEND_F8_REQ'')),
        (b, Reply (letter CHANGE_RTX_STATE True (''FREQ '' @ int_dec f)))] @ own @ peer
       @ [(b + 12600000, Reply (letter CHANGE_RTX_STATE False ''End of transmission'')),
          (b + 12600000, LogLine (append_words (drop 2 ws)))], s')
    \<and> t < b \<and> b \<le> t + 15000000 \<and> 15000000 dvd b
    \<and> own = (if append_words (drop 2 ws) \<noteq> [] \<and> 0 < fakeDialHz s \<and> fakeDialHz s < f \<and> f < fakeDialHz s + 3200
             then [(b, DepositOwn (append_words (drop 2 ws)) (f - fakeDialHz s))] else [])
    \<and> (own = [] \<longrightarrow> peer = []) \<and> (\<forall>p \<in> set peer. fst p = b + 12600000)
    \<and> slot_of_time ((b + 15000000) div 1000000) = other_slot (slot_of_time (b div 1000000))"
proof -
  have w: "fakeWaitSlotBoundary stop t = (b, True)"
    "fakeInterruptibleSleep stop b (int FT8_TXTIME) = (b + 12600000, True)"
    using wait_boundary[OF assms(1)] sleep_undisturbed[OF assms(1)] by (simp_all add: b_def FT8_TXTIME_def)
  have bb: "t < b" "b \<le> t + 15000000"
    using pos_mod_bound[of 15000000 t] pos_mod_sign[of 15000000 t]
    by (simp_all add: b_def next_boundary_def algebra_simps minus_mod_eq_mult_div[symmetric])
  have dv: "15000000 dvd b" by (simp add: b_def next_boundary_def)
  have "(b + 15000000) div 1000000 = b div 1000000 + FT8_PERIOD" by (simp add: FT8_PERIOD_def)
  then have sl: "slot_of_time ((b + 15000000) div 1000000) = other_slot (slot_of_time (b div 1000000))"
    by (simp add: slot_of_time_next)
  have ff: "fake_choose r (fake_parse_freq (ws ! Suc 0)) = f" by (simp add: f_def)
  have n: "int SIGNAL_SAMPLE_RATE div 2 = 3200" by (simp add: SIGNAL_SAMPLE_RATE_def)
  show ?thesis
    using assms(2-4) w bb dv sl
    by (auto simp: fakeHandler_def fake_send_req_def ff n Let_def split: prod.split option.split)
qed

definition demo_fake :: fake where
  "demo_fake = \<lparr>fakeOwn = \<lparr>sig_msg = [], audioHz = 0, valid = False\<rparr>,
     fakePeer = \<lparr>sig_msg = [], audioHz = 0, valid = False\<rparr>, fakeHandlerCount = 1, fakeDialHz = 14074000,
     fakeEdgeMode = False, fakeEdgeIdx = 0, fakeFreeTextMode = False, fakePeerAudio = 0,
     fakeTxRunning = True, fakeTxStopFlag = False\<rparr>"

definition demo_request :: FT8Msg where
  "demo_request = \<lparr>msg_type = SEND_F8_REQ, ft8Message = ''FT8Tx 14075000 F1ABC SA0PRF RR73'', RTXstate = False\<rparr>"

theorem fake_transmission_timing_witness:
  "\<exists>own peer s'. fakeHandler (\<lambda>_. Some [''FT8Tx'', ''14075000'', ''CQ'', ''SA0PRF'', ''JO99'']) 0 (\<lambda>_. False) 7000000
      (Some demo_request) demo_fake
    = ([(7000000, Reply (letter SEND_ACK False ''SEND_F8_REQ'')),
        (15000000, Reply (letter CHANGE_RTX_STATE True (''FREQ '' @ int_dec 14075000)))] @ own @ peer
       @ [(27600000, Reply (letter CHANGE_RTX_STATE False ''End of transmission'')),
          (27600000, LogLine ''CQ SA0PRF JO99'')], s')"
proof -
  let ?ws = "[''FT8Tx'', ''14075000'', ''CQ'', ''SA0PRF'', ''JO99'']"
  have f: "fake_choose 0 (fake_parse_freq (?ws ! 1)) = 14075000"
    by (simp add: fake_choose_def fake_parse_freq_def fakeIsBandBase_def kFakeBandBase_def band_freq_def
        strcasecmp_eq_def toupper_c_def strtol10_def dec_eval)
  have a: "append_words (drop 2 ?ws) = ''CQ SA0PRF JO99''"
    by (simp add: append_words_def MAXMSGSIZE_def)
  have h: "(\<lambda>_. Some ?ws) (ft8Message demo_request) = Some ?ws" "msg_type demo_request = SEND_F8_REQ" "2 \<le> length ?ws"
    by (simp_all add: demo_request_def)
  show ?thesis
    using fake_transmission_timing[of "\<lambda>_. False" "\<lambda>_. Some ?ws" demo_request ?ws 0 7000000 demo_fake, OF _ h]
    unfolding f a next_boundary_def by fastforce
qed

text \<open>
  C40. Once the stop flag is set, from time \<open>T\<close> on, a handler does not outlive it by more than one
  50 ms step: every action it still takes is at most that late, whatever it was waiting for.
\<close>

theorem fake_handler_stops_promptly:
  assumes "\<And>x. T \<le> x \<Longrightarrow> stop x" "(x, act) \<in> set (fst (fakeHandler wordexp r stop t rx s))"
  shows "t \<le> x \<and> x \<le> max t (T + 50000)"
proof -
  let ?t1 = "fst (fakeWaitSlotBoundary stop t)"
  let ?t2 = "fst (fakeInterruptibleSleep stop ?t1 (int FT8_TXTIME))"
  have 1: "t \<le> ?t1" "?t1 \<le> max t (T + 50000)"
    using sleep_bounds[of t stop] sleep_stops[of T stop t, OF assms(1)] by (simp_all add: fakeWaitSlotBoundary_def Let_def)
  have 2: "?t1 \<le> ?t2" "?t2 \<le> max t (T + 50000)"
    using sleep_bounds[of ?t1 stop] sleep_stops[of T stop ?t1 "int FT8_TXTIME", OF assms(1)] 1(2)
    by (auto intro: order_trans)
  have "x \<in> {t, ?t1, ?t2}"
    using assms(2)
    by (auto simp: fakeHandler_def fake_send_req_def Let_def split: option.splits prod.splits SignalType.splits if_splits)
  with 1 2 show ?thesis by auto
qed

theorem fake_handler_stops_promptly_witness:
  "list_all (\<lambda>(x, act). x \<le> 1050000)
     (fst (fakeHandler (\<lambda>_. None) 0 (\<lambda>t. 1000000 \<le> t) 0 (Some demo_request) demo_fake))"
  unfolding list_all_iff
  using fake_handler_stops_promptly[of 1000000 "\<lambda>t. 1000000 \<le> t" _ _ "\<lambda>_. None" 0 0 "Some demo_request" demo_fake]
  by fastforce

subsection \<open>The count of handlers\<close>

lemma fake_send_req_count: "fakeHandlerCount (snd (fake_send_req words r stop t s)) = fakeHandlerCount s"
proof -
  have e: "fakeHandlerCount (snd (edge_or cap c f s)) = fakeHandlerCount s"
    if "\<And>s. fakeHandlerCount (snd (f s)) = fakeHandlerCount s" for cap c f s
    using that by (auto simp: edge_or_def fakeEdgeMessage_def split: option.splits)
  have p: "fakeHandlerCount (snd (fakePeerReply cap a b c s)) = fakeHandlerCount s" for cap a b c s
    by (auto simp: fakePeerReply_def e split: option.split)
  show ?thesis by (simp add: fake_send_req_def Let_def case_prod_beta p)
qed

text \<open>
  C39. \<^verbatim>\<open>fakeHandlerCount\<close> counts the live handlers exactly: over every interleaving of the listener's
  turns, with accept, malloc and pthread\_create succeeding or failing, and of handlers ending, the
  count that \<^verbatim>\<open>fakeTxStop\<close> polls is the number of handlers still running.
\<close>

theorem fake_handler_count_exact:
  assumes "fake_run\<^sup>*\<^sup>* (s, n) (s', n')" "fakeHandlerCount s = int n"
  shows "fakeHandlerCount s' = int n'"
proof -
  have step: "fake_run x y \<Longrightarrow> fakeHandlerCount (fst x) = int (snd x) \<Longrightarrow> fakeHandlerCount (fst y) = int (snd y)" for x y
  proof (induction rule: fake_run.induct)
    case (turn r s go started s' n)
    then show ?case by (auto simp: listener_turn_def Let_def split: if_splits select_result.splits)
  next
    case (finish s n we r stop t rx)
    then show ?case
      by (simp add: fakeHandler_def Let_def case_prod_beta fake_send_req_count
          split: option.split SignalType.split)
  qed simp
  have "fakeHandlerCount (fst (s', n')) = int (snd (s', n'))"
    using assms(1) assms(2) by (induction rule: rtranclp_induct) (auto intro: step)
  then show ?thesis by simp
qed

theorem fake_handler_count_exact_witness:
  "\<exists>s'. fake_run\<^sup>*\<^sup>* (demo_fake, 1) (s', 2) \<and> fakeHandlerCount s' = 2"
proof -
  obtain s' where l: "listener_turn (SelClient True True True) demo_fake = (True, True, s')"
    by (simp add: listener_turn_def demo_fake_def Let_def)
  have r: "fake_run\<^sup>*\<^sup>* (demo_fake, 1) (s', 2)" using fake_run.turn[OF l, of 1] by (simp add: numeral_2_eq_2)
  have "fakeHandlerCount demo_fake = int 1" by (simp add: demo_fake_def)
  from fake_handler_count_exact[OF r this] r show ?thesis by auto
qed

end
