(* ===== verification/GetOpt.thy ===== *)
theory GetOpt
  imports Prelude
begin

text \<open>
  The scanner \<^verbatim>\<open>getopt_long\<close> as the C library runs it: options are recognised anywhere, the other words are
  moved behind them. The transmitter and the receiver use it with their own option tables.
\<close>

datatype opt_event =
    Opt char string \<comment> \<open>the option's letter and its argument, if any\<close>
  | BadOption \<comment> \<open>what \<^verbatim>\<open>getopt_long\<close> reports with \<^verbatim>\<open>?\<close>\<close>

text \<open>A long name may be abbreviated as long as it is unambiguous.\<close>

definition long_option :: "(string \<times> char) list \<Rightarrow> string \<Rightarrow> char option" where
  "long_option lo name =
     (case map_of lo name of
        Some c \<Rightarrow> Some c
      | None \<Rightarrow> (case filter (\<lambda>(n, c). strncmp_eq n name) lo of [(n, c)] \<Rightarrow> Some c | _ \<Rightarrow> None))"

text \<open>
  \<open>so\<close> and \<open>lo\<close> are the program's tables; \<open>pending\<close> is what is left of a cluster of short options.
\<close>

function getopt_long :: "(char \<Rightarrow> bool option) \<Rightarrow> (string \<times> char) list \<Rightarrow> string \<Rightarrow> string list \<Rightarrow> opt_event list \<times> string list" where
  "getopt_long so lo [] [] = ([], [])"
| "getopt_long so lo (c # pending) args =
     (case so c of
        None \<Rightarrow> (let (evs, free) = getopt_long so lo pending args in (BadOption # evs, free))
      | Some False \<Rightarrow> (let (evs, free) = getopt_long so lo pending args in (Opt c [] # evs, free))
      | Some True \<Rightarrow>
          if pending \<noteq> [] then (let (evs, free) = getopt_long so lo [] args in (Opt c pending # evs, free))
          else (case args of
              [] \<Rightarrow> ([BadOption], [])
            | v # args \<Rightarrow> (let (evs, free) = getopt_long so lo [] args in (Opt c v # evs, free))))"
| "getopt_long so lo [] (a # args) =
     (if a = ''--'' then ([], args)
      else if strncmp_eq a ''--'' then
        (let name = takeWhile (\<lambda>c. c \<noteq> CHR ''='') (drop 2 a);
             eqv = dropWhile (\<lambda>c. c \<noteq> CHR ''='') (drop 2 a)
         in case long_option lo name of
              None \<Rightarrow> (let (evs, free) = getopt_long so lo [] args in (BadOption # evs, free))
            | Some c \<Rightarrow>
                if so c = Some True then
                  (case eqv of
                     _ # v \<Rightarrow> (let (evs, free) = getopt_long so lo [] args in (Opt c v # evs, free))
                   | [] \<Rightarrow> (case args of
                         [] \<Rightarrow> ([BadOption], [])
                       | v # args \<Rightarrow> (let (evs, free) = getopt_long so lo [] args in (Opt c v # evs, free))))
                else if eqv \<noteq> [] then (let (evs, free) = getopt_long so lo [] args in (BadOption # evs, free))
                else (let (evs, free) = getopt_long so lo [] args in (Opt c [] # evs, free)))
      else if strncmp_eq a ''-'' \<and> 2 \<le> length a then getopt_long so lo (tl a) args
      else (let (evs, free) = getopt_long so lo [] args in (evs, a # free)))"
  by pat_completeness auto
termination
  by (relation "measure (\<lambda>(so, lo, p, args). length p + sum_list (map (\<lambda>a. length a + 1) args))") auto

end
