(* ===== verification/TxCommand.thy ===== *)
theory TxCommand
  imports Complex_Main FakeTx GetOpt
begin

text \<open>
  The command line of \<^verbatim>\<open>ft8.cpp\<close>: its option tables and \<^verbatim>\<open>parse_commandline\<close>, which reads
  both the arguments of the program and, in daemon mode, the words of a request. Doubles are real
  numbers; \<^verbatim>\<open>strtod\<close> is a parameter that gives the value and how many characters it used.
\<close>

subsection \<open>The options\<close>

text \<open>The letters of \<^verbatim>\<open>"hp:sfrx:ot:na:"\<close>: whether a letter takes an argument.\<close>

definition short_option :: "char \<Rightarrow> bool option" where
  "short_option c =
     (if c \<in> set ''pxta'' then Some True else if c \<in> set ''hsfron'' then Some False else None)"

definition long_options :: "(string \<times> char) list" where
  "long_options =
     [(''help'', CHR ''h''), (''ppm'', CHR ''p''), (''self-calibration'', CHR ''s''), (''free-running'', CHR ''f''),
      (''repeat'', CHR ''r''), (''terminate'', CHR ''x''), (''offset'', CHR ''o''), (''test-tone'', CHR ''t''),
      (''add'', CHR ''a''), (''no-delay'', CHR ''n'')]"

abbreviation getopt :: "string \<Rightarrow> string list \<Rightarrow> opt_event list \<times> string list" where
  "getopt \<equiv> getopt_long short_option long_options"

subsection \<open>parse_commandline\<close>

datatype mode_type = FT8 | TONE | WSPR

record tx_opts =
  o_message :: string
  center_freq_set :: "real list"
  ppm :: real
  self_cal :: bool
  o_repeat :: bool
  random_offset :: bool
  test_tone :: real \<comment> \<open>only read in mode \<open>TONE\<close>\<close>
  no_delay :: bool
  o_mode :: mode_type
  o_terminate :: int
  specific_freq :: real

definition default_opts :: tx_opts where
  "default_opts = \<lparr>o_message = [], center_freq_set = [], ppm = 0, self_cal = False, o_repeat = False,
     random_offset = False, test_tone = 0, no_delay = False, o_mode = FT8, o_terminate = - 1, specific_freq = 0\<rparr>"

text \<open>A number that must be the whole argument.\<close>

definition whole :: "(string \<Rightarrow> 'a \<times> nat) \<Rightarrow> string \<Rightarrow> 'a option" where
  "whole conv s = (case conv s of (v, n) \<Rightarrow> if n = 0 \<or> n < length s then None else Some v)"

definition strtol_end :: "string \<Rightarrow> int \<times> nat" where
  "strtol_end s =
     (let sp = length (takeWhile isspace_c s); r = drop sp s;
          sg = (if r \<noteq> [] \<and> (hd r = CHR ''-'' \<or> hd r = CHR ''+'') then 1 else 0);
          ds = length (takeWhile isdigit_c (drop sg r))
      in (strtol10 s, if ds = 0 then 0 else sp + sg + ds))"

fun apply_opts :: "(string \<Rightarrow> real \<times> nat) \<Rightarrow> opt_event list \<Rightarrow> tx_opts \<Rightarrow> tx_opts option" where
  "apply_opts strtod [] po = Some po"
| "apply_opts strtod (BadOption # evs) po = None"
| "apply_opts strtod (Opt c v # evs) po =
     (if c = CHR ''p'' then
        (case whole strtod v of None \<Rightarrow> None | Some x \<Rightarrow> apply_opts strtod evs (po\<lparr>ppm := x\<rparr>))
      else if c = CHR ''s'' then apply_opts strtod evs (po\<lparr>self_cal := True\<rparr>)
      else if c = CHR ''f'' then apply_opts strtod evs (po\<lparr>self_cal := False\<rparr>)
      else if c = CHR ''r'' then apply_opts strtod evs (po\<lparr>o_repeat := True\<rparr>)
      else if c = CHR ''x'' then
        (case whole strtol_end v of
           None \<Rightarrow> None
         | Some x \<Rightarrow> if i32 x < 1 then None else apply_opts strtod evs (po\<lparr>o_terminate := i32 x\<rparr>))
      else if c = CHR ''o'' then apply_opts strtod evs (po\<lparr>random_offset := True\<rparr>)
      else if c = CHR ''a'' then
        (case whole strtod v of None \<Rightarrow> None | Some x \<Rightarrow> apply_opts strtod evs (po\<lparr>specific_freq := x\<rparr>))
      else if c = CHR ''t'' then
        (case whole strtod v of None \<Rightarrow> None | Some x \<Rightarrow> apply_opts strtod evs (po\<lparr>test_tone := x, o_mode := TONE\<rparr>))
      else if c = CHR ''n'' then apply_opts strtod evs (po\<lparr>no_delay := True\<rparr>)
      else None)"

text \<open>
  The words that are not options: the first is the frequency, all others are the message. The check
  of the frequency compares \<^verbatim>\<open>endp\<close> with \<^verbatim>\<open>optarg\<close>, which points elsewhere, so that only characters
  left over are an error.
\<close>

definition parse_tx_freq :: "(string \<Rightarrow> real \<times> nat) \<Rightarrow> string \<Rightarrow> real option" where
  "parse_tx_freq strtod s =
     (case band_freq s of
        Some b \<Rightarrow> Some (of_int b)
      | None \<Rightarrow> (case strtod s of (v, n) \<Rightarrow> if n < length s then None else Some v))"

fun join_words :: "string \<Rightarrow> string list \<Rightarrow> string" where
  "join_words m [] = m"
| "join_words m (w # ws) = join_words ((if m \<noteq> [] then m @ '' '' else m) @ w) ws"

definition parse_free :: "(string \<Rightarrow> real \<times> nat) \<Rightarrow> string list \<Rightarrow> tx_opts \<Rightarrow> tx_opts option" where
  "parse_free strtod free po =
     (case free of
        [] \<Rightarrow> Some po
      | f # ws \<Rightarrow>
          (case parse_tx_freq strtod f of
             None \<Rightarrow> None
           | Some x \<Rightarrow> Some (po\<lparr>center_freq_set := center_freq_set po @ [x + specific_freq po],
                             o_message := join_words (o_message po) ws\<rparr>)))"

definition check_opts :: "tx_opts \<Rightarrow> tx_opts option" where
  "check_opts po =
     (let po = po\<lparr>o_message := map toupper_c (o_message po)\<rparr>;
          po = (if ppm po \<noteq> 0 \<and> self_cal po then po\<lparr>ppm := 0\<rparr> else po)
      in if o_mode po = TONE then
           (if test_tone po \<le> 0 then None else Some (po\<lparr>random_offset := False\<rparr>))
         else if o_message po = [] \<or> center_freq_set po = [] then None
         else Some po)"

text \<open>\<open>None\<close> is \<^verbatim>\<open>ABORT(-1)\<close>, which ends the process.\<close>

definition parse_commandline :: "(string \<Rightarrow> real \<times> nat) \<Rightarrow> string list \<Rightarrow> tx_opts option" where
  "parse_commandline strtod argv =
     (let (evs, free) = getopt [] (tl argv) in
      case apply_opts strtod evs default_opts of
        None \<Rightarrow> None
      | Some po \<Rightarrow> (case parse_free strtod free po of None \<Rightarrow> None | Some po \<Rightarrow> check_opts po))"

subsection \<open>Lemmas\<close>

text \<open>A word that cannot be taken for an option.\<close>

definition plain_word :: "string \<Rightarrow> bool" where
  "plain_word w \<longleftrightarrow> w \<noteq> [] \<and> hd w \<noteq> CHR ''-''"

lemma plain_not_option [simp]:
  "plain_word w \<Longrightarrow> \<not> strncmp_eq w ''-''" "plain_word w \<Longrightarrow> \<not> strncmp_eq w ''--''" "plain_word w \<Longrightarrow> w \<noteq> ''--''"
  by (cases w; simp add: plain_word_def strncmp_eq_def)+

lemma getopt_word: "plain_word w \<Longrightarrow> getopt [] (w # args) = (let (evs, free) = getopt [] args in (evs, w # free))"
  by (simp only: getopt_long.simps plain_not_option if_False simp_thms)

declare getopt_long.simps(2,3) [simp del]

lemma getopt_plain: "\<forall>w \<in> set ws. plain_word w \<Longrightarrow> getopt [] (ws @ args) = (let (evs, free) = getopt [] args in (evs, ws @ free))"
proof -
  obtain evs free where g: "getopt [] args = (evs, free)" by (cases "getopt [] args")
  have "\<forall>w \<in> set ws. plain_word w \<Longrightarrow> getopt [] (ws @ args) = (evs, ws @ free)"
    by (induction ws) (simp_all add: getopt_word g)
  then show "\<forall>w \<in> set ws. plain_word w \<Longrightarrow> getopt [] (ws @ args) = (let (evs, free) = getopt [] args in (evs, ws @ free))"
    by (simp add: g)
qed

lemma getopt_plain_all: "\<forall>w \<in> set ws. plain_word w \<Longrightarrow> getopt [] ws = ([], ws)"
  using getopt_plain[of ws "[]"] by simp

lemma getopt_dash_digit:
  assumes "isdigit_c d"
  shows "\<exists>evs free. getopt [] ((CHR ''-'' # d # r) # args) = (BadOption # evs, free)"
proof -
  have d: "d \<noteq> CHR ''-''" using assms by (auto simp: isdigit_c_def code_def)
  have s: "d \<notin> set ''pxta''" "d \<notin> set ''hsfron''" using assms by (auto simp: isdigit_c_def code_def)
  then have n: "short_option d = None" by (simp only: short_option_def if_False)
  obtain evs free where g: "getopt r args = (evs, free)" by (cases "getopt r args")
  have "getopt (d # r) args = (BadOption # evs, free)"
    by (subst getopt_long.simps(2)) (simp only: n g option.case prod.case Let_def)
  moreover have "getopt [] ((CHR ''-'' # d # r) # args) = getopt (d # r) args"
    using d by (subst getopt_long.simps(3)) (simp add: strncmp_eq_def del: getopt_long.simps)
  ultimately show ?thesis by simp
qed

end
