(* ===== verification/CReal.thy ===== *)
theory CReal
  imports Prelude Complex_Main
begin

text \<open>
  C's conversions from floating point, read on real numbers: a cast to an integer drops the fraction,
  \<^verbatim>\<open>round\<close> and \<^verbatim>\<open>lround\<close> round halves away from 0.
\<close>

definition c_int :: "real \<Rightarrow> int" where
  "c_int x = (if x < 0 then \<lceil>x\<rceil> else \<lfloor>x\<rfloor>)"

definition c_round :: "real \<Rightarrow> int" where
  "c_round x = (if x < 0 then - \<lfloor>- x + 1 / 2\<rfloor> else \<lfloor>x + 1 / 2\<rfloor>)"

lemma c_round_mono: "x \<le> y \<Longrightarrow> c_round x \<le> c_round y"
proof -
  assume xy: "x \<le> y"
  have m: "\<lfloor>x + 1 / 2\<rfloor> \<le> \<lfloor>y + 1 / 2\<rfloor>" "\<lfloor>- y + 1 / 2\<rfloor> \<le> \<lfloor>- x + 1 / 2\<rfloor>"
    using xy by (intro floor_mono, simp)+
  have f: "0 \<le> \<lfloor>z + 1 / 2\<rfloor>" if "0 \<le> z" for z :: real using that by simp
  show ?thesis
  proof (cases "x < 0 \<and> 0 \<le> y")
    case True
    then have "0 \<le> \<lfloor>- x + 1 / 2\<rfloor>" "0 \<le> \<lfloor>y + 1 / 2\<rfloor>" by (intro f, simp)+
    moreover have "x < 0" "\<not> y < 0" using True by simp_all
    ultimately show ?thesis unfolding c_round_def if_P[OF \<open>x < 0\<close>] if_not_P[OF \<open>\<not> y < 0\<close>] by linarith
  next
    case False
    with m xy show ?thesis unfolding c_round_def by auto
  qed
qed

lemma c_round_of_int [simp]: "c_round (of_int n) = n"
proof -
  have "\<lfloor>of_int m + 1 / 2 :: real\<rfloor> = m" for m by (rule floor_unique) simp_all
  from this[of n] this[of "- n"] show ?thesis unfolding c_round_def by simp
qed

lemma c_round_close: "\<bar>of_int (c_round x) - x\<bar> \<le> 1 / 2"
  unfolding c_round_def using floor_correct[of "x + 1 / 2"] floor_correct[of "- x + 1 / 2"]
  by (cases "x < 0") (simp_all only: if_True if_False, linarith+)

lemma c_round_add_int: "0 \<le> x \<Longrightarrow> 0 \<le> n \<Longrightarrow> c_round (x + of_int n) = c_round x + n"
proof -
  assume "0 \<le> x" "0 \<le> n"
  moreover have "\<lfloor>x + of_int n + 1 / 2\<rfloor> = \<lfloor>x + 1 / 2\<rfloor> + n"
    using floor_add_int[of "x + 1 / 2" n] by (simp add: algebra_simps)
  ultimately show ?thesis unfolding c_round_def by simp
qed

end
