(* ===== verification/TxDma.thy ===== *)
theory TxDma
  imports CReal FakeTx
begin

text \<open>
  The hardware layer of \<^verbatim>\<open>ft8.cpp\<close>: the pool of memory pages, the ring of 1024 DMA control blocks that
  \<^verbatim>\<open>setupDMA\<close> builds, the clock and pin registers (\<^verbatim>\<open>txon\<close>, \<^verbatim>\<open>txoff\<close>), the table of clock dividers
  (\<^verbatim>\<open>setupDMATab\<close>) and the transmission of one symbol (\<^verbatim>\<open>txSym\<close>). Memory is a typed heap: control blocks
  and integers by virtual address. Registers are addressed by their bus address. What a polled register
  reads is the hardware's choice, a list the model consumes; an exhausted list means that the program is
  still polling (\<open>None\<close>). Doubles are real numbers, \<^verbatim>\<open>rand\<close> is a stream of 31-bit words.
\<close>

subsection \<open>The state of the board\<close>

record CB =
  TI :: u32
  SOURCE_AD :: u32
  DEST_AD :: u32
  TXFR_LEN :: u32
  STRIDE :: u32
  NEXTCONBK :: u32
  RES1 :: u32
  RES2 :: u32

record PageInfo =
  pg_b :: int \<comment> \<open>bus address\<close>
  pg_v :: int \<comment> \<open>virtual address\<close>

record mbox =
  mem_ref :: u32
  bus_addr :: u32
  virt_addr :: int
  pool_size :: nat
  pool_cnt :: nat

record rpi =
  mapped :: bool \<comment> \<open>\<^verbatim>\<open>peri_base_virt\<close> is not NULL\<close>
  regs :: "u32 \<Rightarrow> u32"
  busy :: "bool list" \<comment> \<open>the busy bit of the clock, at successive readings\<close>
  polls :: "u32 list" \<comment> \<open>the block the DMA engine executes, at successive readings\<close>
  pool :: mbox
  cbs :: "int \<Rightarrow> CB"
  ints :: "int \<Rightarrow> u32"

text \<open>\<^verbatim>\<open>mailbox.c\<close>: the firmware's allocation calls and the mapping of physical memory.\<close>

record firmware =
  mem_alloc :: "nat \<Rightarrow> u32"
  mem_lock :: "u32 \<Rightarrow> u32"
  mapmem :: "u32 \<Rightarrow> nat \<Rightarrow> int"

definition GPIO_BUS_BASE :: u32 where "GPIO_BUS_BASE = 0x7E200000"
definition CM_GP0CTL_BUS :: u32 where "CM_GP0CTL_BUS = 0x7e101070"
definition CM_GP0DIV_BUS :: u32 where "CM_GP0DIV_BUS = 0x7e101074"
definition PADS_GPIO_0_27_BUS :: u32 where "PADS_GPIO_0_27_BUS = 0x7e10002c"
definition CLK_BUS_BASE :: u32 where "CLK_BUS_BASE = 0x7E101000"
definition DMA_BUS_BASE :: u32 where "DMA_BUS_BASE = 0x7E007000"
definition PWM_BUS_BASE :: u32 where "PWM_BUS_BASE = 0x7e20C000"

definition BUS_TO_PHYS :: "u32 \<Rightarrow> u32" where "BUS_TO_PHYS x = x AND NOT 0xC0000000"

definition set_reg :: "u32 \<Rightarrow> u32 \<Rightarrow> rpi \<Rightarrow> rpi" where
  "set_reg a x s = s\<lparr>regs := (regs s)(a := x)\<rparr>"

definition SETBIT_BUS_ADDR :: "u32 \<Rightarrow> nat \<Rightarrow> rpi \<Rightarrow> rpi" where
  "SETBIT_BUS_ADDR a n s = set_reg a (regs s a OR push_bit n 1) s"

definition CLRBIT_BUS_ADDR :: "u32 \<Rightarrow> nat \<Rightarrow> rpi \<Rightarrow> rpi" where
  "CLRBIT_BUS_ADDR a n s = set_reg a (regs s a AND NOT (push_bit n 1)) s"

subsection \<open>The clock and the pins\<close>

text \<open>Polling until the busy bit is clear.\<close>

fun wait_clock :: "bool list \<Rightarrow> bool list option" where
  "wait_clock [] = None"
| "wait_clock (b # bs) = (if b then wait_clock bs else Some bs)"

definition disable_clock :: "rpi \<Rightarrow> rpi option" where
  "disable_clock s =
     (if \<not> mapped s then Some s
      else
        (let settings = (regs s CM_GP0CTL_BUS AND 0x7EF) OR 0x5A000000;
             s = set_reg CM_GP0CTL_BUS settings s
         in case wait_clock (busy s) of None \<Rightarrow> None | Some bs \<Rightarrow> Some (s\<lparr>busy := bs\<rparr>)))"

definition led_off :: "rpi \<Rightarrow> rpi" where
  "led_off s =
     CLRBIT_BUS_ADDR (GPIO_BUS_BASE + 0x1c) 18
       (CLRBIT_BUS_ADDR (GPIO_BUS_BASE + 4) 24
         (CLRBIT_BUS_ADDR (GPIO_BUS_BASE + 4) 25
           (CLRBIT_BUS_ADDR (GPIO_BUS_BASE + 4) 26 s)))"

definition txoff :: "rpi \<Rightarrow> rpi option" where
  "txoff s = map_option led_off (disable_clock s)"

definition unSetupDMA :: "rpi \<Rightarrow> rpi option" where
  "unSetupDMA s = (if \<not> mapped s then Some s else txoff (set_reg DMA_BUS_BASE (push_bit 31 1) s))"

text \<open>\<open>GPCTL\<close> with SRC 6, ENAB 1, MASH 3 and the password, as the compiler lays the bits out.\<close>

definition GPCTL_setup :: u32 where
  "GPCTL_setup = push_bit 24 0x5a OR push_bit 9 3 OR push_bit 4 1 OR 6"

definition txon :: "bool \<Rightarrow> rpi \<Rightarrow> rpi option" where
  "txon LedON s =
     (let s = SETBIT_BUS_ADDR GPIO_BUS_BASE 14 s;
          s = CLRBIT_BUS_ADDR GPIO_BUS_BASE 13 s;
          s = CLRBIT_BUS_ADDR GPIO_BUS_BASE 12 s;
          s = set_reg PADS_GPIO_0_27_BUS (0x5a000018 + 2) s
      in case disable_clock s of
           None \<Rightarrow> None
         | Some s \<Rightarrow>
             (let s = set_reg CM_GP0CTL_BUS GPCTL_setup s in
              Some (if LedON then
                (let s = CLRBIT_BUS_ADDR (GPIO_BUS_BASE + 4) 26 s;
                     s = CLRBIT_BUS_ADDR (GPIO_BUS_BASE + 4) 25 s;
                     s = SETBIT_BUS_ADDR (GPIO_BUS_BASE + 4) 24 s
                 in SETBIT_BUS_ADDR (GPIO_BUS_BASE + 0x1c) 18 s)
              else s)))"

subsection \<open>The pool of pages\<close>

definition allocMemPool :: "firmware \<Rightarrow> nat \<Rightarrow> rpi \<Rightarrow> rpi" where
  "allocMemPool fw numpages s =
     (let r = mem_alloc fw (4096 * numpages); ba = mem_lock fw r
      in s\<lparr>pool := \<lparr>mem_ref = r, bus_addr = ba, virt_addr = mapmem fw (BUS_TO_PHYS ba) (4096 * numpages),
                    pool_size = numpages, pool_cnt = 0\<rparr>\<rparr>)"

definition getRealMemPageFromPool :: "rpi \<Rightarrow> (PageInfo \<times> rpi) result" where
  "getRealMemPageFromPool s =
     (let m = pool s in
      if pool_size m \<le> pool_cnt m then Inl Exited
      else
        (let offset = int (pool_cnt m) * 4096
         in Inr (\<lparr>pg_b = uint (bus_addr m) + offset, pg_v = virt_addr m + offset\<rparr>,
                 s\<lparr>pool := m\<lparr>pool_cnt := pool_cnt m + 1\<rparr>\<rparr>)))"

subsection \<open>The ring of control blocks\<close>

definition CB_SIZE :: nat where "CB_SIZE = 32"

definition set_cb :: "int \<Rightarrow> (CB \<Rightarrow> CB) \<Rightarrow> rpi \<Rightarrow> rpi" where
  "set_cb a f s = s\<lparr>cbs := (cbs s)(a := f (cbs s a))\<rparr>"

text \<open>The assignments to one control block, \<open>i\<close> being its number in the page.\<close>

definition init_cb :: "PageInfo \<Rightarrow> nat \<Rightarrow> CB \<Rightarrow> CB" where
  "init_cb constPage i c =
     (let c = c\<lparr>SOURCE_AD := word_of_int (pg_b constPage) + 2048, DEST_AD := PWM_BUS_BASE + 0x18,
                TXFR_LEN := 4, STRIDE := 0, TI := push_bit 6 1 OR push_bit 16 5 OR push_bit 26 1,
                RES1 := 0, RES2 := 0\<rparr>
      in if odd i then c\<lparr>DEST_AD := CM_GP0DIV_BUS, STRIDE := 4, TI := push_bit 26 1\<rparr> else c)"

definition fill_instr :: "PageInfo \<Rightarrow> PageInfo \<Rightarrow> nat \<Rightarrow> nat \<Rightarrow> PageInfo list \<times> rpi \<Rightarrow> (PageInfo list \<times> rpi) result" where
  "fill_instr constPage instrPage i instrCnt = (\<lambda>(instrs, s).
     if length instrs \<le> instrCnt then Inl (OutOfBounds (length instrs) instrCnt)
     else
       (let instr = \<lparr>pg_b = pg_b instrPage + int (CB_SIZE * i), pg_v = pg_v instrPage + int (CB_SIZE * i)\<rparr>;
            instrs = instrs[instrCnt := instr];
            s = set_cb (pg_v instr) (init_cb constPage i) s
        in Inr (instrs,
                if instrCnt \<noteq> 0
                then set_cb (pg_v (instrs ! (instrCnt - 1))) (\<lambda>c. c\<lparr>NEXTCONBK := word_of_int (pg_b (instrs ! instrCnt))\<rparr>) s
                else s)))"

fun fill_page :: "PageInfo \<Rightarrow> PageInfo \<Rightarrow> nat \<Rightarrow> nat \<Rightarrow> PageInfo list \<times> rpi \<Rightarrow> (PageInfo list \<times> rpi) result" where
  "fill_page constPage instrPage 0 instrCnt st = Inr st"
| "fill_page constPage instrPage (Suc i) instrCnt st =
     rbind (fill_page constPage instrPage i instrCnt st) (fill_instr constPage instrPage i (instrCnt + i))"

text \<open>The outer loop: pages are taken while \<^verbatim>\<open>instrCnt < 1024\<close>.\<close>

function fill_pages :: "PageInfo \<Rightarrow> PageInfo \<Rightarrow> nat \<Rightarrow> PageInfo list \<times> rpi \<Rightarrow> (PageInfo \<times> PageInfo list \<times> rpi) result" where
  "fill_pages constPage instrPage instrCnt st =
     (if instrCnt < 1024 then
        (case st of (instrs, s) \<Rightarrow>
           rbind (getRealMemPageFromPool s) (\<lambda>(instrPage, s).
           rbind (fill_page constPage instrPage (4096 div CB_SIZE) instrCnt (instrs, s))
             (fill_pages constPage instrPage (instrCnt + 4096 div CB_SIZE))))
      else Inr (instrPage, st))"
  by pat_completeness auto
termination by (relation "measure (\<lambda>(cp, ip, n, st). 1024 - n)") (auto simp: CB_SIZE_def)

declare fill_pages.simps [simp del]

text \<open>\<open>div_pwm\<close> is the divider of the PWM clock, which depends on the board.\<close>

definition start_dma :: "u32 \<Rightarrow> PageInfo \<Rightarrow> rpi \<Rightarrow> rpi" where
  "start_dma div_pwm instrPage s =
     (let s = set_reg (CLK_BUS_BASE + 160) 0x5A000026 s;
          s = set_reg (CLK_BUS_BASE + 164) div_pwm s;
          s = set_reg (CLK_BUS_BASE + 160) 0x5A000016 s;
          s = set_reg PWM_BUS_BASE 0 s;
          s = set_reg (PWM_BUS_BASE + 0x4) (- 1) s;
          s = set_reg (PWM_BUS_BASE + 0x10) 32 s;
          s = set_reg (PWM_BUS_BASE + 0x20) 32 s;
          s = set_reg PWM_BUS_BASE (- 1) s;
          s = set_reg (PWM_BUS_BASE + 0x8) (push_bit 31 1 OR 0x0707) s;
          s = set_reg DMA_BUS_BASE (push_bit 31 1) s;
          s = set_reg (DMA_BUS_BASE + 4) 0 s;
          s = set_reg (DMA_BUS_BASE + 8) 0 s;
          s = set_reg (DMA_BUS_BASE + 4) (word_of_int (pg_b instrPage)) s
      in set_reg DMA_BUS_BASE (1 OR push_bit 16 255) s)"

definition setupDMA :: "firmware \<Rightarrow> u32 \<Rightarrow> PageInfo list \<Rightarrow> rpi \<Rightarrow> (PageInfo \<times> PageInfo \<times> PageInfo list \<times> rpi) result" where
  "setupDMA fw div_pwm instrs s =
     rbind (getRealMemPageFromPool (allocMemPool fw 1025 s)) (\<lambda>(constPage, s).
     rbind (fill_pages constPage constPage 0 (instrs, s)) (\<lambda>(instrPage, instrs, s).
     let s = set_cb (pg_v (instrs ! 1023)) (\<lambda>c. c\<lparr>NEXTCONBK := word_of_int (pg_b (instrs ! 0))\<rparr>) s
     in Inr (constPage, instrPage, instrs, start_dma div_pwm instrPage s)))"

subsection \<open>The table of clock dividers\<close>

text \<open>\<^verbatim>\<open>pow(2.0, n)\<close> is exact.\<close>

definition bit_trunc :: "real \<Rightarrow> int \<Rightarrow> real" where
  "bit_trunc d lsb = of_int \<lfloor>d / 2 powi lsb\<rfloor> * 2 powi lsb"

definition tuning_word :: "real \<Rightarrow> real \<Rightarrow> real \<Rightarrow> nat \<Rightarrow> int" where
  "tuning_word plld tone0_freq tone_spacing i =
     (if i < 16 then
        (let tone_freq = tone0_freq + real (i div 2) * tone_spacing;
             d = bit_trunc (plld / tone_freq) (- 12);
             d = (if even i then d + 2 powi (- 12) else d)
         in c_int (d * 2 powi 12))
      else c_int (real (500 + i) * 2 powi 12))"

text \<open>The loop that programs the table, over the entries that are left.\<close>

fun prog_table :: "real \<Rightarrow> int list \<Rightarrow> PageInfo \<Rightarrow> nat list \<Rightarrow> real list \<times> rpi \<Rightarrow> (real list \<times> rpi) result" where
  "prog_table plld tw constPage [] st = Inr st"
| "prog_table plld tw constPage (i # js) (table, s) =
     (let table = table[i := plld / (of_int (tw ! i) / 2 powi 12)];
          s = s\<lparr>ints := (ints s)(pg_v constPage + 4 * int i := word_of_int (push_bit 24 0x5a + tw ! i))\<rparr>
      in if even i \<and> i < 16 \<and> tw ! i AND NOT 0xfff \<noteq> tw ! (i + 1) AND NOT 0xfff then Inl AssertionFailed
         else prog_table plld tw constPage js (table, s))"

text \<open>The centre frequency that is used, and the table of the frequencies of the dividers.\<close>

definition center_actual :: "real \<Rightarrow> real \<Rightarrow> real \<Rightarrow> real" where
  "center_actual center_freq_desired tone_spacing plld =
     (let div_lo = bit_trunc (plld / (center_freq_desired - 1.5 * tone_spacing)) (- 12) + 2 powi (- 12);
          div_hi = bit_trunc (plld / (center_freq_desired + 1.5 * tone_spacing)) (- 12)
      in if \<lfloor>div_lo\<rfloor> \<noteq> \<lfloor>div_hi\<rfloor> then plld / of_int \<lfloor>div_lo\<rfloor> - 1.6 * tone_spacing else center_freq_desired)"

definition setupDMATab :: "real \<Rightarrow> real \<Rightarrow> real \<Rightarrow> PageInfo \<Rightarrow> rpi \<Rightarrow> (real \<times> real list \<times> rpi) result" where
  "setupDMATab center_freq_desired tone_spacing plld constPage s =
     (let c = center_actual center_freq_desired tone_spacing plld;
          tw = map (tuning_word plld (c - 1.5 * tone_spacing) tone_spacing) [0..<1024]
      in rbind (prog_table plld tw constPage [0..<1024] (replicate 1024 0, s)) (\<lambda>(table, s). Inr (c, table, s)))"

subsection \<open>One symbol\<close>

type_synonym 'a run = "'a result option"

text \<open>Runs: \<open>None\<close> while the program polls, otherwise an error or a result.\<close>

definition ebind :: "'a run \<Rightarrow> ('a \<Rightarrow> 'b run) \<Rightarrow> 'b run" where
  "ebind m f = (case m of None \<Rightarrow> None | Some (Inl e) \<Rightarrow> Some (Inl e) | Some (Inr x) \<Rightarrow> f x)"

lemma ebind_simps [simp]:
  "ebind None f = None" "ebind (Some (Inl e)) f = Some (Inl e)" "ebind (Some (Inr x)) f = f x"
  by (simp_all add: ebind_def)

fun wait_block :: "u32 \<Rightarrow> u32 list \<Rightarrow> u32 list option" where
  "wait_block b [] = None"
| "wait_block b (x # xs) = (if x = b then wait_block b xs else Some xs)"

text \<open>An instruction is changed when the engine is not executing it.\<close>

definition prog_block :: "PageInfo list \<Rightarrow> nat \<Rightarrow> (CB \<Rightarrow> CB) \<Rightarrow> rpi \<Rightarrow> rpi run" where
  "prog_block instrs k f s =
     (if length instrs \<le> k then Some (Inl (OutOfBounds (length instrs) k))
      else case wait_block (word_of_int (pg_b (instrs ! k))) (polls s) of
          None \<Rightarrow> None
        | Some ps \<Rightarrow> Some (Inr (set_cb (pg_v (instrs ! k)) f (s\<lparr>polls := ps\<rparr>))))"

text \<open>The clocks of one iteration, from one value of \<^verbatim>\<open>rand\<close>.\<close>

definition iter_clocks :: "31 word \<Rightarrow> int" where
  "iter_clocks r = 1000 + c_round ((of_int (uint r) / 2 ^ 31 - 1 / 2) * 1000)"

lemma iter_clocks_bounds: "500 \<le> iter_clocks r" "iter_clocks r \<le> 1500"
proof -
  have "uint r < 2 ^ 31" using uint_lt2p[of r] by simp
  then have "real_of_int (uint r) < 2 ^ 31" by (simp add: of_int_less_iff[where 'a = real, symmetric])
  moreover have "0 \<le> real_of_int (uint r)" by (simp only: of_int_0_le_iff uint_ge_0)
  ultimately have "(of_int (- 500) :: real) \<le> (of_int (uint r) / 2 ^ 31 - 1 / 2) * 1000 \<and>
      (of_int (uint r) / 2 ^ 31 - 1 / 2) * 1000 \<le> (of_int 500 :: real)" by simp
  then have "c_round (of_int (- 500)) \<le> c_round ((of_int (uint r) / 2 ^ 31 - 1 / 2) * 1000)"
    "c_round ((of_int (uint r) / 2 ^ 31 - 1 / 2) * 1000) \<le> c_round (of_int 500)" using c_round_mono by blast+
  then show "500 \<le> iter_clocks r" "iter_clocks r \<le> 1500" unfolding iter_clocks_def c_round_of_int by simp_all
qed

text \<open>
  The loop of \<^verbatim>\<open>txSym\<close>: \<open>sent\<close> clocks are programmed, \<open>sent0\<close> of them on the lower frequency; \<open>j\<close>
  numbers the calls of \<^verbatim>\<open>rand\<close>, and \<open>hist\<close> keeps the two lengths of every iteration.
\<close>

function sym_loop :: "(nat \<Rightarrow> 31 word) \<Rightarrow> int \<Rightarrow> real \<Rightarrow> PageInfo \<Rightarrow> PageInfo list \<Rightarrow> nat \<Rightarrow> int \<Rightarrow> int \<Rightarrow> nat \<Rightarrow> nat
    \<Rightarrow> rpi \<Rightarrow> (int \<times> int) list \<Rightarrow> (nat \<times> nat \<times> rpi \<times> (int \<times> int) list) run" where
  "sym_loop rnd n_sym f0_ratio constPage instrs f0_idx sent sent0 bufPtr j s hist =
     (if sent < n_sym then
        (let n = iter_clocks (rnd j);
             n = (if n_sym < sent + n then n_sym - sent else n);
             n_f0 = c_round (f0_ratio * of_int (sent + n)) - sent0;
             n_f1 = n - n_f0
         in ebind (prog_block instrs (bufPtr + 1) (\<lambda>c. c\<lparr>SOURCE_AD := word_of_int (pg_b constPage + int f0_idx * 4)\<rparr>) s) (\<lambda>s.
            ebind (prog_block instrs (bufPtr + 2) (\<lambda>c. c\<lparr>TXFR_LEN := word_of_int n_f0\<rparr>) s) (\<lambda>s.
            ebind (prog_block instrs (bufPtr + 3) (\<lambda>c. c\<lparr>SOURCE_AD := word_of_int (pg_b constPage + int (f0_idx + 1) * 4)\<rparr>) s) (\<lambda>s.
            let bufPtr = (bufPtr + 4) mod 1024 in
            ebind (prog_block instrs bufPtr (\<lambda>c. c\<lparr>TXFR_LEN := word_of_int n_f1\<rparr>) s) (\<lambda>s.
            sym_loop rnd n_sym f0_ratio constPage instrs f0_idx (sent + n) (sent0 + n_f0) bufPtr (j + 1) s
              (hist @ [(n_f0, n_f1)]))))))
      else Some (Inr (bufPtr, j, s, hist)))"
  by pat_completeness auto
termination
proof (relation "measure (\<lambda>(rnd, n_sym, ra, cp, ins, f, sent, sent0, b, j, s, h). nat (n_sym - sent))", goal_cases)
  case (2 rnd n_sym ra cp ins f sent sent0 b j s h)
  then show ?case using iter_clocks_bounds(1)[of "rnd j"] by (simp split: if_splits)
qed simp

declare sym_loop.simps [simp del]

definition txSym :: "nat \<Rightarrow> real \<Rightarrow> real \<Rightarrow> real \<Rightarrow> real list \<Rightarrow> real \<Rightarrow> PageInfo list \<Rightarrow> PageInfo \<Rightarrow> nat
    \<Rightarrow> (nat \<Rightarrow> 31 word) \<Rightarrow> nat \<Rightarrow> rpi \<Rightarrow> (nat \<times> nat \<times> rpi \<times> (int \<times> int) list) run" where
  "txSym sym_num center_freq tone_spacing tsym table f_pwm_clk instrs constPage bufPtr rnd j s =
     (let f0_idx = sym_num * 2; f0_freq = table ! f0_idx; f1_freq = table ! (f0_idx + 1);
          tone_freq = center_freq - 1.5 * tone_spacing + real sym_num * tone_spacing
      in if length table \<le> f0_idx + 1 then Some (Inl (OutOfBounds (length table) (f0_idx + 1)))
         else if \<not> f0_freq \<le> tone_freq \<or> \<not> tone_freq \<le> f1_freq then Some (Inl AssertionFailed)
         else
           (let f0_ratio = 1 - (tone_freq - f0_freq) / (f1_freq - f0_freq) in
            if \<not> (0 \<le> f0_ratio \<and> f0_ratio \<le> 1) then Some (Inl AssertionFailed)
            else sym_loop rnd (c_round (f_pwm_clk * tsym)) f0_ratio constPage instrs f0_idx 0 0 bufPtr j s []))"

subsection \<open>The ring is circular\<close>

definition block :: "PageInfo \<Rightarrow> nat \<Rightarrow> u32 \<Rightarrow> CB" where
  "block cp k nx = (init_cb cp k \<lparr>TI = 0, SOURCE_AD = 0, DEST_AD = 0, TXFR_LEN = 0, STRIDE = 0, NEXTCONBK = nx, RES1 = 0, RES2 = 0\<rparr>)"

lemma init_cb_block: "even i = even k \<Longrightarrow> init_cb cp i c = block cp k (NEXTCONBK c)"
  by (cases c) (simp add: init_cb_def block_def Let_def)

lemma block_relink [simp]: "(block cp k nx)\<lparr>NEXTCONBK := nx'\<rparr> = block cp k nx'"
  "NEXTCONBK (block cp k nx) = nx"
  by (simp_all add: init_cb_def block_def Let_def)

definition instr_at :: "mbox \<Rightarrow> nat \<Rightarrow> PageInfo" where
  "instr_at m k = \<lparr>pg_b = uint (bus_addr m) + 4096 + 32 * int k, pg_v = virt_addr m + 4096 + 32 * int k\<rparr>"

lemma instr_at_eq [simp]: "pg_v (instr_at m j) = pg_v (instr_at m k) \<longleftrightarrow> j = k"
  by (auto simp: instr_at_def)

text \<open>The state after \<open>n\<close> control blocks.\<close>

definition linked :: "PageInfo \<Rightarrow> mbox \<Rightarrow> nat \<Rightarrow> PageInfo list \<times> rpi \<Rightarrow> bool" where
  "linked cp m n = (\<lambda>(instrs, s). length instrs = 1024 \<and> (\<forall>k < n. instrs ! k = instr_at m k)
     \<and> (\<forall>k. k + 1 < n \<longrightarrow> cbs s (pg_v (instr_at m k)) = block cp k (word_of_int (pg_b (instr_at m (k + 1)))))
     \<and> (0 < n \<longrightarrow> (\<exists>nx. cbs s (pg_v (instr_at m (n - 1))) = block cp (n - 1) nx)))"

lemma fill_instr_linked:
  assumes "linked cp m n st" "n < 1024" "even i = even n"
    "\<lparr>pg_b = pg_b ip + int (CB_SIZE * i), pg_v = pg_v ip + int (CB_SIZE * i)\<rparr> = instr_at m n"
  shows "\<exists>instrs' s'. fill_instr cp ip i n st = Inr (instrs', s') \<and> linked cp m (n + 1) (instrs', s')
    \<and> pool s' = pool (snd st) \<and> regs s' = regs (snd st) \<and> polls s' = polls (snd st) \<and> mapped s' = mapped (snd st) \<and> busy s' = busy (snd st)"
proof -
  obtain instrs s where st: "st = (instrs, s)" by (cases st)
  have len: "length instrs = 1024" and old: "\<And>k. k < n \<Longrightarrow> instrs ! k = instr_at m k"
    and nx: "\<And>k. k + 1 < n \<Longrightarrow> cbs s (pg_v (instr_at m k)) = block cp k (word_of_int (pg_b (instr_at m (k + 1))))"
    and last: "0 < n \<Longrightarrow> \<exists>nx. cbs s (pg_v (instr_at m (n - 1))) = block cp (n - 1) nx"
    using assms(1) by (simp_all add: linked_def st)
  let ?is = "instrs[n := instr_at m n]"
  let ?s1 = "set_cb (pg_v (instr_at m n)) (init_cb cp i) s"
  let ?s2 = "if n \<noteq> 0 then set_cb (pg_v (instr_at m (n - 1))) (\<lambda>c. c\<lparr>NEXTCONBK := word_of_int (pg_b (instr_at m n))\<rparr>) ?s1 else ?s1"
  have v: "fill_instr cp ip i n st = Inr (?is, ?s2)"
    unfolding fill_instr_def st prod.case Let_def assms(4) using assms(2) len old[of "n - 1"] by simp
  have i: "\<And>c. init_cb cp i c = block cp n (NEXTCONBK c)" using init_cb_block assms(3) by blast
  have "linked cp m (n + 1) (?is, ?s2)"
  proof (cases n)
    case 0
    then show ?thesis using len by (auto simp: linked_def set_cb_def i)
  next
    case (Suc n')
    obtain y where y: "cbs s (pg_v (instr_at m n')) = block cp n' y" using last Suc by auto
    have "cbs ?s2 (pg_v (instr_at m k)) = block cp k (word_of_int (pg_b (instr_at m (k + 1))))" if "k + 1 < n + 1" for k
      using that nx[of k] y Suc by (cases "k = n'") (auto simp: set_cb_def i)
    moreover have "cbs ?s2 (pg_v (instr_at m n)) = block cp n (NEXTCONBK (cbs s (pg_v (instr_at m n))))"
      using Suc by (simp add: set_cb_def i)
    moreover have "?is ! k = instr_at m k" if "k < n + 1" for k
      using that len old[of k] assms(2) by (cases "k = n") simp_all
    ultimately show ?thesis unfolding linked_def prod.case using len by (auto simp del: if_split)
  qed
  then show ?thesis unfolding v by (simp add: st set_cb_def)
qed

lemma fill_page_linked:
  assumes "linked cp m n st" "n + i \<le> 1024" "even n"
    "pg_b ip = uint (bus_addr m) + 4096 + 32 * int n" "pg_v ip = virt_addr m + 4096 + 32 * int n"
  shows "\<exists>instrs' s'. fill_page cp ip i n st = Inr (instrs', s') \<and> linked cp m (n + i) (instrs', s')
    \<and> pool s' = pool (snd st) \<and> regs s' = regs (snd st) \<and> polls s' = polls (snd st) \<and> mapped s' = mapped (snd st) \<and> busy s' = busy (snd st)"
  using assms(2)
proof (induction i)
  case 0
  then show ?case using assms(1) by (cases st) simp
next
  case (Suc i)
  then obtain is' s' where 1: "fill_page cp ip i n st = Inr (is', s')" "linked cp m (n + i) (is', s')"
    "pool s' = pool (snd st)" "regs s' = regs (snd st)" "polls s' = polls (snd st)" "mapped s' = mapped (snd st) \<and> busy s' = busy (snd st)" by auto
  have "\<lparr>pg_b = pg_b ip + int (CB_SIZE * i), pg_v = pg_v ip + int (CB_SIZE * i)\<rparr> = instr_at m (n + i)"
    by (simp add: instr_at_def assms CB_SIZE_def)
  from fill_instr_linked[OF 1(2) _ _ this] 1 Suc.prems assms(3) show ?case by auto
qed

lemma fill_pages_linked:
  assumes "linked cp m n (instrs, s)" "n = 128 * p" "p < 8" "pool s = m\<lparr>pool_cnt := p + 1\<rparr>" "pool_size m = 1025"
  shows "\<exists>instrs' s'. fill_pages cp ip n (instrs, s) = Inr (instr_at m 896, instrs', s') \<and> linked cp m 1024 (instrs', s')
    \<and> pool s' = m\<lparr>pool_cnt := 9\<rparr> \<and> regs s' = regs s \<and> polls s' = polls s \<and> mapped s' = mapped s \<and> busy s' = busy s"
  using assms
proof (induction "8 - p" arbitrary: p n instrs s ip)
  case (Suc d)
  let ?ip = "instr_at m (128 * p)" and ?s = "s\<lparr>pool := m\<lparr>pool_cnt := p + 2\<rparr>\<rparr>"
  have pg: "getRealMemPageFromPool s = Inr (?ip, ?s)"
    using Suc.prems by (simp add: getRealMemPageFromPool_def Let_def instr_at_def)
  have l: "linked cp m n (instrs, ?s)" using Suc.prems(1) by (simp add: linked_def)
  obtain is' s' where f: "fill_page cp ?ip 128 n (instrs, ?s) = Inr (is', s')" "linked cp m (n + 128) (is', s')"
    "pool s' = m\<lparr>pool_cnt := p + 2\<rparr>" "regs s' = regs s" "polls s' = polls s" "mapped s' = mapped s \<and> busy s' = busy s"
    using fill_page_linked[OF l, of 128 ?ip] Suc.prems by (auto simp: instr_at_def)
  have e: "fill_pages cp ip n (instrs, s) = fill_pages cp ?ip (n + 128) (is', s')"
    using Suc.prems pg f(1) by (subst fill_pages.simps) (simp add: CB_SIZE_def)
  show ?case
  proof (cases "p = 7")
    case True
    then have "fill_pages cp ?ip (n + 128) (is', s') = Inr (?ip, is', s')"
      using Suc.prems by (subst fill_pages.simps) simp
    with True f e Suc.prems show ?thesis by simp
  next
    case False
    have "\<exists>instrs' s''. fill_pages cp ?ip (n + 128) (is', s') = Inr (instr_at m 896, instrs', s'') \<and> linked cp m 1024 (instrs', s'')
        \<and> pool s'' = m\<lparr>pool_cnt := 9\<rparr> \<and> regs s'' = regs s' \<and> polls s'' = polls s' \<and> mapped s'' = mapped s' \<and> busy s'' = busy s'"
      by (rule Suc.hyps(1)[of "p + 1"]) (use Suc.hyps(2) Suc.prems f False in simp_all)
    with e f show ?thesis by simp
  qed
qed simp

lemma setupDMA_ring_props:
  assumes "length instrs = 1024"
  shows "\<exists>cp ip instrs' s'. setupDMA fw div_pwm instrs s = Inr (cp, ip, instrs', s') \<and> length instrs' = 1024
    \<and> pool_cnt (pool s') = 9 \<and> polls s' = polls s \<and> mapped s' = mapped s \<and> busy s' = busy s \<and> regs s' (DMA_BUS_BASE + 4) = word_of_int (pg_b (instrs' ! 896))
    \<and> (\<forall>k. let c = cbs s' (pg_v (instrs' ! (k mod 1024))) in
         NEXTCONBK c = word_of_int (pg_b (instrs' ! ((k + 1) mod 1024)))
         \<and> DEST_AD c = (if odd k then CM_GP0DIV_BUS else PWM_BUS_BASE + 0x18)
         \<and> pg_v (instrs' ! (k mod 1024)) - pg_v cp = pg_b (instrs' ! (k mod 1024)) - pg_b cp
         \<and> pg_v (instrs' ! (k mod 1024)) - pg_v cp = 4096 + 32 * int (k mod 1024))"
proof -
  let ?s = "allocMemPool fw 1025 s"
  let ?m = "pool ?s"
  let ?cp = "\<lparr>pg_b = uint (bus_addr ?m), pg_v = virt_addr ?m\<rparr>"
  have m: "pool_size ?m = 1025" "pool_cnt ?m = 0" by (simp_all add: allocMemPool_def Let_def)
  have pg: "getRealMemPageFromPool ?s = Inr (?cp, ?s\<lparr>pool := ?m\<lparr>pool_cnt := Suc 0\<rparr>\<rparr>)"
    using m by (simp add: getRealMemPageFromPool_def Let_def)
  have l0: "linked ?cp ?m 0 (instrs, ?s\<lparr>pool := ?m\<lparr>pool_cnt := Suc 0\<rparr>\<rparr>)" using assms by (simp add: linked_def)
  obtain is' s' where f: "fill_pages ?cp ?cp 0 (instrs, ?s\<lparr>pool := ?m\<lparr>pool_cnt := Suc 0\<rparr>\<rparr>) = Inr (instr_at ?m 896, is', s')"
    "linked ?cp ?m 1024 (is', s')" "pool s' = ?m\<lparr>pool_cnt := 9\<rparr>"
    "polls s' = polls s" "mapped s' = mapped s" "busy s' = busy s"
  proof -
    have a: "polls ?s = polls s" "mapped ?s = mapped s" "busy ?s = busy s" by (simp_all add: allocMemPool_def Let_def)
    show thesis using that fill_pages_linked[OF l0, of 0 ?cp] m a by auto
  qed
  have i: "length is' = 1024" "\<And>k. k < 1024 \<Longrightarrow> is' ! k = instr_at ?m k"
    and b: "\<And>k. k < 1023 \<Longrightarrow> cbs s' (pg_v (instr_at ?m k)) = block ?cp k (word_of_int (pg_b (instr_at ?m (k + 1))))"
    and e: "\<exists>nx. cbs s' (pg_v (instr_at ?m 1023)) = block ?cp 1023 nx"
    using f(2) by (auto simp: linked_def)
  let ?s2 = "set_cb (pg_v (is' ! 1023)) (\<lambda>c. c\<lparr>NEXTCONBK := word_of_int (pg_b (is' ! 0))\<rparr>) s'"
  have v: "setupDMA fw div_pwm instrs s = Inr (?cp, instr_at ?m 896, is', start_dma div_pwm (instr_at ?m 896) ?s2)"
    by (simp add: setupDMA_def pg f(1) Let_def)
  have c: "cbs (start_dma div_pwm (instr_at ?m 896) ?s2) = cbs ?s2" "pool (start_dma div_pwm (instr_at ?m 896) ?s2) = pool s'"
    "regs (start_dma div_pwm (instr_at ?m 896) ?s2) (DMA_BUS_BASE + 4) = word_of_int (pg_b (instr_at ?m 896))"
    "polls (start_dma div_pwm (instr_at ?m 896) ?s2) = polls s" "mapped (start_dma div_pwm (instr_at ?m 896) ?s2) = mapped s"
    "busy (start_dma div_pwm (instr_at ?m 896) ?s2) = busy s"
    using f(4-6) by (simp_all add: start_dma_def set_reg_def Let_def set_cb_def DMA_BUS_BASE_def)
  have blk: "cbs ?s2 (pg_v (instr_at ?m k)) = block ?cp k (word_of_int (pg_b (instr_at ?m ((k + 1) mod 1024))))" if "k < 1024" for k
    using that b[of k] e i(2)[of 1023] i(2)[of 0] by (cases "k = 1023") (auto simp: set_cb_def)
  have d: "DEST_AD (block ?cp k nx) = (if odd k then CM_GP0DIV_BUS else PWM_BUS_BASE + 0x18)" for k nx
    by (simp add: block_def init_cb_def Let_def)
  have p: "odd (k mod 1024) = odd k" for k :: nat using dvd_mod_iff[of 2 1024 k] by simp
  have "\<forall>k. let c = cbs ?s2 (pg_v (is' ! (k mod 1024))) in
         NEXTCONBK c = word_of_int (pg_b (is' ! ((k + 1) mod 1024)))
         \<and> DEST_AD c = (if odd k then CM_GP0DIV_BUS else PWM_BUS_BASE + 0x18)
         \<and> pg_v (is' ! (k mod 1024)) - pg_v ?cp = pg_b (is' ! (k mod 1024)) - pg_b ?cp
         \<and> pg_v (is' ! (k mod 1024)) - pg_v ?cp = 4096 + 32 * int (k mod 1024)"
  proof (intro allI)
    fix k :: nat
    have k: "k mod 1024 < 1024" "(k + 1) mod 1024 < 1024" by simp_all
    have "(k mod 1024 + 1) mod 1024 = (k + 1) mod 1024" by (rule mod_add_left_eq)
    with blk[OF k(1)] show "let c = cbs ?s2 (pg_v (is' ! (k mod 1024))) in
         NEXTCONBK c = word_of_int (pg_b (is' ! ((k + 1) mod 1024)))
         \<and> DEST_AD c = (if odd k then CM_GP0DIV_BUS else PWM_BUS_BASE + 0x18)
         \<and> pg_v (is' ! (k mod 1024)) - pg_v ?cp = pg_b (is' ! (k mod 1024)) - pg_b ?cp
         \<and> pg_v (is' ! (k mod 1024)) - pg_v ?cp = 4096 + 32 * int (k mod 1024)"
      unfolding i(2)[OF k(1)] i(2)[OF k(2)] by (simp add: d p Let_def) (simp add: instr_at_def)
  qed
  with v i c f(3) show ?thesis by simp
qed

text \<open>
  C36. \<^verbatim>\<open>setupDMA\<close> uses nine of the 1025 pages, stores to no instruction outside the array, and leaves a ring: block
  \<open>k\<close> points at block \<open>k + 1\<close> and the last at the first, blocks with an odd number write the clock
  divider from the table, blocks with an even number feed the PWM. The engine starts with block 896.
\<close>

theorem setupDMA_ring:
  assumes "length instrs = 1024"
  shows "\<exists>cp ip instrs' s'. setupDMA fw div_pwm instrs s = Inr (cp, ip, instrs', s') \<and> length instrs' = 1024
    \<and> pool_cnt (pool s') = 9 \<and> polls s' = polls s \<and> mapped s' = mapped s \<and> busy s' = busy s \<and> regs s' (DMA_BUS_BASE + 4) = word_of_int (pg_b (instrs' ! 896))
    \<and> (\<forall>k. let c = cbs s' (pg_v (instrs' ! (k mod 1024))) in
         NEXTCONBK c = word_of_int (pg_b (instrs' ! ((k + 1) mod 1024)))
         \<and> DEST_AD c = (if odd k then CM_GP0DIV_BUS else PWM_BUS_BASE + 0x18)
         \<and> pg_v (instrs' ! (k mod 1024)) - pg_v cp = pg_b (instrs' ! (k mod 1024)) - pg_b cp
         \<and> pg_v (instrs' ! (k mod 1024)) - pg_v cp = 4096 + 32 * int (k mod 1024))"
  by (rule setupDMA_ring_props[OF assms])

definition demo_board :: rpi where
  "demo_board = \<lparr>mapped = True, regs = (\<lambda>_. 0), busy = replicate 20 False, polls = map (\<lambda>i. of_nat (i mod 2)) [0..<16],
     pool = \<lparr>mem_ref = 0, bus_addr = 0, virt_addr = 0, pool_size = 0, pool_cnt = 0\<rparr>,
     cbs = (\<lambda>_. \<lparr>TI = 0, SOURCE_AD = 0, DEST_AD = 0, TXFR_LEN = 0, STRIDE = 0, NEXTCONBK = 0, RES1 = 0, RES2 = 0\<rparr>),
     ints = (\<lambda>_. 0)\<rparr>"

definition demo_ring :: "PageInfo list" where
  "demo_ring = replicate 1024 \<lparr>pg_b = 0, pg_v = 0\<rparr>"

definition demo_firmware :: firmware where
  "demo_firmware = \<lparr>mem_alloc = (\<lambda>n. 7), mem_lock = (\<lambda>h. 0xC1000000), mapmem = (\<lambda>a n. uint a + 0x70000000)\<rparr>"

lemma demo_ring_length: "length demo_ring = 1024"
  by (simp only: demo_ring_def length_replicate)

theorem setupDMA_ring_witness:
  "\<exists>cp ip instrs' s'. setupDMA demo_firmware 0x5A003000 demo_ring demo_board = Inr (cp, ip, instrs', s')
     \<and> pool_cnt (pool s') = 9 \<and> NEXTCONBK (cbs s' (pg_v (instrs' ! 1023))) = word_of_int (pg_b (instrs' ! 0))"
proof -
  obtain cp ip instrs' s' where r: "setupDMA demo_firmware 0x5A003000 demo_ring demo_board = Inr (cp, ip, instrs', s')"
    "pool_cnt (pool s') = 9"
    "\<forall>k. let c = cbs s' (pg_v (instrs' ! (k mod 1024))) in NEXTCONBK c = word_of_int (pg_b (instrs' ! ((k + 1) mod 1024)))
         \<and> DEST_AD c = (if odd k then CM_GP0DIV_BUS else PWM_BUS_BASE + 0x18)
         \<and> pg_v (instrs' ! (k mod 1024)) - pg_v cp = pg_b (instrs' ! (k mod 1024)) - pg_b cp
         \<and> pg_v (instrs' ! (k mod 1024)) - pg_v cp = 4096 + 32 * int (k mod 1024)"
    using setupDMA_ring[OF demo_ring_length, of demo_firmware "0x5A003000" demo_board] by blast
  from r(3)[rule_format, of 1023] r(1,2) show ?thesis by (simp add: Let_def)
qed

end
