(* ===== verification/TxTone.thy ===== *)
theory TxTone
  imports TxDma
begin

text \<open>
  What the transmitter's tones are: the loop of \<^verbatim>\<open>txSym\<close> programs exactly the clocks of a symbol, the two
  dividers of \<^verbatim>\<open>setupDMATab\<close> bracket every tone, a centre whose eight tones lie between two integer dividers
  is used as requested, and a centre that has to be moved ends the process.
\<close>

subsection \<open>The clocks of a symbol\<close>

text \<open>The engine moves: a register is not read \<open>m\<close> times in a row with the same value.\<close>

definition moves :: "nat \<Rightarrow> u32 list \<Rightarrow> bool" where
  "moves m ps \<longleftrightarrow> (\<forall>i x. i + m \<le> length ps \<longrightarrow> take m (drop i ps) \<noteq> replicate m x)"

lemma moves_drop: "moves m ps \<Longrightarrow> i \<le> length ps \<Longrightarrow> moves m (drop i ps)"
  unfolding moves_def
proof (intro allI impI)
  fix k x assume a: "\<forall>i x. i + m \<le> length ps \<longrightarrow> take m (drop i ps) \<noteq> replicate m x" "i \<le> length ps" "k + m \<le> length (drop i ps)"
  then have "k + i + m \<le> length ps" by simp
  with a(1) show "take m (drop k (drop i ps)) \<noteq> replicate m x" by simp
qed

lemma wait_block_moves:
  assumes "moves m ps" "m \<le> length ps"
  shows "\<exists>qs. wait_block b ps = Some qs \<and> moves m qs \<and> length ps \<le> length qs + m"
proof -
  let ?k = "length (takeWhile ((=) b) ps)"
  have eq: "take k ps = replicate k b" if "k \<le> ?k" for k
  proof -
    have "\<forall>i < k. ps ! i = b" using that nth_length_takeWhile takeWhile_nth set_takeWhileD
      by (metis (mono_tags, lifting) nth_mem order_less_le_trans)
    then show ?thesis using that length_takeWhile_le[of "(=) b" ps] by (intro nth_equalityI) auto
  qed
  have k: "?k < m"
  proof (rule ccontr)
    assume "\<not> ?k < m"
    then have "take m (drop 0 ps) = replicate m b" using eq by simp
    with assms show False unfolding moves_def by (metis add_0)
  qed
  have w: "wait_block b ps = (case dropWhile ((=) b) ps of [] \<Rightarrow> None | _ # xs \<Rightarrow> Some xs)"
    by (induction ps) auto
  have d: "dropWhile ((=) b) ps = drop ?k ps" by (rule dropWhile_eq_drop)
  have "drop ?k ps \<noteq> []" using k assms(2) by simp
  then obtain x qs where q: "drop ?k ps = x # qs" by (cases "drop ?k ps") auto
  then have "qs = drop (?k + 1) ps" by (metis drop_Suc_Cons drop_drop drop0 One_nat_def plus_1_eq_Suc add.commute)
  moreover have "moves m (drop (?k + 1) ps)" using assms k by (intro moves_drop) simp_all
  ultimately show ?thesis using k unfolding w d q by auto
qed

lemma prog_block_moves:
  assumes "moves m (polls s)" "m \<le> length (polls s)" "k < length instrs"
  shows "\<exists>s'. prog_block instrs k f s = Some (Inr s') \<and> moves m (polls s')
    \<and> length (polls s) \<le> length (polls s') + m \<and> regs s' = regs s \<and> mapped s' = mapped s \<and> busy s' = busy s \<and> pool s' = pool s \<and> ints s' = ints s"
proof -
  obtain qs where "wait_block (word_of_int (pg_b (instrs ! k))) (polls s) = Some qs" "moves m qs" "length (polls s) \<le> length qs + m"
    using wait_block_moves[OF assms(1,2)] by blast
  then show ?thesis using assms(3) by (simp add: prog_block_def set_cb_def)
qed

text \<open>How many readings a symbol can take.\<close>

definition rounds :: "int \<Rightarrow> nat" where
  "rounds n = nat ((n + 499) div 500)"

lemma c_round_step:
  assumes "0 \<le> r" "r \<le> 1" "0 \<le> a" "0 \<le> n"
  shows "0 \<le> c_round (r * of_int (a + n)) - c_round (r * of_int a)" "c_round (r * of_int (a + n)) - c_round (r * of_int a) \<le> n"
proof -
  have "r * of_int a \<le> r * of_int (a + n)" using assms by (intro mult_left_mono) simp_all
  then show "0 \<le> c_round (r * of_int (a + n)) - c_round (r * of_int a)" using c_round_mono by (simp only: diff_ge_0_iff_ge)
  have "r * of_int n \<le> 1 * of_int n" using assms by (intro mult_right_mono) simp_all
  then have "r * of_int (a + n) \<le> r * of_int a + of_int n" by (simp add: distrib_left)
  then have "c_round (r * of_int (a + n)) \<le> c_round (r * of_int a + of_int n)" by (rule c_round_mono)
  also have "\<dots> = c_round (r * of_int a) + n" using assms by (intro c_round_add_int) simp_all
  finally show "c_round (r * of_int (a + n)) - c_round (r * of_int a) \<le> n" by simp
qed

lemma sym_loop_exact:
  assumes "0 \<le> ra" "ra \<le> 1" "length instrs = 1024" "0 < m"
    "0 \<le> sent" "sent \<le> n_sym" "sent0 = c_round (ra * of_int sent)" "bufPtr < 1024" "4 dvd bufPtr"
    "moves m (polls s)" "4 * m * rounds (n_sym - sent) \<le> length (polls s)"
  shows "\<exists>bp j' s' h. sym_loop rnd n_sym ra cp instrs f0 sent sent0 bufPtr j s hist = Some (Inr (bp, j', s', hist @ h))
    \<and> bp < 1024 \<and> 4 dvd bp \<and> (\<forall>(a, b) \<in> set h. 0 \<le> a \<and> 0 \<le> b \<and> a + b \<le> 1500)
    \<and> sum_list (map fst h) = c_round (ra * of_int n_sym) - sent0
    \<and> sum_list (map fst h) + sum_list (map snd h) = n_sym - sent
    \<and> moves m (polls s') \<and> length (polls s) \<le> length (polls s') + 4 * m * rounds (n_sym - sent)
    \<and> regs s' = regs s \<and> mapped s' = mapped s \<and> busy s' = busy s \<and> pool s' = pool s \<and> ints s' = ints s"
  using assms(5-)
proof (induction "nat (n_sym - sent)" arbitrary: sent sent0 bufPtr j s hist rule: less_induct)
  case less
  show ?case
  proof (cases "sent < n_sym")
    case False
    then have "sent = n_sym" using less.prems by simp
    then show ?thesis using less.prems by (subst sym_loop.simps) (simp add: rounds_def)
  next
    case True
    define n where "n = (if n_sym < sent + iter_clocks (rnd j) then n_sym - sent else iter_clocks (rnd j))"
    define n0 where "n0 = c_round (ra * of_int (sent + n)) - sent0"
    have n: "0 < n" "n \<le> 1500" "sent + n \<le> n_sym" "sent + n = n_sym \<or> 500 \<le> n"
      using iter_clocks_bounds[of "rnd j"] True by (auto simp: n_def)
    have n0: "0 \<le> n0" "n0 \<le> n" using c_round_step[OF assms(1,2) less.prems(1)] n(1) less.prems(3) by (simp_all add: n0_def)
    have r1: "rounds (n_sym - sent) \<ge> rounds (n_sym - (sent + n)) + 1"
      using n True unfolding rounds_def by (auto simp: nat_div_distrib)
    then have r: "4 * m * rounds (n_sym - (sent + n)) + 4 * m \<le> 4 * m * rounds (n_sym - sent)"
      by (metis add.commute mult.right_neutral distrib_left mult_le_mono2 add_mult_distrib2)
    have b: "bufPtr + 3 < length instrs" "(bufPtr + 4) mod 1024 < length instrs" "4 dvd (bufPtr + 4) mod 1024"
      using less.prems(4,5) assms(3) by (auto elim!: dvdE simp: dvd_mod_iff)
    let ?f1 = "\<lambda>c. c\<lparr>SOURCE_AD := word_of_int (pg_b cp + int f0 * 4)\<rparr>" and ?f2 = "\<lambda>c. c\<lparr>TXFR_LEN := word_of_int n0\<rparr>"
    let ?f3 = "\<lambda>c. c\<lparr>SOURCE_AD := word_of_int (pg_b cp + int (f0 + 1) * 4)\<rparr>" and ?f4 = "\<lambda>c. c\<lparr>TXFR_LEN := word_of_int (n - n0)\<rparr>"
    have p: "4 * m \<le> length (polls s)" using r less.prems(7) by linarith
    obtain s1 where s1: "prog_block instrs (bufPtr + 1) ?f1 s = Some (Inr s1)" "moves m (polls s1)"
      "length (polls s) \<le> length (polls s1) + m" "regs s1 = regs s" "mapped s1 = mapped s" "busy s1 = busy s" "pool s1 = pool s" "ints s1 = ints s"
      using prog_block_moves[OF less.prems(6), of "bufPtr + 1" instrs ?f1] p b by auto
    obtain s2 where s2: "prog_block instrs (bufPtr + 2) ?f2 s1 = Some (Inr s2)" "moves m (polls s2)"
      "length (polls s1) \<le> length (polls s2) + m" "regs s2 = regs s" "mapped s2 = mapped s" "busy s2 = busy s" "pool s2 = pool s" "ints s2 = ints s"
      using prog_block_moves[OF s1(2), of "bufPtr + 2" instrs ?f2] p b s1 by auto
    obtain s3 where s3: "prog_block instrs (bufPtr + 3) ?f3 s2 = Some (Inr s3)" "moves m (polls s3)"
      "length (polls s2) \<le> length (polls s3) + m" "regs s3 = regs s" "mapped s3 = mapped s" "busy s3 = busy s" "pool s3 = pool s" "ints s3 = ints s"
      using prog_block_moves[OF s2(2), of "bufPtr + 3" instrs ?f3] p b s1 s2 by auto
    obtain s4 where s4: "prog_block instrs ((bufPtr + 4) mod 1024) ?f4 s3 = Some (Inr s4)" "moves m (polls s4)"
      "length (polls s3) \<le> length (polls s4) + m" "regs s4 = regs s" "mapped s4 = mapped s" "busy s4 = busy s" "pool s4 = pool s" "ints s4 = ints s"
      using prog_block_moves[OF s3(2), of "(bufPtr + 4) mod 1024" instrs ?f4] p b s1 s2 s3 by auto
    have len: "length (polls s) \<le> length (polls s4) + 4 * m" using s1 s2 s3 s4 by linarith
    have e: "sym_loop rnd n_sym ra cp instrs f0 sent sent0 bufPtr j s hist
      = sym_loop rnd n_sym ra cp instrs f0 (sent + n) (sent0 + n0) ((bufPtr + 4) mod 1024) (j + 1) s4 (hist @ [(n0, n - n0)])"
      using True s1(1) s2(1) s3(1) s4(1) unfolding n0_def n_def by (subst sym_loop.simps) (simp add: Let_def)
    have "\<exists>bp j' s' h. sym_loop rnd n_sym ra cp instrs f0 (sent + n) (sent0 + n0) ((bufPtr + 4) mod 1024) (j + 1) s4 (hist @ [(n0, n - n0)])
        = Some (Inr (bp, j', s', (hist @ [(n0, n - n0)]) @ h))
      \<and> bp < 1024 \<and> 4 dvd bp \<and> (\<forall>(a, b) \<in> set h. 0 \<le> a \<and> 0 \<le> b \<and> a + b \<le> 1500)
      \<and> sum_list (map fst h) = c_round (ra * of_int n_sym) - (sent0 + n0)
      \<and> sum_list (map fst h) + sum_list (map snd h) = n_sym - (sent + n)
      \<and> moves m (polls s') \<and> length (polls s4) \<le> length (polls s') + 4 * m * rounds (n_sym - (sent + n))
      \<and> regs s' = regs s4 \<and> mapped s' = mapped s4 \<and> busy s' = busy s4 \<and> pool s' = pool s4 \<and> ints s' = ints s4"
    proof (rule less.hyps)
      show "nat (n_sym - (sent + n)) < nat (n_sym - sent)" using n by simp
      show "4 * m * rounds (n_sym - (sent + n)) \<le> length (polls s4)" using r len less.prems(7) by linarith
    qed (use n n0 less.prems(1) b assms(3) s4(2) in \<open>simp_all add: n0_def\<close>)
    then obtain bp j' s' h where h: "sym_loop rnd n_sym ra cp instrs f0 sent sent0 bufPtr j s hist = Some (Inr (bp, j', s', hist @ (n0, n - n0) # h))"
      "bp < 1024" "4 dvd bp" "\<forall>(a, b) \<in> set h. 0 \<le> a \<and> 0 \<le> b \<and> a + b \<le> 1500"
      "sum_list (map fst h) = c_round (ra * of_int n_sym) - (sent0 + n0)"
      "sum_list (map fst h) + sum_list (map snd h) = n_sym - (sent + n)"
      "moves m (polls s')" "length (polls s4) \<le> length (polls s') + 4 * m * rounds (n_sym - (sent + n))"
      "regs s' = regs s" "mapped s' = mapped s" "busy s' = busy s" "pool s' = pool s" "ints s' = ints s"
      unfolding e s4(4-8) by auto
    have "length (polls s) \<le> length (polls s') + 4 * m * rounds (n_sym - sent)" using r len h(8) by linarith
    moreover have "\<forall>(a, b) \<in> set ((n0, n - n0) # h). 0 \<le> a \<and> 0 \<le> b \<and> a + b \<le> 1500" using h(4) n0 n by auto
    moreover have "sum_list (map fst ((n0, n - n0) # h)) = c_round (ra * of_int n_sym) - sent0"
      "sum_list (map fst ((n0, n - n0) # h)) + sum_list (map snd ((n0, n - n0) # h)) = n_sym - sent" using h(5,6) by simp_all
    ultimately show ?thesis using h(1,2,3,7,9-13) by blast
  qed
qed

subsection \<open>The dividers bracket every tone\<close>

definition pair_ok :: "int list \<Rightarrow> nat \<Rightarrow> bool" where
  "pair_ok tw i \<longleftrightarrow> tw ! i AND NOT 0xfff = tw ! (i + 1) AND NOT 0xfff"

lemma prog_table_aborts:
  "\<exists>i \<in> set js. even i \<and> i < 16 \<and> \<not> pair_ok tw i \<Longrightarrow> prog_table plld tw cp js (table, s) = Inl AssertionFailed"
  by (induction js arbitrary: table s) (auto simp: pair_ok_def Let_def)

lemma prog_table_result:
  assumes "prog_table plld tw cp js (table, s) = Inr (table', s')"
  shows "length table' = length table" "i \<in> set js \<Longrightarrow> i < length table \<Longrightarrow> table' ! i = plld / (of_int (tw ! i) / 2 powi 12)"
    "i \<in> set js \<Longrightarrow> even i \<Longrightarrow> i < 16 \<Longrightarrow> pair_ok tw i" "polls s' = polls s" "regs s' = regs s" "cbs s' = cbs s"
    "pool s' = pool s" "mapped s' = mapped s" "busy s' = busy s"
proof -
  have *: "length table' = length table \<and> polls s' = polls s \<and> regs s' = regs s \<and> cbs s' = cbs s \<and> pool s' = pool s \<and> mapped s' = mapped s \<and> busy s' = busy s
    \<and> (\<forall>i. i < length table \<longrightarrow> table' ! i = (if i \<in> set js then plld / (of_int (tw ! i) / 2 powi 12) else table ! i))"
    using assms by (induction js arbitrary: table s) (auto simp: Let_def split: if_splits)
  then show "length table' = length table" "i \<in> set js \<Longrightarrow> i < length table \<Longrightarrow> table' ! i = plld / (of_int (tw ! i) / 2 powi 12)"
    "polls s' = polls s" "regs s' = regs s" "cbs s' = cbs s" "pool s' = pool s" "mapped s' = mapped s" "busy s' = busy s" by auto
  show "i \<in> set js \<Longrightarrow> even i \<Longrightarrow> i < 16 \<Longrightarrow> pair_ok tw i"
    using assms prog_table_aborts[of js tw plld cp table s] by auto
qed

lemma c_int_of_int [simp]: "c_int (of_int n) = n"
  by (simp add: c_int_def)

lemma tuning_word_eq:
  "i < 16 \<Longrightarrow> tuning_word plld t0 sp i = \<lfloor>plld / (t0 + real (i div 2) * sp) * 4096\<rfloor> + (if even i then 1 else 0)"
proof -
  assume i: "i < 16"
  define w where "w = \<lfloor>plld / (t0 + real (i div 2) * sp) * 4096\<rfloor>"
  have b: "bit_trunc (plld / (t0 + real (i div 2) * sp)) (- 12) = of_int w / 4096"
    by (simp add: bit_trunc_def w_def power_int_minus field_simps)
  have "(if even i then of_int w / 4096 + 2 powi (- 12) else of_int w / 4096) * 2 powi 12
     = (of_int (w + (if even i then 1 else 0)) :: real)"
    by (simp add: power_int_minus field_simps)
  then show ?thesis using i unfolding tuning_word_def Let_def b w_def[symmetric] by (simp only: if_True c_int_of_int)
qed

lemma setupDMATab_result:
  assumes "setupDMATab c sp plld cp s = Inr (ca, table, s')"
  shows "ca = center_actual c sp plld" "length table = 1024" "polls s' = polls s" "regs s' = regs s" "cbs s' = cbs s"
    "pool s' = pool s" "mapped s' = mapped s" "busy s' = busy s"
    "i < 16 \<Longrightarrow> table ! i = plld / (of_int (tuning_word plld (ca - 1.5 * sp) sp i) / 4096)"
proof -
  obtain tw where p: "prog_table plld tw cp [0..<1024] (replicate 1024 0, s) = Inr (table, s')"
    "ca = center_actual c sp plld" "tw = map (tuning_word plld (ca - 1.5 * sp) sp) [0..<1024]"
    using assms unfolding setupDMATab_def Let_def rbind_Inr_iff by force
  then show "ca = center_actual c sp plld" "length table = 1024" "polls s' = polls s" "regs s' = regs s" "cbs s' = cbs s"
    "pool s' = pool s" "mapped s' = mapped s" "busy s' = busy s" using prog_table_result[OF p(1)] by (auto simp del: upt.simps upt_rec_numeral)
  show "i < 16 \<Longrightarrow> table ! i = plld / (of_int (tuning_word plld (ca - 1.5 * sp) sp i) / 4096)"
    using prog_table_result(2)[OF p(1), of i] p(3) by (simp del: upt.simps upt_rec_numeral)
qed

lemma table_brackets:
  assumes "setupDMATab c sp plld cp s = Inr (ca, table, s')" "k < 8" "0 < plld"
    "0 < ca - 1.5 * sp + real k * sp" "ca - 1.5 * sp + real k * sp \<le> plld"
  shows "table ! (2 * k) < ca - 1.5 * sp + real k * sp" "ca - 1.5 * sp + real k * sp \<le> table ! (2 * k + 1)"
proof -
  define f where "f = ca - 1.5 * sp + real k * sp"
  define w where "w = \<lfloor>plld / f * 4096\<rfloor>"
  note f = assms(4,5)[folded f_def]
  have "1 * 4096 \<le> plld / f * 4096" using f by (intro mult_right_mono) (simp_all add: le_divide_eq)
  then have w: "4096 \<le> w" by (simp add: w_def le_floor_iff)
  have b: "of_int w \<le> plld / f * 4096" "plld / f * 4096 < of_int w + 1" using floor_correct[of "plld / f * 4096"] by (simp_all add: w_def)
  have t: "table ! (2 * k) = plld / (of_int (w + 1) / 4096)" "table ! (2 * k + 1) = plld / (of_int w / 4096)"
    using setupDMATab_result(9)[OF assms(1), of "2 * k"] setupDMATab_result(9)[OF assms(1), of "2 * k + 1"] assms(2)
    by (simp_all add: tuning_word_eq w_def f_def)
  show "table ! (2 * k) < ca - 1.5 * sp + real k * sp" unfolding f_def[symmetric] t
    using b(2) f w assms(3) by (simp add: field_simps)
  show "ca - 1.5 * sp + real k * sp \<le> table ! (2 * k + 1)" unfolding f_def[symmetric] t
    using b(1) f w assms(3) by (simp add: field_simps)
qed

text \<open>
  C35. A symbol is exact. With a table \<^verbatim>\<open>setupDMATab\<close> returned, and an engine that moves, \<^verbatim>\<open>txSym\<close> fails no
  assertion, stores to no instruction outside the ring and returns; the programmed lengths are
  non-negative, add up to the clocks of the symbol, and their mean frequency misses the tone by less
  than one clock of the difference of the two dividers' frequencies.
\<close>

theorem txSym_exact:
  assumes tab: "setupDMATab c sp plld cp s0 = Inr (ca, table, s1)" and tn: "tn < 8" "0 < plld"
    and tone: "0 < ca - 1.5 * sp + real tn * sp" "ca - 1.5 * sp + real tn * sp \<le> plld"
    and ring: "length instrs = 1024" "bufPtr < 1024" "4 dvd bufPtr"
    and n: "n = c_round (clk * tsym)" "0 \<le> n"
    and moving: "0 < m" "moves m (polls s)" "4 * m * rounds n \<le> length (polls s)"
  shows "\<exists>bp j' s' h. txSym tn ca sp tsym table clk instrs cp bufPtr rnd j s = Some (Inr (bp, j', s', h))
    \<and> bp < 1024 \<and> 4 dvd bp \<and> (\<forall>(a, b) \<in> set h. 0 \<le> a \<and> 0 \<le> b \<and> a + b \<le> 1500)
    \<and> sum_list (map fst h) + sum_list (map snd h) = n
    \<and> \<bar>of_int (sum_list (map fst h)) * table ! (2 * tn) + of_int (sum_list (map snd h)) * table ! (2 * tn + 1)
        - of_int n * (ca - 1.5 * sp + real tn * sp)\<bar> \<le> (table ! (2 * tn + 1) - table ! (2 * tn)) / 2
    \<and> moves m (polls s') \<and> length (polls s) \<le> length (polls s') + 4 * m * rounds n \<and> regs s' = regs s \<and> mapped s' = mapped s \<and> busy s' = busy s"
proof -
  define f where "f = ca - 1.5 * sp + real tn * sp"
  define f0 where "f0 = table ! (2 * tn)"
  define f1 where "f1 = table ! (2 * tn + 1)"
  define ra where "ra = 1 - (f - f0) / (f1 - f0)"
  have f: "f0 < f" "f \<le> f1" using table_brackets[OF tab tn tone] by (simp_all add: f_def f0_def f1_def)
  then have ra: "0 \<le> ra" "ra \<le> 1" by (simp_all add: ra_def field_simps)
  have e: "txSym tn ca sp tsym table clk instrs cp bufPtr rnd j s = sym_loop rnd n ra cp instrs (tn * 2) 0 0 bufPtr j s []"
    using f ra setupDMATab_result(2)[OF tab] tn by (simp add: txSym_def Let_def f_def f0_def f1_def ra_def n mult.commute)
  obtain bp j' s' h where h: "txSym tn ca sp tsym table clk instrs cp bufPtr rnd j s = Some (Inr (bp, j', s', h))"
    "bp < 1024" "4 dvd bp" "\<forall>(a, b) \<in> set h. 0 \<le> a \<and> 0 \<le> b \<and> a + b \<le> 1500"
    "sum_list (map fst h) = c_round (ra * of_int n)" "sum_list (map fst h) + sum_list (map snd h) = n"
    "moves m (polls s')" "length (polls s) \<le> length (polls s') + 4 * m * rounds n" "regs s' = regs s" "mapped s' = mapped s" "busy s' = busy s"
    using sym_loop_exact[OF ra ring(1) moving(1) order_refl n(2) _ ring(2,3) moving(2), of 0 rnd cp "tn * 2" j "[]"] moving(3)
      c_round_of_int[of 0] unfolding e by auto
  let ?k = "real_of_int (c_round (ra * of_int n))"
  have s1: "real_of_int (sum_list (map snd h)) = of_int n - ?k" using h(5,6) by (simp add: algebra_simps)
  define d where "d = (f - f0) / (f1 - f0)"
  have "d * (f1 - f0) = f - f0" using f by (simp add: d_def)
  then have fe: "f = ra * f0 + (1 - ra) * f1" by (simp add: ra_def d_def[symmetric] algebra_simps)
  have "?k * f0 + (of_int n - ?k) * f1 - of_int n * f = (?k - ra * of_int n) * (f0 - f1)" by (subst fe) (simp add: algebra_simps)
  then have "\<bar>?k * f0 + (of_int n - ?k) * f1 - of_int n * f\<bar> = \<bar>?k - ra * of_int n\<bar> * (f1 - f0)" using f by (simp add: abs_mult)
  also have "\<dots> \<le> 1 / 2 * (f1 - f0)" using f by (intro mult_right_mono c_round_close) simp
  finally have "\<bar>of_int (sum_list (map fst h)) * f0 + of_int (sum_list (map snd h)) * f1 - of_int n * f\<bar> \<le> (f1 - f0) / 2"
    unfolding s1 h(5) by simp
  with h show ?thesis unfolding f_def[symmetric] f0_def[symmetric] f1_def[symmetric] by blast
qed

lemma and_not_mask: "x AND NOT (mask n) = push_bit n (drop_bit n (x :: int))"
  by (auto intro!: bit_eqI simp: bit_simps)

lemma and_not_fff: "x AND NOT 0xfff = (x div 4096) * (4096 :: int)"
proof -
  have "0xfff = (mask 12 :: int)" by (simp add: mask_eq_exp_minus_1)
  then have "x AND NOT 0xfff = push_bit 12 (drop_bit 12 x)" by (simp only: and_not_mask)
  then show ?thesis by (simp add: push_bit_eq_mult drop_bit_eq_div)
qed


text \<open>
  A centre whose eight tones lie between two integer dividers is used as it is, and the table is
  programmed without a failing assertion.
\<close>

lemma prog_table_ok:
  "\<forall>i \<in> set js. even i \<longrightarrow> i < 16 \<longrightarrow> pair_ok tw i \<Longrightarrow> \<exists>table' s'. prog_table plld tw cp js (table, s) = Inr (table', s')"
  by (induction js arbitrary: table s) (auto simp: pair_ok_def Let_def)

definition tones_fit :: "real \<Rightarrow> real \<Rightarrow> real \<Rightarrow> int \<Rightarrow> bool" where
  "tones_fit c sp plld N \<longleftrightarrow> 0 < sp \<and> 0 < plld \<and> 0 < N \<and> 0 < c - 1.5 * sp \<and> (c + 5.5 * sp) * of_int N \<le> plld
     \<and> plld < (of_int (N + 1) - 1 / 4096) * (c - 1.5 * sp)"

lemma fit_divider:
  assumes "tones_fit c sp plld N" "c - 1.5 * sp \<le> f" "f \<le> c + 5.5 * sp"
  shows "4096 * N \<le> \<lfloor>plld / f * 4096\<rfloor>" "\<lfloor>plld / f * 4096\<rfloor> + 1 < 4096 * (N + 1)"
proof -
  note t = assms(1)[unfolded tones_fit_def]
  have f: "0 < f" using t assms(2) by linarith
  have N: "0 < real_of_int N" using t by simp
  have "f * of_int N \<le> (c + 5.5 * sp) * of_int N" using assms(3) N by (intro mult_right_mono) simp_all
  also have "\<dots> \<le> plld" using t by simp
  finally have "of_int N \<le> plld / f" using f by (simp add: le_divide_eq mult.commute)
  then have "of_int (4096 * N) \<le> plld / f * 4096" by (simp only: of_int_mult of_int_numeral mult.commute[of 4096] mult_le_cancel_right_pos zero_less_numeral)
  then show "4096 * N \<le> \<lfloor>plld / f * 4096\<rfloor>" by (simp only: le_floor_iff)
  have "(of_int (N + 1) - 1 / 4096) * (c - 1.5 * sp) \<le> (of_int (N + 1) - 1 / 4096) * f"
    using assms(2) N by (intro mult_left_mono) simp_all
  moreover have "plld < (of_int (N + 1) - 1 / 4096) * (c - 1.5 * sp)" using t by simp
  ultimately have "plld < (of_int (N + 1) - 1 / 4096) * f" by (rule order_less_le_trans[rotated])
  then have "plld / f < of_int (N + 1) - 1 / 4096" using f by (simp only: pos_divide_less_eq)
  then have "plld / f * 4096 < (of_int (N + 1) - 1 / 4096) * 4096" by (simp only: mult_less_cancel_right_pos zero_less_numeral)
  also have "\<dots> = of_int (4096 * (N + 1) - 1)" by (simp add: algebra_simps)
  finally have "plld / f * 4096 < of_int (4096 * (N + 1) - 1)" .
  then show "\<lfloor>plld / f * 4096\<rfloor> + 1 < 4096 * (N + 1)" by (simp only: floor_less_iff less_diff_eq[symmetric])
qed

lemma bit_trunc_12: "bit_trunc d (- 12) = of_int \<lfloor>d * 4096\<rfloor> / 4096"
  by (simp add: bit_trunc_def power_int_minus field_simps)

lemma setupDMATab_fits:
  assumes "tones_fit c sp plld N"
  shows "\<exists>table s'. setupDMATab c sp plld cp s = Inr (c, table, s')"
proof -
  note t = assms[unfolded tones_fit_def]
  let ?w = "\<lambda>f. \<lfloor>plld / f * 4096\<rfloor>"
  have fl: "\<lfloor>of_int w / 4096 :: real\<rfloor> = N" if "4096 * N \<le> w" "w < 4096 * (N + 1)" for w
    using that by (intro floor_unique) simp_all
  have "\<lfloor>bit_trunc (plld / (c - 1.5 * sp)) (- 12) + 2 powi (- 12)\<rfloor> = \<lfloor>of_int (?w (c - 1.5 * sp) + 1) / 4096 :: real\<rfloor>"
    unfolding bit_trunc_12 by (simp add: power_int_minus field_simps)
  also have "\<dots> = N" using fit_divider[OF assms, of "c - 1.5 * sp"] t by (intro fl) simp_all
  also have "N = \<lfloor>bit_trunc (plld / (c + 1.5 * sp)) (- 12)\<rfloor>"
    unfolding bit_trunc_12 using fit_divider[OF assms, of "c + 1.5 * sp"] t by (intro fl[symmetric]) simp_all
  finally have ca: "center_actual c sp plld = c" by (simp add: center_actual_def Let_def)
  let ?tw = "map (tuning_word plld (c - 1.5 * sp) sp) [0..<1024]"
  have ok: "pair_ok ?tw i" if i: "even i" "i < 16" for i
  proof -
    let ?f = "c - 1.5 * sp + real (i div 2) * sp"
    have "i \<noteq> 15" using i(1) by auto
    then have k: "(i + 1) div 2 = i div 2" "i div 2 \<le> 7" "i + 1 < 16" using i by auto
    have "real (i div 2) \<le> 7" using k(2) by linarith
    then have "real (i div 2) * sp \<le> 7 * sp" "0 \<le> real (i div 2) * sp" using t by (simp_all add: mult_right_mono)
    then have "c - 1.5 * sp \<le> ?f" "?f \<le> c + 5.5 * sp" by linarith+
    then have "4096 * N \<le> ?w ?f" "?w ?f + 1 < 4096 * (N + 1)" using fit_divider[OF assms, of ?f] by blast+
    then have "(?w ?f + 1) div 4096 = N" "?w ?f div 4096 = N" by simp_all
    moreover have "?tw ! i = ?w ?f + 1" "?tw ! (i + 1) = ?w ?f"
      using i k tuning_word_eq[of i plld "c - 1.5 * sp" sp] tuning_word_eq[of "i + 1" plld "c - 1.5 * sp" sp]
      by (simp_all del: upt.simps upt_rec_numeral)
    ultimately show ?thesis unfolding pair_ok_def and_not_fff by simp
  qed
  obtain table s' where "prog_table plld ?tw cp [0..<1024] (replicate 1024 0, s) = Inr (table, s')"
    using prog_table_ok[of "[0..<1024]" ?tw] ok by blast
  then show ?thesis by (simp add: setupDMATab_def Let_def ca del: upt.simps upt_rec_numeral)
qed

lemma moves_2: "(\<And>i. i + 1 < length ps \<Longrightarrow> ps ! i \<noteq> ps ! (i + 1)) \<Longrightarrow> moves 2 ps"
  unfolding moves_def
proof (intro allI impI notI)
  fix i x assume a: "\<And>i. i + 1 < length ps \<Longrightarrow> ps ! i \<noteq> ps ! (i + 1)" "i + 2 \<le> length ps" "take 2 (drop i ps) = replicate 2 x"
  have "take 2 (drop i ps) ! 0 = x" "take 2 (drop i ps) ! 1 = x" unfolding a(3) by simp_all
  then show False using a(1)[of i] a(2) by simp
qed

lemma demo_moves: "moves 2 (polls demo_board)"
proof (rule moves_2)
  fix i assume "i + 1 < length (polls demo_board)"
  then have i: "i + 1 < 16" by (simp add: demo_board_def del: upt.simps upt_rec_numeral)
  have "i mod 2 = 0 \<and> Suc i mod 2 = 1 \<or> i mod 2 = 1 \<and> Suc i mod 2 = 0" by presburger
  then show "polls demo_board ! i \<noteq> polls demo_board ! (i + 1)"
    using i by (auto simp: demo_board_def simp del: upt.simps upt_rec_numeral)
qed

theorem txSym_exact_witness:
  "\<exists>table bp j' s' h. txSym 7 14075500 (25/4) 1 table 1000 demo_ring \<lparr>pg_b = 0, pg_v = 0\<rparr> 1020 (\<lambda>_. 5) 0 demo_board
     = Some (Inr (bp, j', s', h)) \<and> bp < 1024 \<and> sum_list (map fst h) + sum_list (map snd h) = 1000"
proof -
  have "tones_fit 14075500 (25/4) 750000000 53" by (simp add: tones_fit_def)
  then obtain table s1 where t: "setupDMATab 14075500 (25/4) 750000000 \<lparr>pg_b = 0, pg_v = 0\<rparr> demo_board = Inr (14075500, table, s1)"
    using setupDMATab_fits by blast
  have n: "1000 = c_round (1000 * 1)" using c_round_of_int[of 1000] by simp
  have r: "4 * 2 * rounds 1000 \<le> length (polls demo_board)"
    by (simp add: rounds_def demo_board_def del: upt.simps upt_rec_numeral)
  note l = demo_ring_length
  have d: "(1020::nat) < 1024" "(4::nat) dvd 1020" by simp_all
  have "\<exists>bp j' s' h. txSym 7 14075500 (25/4) 1 table 1000 demo_ring \<lparr>pg_b = 0, pg_v = 0\<rparr> 1020 (\<lambda>_. 5) 0 demo_board = Some (Inr (bp, j', s', h))
    \<and> bp < 1024 \<and> 4 dvd bp \<and> (\<forall>(a, b) \<in> set h. 0 \<le> a \<and> 0 \<le> b \<and> a + b \<le> 1500)
    \<and> sum_list (map fst h) + sum_list (map snd h) = 1000
    \<and> \<bar>of_int (sum_list (map fst h)) * table ! (2 * 7) + of_int (sum_list (map snd h)) * table ! (2 * 7 + 1)
        - of_int 1000 * (14075500 - 1.5 * (25/4) + real 7 * (25/4))\<bar> \<le> (table ! (2 * 7 + 1) - table ! (2 * 7)) / 2
    \<and> moves 2 (polls s') \<and> length (polls demo_board) \<le> length (polls s') + 4 * 2 * rounds 1000 \<and> regs s' = regs demo_board \<and> mapped s' = mapped demo_board \<and> busy s' = busy demo_board"
    by (rule txSym_exact[OF t _ _ _ _ l d n _ _ demo_moves r]) simp_all
  then show ?thesis by blast
qed


end
