(* ===== verification/TxMain.thy ===== *)
theory TxMain
  imports TxCommand TxTone
begin

text \<open>
  \<^verbatim>\<open>mainFT8\<close> of \<^verbatim>\<open>ft8.cpp\<close>: from the words of a request to the symbols on the air. The readings of the
  system clock (microseconds) are a list that the model consumes; the state keeps a trace of what the
  program does to the outside: messages sent on a socket, the carrier, and each symbol with the duration
  it was given and the clocks programmed for it.
\<close>

subsection \<open>State and environment\<close>

datatype tx_event =
    SentTo int FT8Msg
  | Carrier bool
  | Symbol nat real "(int \<times> int) list"
  | Unmapped int nat
  | MemFreed u32

record txs =
  board :: rpi
  clock :: "int list"
  rand_j :: nat
  ntp_j :: nat
  new_socket :: int
  trace :: "tx_event list"

record txenv =
  strtod :: "string \<Rightarrow> real \<times> nat"
  fw :: firmware
  pwm_div :: u32
  F_PLLD_CLK :: real
  rnd :: "nat \<Rightarrow> 31 word"
  ntx_freq :: "nat \<Rightarrow> int" \<comment> \<open>\<^verbatim>\<open>ntp_adjtime\<close>\<close>
  txcal :: "real option" \<comment> \<open>\<^verbatim>\<open>txcal_read\<close>\<close>
  ft8_symbols :: "string \<Rightarrow> int + nat list" \<comment> \<open>\<^verbatim>\<open>ftx_message_encode\<close> and \<^verbatim>\<open>ft8_encode\<close>\<close>
  junk_instrs :: "PageInfo list"

definition FT8_SYMTIME :: real where "FT8_SYMTIME = 1920 / 12000"
definition F_PWM_CLK_INIT :: real where "F_PWM_CLK_INIT = 31156186.6125761 / 0.682 * 0.16"
definition FT8_RAND_OFFSET :: real where "FT8_RAND_OFFSET = 1000"
definition NSYM :: nat where "NSYM = 79"

definition emit :: "tx_event \<Rightarrow> txs \<Rightarrow> txs" where
  "emit e s = s\<lparr>trace := trace s @ [e]\<rparr>"

definition tx_letter :: "bool \<Rightarrow> string \<Rightarrow> FT8Msg" where
  "tx_letter st t = \<lparr>msg_type = CHANGE_RTX_STATE, ft8Message = t, RTXstate = st\<rparr>"

definition read_clock :: "txs \<Rightarrow> (int \<times> txs) run" where
  "read_clock s = (case clock s of [] \<Rightarrow> None | t # ts \<Rightarrow> Some (Inr (t, s\<lparr>clock := ts\<rparr>)))"

text \<open>A hardware operation that may poll.\<close>

definition on_board :: "(rpi \<Rightarrow> rpi option) \<Rightarrow> txs \<Rightarrow> txs run" where
  "on_board f s = map_option (\<lambda>b. Inr (s\<lparr>board := b\<rparr>)) (f (board s))"

subsection \<open>Time\<close>

fun wait_boundary :: "int list \<Rightarrow> int list option" where
  "wait_boundary [] = None"
| "wait_boundary (t # ts) =
     (if t div 1000000 mod 60 \<in> {0, 15, 30, 45} then Some ts else wait_boundary ts)"

definition wait_every_15_sec :: "txs \<Rightarrow> txs run" where
  "wait_every_15_sec s = map_option (\<lambda>ts. Inr (s\<lparr>clock := ts\<rparr>)) (wait_boundary (clock s))"

definition timeval_subtract :: "int \<Rightarrow> int \<Rightarrow> int \<times> int \<times> bool" where
  "timeval_subtract t2 t1 = (let diff = t2 - t1 in (c_div diff 1000000, c_mod diff 1000000, diff < 0))"

definition elapsed_sec :: "int \<Rightarrow> int \<Rightarrow> real" where
  "elapsed_sec t2 t1 = (case timeval_subtract t2 t1 of (s, us, _) \<Rightarrow> of_int s + of_int us / 1000000)"

subsection \<open>Frequency\<close>

definition update_ppm :: "txenv \<Rightarrow> real \<times> txs \<Rightarrow> real \<times> txs" where
  "update_ppm env = (\<lambda>(pc, s).
     (let ppm_new = of_int (ntx_freq env (ntp_j s)) / 2 ^ 16
      in (if 200 < \<bar>ppm_new\<bar> then pc else ppm_new, s\<lparr>ntp_j := ntp_j s + 1\<rparr>)))"

definition start_ppm :: "txenv \<Rightarrow> tx_opts \<Rightarrow> real" where
  "start_ppm env po =
     (if \<not> self_cal po \<and> ppm po = 0 then (case txcal env of Some p \<Rightarrow> p | None \<Rightarrow> ppm po) else ppm po)"

definition rand_real :: "31 word \<Rightarrow> real" where
  "rand_real r = of_int (uint r) / 2 ^ 31"

text \<open>The frequency of one transmission; the state keeps how many random numbers were drawn.\<close>

definition choose_center :: "txenv \<Rightarrow> bool \<Rightarrow> real \<times> txs \<Rightarrow> real \<times> txs" where
  "choose_center env offs = (\<lambda>(c, s).
     (let (c, s) = (if isBandBase (c_round c) then
                      (c + of_int (TX_AUDIO_MIN + rand_below (uint (rnd env (rand_j s))) (TX_AUDIO_MAX - TX_AUDIO_MIN)),
                       s\<lparr>rand_j := rand_j s + 1\<rparr>)
                    else (c, s))
      in if c \<noteq> 0 \<and> offs then
           (c + (2 * rand_real (rnd env (rand_j s)) - 1) * FT8_RAND_OFFSET, s\<lparr>rand_j := rand_j s + 1\<rparr>)
         else (c, s)))"

definition report_freq :: "real \<Rightarrow> txs \<Rightarrow> txs" where
  "report_freq c s =
     (if 0 < new_socket s then
        emit (SentTo (new_socket s) (tx_letter True (snprintf_s MAXMSGSIZE (''FREQ '' @ int_dec (c_round c))))) s
      else s)"

subsection \<open>One transmission\<close>

text \<open>
  The symbols that are left, \<open>i\<close> of them being sent. The duration handed to \<^verbatim>\<open>txSym\<close> is what is left
  until the symbol's scheduled end; the variable \<^verbatim>\<open>this_sym\<close>, which bounds it, is not used.
\<close>

fun send_symbols :: "txenv \<Rightarrow> real \<Rightarrow> real \<Rightarrow> real \<Rightarrow> real list \<Rightarrow> PageInfo list \<Rightarrow> PageInfo \<Rightarrow> int \<Rightarrow> nat list \<Rightarrow> nat
    \<Rightarrow> nat \<Rightarrow> txs \<Rightarrow> txs run" where
  "send_symbols env symtime c sp table instrs cp t0 [] i bufPtr s = Some (Inr s)"
| "send_symbols env symtime c sp table instrs cp t0 (x # xs) i bufPtr s =
     ebind (read_clock s) (\<lambda>(t, s).
     let sched_end = real (i + 1) * symtime; tsym = sched_end - elapsed_sec t t0 in
     ebind (txSym x c sp tsym table F_PWM_CLK_INIT instrs cp bufPtr (rnd env) (rand_j s) (board s)) (\<lambda>(bufPtr, j, b, h).
     send_symbols env symtime c sp table instrs cp t0 xs (i + 1) bufPtr
       (emit (Symbol x tsym h) (s\<lparr>rand_j := j, board := b\<rparr>))))"

definition lift_board :: "rpi result \<Rightarrow> txs \<Rightarrow> txs run" where
  "lift_board r s = Some (map_sum id (\<lambda>b. s\<lparr>board := b\<rparr>) r)"

text \<open>What \<^verbatim>\<open>if (center_freq_desired) setupDMATab(..)\<close> leaves.\<close>

definition tune :: "txenv \<Rightarrow> real \<Rightarrow> real \<Rightarrow> real \<Rightarrow> PageInfo \<Rightarrow> txs \<Rightarrow> (real \<times> real list \<times> txs) run" where
  "tune env pc c sp cp s =
     (if c \<noteq> 0 then
        Some (map_sum id (\<lambda>(ca, table, b). (ca, table, s\<lparr>board := b\<rparr>))
                (setupDMATab c sp (F_PLLD_CLK env * (1 - pc / 1000000)) cp (board s)))
      else Some (Inr (c, [], s)))"

text \<open>The carrier phase: \<open>announce\<close> is what is sent before, the clock is read before and after.\<close>

definition transmit :: "txenv \<Rightarrow> real \<Rightarrow> real \<Rightarrow> real \<Rightarrow> real list \<Rightarrow> PageInfo list \<Rightarrow> PageInfo \<Rightarrow> nat list
    \<Rightarrow> (txs \<Rightarrow> txs) \<Rightarrow> txs \<Rightarrow> txs run" where
  "transmit env symtime c sp table instrs cp symbols announce s =
     ebind (read_clock s) (\<lambda>(t0, s).
     ebind (on_board (txon True) (announce s)) (\<lambda>s.
     ebind (send_symbols env symtime c sp table instrs cp t0 symbols 0 0 (emit (Carrier True) s)) (\<lambda>s.
     ebind (on_board txoff s) (\<lambda>s.
     ebind (read_clock s) (\<lambda>(_, s). Some (Inr (emit (Carrier False) s)))))))"

definition begin_tx :: "txs \<Rightarrow> txs" where
  "begin_tx s = emit (SentTo (new_socket s) (tx_letter True (''Transmitting...'' @ newline))) s"

definition end_tx :: "txs \<Rightarrow> txs" where
  "end_tx s = emit (SentTo (new_socket s) (tx_letter False (''End of transmission...'' @ newline))) s"

text \<open>The body of the loop over the bands: the new crystal correction, the count and the state.\<close>

definition ft8_band :: "txenv \<Rightarrow> tx_opts \<Rightarrow> PageInfo list \<Rightarrow> PageInfo \<Rightarrow> nat list \<Rightarrow> nat \<Rightarrow> real \<Rightarrow> nat \<Rightarrow> txs
    \<Rightarrow> (real \<times> nat \<times> txs) run" where
  "ft8_band env po instrs cp symbols band pc n_tx s =
     (if length (center_freq_set po) \<le> band then Some (Inl (OutOfBounds (length (center_freq_set po)) band))
      else
        (let sp = 1 / FT8_SYMTIME;
             (c, s) = choose_center env (random_offset po) (center_freq_set po ! band, s);
             s = report_freq c s
         in ebind (if no_delay po then Some (Inr s) else wait_every_15_sec s) (\<lambda>s.
            let (pc, s) = (if self_cal po then update_ppm env (pc, s) else (pc, s)) in
            ebind (tune env pc c sp cp s) (\<lambda>(ca, table, s).
            if ca \<noteq> 0 then
              ebind (transmit env FT8_SYMTIME ca sp table instrs cp symbols begin_tx s) (\<lambda>s.
                Some (Inr (pc, n_tx + 1, end_tx s)))
            else Some (Inr (pc, n_tx, s))))))"

text \<open>With \<^verbatim>\<open>--repeat\<close> and no \<^verbatim>\<open>--terminate\<close> the loop does not end.\<close>

partial_function (option) ft8_loop :: "txenv \<Rightarrow> tx_opts \<Rightarrow> PageInfo list \<Rightarrow> PageInfo \<Rightarrow> nat list \<Rightarrow> nat \<Rightarrow> real \<Rightarrow> nat \<Rightarrow> txs
    \<Rightarrow> txs run" where
  "ft8_loop env po instrs cp symbols band pc n_tx s =
     (case ft8_band env po instrs cp symbols band pc n_tx s of
        None \<Rightarrow> None
      | Some (Inl e) \<Rightarrow> Some (Inl e)
      | Some (Inr (pc, n_tx, s)) \<Rightarrow>
          (let band = (band + 1) mod length (center_freq_set po) in
           if band = 0 \<and> \<not> o_repeat po then Some (Inr s)
           else if 0 < o_terminate po \<and> o_terminate po \<le> int n_tx then Some (Inr s)
           else ft8_loop env po instrs cp symbols band pc n_tx s))"

text \<open>The test tone runs until the process is killed.\<close>

partial_function (option) tone_loop :: "txenv \<Rightarrow> tx_opts \<Rightarrow> real \<Rightarrow> PageInfo list \<Rightarrow> PageInfo \<Rightarrow> real \<Rightarrow> real
    \<Rightarrow> real \<times> real list \<Rightarrow> nat \<Rightarrow> txs \<Rightarrow> txs run" where
  "tone_loop env po sp instrs cp pc ppm_prev tab bufPtr s =
     (let (pc, s) = (if self_cal po then update_ppm env (pc, s) else (pc, s)) in
      case (if pc \<noteq> ppm_prev
            then setupDMATab (test_tone po + 1.5 * sp) sp (F_PLLD_CLK env * (1 - pc / 1000000)) cp (board s)
            else Inr (fst tab, snd tab, board s)) of
        Inl e \<Rightarrow> Some (Inl e)
      | Inr (ca, table, b) \<Rightarrow>
          (case txSym 0 ca sp 60 table F_PWM_CLK_INIT instrs cp bufPtr (rnd env) (rand_j s) b of
             None \<Rightarrow> None
           | Some (Inl e) \<Rightarrow> Some (Inl e)
           | Some (Inr (bufPtr, j, b, h)) \<Rightarrow>
               tone_loop env po sp instrs cp pc pc (ca, table) bufPtr
                 (emit (Symbol 0 60 h) (s\<lparr>rand_j := j, board := b\<rparr>))))"

subsection \<open>mainFT8\<close>

text \<open>The set-up of the hardware, shared with \<^verbatim>\<open>mainWSPR\<close>; \<^verbatim>\<open>/dev/mem\<close> is mapped afterwards.\<close>

definition setup_hw :: "txenv \<Rightarrow> txs \<Rightarrow> (PageInfo \<times> PageInfo list \<times> txs) run" where
  "setup_hw env s =
     ebind (on_board (txon False) (s\<lparr>board := (board s)\<lparr>mapped := True\<rparr>\<rparr>)) (\<lambda>s.
     case setupDMA (fw env) (pwm_div env) (junk_instrs env) (board s) of
       Inl e \<Rightarrow> Some (Inl e)
     | Inr (cp, ip, instrs, b) \<Rightarrow>
         ebind (on_board txoff (s\<lparr>board := b\<rparr>)) (\<lambda>s. Some (Inr (cp, instrs, s))))"

definition mainFT8 :: "txenv \<Rightarrow> string list \<Rightarrow> txs \<Rightarrow> (int \<times> txs) run" where
  "mainFT8 env argv s =
     (case parse_commandline (strtod env) argv of
        None \<Rightarrow> Some (Inl Exited)
      | Some po \<Rightarrow>
          (let p = start_ppm env po in
           ebind (setup_hw env s) (\<lambda>(cp, instrs, s).
           if o_mode po = TONE then
             ebind (on_board (txon True) s) (\<lambda>s.
             ebind (tone_loop env po (1 / FT8_SYMTIME) instrs cp p 123456 (0, []) 0 (emit (Carrier True) s)) (\<lambda>s.
             Some (Inr (0, s))))
           else
             (case ft8_symbols env (o_message po) of
                Inl rc \<Rightarrow> Some (Inr (- 2, s))
              | Inr symbols \<Rightarrow>
                  ebind (ft8_loop env po instrs cp symbols 0 p 0 s) (\<lambda>s. Some (Inr (0, s)))))))"

end
