(* ===== verification/Wspr.thy ===== *)
theory Wspr
  imports Prelude
begin

text \<open>
  The WSPR encoder of \<^verbatim>\<open>ft8.cpp\<close>: call sign, locator and power packed into 50 bits, the convolutional code
  of rate 1/2 and constraint length 32, the bit-reversed interleaving and the synchronisation vector.
  \<^verbatim>\<open>ft8gen\<close> is the same code with 79 symbols. \<^verbatim>\<open>unsigned long\<close> has 32 bits, as on the board; the bits that
  reach the code word are the same for 64. What follows an array in memory is not modelled: the locator's
  upper-case loop, which runs over its unterminated copy of four characters, is cut off there.
\<close>

subsection \<open>Packing\<close>

text \<open>
  A byte of the buffer: the string, then NULs. The code ends the call sign at a stroke by storing a NUL
  there; what was behind it stays in the buffer.
\<close>

definition chr_at :: "string \<Rightarrow> nat \<Rightarrow> int" where
  "chr_at s i = (if i < length s then int (code (s ! i)) else 0)"

definition alnum_val :: "int \<Rightarrow> int" where
  "alnum_val x = (if 48 \<le> x \<and> x \<le> 57 then x - 48 else x - 65 + 10)"

text \<open>Character \<open>i - k\<close>, or 36 when there is none.\<close>

definition right_val :: "string \<Rightarrow> nat \<Rightarrow> nat \<Rightarrow> int" where
  "right_val c i k = (if i < k then 36 else alnum_val (chr_at c (i - k)))"

text \<open>A prefix or suffix: \<open>ng\<close>, \<open>nadd\<close> and the call sign that is left.\<close>

definition pack_affix :: "string \<Rightarrow> (u32 option \<times> int \<times> string) result" where
  "pack_affix c =
     (if CHR ''/'' \<notin> set c then Inr (None, 0, c)
      else
        (let i = length (takeWhile (\<lambda>x. x \<noteq> CHR ''/'') c);
             n = length c - i - 1;
             x1 = chr_at c (i + 1); x2 = chr_at c (i + 2)
         in if n = 0 then Inl Uninitialised
            else if n = 1 then
              Inr (Some (word_of_int (60000 - 32768
                + (if 48 \<le> x1 \<and> x1 \<le> 57 then x1 - 48 else if x1 = 32 then 38 else x1 - 65 + 10))), 2, c[i := CHR 0x00])
            else if n = 2 then
              Inr (Some (word_of_int (60000 + 26 + 10 * (x1 - 48) + (x2 - 48))), 2, c[i := CHR 0x00])
            else
              (let ng = (word_of_int (right_val c i 3) :: u32);
                   ng = 37 * ng + word_of_int (right_val c i 2);
                   ng = 37 * ng + word_of_int (right_val c i 1)
               in if ng < 32768 then Inr (Some ng, 1, drop (i + 1) c)
                  else Inr (Some (ng - 32768), 2, drop (i + 1) c))))"

definition strlen :: "string \<Rightarrow> nat" where
  "strlen c = length (takeWhile (\<lambda>x. x \<noteq> CHR 0x00) c)"

definition pack_call :: "string \<Rightarrow> u32" where
  "pack_call c =
     (let isd = (\<lambda>i. 48 \<le> chr_at c i \<and> chr_at c i \<le> 57);
          i = (if isd 2 then 2 else if isd 1 then 1 else (0::nat));
          n = int (strlen c) - int i - 1;
          n1 = (word_of_int (right_val c i 2) :: u32);
          n1 = 36 * n1 + word_of_int (right_val c i 1);
          n1 = 10 * n1 + word_of_int (chr_at c i) - 48;
          n1 = 27 * n1 + word_of_int (if n < 1 then 26 else chr_at c (i + 1) - 65);
          n1 = 27 * n1 + word_of_int (if n < 2 then 26 else chr_at c (i + 2) - 65)
      in 27 * n1 + word_of_int (if n < 3 then 26 else chr_at c (i + 3) - 65))"

definition pack_grid :: "string \<Rightarrow> u32" where
  "pack_grid l =
     (let l = map toupper_c (take 4 l) in
      word_of_int (180 * (179 - 10 * (chr_at l 0 - 65) - (chr_at l 2 - 48)) + 10 * (chr_at l 1 - 65) + (chr_at l 3 - 48)))"

definition corr :: "int list" where
  "corr = [0, - 1, 1, 0, - 1, 2, 1, 0, - 1, 1]"

definition pack_power :: "string \<Rightarrow> int" where
  "pack_power dbm =
     (let p = atoi dbm in if 60 < p then 60 else if p < 0 then 0 else p + corr ! nat (p mod 10))"

text \<open>The eleven bytes; the call sign is copied into 16 bytes.\<close>

definition pack_bytes :: "u32 \<Rightarrow> u32 \<Rightarrow> u8 list" where
  "pack_bytes n1 n2 =
     [ucast (drop_bit 20 n1), ucast (drop_bit 12 n1), ucast (drop_bit 4 n1),
      ucast (push_bit 4 (n1 AND 0x0F) OR (drop_bit 18 n2 AND 0x0F)), ucast (drop_bit 10 n2), ucast (drop_bit 2 n2),
      ucast (push_bit 6 (n2 AND 0x03)), 0, 0, 0, 0]"

definition wspr_pack :: "string \<Rightarrow> string \<Rightarrow> string \<Rightarrow> (u32 \<times> u32) result" where
  "wspr_pack call l_pre dbm =
     (if 16 \<le> length call then Inl (OutOfBounds 16 16)
      else rbind (pack_affix (map toupper_c call)) (\<lambda>(ng, nadd, c).
        let ng = (case ng of Some g \<Rightarrow> g | None \<Rightarrow> pack_grid l_pre)
        in Inr (pack_call c, push_bit 7 ng OR word_of_int (pack_power dbm + 64 + nadd))))"

subsection \<open>The code\<close>

text \<open>The parity loop clears the lowest set bit in each turn.\<close>

function parity_loop :: "u32 \<Rightarrow> nat \<Rightarrow> nat" where
  "parity_loop n ev = (if n = 0 then ev else parity_loop (n AND (n - 1)) (1 - ev))"
  by pat_completeness auto
termination
proof (relation "measure (\<lambda>(n, e). unat n)")
  fix n :: u32 and e :: nat
  assume n: "n \<noteq> 0"
  have "n AND (n - 1) \<le> n - 1" by (simp add: and.commute word_and_le1)
  moreover have "n - 1 < n" using n by (simp add: word_less_nat_alt unat_minus_one unat_gt_0)
  ultimately have "n AND (n - 1) < n" by (rule order_le_less_trans)
  then show "((n AND (n - 1), 1 - e), (n, e)) \<in> measure (\<lambda>(n, e). unat n)" by (simp add: word_less_nat_alt)
qed simp

declare parity_loop.simps [simp del]

definition poly0 :: u32 where "poly0 = 0xf2d05351"
definition poly1 :: u32 where "poly1 = 0xe4613c47"

text \<open>The bits of a byte, the most significant first, shifted into \<open>nstate\<close>.\<close>

fun convolve_bits :: "bool list \<Rightarrow> u32 \<Rightarrow> nat list" where
  "convolve_bits [] nstate = []"
| "convolve_bits (b # bs) nstate =
     (let nstate = push_bit 1 nstate OR of_bool b
      in parity_loop (nstate AND poly0) 0 # parity_loop (nstate AND poly1) 0 # convolve_bits bs nstate)"

definition byte_bits :: "u8 \<Rightarrow> bool list" where
  "byte_bits x = map (\<lambda>i. bit x (7 - i)) [0..<8]"

definition convolve :: "u8 list \<Rightarrow> nat list" where
  "convolve packed = convolve_bits (concat (map byte_bits packed)) 0"

definition npr3 :: "nat list" where
  "npr3 =
    [1, 1, 0, 0, 0, 0, 0, 0, 1, 0, 0, 0, 1, 1, 1, 0, 0, 0, 1, 0, 0, 1, 0, 1, 1, 1, 1, 0, 0, 0, 0, 0,
     0, 0, 1, 0, 0, 1, 0, 1, 0, 0, 0, 0, 0, 0, 1, 0, 1, 1, 0, 0, 1, 1, 0, 1, 0, 0, 0, 1, 1, 0, 1, 0,
     0, 0, 0, 1, 1, 0, 1, 0, 1, 0, 1, 0, 1, 0, 0, 1, 0, 0, 1, 0, 1, 1, 0, 0, 0, 1, 1, 0, 1, 0, 1, 0,
     0, 0, 1, 0, 0, 0, 0, 0, 1, 0, 0, 1, 0, 0, 1, 1, 1, 0, 1, 1, 0, 0, 1, 1, 0, 1, 0, 0, 0, 1, 1, 1,
     0, 0, 0, 0, 0, 1, 0, 1, 0, 0, 1, 1, 0, 0, 0, 0, 0, 0, 0, 1, 1, 0, 1, 0, 1, 1, 0, 0, 0, 1, 1, 0,
     0, 0]"

text \<open>The eight turns of the bit reversal.\<close>

fun rev_bits :: "nat \<Rightarrow> nat \<Rightarrow> nat \<Rightarrow> nat" where
  "rev_bits 0 k j0 = j0"
| "rev_bits (Suc m) k j0 = rev_bits m (k div 2) (2 * j0 + k mod 2)"

text \<open>The search for the \<open>i\<close>-th reversed value below \<open>lim\<close>, over the values of \<^verbatim>\<open>k\<close> that are left.\<close>

fun find_rev :: "nat \<Rightarrow> nat \<Rightarrow> nat list \<Rightarrow> nat" where
  "find_rev lim i [] = 0"
| "find_rev lim i (k # ks) =
     (let j0 = rev_bits 8 k 0 in
      if j0 < lim then (case i of 0 \<Rightarrow> j0 | Suc i \<Rightarrow> find_rev lim i ks) else find_rev lim i ks)"

definition interleave :: "nat \<Rightarrow> nat list \<Rightarrow> nat list" where
  "interleave lim sy =
     fold (\<lambda>i symbols. let j0 = find_rev lim i [0..<256] in symbols[j0 := npr3 ! j0 + 2 * (sy ! i)]) [0..<lim] (replicate lim 0)"

definition wspr_gen :: "nat \<Rightarrow> string \<Rightarrow> string \<Rightarrow> string \<Rightarrow> nat list result" where
  "wspr_gen lim call l_pre dbm =
     rbind (wspr_pack call l_pre dbm) (\<lambda>(n1, n2). Inr (interleave lim (convolve (pack_bytes n1 n2))))"

definition wspr :: "string \<Rightarrow> string \<Rightarrow> string \<Rightarrow> nat list result" where
  "wspr = wspr_gen 162"

definition ft8gen :: "string \<Rightarrow> string \<Rightarrow> string \<Rightarrow> nat list result" where
  "ft8gen = wspr_gen 79"

end
