(* ===== verification/WsprMain.thy ===== *)
theory WsprMain
  imports TxMain Wspr
begin

text \<open>
  The WSPR mode of \<^verbatim>\<open>ft8.cpp\<close>: its command line and \<^verbatim>\<open>mainWSPR\<close>, which share the options, the hardware
  set-up and the symbol loop with the FT8 mode.
\<close>

subsection \<open>The command line\<close>

definition wspr_short_option :: "char \<Rightarrow> bool option" where
  "wspr_short_option c =
     (if c \<in> set ''pxt'' then Some True else if c \<in> set ''hsfron'' then Some False else None)"

definition wspr_long_options :: "(string \<times> char) list" where
  "wspr_long_options =
     [(''help'', CHR ''h''), (''ppm'', CHR ''p''), (''self-calibration'', CHR ''s''), (''free-running'', CHR ''f''),
      (''repeat'', CHR ''r''), (''terminate'', CHR ''x''), (''offset'', CHR ''o''), (''test-tone'', CHR ''t''),
      (''no-delay'', CHR ''n'')]"

record wspr_words =
  w_callsign :: string
  w_locator :: string
  w_power :: string

definition wspr_default_opts :: tx_opts where
  "wspr_default_opts = default_opts\<lparr>self_cal := True, o_mode := WSPR\<rparr>"

definition wspr_band_freq :: "string \<Rightarrow> real option" where
  "wspr_band_freq f =
     (if strcasecmp_eq f ''LF'' then Some 137500
      else if strcasecmp_eq f ''LF-15'' then Some 137612.5
      else if strcasecmp_eq f ''MF'' then Some 475700
      else if strcasecmp_eq f ''MF-15'' then Some 475812.5
      else if strcasecmp_eq f ''160m'' then Some 1838100
      else if strcasecmp_eq f ''160m-15'' then Some 1838212.5
      else if strcasecmp_eq f ''80m'' then Some 3570100
      else if strcasecmp_eq f ''60m'' then Some 5288700
      else if strcasecmp_eq f ''40m'' then Some 7040100
      else if strcasecmp_eq f ''30m'' then Some 10140200
      else if strcasecmp_eq f ''20m'' then Some 14097100
      else if strcasecmp_eq f ''17m'' then Some 18106100
      else if strcasecmp_eq f ''15m'' then Some 21096100
      else if strcasecmp_eq f ''12m'' then Some 24926100
      else if strcasecmp_eq f ''10m'' then Some 28126100
      else if strcasecmp_eq f ''6m'' then Some 50294500
      else if strcasecmp_eq f ''4m'' then Some 70092500
      else if strcasecmp_eq f ''2m'' then Some 144490500
      else None)"

definition parse_wspr_freq :: "(string \<Rightarrow> real \<times> nat) \<Rightarrow> string \<Rightarrow> real option" where
  "parse_wspr_freq conv s =
     (case wspr_band_freq s of
        Some b \<Rightarrow> Some b
      | None \<Rightarrow> (case conv s of (v, n) \<Rightarrow> if n < length s then None else Some v))"

fun parse_wspr_freqs :: "(string \<Rightarrow> real \<times> nat) \<Rightarrow> string list \<Rightarrow> real list option" where
  "parse_wspr_freqs conv [] = Some []"
| "parse_wspr_freqs conv (w # ws) =
     (case parse_wspr_freq conv w of
        None \<Rightarrow> None
      | Some f \<Rightarrow> map_option (Cons f) (parse_wspr_freqs conv ws))"

definition word_at :: "string list \<Rightarrow> nat \<Rightarrow> string" where
  "word_at ws i = (if i < length ws then ws ! i else [])"

definition check_wspr :: "wspr_words \<Rightarrow> tx_opts \<Rightarrow> (wspr_words \<times> tx_opts) option" where
  "check_wspr w po =
     (let w = w\<lparr>w_callsign := map toupper_c (w_callsign w), w_locator := map toupper_c (w_locator w)\<rparr>;
          po = (if ppm po \<noteq> 0 \<and> self_cal po then po\<lparr>ppm := 0\<rparr> else po)
      in if o_mode po = TONE then
           (if test_tone po \<le> 0 then None else Some (w, po\<lparr>random_offset := False\<rparr>))
         else if w_callsign w = [] \<or> w_locator w = [] \<or> w_power w = [] \<or> center_freq_set po = [] then None
         else Some (w, po))"

definition parse_commandline_wspr :: "(string \<Rightarrow> real \<times> nat) \<Rightarrow> string list \<Rightarrow> (wspr_words \<times> tx_opts) option" where
  "parse_commandline_wspr conv argv =
     (let (evs, free) = getopt_long wspr_short_option wspr_long_options [] (tl argv) in
      case apply_opts conv evs wspr_default_opts of
        None \<Rightarrow> None
      | Some po \<Rightarrow>
          (case parse_wspr_freqs conv (drop 3 free) of
             None \<Rightarrow> None
           | Some fs \<Rightarrow>
               check_wspr \<lparr>w_callsign = word_at free 0, w_locator = word_at free 1, w_power = word_at free 2\<rparr>
                 (po\<lparr>center_freq_set := fs\<rparr>)))"

subsection \<open>mainWSPR\<close>

fun wait_minute :: "int \<Rightarrow> int list \<Rightarrow> int list option" where
  "wait_minute m [] = None"
| "wait_minute m (t # ts) =
     (if t div 60000000 mod 60 mod m = 0 \<and> t div 1000000 mod 60 = 0 then Some ts else wait_minute m ts)"

definition wait_every :: "int \<Rightarrow> txs \<Rightarrow> txs run" where
  "wait_every m s = map_option (\<lambda>ts. Inr (s\<lparr>clock := ts\<rparr>)) (wait_minute m (clock s))"

definition WSPR_SYMTIME :: real where "WSPR_SYMTIME = 8192 / 12000"
definition WSPR_RAND_OFFSET :: real where "WSPR_RAND_OFFSET = 80"
definition WSPR15_RAND_OFFSET :: real where "WSPR15_RAND_OFFSET = 8"

definition is_wspr15 :: "real \<Rightarrow> bool" where
  "is_wspr15 c \<longleftrightarrow> 137600 < c \<and> c < 137625 \<or> 475800 < c \<and> c < 475825 \<or> 1838200 < c \<and> c < 1838225"

definition wspr_center :: "txenv \<Rightarrow> bool \<Rightarrow> real \<times> txs \<Rightarrow> real \<times> txs" where
  "wspr_center env offs = (\<lambda>(c, s).
     (if c \<noteq> 0 \<and> offs then
        (c + (2 * rand_real (rnd env (rand_j s)) - 1) * (if is_wspr15 c then WSPR15_RAND_OFFSET else WSPR_RAND_OFFSET),
         s\<lparr>rand_j := rand_j s + 1\<rparr>)
      else (c, s)))"

text \<open>One turn over a band; \<open>first\<close> is the flag \<^verbatim>\<open>txbegin\<close>.\<close>

definition wspr_band :: "txenv \<Rightarrow> tx_opts \<Rightarrow> PageInfo list \<Rightarrow> PageInfo \<Rightarrow> nat list \<Rightarrow> nat \<Rightarrow> real \<Rightarrow> nat \<Rightarrow> bool \<Rightarrow> txs
    \<Rightarrow> (real \<times> nat \<times> bool \<times> txs) run" where
  "wspr_band env po instrs cp symbols band pc n_tx first s =
     (if length (center_freq_set po) \<le> band then Some (Inl (OutOfBounds (length (center_freq_set po)) band))
      else
        (let w15 = is_wspr15 (center_freq_set po ! band);
             symtime = (if w15 then 8 * WSPR_SYMTIME else WSPR_SYMTIME);
             sp = 1 / symtime;
             (c, s) = wspr_center env (random_offset po) (center_freq_set po ! band, s)
         in ebind (if no_delay po then Some (Inr s) else wait_every (if w15 then 15 else 2) s) (\<lambda>s.
            let (pc, s) = (if self_cal po then update_ppm env (pc, s) else (pc, s)) in
            ebind (tune env pc c sp cp s) (\<lambda>(ca, table, s).
            if ca \<noteq> 0 then
              ebind (transmit env symtime ca sp table instrs cp symbols (if first then begin_tx else id) s) (\<lambda>s.
                Some (Inr (pc, n_tx + 1, False, s)))
            else Some (Inr (pc, n_tx, first, s))))))"

partial_function (option) wspr_loop :: "txenv \<Rightarrow> tx_opts \<Rightarrow> PageInfo list \<Rightarrow> PageInfo \<Rightarrow> nat list \<Rightarrow> nat \<Rightarrow> real \<Rightarrow> nat
    \<Rightarrow> bool \<Rightarrow> txs \<Rightarrow> txs run" where
  "wspr_loop env po instrs cp symbols band pc n_tx first s =
     (case wspr_band env po instrs cp symbols band pc n_tx first s of
        None \<Rightarrow> None
      | Some (Inl e) \<Rightarrow> Some (Inl e)
      | Some (Inr (pc, n_tx, first, s)) \<Rightarrow>
          (let band = (band + 1) mod length (center_freq_set po) in
           if band = 0 \<and> \<not> o_repeat po then Some (Inr s)
           else if 0 < o_terminate po \<and> o_terminate po \<le> int n_tx then Some (Inr s)
           else wspr_loop env po instrs cp symbols band pc n_tx first s))"

definition mainWSPR :: "txenv \<Rightarrow> string list \<Rightarrow> txs \<Rightarrow> (int \<times> txs) run" where
  "mainWSPR env argv s =
     (case parse_commandline_wspr (strtod env) argv of
        None \<Rightarrow> Some (Inl Exited)
      | Some (w, po) \<Rightarrow>
          ebind (setup_hw env s) (\<lambda>(cp, instrs, s).
          if o_mode po = TONE then
            ebind (on_board (txon True) s) (\<lambda>s.
            ebind (tone_loop env po (1 / WSPR_SYMTIME) instrs cp (ppm po) 123456 (0, []) 0 (emit (Carrier True) s)) (\<lambda>s.
            Some (Inr (0, s))))
          else
            (case wspr (w_callsign w) (w_locator w) (w_power w) of
               Inl e \<Rightarrow> Some (Inl e)
             | Inr symbols \<Rightarrow>
                 ebind (wspr_loop env po instrs cp symbols 0 (ppm po) 0 True s) (\<lambda>s. Some (Inr (0, end_tx s))))))"

end
