(* ===== verification/TxRequests.thy ===== *)
theory TxRequests
  imports TxCommand QsoTransmit
begin

text \<open>
  The requests of the receiver as the transmitter reads them: the QSO handler's text goes through the
  shell-like splitting into words (here \<open>c_words\<close>, what \<^verbatim>\<open>wordexp\<close> does to text without shell
  characters) into \<^verbatim>\<open>parse_commandline\<close>. The same rule of the frequency holds in both transmitters.
\<close>

subsection \<open>Words and frequencies\<close>

lemma toupper_M: "toupper_c c = CHR ''M'' \<Longrightarrow> c = CHR ''M'' \<or> c = CHR ''m''"
proof -
  assume a: "toupper_c c = CHR ''M''"
  show ?thesis
  proof (cases "97 \<le> code c \<and> code c \<le> 122")
    case True
    then have "char_of (code c - 32) = CHR ''M''" using a by (simp add: toupper_c_def)
    then have "of_char (char_of (code c - 32) :: char) = (of_char CHR ''M'' :: nat)" by simp
    then have "(code c - 32) mod 256 = 77" by (simp add: of_char_of)
    moreover have "code c - 32 < 256" using True by linarith
    ultimately have "code c - 32 = 77" by simp
    then have "of_char c = (of_char CHR ''m'' :: nat)" using True by (simp add: code_def)
    then have "c = CHR ''m''" by (simp only: of_char_eq_iff)
    then show ?thesis by simp
  next
    case False
    then have "toupper_c c = c" unfolding toupper_c_def by (rule if_not_P)
    then show ?thesis using a by simp
  qed
qed

lemma strcasecmp_m: "strcasecmp_eq s t \<Longrightarrow> CHR ''m'' \<in> set t \<Longrightarrow> CHR ''m'' \<in> set s \<or> CHR ''M'' \<in> set s"
proof -
  assume a: "strcasecmp_eq s t" "CHR ''m'' \<in> set t"
  have "toupper_c CHR ''m'' = CHR ''M''" by code_simp
  then have "CHR ''M'' \<in> set (map toupper_c t)" using a(2) by (force intro: image_eqI[of _ _ "CHR ''m''"])
  then have "CHR ''M'' \<in> set (map toupper_c s)" using a(1) by (simp add: strcasecmp_eq_def)
  then show ?thesis using toupper_M by fastforce
qed

lemma band_freq_None: "CHR ''m'' \<notin> set s \<Longrightarrow> CHR ''M'' \<notin> set s \<Longrightarrow> band_freq s = None"
proof -
  assume a: "CHR ''m'' \<notin> set s" "CHR ''M'' \<notin> set s"
  have "\<not> strcasecmp_eq s t" if "CHR ''m'' \<in> set t" for t using strcasecmp_m[of s t] a that by blast
  then show ?thesis by (simp add: band_freq_def)
qed

lemma int_dec_no_m: "CHR ''m'' \<notin> set (int_dec i)" "CHR ''M'' \<notin> set (int_dec i)"
  using nat_dec_digits[of "CHR ''m''"] nat_dec_digits[of "CHR ''M''"]
  by (auto simp: int_dec_def isdigit_c_def code_def)

lemma band_freq_int_dec [simp]: "band_freq (int_dec i) = None"
  using int_dec_no_m by (rule band_freq_None)

lemma plain_word_int_dec: "0 \<le> i \<Longrightarrow> plain_word (int_dec i)"
proof -
  assume "0 \<le> i"
  then have d: "int_dec i = nat_dec (nat i)" by (simp add: int_dec_def)
  obtain c r where c: "nat_dec (nat i) = c # r" by (cases "nat_dec (nat i)") auto
  then have "isdigit_c c" using nat_dec_digits[of c "nat i"] by simp
  then show ?thesis using d c digit_not_space[of c] by (simp add: plain_word_def)
qed

lemma tx_text_words:
  assumes "is_word (src (currentQSO q))" "is_word (rcall (dec_options env))" "is_word w"
  shows "c_words (tx_text env q w)
    = [''FT8Tx'', int_dec (freq (currentQSO q)), src (currentQSO q), rcall (dec_options env), w]"
proof -
  have t: "tx_text env q w = ''FT8Tx'' @ CHR '' '' # int_dec (freq (currentQSO q)) @ CHR '' '' # src (currentQSO q)
      @ CHR '' '' # rcall (dec_options env) @ CHR '' '' # w" by (simp add: tx_text_def)
  have f: "is_word ''FT8Tx''" by (simp add: is_word_def)
  show ?thesis unfolding t by (simp only: c_words_cons[OF f] c_words_cons[OF is_word_int_dec]
        c_words_cons[OF assms(1)] c_words_cons[OF assms(2)] c_words_single[OF assms(3)])
qed

subsection \<open>Both transmitters choose the same frequency\<close>

text \<open>
  C31. For a frequency given as a band name or as a decimal number of hertz, the fake transmitter
  arrives at the frequency the real one would transmit on: the same base, the same test for a band
  base and, for the same random number, the same audio offset, which lies in 300..2799 Hz.
\<close>

theorem fake_matches_ft8:
  assumes "0 \<le> r" "r \<le> RAND_MAX" "s = int_dec f \<and> \<bar>f\<bar> < 2 ^ 53 \<or> band_freq s \<noteq> None"
    and "\<And>i. \<bar>i\<bar> < 2 ^ 53 \<Longrightarrow> strtod (int_dec i) = (of_int i, length (int_dec i))"
  defines "g \<equiv> fake_choose r (fake_parse_freq s)"
  shows "parse_tx_freq strtod s = Some (of_int (fake_parse_freq s)) \<and> g = ft8_choose r (fake_parse_freq s)
    \<and> (if isBandBase (fake_parse_freq s) then g - fake_parse_freq s \<in> {300..<2800} else g = fake_parse_freq s)"
proof -
  have "parse_tx_freq strtod s = Some (of_int (fake_parse_freq s))"
  proof (cases "band_freq s")
    case None
    then have f: "s = int_dec f" "\<bar>f\<bar> < 2 ^ 53" using assms(3) by auto
    then have "strtol10 s = f" by (simp add: strtol10_def atoi_int_dec)
    with None f assms(4)[OF f(2)] show ?thesis by (simp add: parse_tx_freq_def fake_parse_freq_def)
  qed (simp add: parse_tx_freq_def fake_parse_freq_def)
  moreover have e: "fakeIsBandBase = isBandBase"
    by (rule ext) (simp add: fakeIsBandBase_def isBandBase_def kFakeBandBase_def kBandBase_def)
  then have "g = ft8_choose r (fake_parse_freq s)"
    by (simp add: g_def fake_choose_def ft8_choose_def FAKETX_AUDIO_MIN_def FAKETX_AUDIO_MAX_def
        TX_AUDIO_MIN_def TX_AUDIO_MAX_def)
  moreover have "if isBandBase (fake_parse_freq s) then g - fake_parse_freq s \<in> {300..<2800} else g = fake_parse_freq s"
    using fake_freq.base_window[of "fake_parse_freq s" r] fake_freq.verbatim[of "fake_parse_freq s" r] assms(1,2)
    by (auto simp: g_def e FAKETX_AUDIO_MIN_def FAKETX_AUDIO_MAX_def)
  ultimately show ?thesis by blast
qed

text \<open>A conversion that behaves so, for the witnesses: decimal integers only.\<close>

definition demo_strtod :: "string \<Rightarrow> real \<times> nat" where
  "demo_strtod s = (of_int (atoi s), length s)"

theorem fake_matches_ft8_witness:
  "parse_tx_freq demo_strtod ''14074000'' = Some 14074000 \<and> fake_choose 0 14074000 = ft8_choose 0 14074000"
proof -
  have s: "''14074000'' = int_dec 14074000" by (simp add: dec_eval)
  have d: "\<bar>i\<bar> < 2 ^ 53 \<Longrightarrow> demo_strtod (int_dec i) = (of_int i, length (int_dec i))" for i
    by (simp add: demo_strtod_def atoi_int_dec)
  have f: "fake_parse_freq ''14074000'' = 14074000"
    unfolding s fake_parse_freq_def band_freq_int_dec strtol10_def atoi_int_dec by simp
  show ?thesis
    using fake_matches_ft8[of 0 "''14074000''" 14074000 demo_strtod, OF _ _ _ d] s f by (simp add: RAND_MAX_def)
qed

subsection \<open>The handler's requests\<close>

definition upper :: "string \<Rightarrow> string" where
  "upper s = map toupper_c s"

lemma qso_request_understood_words:
  assumes "is_word (src (currentQSO q))" "is_word (rcall (dec_options env))" "is_word w"
    and "plain_word (src (currentQSO q))" "plain_word (rcall (dec_options env))" "plain_word w"
    and "0 \<le> freq (currentQSO q)"
    and "strtod (int_dec (freq (currentQSO q))) = (of_int (freq (currentQSO q)), length (int_dec (freq (currentQSO q))))"
  shows "parse_commandline strtod (c_words (tx_text env q w))
    = Some (default_opts\<lparr>center_freq_set := [of_int (freq (currentQSO q))],
        o_message := upper (src (currentQSO q) @ '' '' @ rcall (dec_options env) @ '' '' @ w)\<rparr>)"
proof -
  let ?ws = "[int_dec (freq (currentQSO q)), src (currentQSO q), rcall (dec_options env), w]"
  have "\<forall>x \<in> set ?ws. plain_word x" using assms(4-7) plain_word_int_dec by simp
  then have "getopt [] ?ws = ([], ?ws)" by (rule getopt_plain_all)
  moreover have "parse_tx_freq strtod (int_dec (freq (currentQSO q))) = Some (of_int (freq (currentQSO q)))"
    using assms(8) by (simp add: parse_tx_freq_def)
  ultimately show ?thesis
    using assms(1) unfolding tx_text_words[OF assms(1-3)]
    by (simp add: parse_commandline_def parse_free_def check_opts_def default_opts_def upper_def is_word_def Let_def)
qed

text \<open>
  What the QSO handler asks for is what the transmitter understands: any request whose words do
  not begin with a dash is parsed to the peer's frequency, to the hertz, and to the message "peer own
  word" in capitals, once, on no other frequency and with every option at its default.
\<close>

theorem qso_request_understood:
  assumes "is_word (src (currentQSO q))" "is_word (rcall (dec_options env))" "is_word w"
    and "plain_word (src (currentQSO q))" "plain_word (rcall (dec_options env))" "plain_word w"
    and "0 \<le> freq (currentQSO q)"
    and "strtod (int_dec (freq (currentQSO q))) = (of_int (freq (currentQSO q)), length (int_dec (freq (currentQSO q))))"
  shows "parse_commandline strtod (c_words (tx_text env q w))
    = Some (default_opts\<lparr>center_freq_set := [of_int (freq (currentQSO q))],
        o_message := upper (src (currentQSO q) @ '' '' @ rcall (dec_options env) @ '' '' @ w)\<rparr>)"
  using assms by (rule qso_request_understood_words)

theorem qso_request_understood_witness:
  "map_option (\<lambda>po. (o_message po, center_freq_set po))
     (parse_commandline demo_strtod (c_words (tx_text demo_env (demo_qso replyRR73) ''RR73'')))
   = Some (''F1ABC SA0PRF RR73'', [14075000])"
proof -
  let ?q = "demo_qso replyRR73"
  have q: "src (currentQSO ?q) = ''F1ABC''" "freq (currentQSO ?q) = 14075000" "rcall (dec_options demo_env) = ''SA0PRF''"
    by (simp_all add: demo_qso_def demo_msg_def demo_env_def)
  have w: "is_word ''F1ABC''" "is_word ''SA0PRF''" "is_word ''RR73''"
    "plain_word ''F1ABC''" "plain_word ''SA0PRF''" "plain_word ''RR73''" by (simp_all add: is_word_def plain_word_def)
  have s: "demo_strtod (int_dec 14075000) = (of_int 14075000, length (int_dec 14075000))"
    unfolding demo_strtod_def atoi_int_dec by simp
  show ?thesis
    using qso_request_understood[of ?q demo_env "''RR73''" demo_strtod] w s unfolding q
    by (simp add: upper_def toupper_c_def code_def)
qed

text \<open>
  C14. A negative report ends the transmitter: the handler sends the level of a weak peer as a word
  such as -07, which the option scanner takes for an unknown option, so that \<^verbatim>\<open>parse_commandline\<close>
  aborts the whole process instead of transmitting.
\<close>

theorem negative_report_aborts:
  assumes "is_word (src (currentQSO q))" "is_word (rcall (dec_options env))"
    and "plain_word (src (currentQSO q))" "plain_word (rcall (dec_options env))"
    and "0 \<le> freq (currentQSO q)" "snr (currentQSO q) < 0"
  shows "parse_commandline strtod (c_words (tx_text env q (level_text (snr (currentQSO q))))) = None"
proof -
  let ?n = "snr (currentQSO q)"
  let ?ws = "[int_dec (freq (currentQSO q)), src (currentQSO q), rcall (dec_options env)]"
  define ds where "ds = replicate (2 - length (nat_dec (nat (- ?n)))) CHR ''0'' @ nat_dec (nat (- ?n))"
  have l: "level_text ?n = CHR ''-'' # ds"
    using assms(6) by (simp add: level_text_def int_dec0_def ds_def Let_def)
  have dg: "\<forall>c \<in> set ds. isdigit_c c"
    using nat_dec_digits by (auto simp: ds_def isdigit_c_def code_def)
  obtain d r where ds: "ds = d # r" by (cases ds) (auto simp: ds_def)
  have sp: "CHR '' '' \<notin> set ds" using dg digit_not_space by fastforce
  then have w: "is_word (level_text ?n)" by (simp add: is_word_def l)
  have "\<forall>x \<in> set ?ws. plain_word x" using assms(3-5) plain_word_int_dec by simp
  note g1 = getopt_plain[OF this, of "[level_text ?n]"]
  obtain evs free where g2: "getopt [] [level_text ?n] = (BadOption # evs, free)"
    using getopt_dash_digit[of d r "[]"] dg ds l by auto
  show ?thesis
    unfolding tx_text_words[OF assms(1,2) w] parse_commandline_def using g1 g2 by simp
qed

theorem negative_report_aborts_witness:
  "parse_commandline demo_strtod (c_words (tx_text demo_env (demo_qso replySig) (level_text (- 7)))) = None"
proof -
  let ?q = "demo_qso replySig"
  have q: "src (currentQSO ?q) = ''F1ABC''" "freq (currentQSO ?q) = 14075000" "rcall (dec_options demo_env) = ''SA0PRF''"
    "snr (currentQSO ?q) = - 7"
    by (simp_all add: demo_qso_def demo_msg_def demo_env_def)
  have w: "is_word ''F1ABC''" "is_word ''SA0PRF''" "plain_word ''F1ABC''" "plain_word ''SA0PRF''"
    by (simp_all add: is_word_def plain_word_def)
  show ?thesis using negative_report_aborts[of ?q demo_env demo_strtod] w unfolding q by simp
qed

end
