(* ===== verification/TxOnAir.thy ===== *)
theory TxOnAir
  imports TxMain TxRequests
begin

text \<open>
  What a request of the receiver leads to: \<^verbatim>\<open>mainFT8\<close> announces the frequency, waits for the slot, sends
  the 79 symbols in order with the clocks of their durations, and reports the end.
\<close>

subsection \<open>Waiting for the hardware\<close>

text \<open>The clock settles: it is not busy \<open>k\<close> times in a row.\<close>

definition settles :: "nat \<Rightarrow> bool list \<Rightarrow> bool" where
  "settles k bs \<longleftrightarrow> (\<forall>i. i + k \<le> length bs \<longrightarrow> (\<exists>j < k. \<not> bs ! (i + j)))"

lemma settles_Cons: "settles k (b # bs) \<Longrightarrow> settles k bs"
  unfolding settles_def
proof (intro allI impI)
  fix i assume s: "\<forall>i. i + k \<le> length (b # bs) \<longrightarrow> (\<exists>j < k. \<not> (b # bs) ! (i + j))" and i: "i + k \<le> length bs"
  then show "\<exists>j < k. \<not> bs ! (i + j)" using s[rule_format, of "Suc i"] by simp
qed

lemma wait_clock_settles:
  assumes "settles k bs" "k \<le> length bs"
  shows "\<exists>cs. wait_clock bs = Some cs \<and> settles k cs \<and> length bs \<le> length cs + k"
proof -
  have *: "\<exists>cs. wait_clock bs = Some cs \<and> settles k cs \<and> length bs \<le> length cs + Suc d"
    if "settles k bs" "d < length bs" "\<not> bs ! d" for d bs
    using that
  proof (induction bs arbitrary: d)
    case (Cons b bs)
    show ?case
    proof (cases b)
      case True
      then obtain d' where "d = Suc d'" using Cons.prems(3) by (cases d) auto
      with Cons.IH[of d'] Cons.prems True settles_Cons[OF Cons.prems(1)] show ?thesis by auto
    qed (use settles_Cons[OF Cons.prems(1)] in simp)
  qed simp
  obtain d where "d < k" "\<not> bs ! d" using assms unfolding settles_def by (metis add_0)
  with *[of bs d] assms show ?thesis by fastforce
qed

lemma disable_clock_settles:
  assumes "settles k (busy b)" "k \<le> length (busy b)"
  shows "\<exists>b'. disable_clock b = Some b' \<and> settles k (busy b') \<and> length (busy b) \<le> length (busy b') + k
    \<and> polls b' = polls b \<and> mapped b' = mapped b"
  using wait_clock_settles[OF assms] assms by (auto simp: disable_clock_def Let_def set_reg_def)

lemma reg_ops [simp]:
  "busy (set_reg a x b) = busy b" "polls (set_reg a x b) = polls b" "mapped (set_reg a x b) = mapped b"
  "busy (SETBIT_BUS_ADDR a n b) = busy b" "polls (SETBIT_BUS_ADDR a n b) = polls b" "mapped (SETBIT_BUS_ADDR a n b) = mapped b"
  "busy (CLRBIT_BUS_ADDR a n b) = busy b" "polls (CLRBIT_BUS_ADDR a n b) = polls b" "mapped (CLRBIT_BUS_ADDR a n b) = mapped b"
  by (simp_all add: SETBIT_BUS_ADDR_def CLRBIT_BUS_ADDR_def set_reg_def)

lemma txon_settles:
  assumes "settles k (busy b)" "k \<le> length (busy b)"
  shows "\<exists>b'. txon l b = Some b' \<and> settles k (busy b') \<and> length (busy b) \<le> length (busy b') + k
    \<and> polls b' = polls b \<and> mapped b' = mapped b"
proof -
  let ?b = "set_reg PADS_GPIO_0_27_BUS (0x5a000018 + 2) (CLRBIT_BUS_ADDR GPIO_BUS_BASE 12 (CLRBIT_BUS_ADDR GPIO_BUS_BASE 13 (SETBIT_BUS_ADDR GPIO_BUS_BASE 14 b)))"
  obtain b' where "disable_clock ?b = Some b'" "settles k (busy b')" "length (busy b) \<le> length (busy b') + k"
    "polls b' = polls b" "mapped b' = mapped b"
    using disable_clock_settles[of k ?b] assms by auto
  then show ?thesis by (simp add: txon_def Let_def)
qed

lemma txoff_settles:
  assumes "settles k (busy b)" "k \<le> length (busy b)"
  shows "\<exists>b'. txoff b = Some b' \<and> settles k (busy b') \<and> length (busy b) \<le> length (busy b') + k
    \<and> polls b' = polls b \<and> mapped b' = mapped b"
  using disable_clock_settles[OF assms] by (auto simp: txoff_def led_off_def)

subsection \<open>The symbols\<close>

lemma elapsed_sec_eq: "elapsed_sec t t0 = of_int (t - t0) / 1000000"
proof -
  let ?d = "t - t0"
  have "?d = 1000000 * c_div ?d 1000000 + c_mod ?d 1000000" by (simp add: c_mod_def)
  then have "real_of_int ?d = 1000000 * of_int (c_div ?d 1000000) + of_int (c_mod ?d 1000000)"
    by (metis of_int_add of_int_mult of_int_numeral)
  then show ?thesis by (simp add: elapsed_sec_def timeval_subtract_def Let_def del: of_int_diff)
qed

definition clocks :: "(int \<times> int) list \<Rightarrow> int" where
  "clocks h = sum_list (map fst h) + sum_list (map snd h)"

fun sym_events :: "real \<Rightarrow> int \<Rightarrow> nat \<Rightarrow> nat list \<Rightarrow> int list \<Rightarrow> (int \<times> int) list list \<Rightarrow> tx_event list" where
  "sym_events symtime t0 i (x # xs) (t # ts) (h # hs) =
     Symbol x (real (i + 1) * symtime - of_int (t - t0) / 1000000) h # sym_events symtime t0 (i + 1) xs ts hs"
| "sym_events symtime t0 i _ _ _ = []"

text \<open>The clocks of a symbol are those of its duration; a symbol whose end has passed gets none.\<close>

fun exact_event :: "tx_event \<Rightarrow> bool" where
  "exact_event (Symbol x d h) \<longleftrightarrow> clocks h = max 0 (c_round (F_PWM_CLK_INIT * d))"
| "exact_event _ \<longleftrightarrow> True"

lemma rounds_mono: "a \<le> b \<Longrightarrow> rounds a \<le> rounds b"
  unfolding rounds_def by (intro nat_mono zdiv_mono1) simp_all

lemma txSym_total:
  assumes tab: "setupDMATab c0 sp plld cp b0 = Inr (c, table, b1)" "0 < plld" "0 < sp" "0 < c - 1.5 * sp" "c + 5.5 * sp \<le> plld"
    and tn: "tn < 8" and ring: "length instrs = 1024" "bufPtr < 1024" "4 dvd bufPtr"
    and R: "rounds (c_round (clk * tsym)) \<le> R" and moving: "0 < m" "moves m (polls b)" "4 * m * R \<le> length (polls b)"
  shows "\<exists>bp j' b' h. txSym tn c sp tsym table clk instrs cp bufPtr rs j b = Some (Inr (bp, j', b', h))
    \<and> bp < 1024 \<and> 4 dvd bp \<and> clocks h = max 0 (c_round (clk * tsym))
    \<and> moves m (polls b') \<and> length (polls b) \<le> length (polls b') + 4 * m * R \<and> mapped b' = mapped b \<and> busy b' = busy b"
proof -
  have "real tn * sp \<le> 7 * sp" "0 \<le> real tn * sp" using tn tab(3) by (simp_all add: mult_right_mono)
  then have tone: "0 < c - 1.5 * sp + real tn * sp" "c - 1.5 * sp + real tn * sp \<le> plld" using tab(4,5) by linarith+
  have mR: "4 * m * rounds (c_round (clk * tsym)) \<le> 4 * m * R" using R by simp
  show ?thesis
  proof (cases "0 \<le> c_round (clk * tsym)")
    case True
    from mR moving(3) have "4 * m * rounds (c_round (clk * tsym)) \<le> length (polls b)" by linarith
    from txSym_exact[OF tab(1) tn tab(2) tone ring refl True moving(1,2) this, of rs j]
    obtain bp j' b' h where "txSym tn c sp tsym table clk instrs cp bufPtr rs j b = Some (Inr (bp, j', b', h))"
      "bp < 1024" "4 dvd bp" "clocks h = c_round (clk * tsym)" "moves m (polls b')"
      "length (polls b) \<le> length (polls b') + 4 * m * rounds (c_round (clk * tsym))" "mapped b' = mapped b" "busy b' = busy b"
      unfolding clocks_def by blast
    then show ?thesis using mR True by (auto intro: order_trans)
  next
    case False
    define f where "f = c - 1.5 * sp + real tn * sp"
    define f0 where "f0 = table ! (2 * tn)"
    define f1 where "f1 = table ! (2 * tn + 1)"
    define ra where "ra = 1 - (f - f0) / (f1 - f0)"
    have f: "f0 < f" "f \<le> f1" using table_brackets[OF tab(1) tn tab(2) tone] by (simp_all add: f_def f0_def f1_def)
    then have ra: "0 \<le> ra" "ra \<le> 1" by (simp_all add: ra_def field_simps)
    have "txSym tn c sp tsym table clk instrs cp bufPtr rs j b
        = sym_loop rs (c_round (clk * tsym)) ra cp instrs (tn * 2) 0 0 bufPtr j b []"
      using f ra setupDMATab_result(2)[OF tab(1)] tn by (simp add: txSym_def Let_def f_def f0_def f1_def ra_def mult.commute)
    also have "\<dots> = Some (Inr (bufPtr, j, b, []))" using False by (subst sym_loop.simps) simp
    finally have "txSym tn c sp tsym table clk instrs cp bufPtr rs j b = Some (Inr (bufPtr, j, b, []))" .
    then show ?thesis using ring moving False by (simp add: clocks_def)
  qed
qed

lemma emit_simps [simp]:
  "trace (emit e s) = trace s @ [e]" "clock (emit e s) = clock s" "board (emit e s) = board s"
  "new_socket (emit e s) = new_socket s" "rand_j (emit e s) = rand_j s" "ntp_j (emit e s) = ntp_j s"
  by (simp_all add: emit_def)

lemma send_symbols_total:
  assumes tab: "setupDMATab c0 sp plld cp b0 = Inr (c, table, b1)" "0 < plld" "0 < sp" "0 < c - 1.5 * sp" "c + 5.5 * sp \<le> plld"
    and ring: "length instrs = 1024" and st: "0 \<le> symtime" and m: "0 < m"
  shows "\<forall>x \<in> set symbols. x < 8 \<Longrightarrow> length ts = length symbols \<Longrightarrow> \<forall>t \<in> set ts. t0 \<le> t \<Longrightarrow> clock s = ts @ rest \<Longrightarrow>
      bufPtr < 1024 \<Longrightarrow> 4 dvd bufPtr \<Longrightarrow> moves m (polls (board s)) \<Longrightarrow>
      rounds (c_round (F_PWM_CLK_INIT * (real (i + length symbols) * symtime))) \<le> R \<Longrightarrow>
      4 * m * R * length symbols \<le> length (polls (board s)) \<Longrightarrow>
    \<exists>hs s'. send_symbols env symtime c sp table instrs cp t0 symbols i bufPtr s = Some (Inr s')
      \<and> length hs = length symbols \<and> trace s' = trace s @ sym_events symtime t0 i symbols ts hs
      \<and> list_all exact_event (sym_events symtime t0 i symbols ts hs)
      \<and> clock s' = rest \<and> new_socket s' = new_socket s \<and> mapped (board s') = mapped (board s)
      \<and> busy (board s') = busy (board s) \<and> moves m (polls (board s'))
      \<and> length (polls (board s)) \<le> length (polls (board s')) + 4 * m * R * length symbols"
proof (induction symbols arbitrary: ts i bufPtr s)
  case Nil
  then show ?case by (intro exI[of _ "[]"]) simp
next
  case (Cons x xs)
  obtain t ts' where ts: "ts = t # ts'" "length ts' = length xs" using Cons.prems(2) by (cases ts) auto
  let ?d = "real (i + 1) * symtime - of_int (t - t0) / 1000000"
  have "?d \<le> real (i + length (x # xs)) * symtime"
  proof -
    have "real (i + 1) * symtime \<le> real (i + length (x # xs)) * symtime" using st by (intro mult_right_mono) simp_all
    moreover have "0 \<le> real_of_int (t - t0) / 1000000" using Cons.prems(3) ts by simp
    ultimately show ?thesis by linarith
  qed
  then have "F_PWM_CLK_INIT * ?d \<le> F_PWM_CLK_INIT * (real (i + length (x # xs)) * symtime)"
    by (intro mult_left_mono) (simp_all add: F_PWM_CLK_INIT_def)
  then have R: "rounds (c_round (F_PWM_CLK_INIT * ?d)) \<le> R"
    using Cons.prems(8) c_round_mono rounds_mono le_trans by meson
  let ?s = "s\<lparr>clock := ts' @ rest\<rparr>"
  have rd: "read_clock s = Some (Inr (t, ?s))" using Cons.prems(4) ts by (simp add: read_clock_def)
  have p: "4 * m * R \<le> length (polls (board s))" using Cons.prems(9) by simp
  obtain bp j b h where x: "txSym x c sp ?d table F_PWM_CLK_INIT instrs cp bufPtr (rnd env) (rand_j ?s) (board ?s) = Some (Inr (bp, j, b, h))"
    "bp < 1024" "4 dvd bp" "clocks h = max 0 (c_round (F_PWM_CLK_INIT * ?d))" "moves m (polls b)"
    "length (polls (board s)) \<le> length (polls b) + 4 * m * R" "mapped b = mapped (board s)" "busy b = busy (board s)"
    using txSym_total[OF tab _ ring Cons.prems(5,6) R m Cons.prems(7) p, of x "rnd env" "rand_j ?s"] Cons.prems(1) by auto
  let ?s2 = "emit (Symbol x ?d h) (?s\<lparr>rand_j := j, board := b\<rparr>)"
  have e: "send_symbols env symtime c sp table instrs cp t0 (x # xs) i bufPtr s
      = send_symbols env symtime c sp table instrs cp t0 xs (i + 1) bp ?s2"
    using x(1) by (simp add: rd elapsed_sec_eq Let_def)
  have "\<exists>hs s'. send_symbols env symtime c sp table instrs cp t0 xs (i + 1) bp ?s2 = Some (Inr s')
      \<and> length hs = length xs \<and> trace s' = trace ?s2 @ sym_events symtime t0 (i + 1) xs ts' hs
      \<and> list_all exact_event (sym_events symtime t0 (i + 1) xs ts' hs)
      \<and> clock s' = rest \<and> new_socket s' = new_socket ?s2 \<and> mapped (board s') = mapped (board ?s2)
      \<and> busy (board s') = busy (board ?s2) \<and> moves m (polls (board s'))
      \<and> length (polls (board ?s2)) \<le> length (polls (board s')) + 4 * m * R * length xs"
    using Cons.prems ts x by (intro Cons.IH) (simp_all add: add.assoc)
  then obtain hs s' where r: "send_symbols env symtime c sp table instrs cp t0 xs (i + 1) bp ?s2 = Some (Inr s')"
    "length hs = length xs" "trace s' = trace ?s2 @ sym_events symtime t0 (i + 1) xs ts' hs"
    "list_all exact_event (sym_events symtime t0 (i + 1) xs ts' hs)"
    "clock s' = rest" "new_socket s' = new_socket ?s2" "mapped (board s') = mapped (board ?s2)"
    "busy (board s') = busy (board ?s2)" "moves m (polls (board s'))"
    "length (polls (board ?s2)) \<le> length (polls (board s')) + 4 * m * R * length xs" by blast
  show ?case unfolding e
    using r x ts by (intro exI[of _ "h # hs"] exI[of _ s']) simp
qed

subsection \<open>A whole transmission\<close>

lemma on_board_settles:
  assumes "\<exists>b'. f (board s) = Some b' \<and> P b'"
  shows "\<exists>b'. on_board f s = Some (Inr (s\<lparr>board := b'\<rparr>)) \<and> P b'"
  using assms by (auto simp: on_board_def)

lemma transmit_total:
  assumes tab: "setupDMATab c0 sp plld cp b0 = Inr (c, table, b1)" "0 < plld" "0 < sp" "0 < c - 1.5 * sp" "c + 5.5 * sp \<le> plld"
    and ring: "length instrs = 1024" and st: "0 \<le> symtime" and m: "0 < m"
    and ann: "\<And>s'. new_socket s' = new_socket s \<Longrightarrow> announce s' = s'\<lparr>trace := trace s' @ es\<rparr>"
    and symbols: "\<forall>x \<in> set symbols. x < 8" "length ts = length symbols" "\<forall>t \<in> set ts. t0 \<le> t" "clock s = t0 # ts @ te # rest"
    and moving: "moves m (polls (board s))" "rounds (c_round (F_PWM_CLK_INIT * (real (length symbols) * symtime))) \<le> R"
      "4 * m * R * length symbols \<le> length (polls (board s))"
    and idle: "settles k (busy (board s))" "2 * k \<le> length (busy (board s))"
  shows "\<exists>hs s'. transmit env symtime c sp table instrs cp symbols announce s = Some (Inr s') \<and> length hs = length symbols
    \<and> trace s' = trace s @ es @ Carrier True # sym_events symtime t0 0 symbols ts hs @ [Carrier False]
    \<and> list_all exact_event (sym_events symtime t0 0 symbols ts hs) \<and> clock s' = rest \<and> new_socket s' = new_socket s
    \<and> settles k (busy (board s')) \<and> length (busy (board s)) \<le> length (busy (board s')) + 2 * k"
proof -
  let ?s1 = "announce (s\<lparr>clock := ts @ te # rest\<rparr>)"
  have rd: "read_clock s = Some (Inr (t0, s\<lparr>clock := ts @ te # rest\<rparr>))" using symbols(4) by (simp add: read_clock_def)
  have "settles k (busy (board ?s1))" "k \<le> length (busy (board ?s1))" using idle by (simp_all add: ann)
  from txon_settles[OF this, of True] obtain b where on: "on_board (txon True) ?s1 = Some (Inr (?s1\<lparr>board := b\<rparr>))"
    "settles k (busy b)" "length (busy (board s)) \<le> length (busy b) + k" "polls b = polls (board s)"
    by (auto simp: on_board_def ann)
  let ?s2 = "emit (Carrier True) (?s1\<lparr>board := b\<rparr>)"
  obtain hs s3 where snd: "send_symbols env symtime c sp table instrs cp t0 symbols 0 0 ?s2 = Some (Inr s3)"
    "length hs = length symbols" "trace s3 = trace ?s2 @ sym_events symtime t0 0 symbols ts hs"
    "list_all exact_event (sym_events symtime t0 0 symbols ts hs)" "clock s3 = te # rest" "new_socket s3 = new_socket ?s2"
    "busy (board s3) = busy b"
    using send_symbols_total[OF tab ring st m symbols(1-3), of ?s2 "te # rest" 0 0 R env] moving on(4) by (auto simp: ann)
  have "k \<le> length (busy (board s3))" using on(3) idle(2) snd(7) by simp
  from txoff_settles[OF _ this] on(2) snd(7) obtain b' where off: "on_board txoff s3 = Some (Inr (s3\<lparr>board := b'\<rparr>))"
    "settles k (busy b')" "length (busy b) \<le> length (busy b') + k"
    by (auto simp: on_board_def)
  have left: "length (busy (board s)) \<le> length (busy b') + 2 * k" using on(3) off(3) by linarith
  have "transmit env symtime c sp table instrs cp symbols announce s = Some (Inr (emit (Carrier False) (s3\<lparr>board := b', clock := rest\<rparr>)))"
    by (simp add: transmit_def rd on(1) snd(1) off(1)) (simp add: read_clock_def snd(5))
  with snd off(2) left show ?thesis by (intro exI[of _ hs]) (simp add: ann)
qed

lemma setup_hw_total:
  assumes "length (junk_instrs env) = 1024" "settles k (busy (board s))" "2 * k \<le> length (busy (board s))"
  shows "\<exists>cp instrs b. setup_hw env s = Some (Inr (cp, instrs, s\<lparr>board := b\<rparr>)) \<and> length instrs = 1024
    \<and> polls b = polls (board s) \<and> settles k (busy b) \<and> length (busy (board s)) \<le> length (busy b) + 2 * k"
proof -
  let ?s = "s\<lparr>board := (board s)\<lparr>mapped := True\<rparr>\<rparr>"
  have "settles k (busy (board ?s))" "k \<le> length (busy (board ?s))" using assms by simp_all
  from txon_settles[OF this, of False] obtain b where on: "on_board (txon False) ?s = Some (Inr (s\<lparr>board := b\<rparr>))"
    "settles k (busy b)" "length (busy (board s)) \<le> length (busy b) + k" "polls b = polls (board s)"
    by (auto simp: on_board_def)
  from setupDMA_ring_props[OF assms(1), of "fw env" "pwm_div env" b]
  obtain cp ip instrs b2 where d: "setupDMA (fw env) (pwm_div env) (junk_instrs env) b = Inr (cp, ip, instrs, b2)"
    "length instrs = 1024" "polls b2 = polls b" "busy b2 = busy b" by blast
  have "k \<le> length (busy b2)" using on(3) d(4) assms(3) by simp
  from txoff_settles[OF _ this] on(2) d(4) obtain b3 where off: "on_board txoff (s\<lparr>board := b2\<rparr>) = Some (Inr (s\<lparr>board := b3\<rparr>))"
    "settles k (busy b3)" "length (busy b) \<le> length (busy b3) + k" "polls b3 = polls b"
    using d(3) by (auto simp: on_board_def)
  have "setup_hw env s = Some (Inr (cp, instrs, s\<lparr>board := b3\<rparr>))" by (simp add: setup_hw_def on(1) d(1) off(1))
  moreover have "length (busy (board s)) \<le> length (busy b3) + 2 * k" using on(3) off(3) by linarith
  ultimately show ?thesis using off on(4) d(2) by auto
qed

text \<open>The readings of the clock up to the slot.\<close>

definition slot_start :: "int \<Rightarrow> bool" where
  "slot_start t \<longleftrightarrow> t div 1000000 mod 60 \<in> {0, 15, 30, 45}"

lemma wait_boundary_reads: "\<forall>t \<in> set ws. \<not> slot_start t \<Longrightarrow> slot_start tb \<Longrightarrow> wait_boundary (ws @ tb # rest) = Some rest"
  by (induction ws) (auto simp: slot_start_def)

lemma choose_center_state:
  "\<exists>j. choose_center env offs (c, s) = (fst (choose_center env offs (c, s)), s\<lparr>rand_j := j\<rparr>)"
  "rand_j s = rand_j s' \<Longrightarrow> fst (choose_center env offs (c, s)) = fst (choose_center env offs (c, s'))"
proof -
  show "\<exists>j. choose_center env offs (c, s) = (fst (choose_center env offs (c, s)), s\<lparr>rand_j := j\<rparr>)"
    by (cases "isBandBase (c_round c)") (auto simp: choose_center_def Let_def intro: exI[of _ "rand_j s"])
  show "rand_j s = rand_j s' \<Longrightarrow> fst (choose_center env offs (c, s)) = fst (choose_center env offs (c, s'))"
    by (simp add: choose_center_def Let_def)
qed

lemma ft8_request_total:
  assumes parse: "parse_commandline (strtod env) argv = Some po" "o_mode po \<noteq> TONE" "center_freq_set po = [f]"
      "\<not> self_cal po" "\<not> no_delay po" "\<not> o_repeat po"
    and enc: "ft8_symbols env (o_message po) = Inr symbols" "length symbols = NSYM" "\<forall>x \<in> set symbols. x < 8"
    and fits: "c = fst (choose_center env (random_offset po) (f, s))"
      "tones_fit c (1 / FT8_SYMTIME) (F_PLLD_CLK env * (1 - start_ppm env po / 1000000)) N"
    and time: "clock s = ws @ tb # t0 # ts @ te # rest" "\<forall>t \<in> set ws. \<not> slot_start t" "slot_start tb"
      "length ts = NSYM" "\<forall>t \<in> set ts. t0 \<le> t"
    and hw: "length (junk_instrs env) = 1024" "settles k (busy (board s))" "4 * k \<le> length (busy (board s))"
      "0 < m" "moves m (polls (board s))"
      "4 * m * rounds (c_round (F_PWM_CLK_INIT * (real NSYM * FT8_SYMTIME))) * NSYM \<le> length (polls (board s))"
  shows "\<exists>hs s'. mainFT8 env argv s = Some (Inr (0, s')) \<and> length hs = NSYM \<and> clock s' = rest
    \<and> trace s' = trace s
        @ (if 0 < new_socket s then [SentTo (new_socket s) (tx_letter True (snprintf_s MAXMSGSIZE (''FREQ '' @ int_dec (c_round c))))] else [])
        @ SentTo (new_socket s) (tx_letter True (''Transmitting...'' @ newline))
        # Carrier True # sym_events FT8_SYMTIME t0 0 symbols ts hs
        @ [Carrier False, SentTo (new_socket s) (tx_letter False (''End of transmission...'' @ newline))]
    \<and> list_all exact_event (sym_events FT8_SYMTIME t0 0 symbols ts hs)
    \<and> settles k (busy (board s')) \<and> length (busy (board s)) \<le> length (busy (board s')) + 4 * k"
proof -
  let ?sp = "1 / FT8_SYMTIME" and ?plld = "F_PLLD_CLK env * (1 - start_ppm env po / 1000000)"
  have "2 * k \<le> length (busy (board s))" using hw(3) by linarith
  from setup_hw_total[OF hw(1,2) this] obtain cp instrs b where su: "setup_hw env s = Some (Inr (cp, instrs, s\<lparr>board := b\<rparr>))"
    "length instrs = 1024" "polls b = polls (board s)" "settles k (busy b)" "2 * k \<le> length (busy b)"
    "length (busy (board s)) \<le> length (busy b) + 2 * k" using hw(3) by auto
  let ?s1 = "s\<lparr>board := b\<rparr>"
  obtain j where cc: "choose_center env (random_offset po) (f, ?s1) = (c, ?s1\<lparr>rand_j := j\<rparr>)"
    using choose_center_state(1)[of env "random_offset po" f ?s1] choose_center_state(2)[of ?s1 s env "random_offset po" f] fits(1) by auto
  let ?s2 = "report_freq c (?s1\<lparr>rand_j := j\<rparr>)"
  let ?fm = "if 0 < new_socket s then [SentTo (new_socket s) (tx_letter True (snprintf_s MAXMSGSIZE (''FREQ '' @ int_dec (c_round c))))] else []"
  have s2: "clock ?s2 = clock s" "board ?s2 = b" "new_socket ?s2 = new_socket s" "trace ?s2 = trace s @ ?fm"
    by (simp_all add: report_freq_def)
  let ?s3 = "?s2\<lparr>clock := t0 # ts @ te # rest\<rparr>"
  have w: "wait_every_15_sec ?s2 = Some (Inr ?s3)"
    using wait_boundary_reads[OF time(2,3)] by (simp add: wait_every_15_sec_def s2 time(1))
  note fit = fits(2)[unfolded tones_fit_def]
  obtain table b2 where tab: "setupDMATab c ?sp ?plld cp b = Inr (c, table, b2)" using setupDMATab_fits[OF fits(2)] by blast
  have pos: "0 < c - 1.5 * ?sp" "0 < ?plld" "0 < ?sp" using fit by simp_all
  have c0: "c \<noteq> 0" using pos by auto
  have top: "c + 5.5 * ?sp \<le> ?plld"
  proof -
    have "0 \<le> c + 5.5 * ?sp" using pos(1,3) by linarith
    moreover have "1 \<le> real_of_int N" using fit by simp
    ultimately have "(c + 5.5 * ?sp) * 1 \<le> (c + 5.5 * ?sp) * of_int N" by (rule mult_left_mono[rotated])
    also from fit have "(c + 5.5 * ?sp) * of_int N \<le> ?plld" by blast
    finally show ?thesis by simp
  qed
  have tn: "tune env (start_ppm env po) c ?sp cp ?s3 = Some (Inr (c, table, ?s3\<lparr>board := b2\<rparr>))"
    using tab c0 by (simp add: tune_def s2)
  let ?s4 = "?s3\<lparr>board := b2\<rparr>"
  have b2: "polls b2 = polls (board s)" "busy b2 = busy b" using setupDMATab_result(3,8)[OF tab] su(3) by simp_all
  have "\<exists>hs s'. transmit env FT8_SYMTIME c ?sp table instrs cp symbols begin_tx ?s4 = Some (Inr s') \<and> length hs = length symbols
    \<and> trace s' = trace ?s4 @ [SentTo (new_socket s) (tx_letter True (''Transmitting...'' @ newline))]
        @ Carrier True # sym_events FT8_SYMTIME t0 0 symbols ts hs @ [Carrier False]
    \<and> list_all exact_event (sym_events FT8_SYMTIME t0 0 symbols ts hs) \<and> clock s' = rest \<and> new_socket s' = new_socket ?s4
    \<and> settles k (busy (board s')) \<and> length (busy (board ?s4)) \<le> length (busy (board s')) + 2 * k"
    using time enc hw su(4,5) b2
    by (intro transmit_total[OF tab pos(2,3,1) top su(2) _ hw(4)]) (simp_all add: begin_tx_def emit_def s2 FT8_SYMTIME_def)
  then obtain hs s' where tx: "transmit env FT8_SYMTIME c ?sp table instrs cp symbols begin_tx ?s4 = Some (Inr s')" "length hs = NSYM"
    "trace s' = trace s @ ?fm @ SentTo (new_socket s) (tx_letter True (''Transmitting...'' @ newline))
        # Carrier True # sym_events FT8_SYMTIME t0 0 symbols ts hs @ [Carrier False]"
    "list_all exact_event (sym_events FT8_SYMTIME t0 0 symbols ts hs)" "clock s' = rest" "new_socket s' = new_socket s"
    "settles k (busy (board s'))" "length (busy (board ?s4)) \<le> length (busy (board s')) + 2 * k"
    using enc(2) by (auto simp: s2)
  have "ft8_band env po instrs cp symbols 0 (start_ppm env po) 0 ?s1 = Some (Inr (start_ppm env po, 1, end_tx s'))"
    using parse(3-5) c0 by (simp add: ft8_band_def cc w tn tx(1))
  then have "ft8_loop env po instrs cp symbols 0 (start_ppm env po) 0 ?s1 = Some (Inr (end_tx s'))"
    using parse(3,6) by (subst ft8_loop.simps) simp
  then have "mainFT8 env argv s = Some (Inr (0, end_tx s'))"
    using parse(1,2) enc(1) by (simp add: mainFT8_def su(1) Let_def)
  moreover have "length (busy (board s)) \<le> length (busy (board s')) + 4 * k" using tx(8) su(6) b2 by simp
  ultimately show ?thesis using tx by (intro exI[of _ hs] exI[of _ "end_tx s'"]) (simp add: end_tx_def)
qed

text \<open>
  C38. A request is transmitted. For a request with one frequency whose eight tones fit between two integer
  dividers, a message the encoder accepts, a clock that reaches the next quarter of a minute and hardware
  that answers, \<^verbatim>\<open>mainFT8\<close> returns 0 after exactly this: the frequency it chose is reported (to a connected
  client), \<^verbatim>\<open>Transmitting...\<close> is sent, the carrier goes on, the 79 symbols are sent in order, each with the
  clocks of the time left until its scheduled end, the carrier goes off, and the end is reported.
\<close>

theorem request_transmitted:
  assumes parse: "parse_commandline (strtod env) argv = Some po" "o_mode po \<noteq> TONE" "center_freq_set po = [f]"
      "\<not> self_cal po" "\<not> no_delay po" "\<not> o_repeat po"
    and enc: "ft8_symbols env (o_message po) = Inr symbols" "length symbols = NSYM" "\<forall>x \<in> set symbols. x < 8"
    and fits: "c = fst (choose_center env (random_offset po) (f, s))"
      "tones_fit c (1 / FT8_SYMTIME) (F_PLLD_CLK env * (1 - start_ppm env po / 1000000)) N"
    and time: "clock s = ws @ tb # t0 # ts @ te # rest" "\<forall>t \<in> set ws. \<not> slot_start t" "slot_start tb"
      "length ts = NSYM" "\<forall>t \<in> set ts. t0 \<le> t"
    and hw: "length (junk_instrs env) = 1024" "settles k (busy (board s))" "4 * k \<le> length (busy (board s))"
      "0 < m" "moves m (polls (board s))"
      "4 * m * rounds (c_round (F_PWM_CLK_INIT * (real NSYM * FT8_SYMTIME))) * NSYM \<le> length (polls (board s))"
  shows "\<exists>hs s'. mainFT8 env argv s = Some (Inr (0, s')) \<and> length hs = NSYM \<and> clock s' = rest
    \<and> trace s' = trace s
        @ (if 0 < new_socket s then [SentTo (new_socket s) (tx_letter True (snprintf_s MAXMSGSIZE (''FREQ '' @ int_dec (c_round c))))] else [])
        @ SentTo (new_socket s) (tx_letter True (''Transmitting...'' @ newline))
        # Carrier True # sym_events FT8_SYMTIME t0 0 symbols ts hs
        @ [Carrier False, SentTo (new_socket s) (tx_letter False (''End of transmission...'' @ newline))]
    \<and> list_all exact_event (sym_events FT8_SYMTIME t0 0 symbols ts hs)
    \<and> settles k (busy (board s')) \<and> length (busy (board s)) \<le> length (busy (board s')) + 4 * k"
  using assms by (rule ft8_request_total)

lemma alternating_moves: "moves 2 (map (\<lambda>i. of_nat (i mod 2)) [0..<n])"
proof (rule moves_2)
  fix i assume i: "i + 1 < length (map (\<lambda>i. of_nat (i mod 2) :: u32) [0..<n])"
  have "i mod 2 = 0 \<and> Suc i mod 2 = 1 \<or> i mod 2 = 1 \<and> Suc i mod 2 = 0" by presburger
  then show "map (\<lambda>i. of_nat (i mod 2) :: u32) [0..<n] ! i \<noteq> map (\<lambda>i. of_nat (i mod 2)) [0..<n] ! (i + 1)"
    using i by auto
qed

definition demo_txenv :: txenv where
  "demo_txenv = \<lparr>strtod = (\<lambda>t. (14075500, length t)), fw = demo_firmware, pwm_div = 0x5A003000, F_PLLD_CLK = 750000000,
     rnd = (\<lambda>_. 5), ntx_freq = (\<lambda>_. 0), txcal = None, ft8_symbols = (\<lambda>t. Inr (replicate 79 3)), junk_instrs = demo_ring\<rparr>"

definition demo_txs :: txs where
  "demo_txs = \<lparr>board = demo_board\<lparr>polls := map (\<lambda>i. of_nat (i mod 2))
       [0..<4 * 2 * rounds (c_round (F_PWM_CLK_INIT * (real NSYM * FT8_SYMTIME))) * NSYM]\<rparr>,
     clock = 14500000 # 15000000 # 15500000 # map (\<lambda>i. 15500000 + 160000 * int i) [0..<79] @ [28140000],
     rand_j = 0, ntp_j = 0, new_socket = 5, trace = []\<rparr>"

definition demo_argv :: "string list" where
  "demo_argv = [''FT8Tx'', ''14075500'', ''CQ'', ''SA0PRF'', ''JO99'']"

lemma demo_argv_parse:
  "parse_commandline (strtod demo_txenv) demo_argv
     = Some (default_opts\<lparr>center_freq_set := [14075500], o_message := ''CQ SA0PRF JO99''\<rparr>)"
proof -
  have g: "getopt [] (tl demo_argv) = ([], tl demo_argv)"
    by (rule getopt_plain_all) (simp add: demo_argv_def plain_word_def)
  have b: "band_freq ''14075500'' = None" by (rule band_freq_None) simp_all
  have u: "map toupper_c ''CQ SA0PRF JO99'' = ''CQ SA0PRF JO99''" by code_simp
  show ?thesis unfolding parse_commandline_def g
    by (simp add: demo_argv_def parse_free_def parse_tx_freq_def b demo_txenv_def default_opts_def check_opts_def Let_def)
      (use u in simp)
qed

lemma settles_idle: "0 < k \<Longrightarrow> settles k (replicate n False)"
  unfolding settles_def by (intro allI impI exI[of _ 0]) simp

lemma demo_clock:
  "clock demo_txs = [14500000] @ 15000000 # 15500000 # map (\<lambda>i. 15500000 + 160000 * int i) [0..<79] @ 28140000 # []"
  by (simp add: demo_txs_def del: upt.simps upt_rec_numeral)

lemma demo_times:
  "\<forall>t \<in> set [14500000]. \<not> slot_start t" "slot_start 15000000"
  "length (map (\<lambda>i. 15500000 + 160000 * int i) [0..<79]) = NSYM"
  "\<forall>t \<in> set (map (\<lambda>i. 15500000 + 160000 * int i) [0..<79]). 15500000 \<le> t"
  by (simp_all add: slot_start_def NSYM_def del: upt.simps upt_rec_numeral)

theorem request_transmitted_witness:
  "\<exists>s'. mainFT8 demo_txenv demo_argv demo_txs = Some (Inr (0, s')) \<and> clock s' = []
     \<and> hd (trace s') = SentTo 5 (tx_letter True ''FREQ 14075500'')"
proof -
  let ?po = "default_opts\<lparr>center_freq_set := [14075500], o_message := ''CQ SA0PRF JO99''\<rparr>"
  have po: "o_mode ?po \<noteq> TONE" "center_freq_set ?po = [14075500]" "\<not> self_cal ?po" "\<not> no_delay ?po" "\<not> o_repeat ?po"
    "start_ppm demo_txenv ?po = 0" "\<not> random_offset ?po"
    by (simp_all add: default_opts_def start_ppm_def demo_txenv_def)
  have r: "c_round 14075500 = 14075500" using c_round_of_int[of 14075500] by simp
  have cc: "14075500 = fst (choose_center demo_txenv (random_offset ?po) (14075500, demo_txs))"
    using po(7) by (simp add: choose_center_def r isBandBase_def kBandBase_def)
  have fit: "tones_fit 14075500 (1 / FT8_SYMTIME) (F_PLLD_CLK demo_txenv * (1 - start_ppm demo_txenv ?po / 1000000)) 53"
    unfolding po(6) by (simp add: tones_fit_def FT8_SYMTIME_def demo_txenv_def)
  have sym: "ft8_symbols demo_txenv (o_message ?po) = Inr (replicate 79 3)" "length (replicate 79 (3::nat)) = NSYM"
    "\<forall>x \<in> set (replicate 79 (3::nat)). x < 8"
    by (simp_all add: demo_txenv_def NSYM_def)
  have hw: "length (junk_instrs demo_txenv) = 1024" "settles 1 (busy (board demo_txs))" "4 * 1 \<le> length (busy (board demo_txs))"
    "moves 2 (polls (board demo_txs))"
    "4 * 2 * rounds (c_round (F_PWM_CLK_INIT * (real NSYM * FT8_SYMTIME))) * NSYM \<le> length (polls (board demo_txs))"
    using alternating_moves settles_idle[of 1 20]
    by (simp_all add: demo_txenv_def demo_txs_def demo_board_def demo_ring_length del: upt.simps upt_rec_numeral)
  have k: "new_socket demo_txs = 5" "trace demo_txs = []" by (simp_all add: demo_txs_def del: upt.simps upt_rec_numeral)
  obtain hs s' where t: "mainFT8 demo_txenv demo_argv demo_txs = Some (Inr (0, s'))" "clock s' = []"
    "trace s' = trace demo_txs
        @ (if 0 < new_socket demo_txs then [SentTo (new_socket demo_txs) (tx_letter True (snprintf_s MAXMSGSIZE (''FREQ '' @ int_dec (c_round 14075500))))] else [])
        @ SentTo (new_socket demo_txs) (tx_letter True (''Transmitting...'' @ newline))
        # Carrier True # sym_events FT8_SYMTIME 15500000 0 (replicate 79 3) (map (\<lambda>i. 15500000 + 160000 * int i) [0..<79]) hs
        @ [Carrier False, SentTo (new_socket demo_txs) (tx_letter False (''End of transmission...'' @ newline))]"
    using request_transmitted[OF demo_argv_parse po(1-5) sym cc fit demo_clock demo_times hw(1-3) pos2 hw(4,5)] by (elim exE conjE) (rule that)
  have "hd (trace s') = SentTo 5 (tx_letter True (snprintf_s MAXMSGSIZE (''FREQ '' @ int_dec (c_round 14075500))))"
    unfolding t(3) k by (simp only: append_Nil append_Cons list.sel if_True zero_less_numeral)
  moreover have "snprintf_s MAXMSGSIZE (''FREQ '' @ int_dec 14075500) = ''FREQ 14075500''" by (simp add: dec_eval MAXMSGSIZE_def snprintf_s_def)
  ultimately show ?thesis unfolding r using t(1,2) by auto
qed

end
