(* ===== verification/TxDaemon.thy ===== *)
theory TxDaemon
  imports WsprMain TxOnAir
begin

text \<open>
  \<^verbatim>\<open>main\<close> of \<^verbatim>\<open>ft8.cpp\<close>: with arguments it is a command line program, without it is the daemon that serves
  one request after the other. The end of a request is the clean-up of the hardware.
\<close>

subsection \<open>Clean-up\<close>

text \<open>The fields of the pool keep their values.\<close>

definition deallocMemPool :: "txs \<Rightarrow> txs" where
  "deallocMemPool s =
     (let m = pool (board s);
          s = (if virt_addr m \<noteq> 0 then emit (Unmapped (virt_addr m) (pool_size m * 4096)) s else s)
      in if mem_ref m \<noteq> 0 then emit (MemFreed (mem_ref m)) s else s)"

definition cleanup :: "txs \<Rightarrow> txs run" where
  "cleanup s =
     ebind (on_board disable_clock s) (\<lambda>s.
     ebind (on_board unSetupDMA s) (\<lambda>s. Some (Inr (deallocMemPool s))))"

definition handleBrokenPipe :: "txs \<Rightarrow> txs" where
  "handleBrokenPipe s = s\<lparr>new_socket := 0\<rparr>"

subsection \<open>The test transmission\<close>

text \<open>\<^verbatim>\<open>sleep\<close> does not read the clock; the two readings are those of \<^verbatim>\<open>time\<close>.\<close>

definition handleSendTx :: "txs \<Rightarrow> (int \<times> txs) run" where
  "handleSendTx s =
     ebind (read_clock s) (\<lambda>(_, s).
     ebind (read_clock s) (\<lambda>(_, s).
     let s = emit (SentTo (new_socket s) (tx_letter True (''Transmitting...'' @ newline))) s;
         s = emit (SentTo (new_socket s) (tx_letter False (''End of transmission'' @ newline))) s
     in Some (Inr (0, s))))"

subsection \<open>The daemon\<close>

text \<open>
  What a turn of the loop meets: \<^verbatim>\<open>select\<close> fails, a client whose \<^verbatim>\<open>accept\<close> fails, a client that closes
  without a letter, or a letter. The new connection's descriptor replaces \<^verbatim>\<open>new_socket\<close>.
\<close>

datatype daemon_input =
    SelectError
  | AcceptError
  | Hangup int
  | Letter int FT8Msg

text \<open>\<^verbatim>\<open>junk\<close> is the uninitialised rest of \<^verbatim>\<open>Txletter\<close>.\<close>

definition answer :: "FT8Msg \<Rightarrow> SignalType \<Rightarrow> string \<Rightarrow> txs \<Rightarrow> txs" where
  "answer junk ty t s = emit (SentTo (new_socket s) (junk\<lparr>msg_type := ty, ft8Message := t\<rparr>)) s"

text \<open>\<open>None\<close> as the words is a failing \<^verbatim>\<open>wordexp\<close>, which leaves \<^verbatim>\<open>params\<close> unassigned.\<close>

definition serve :: "txenv \<Rightarrow> (string \<Rightarrow> string list option) \<Rightarrow> FT8Msg \<Rightarrow> FT8Msg \<Rightarrow> txs \<Rightarrow> txs run" where
  "serve env words junk m s =
     (case msg_type m of
        SEND_F8_REQ \<Rightarrow>
          (let s = answer junk SEND_ACK ''SEND_F8_REQ'' s in
           case words (ft8Message m) of
             None \<Rightarrow> Some (Inl Uninitialised)
           | Some argv \<Rightarrow> ebind (mainFT8 env argv s) (\<lambda>(_, s). cleanup s))
      | TEST_SEND \<Rightarrow>
          ebind (handleSendTx (answer junk SEND_ACK ''TEST_SEND'' s)) (\<lambda>(_, s). Some (Inr s))
      | SEND_WSPR \<Rightarrow>
          (let s = answer junk SEND_ACK ''SEND_WSPR_REQ'' s in
           case words (ft8Message m) of
             None \<Rightarrow> Some (Inl Uninitialised)
           | Some argv \<Rightarrow> ebind (mainWSPR env argv s) (\<lambda>(_, s). cleanup s))
      | _ \<Rightarrow> Some (Inr (answer junk REJECTED ''Wrong Signal'' s)))"

text \<open>One turn: whether the loop goes on.\<close>

definition daemon_turn :: "txenv \<Rightarrow> (string \<Rightarrow> string list option) \<Rightarrow> FT8Msg \<Rightarrow> daemon_input \<Rightarrow> txs \<Rightarrow> (bool \<times> txs) run" where
  "daemon_turn env words junk inp s =
     (case inp of
        SelectError \<Rightarrow> Some (Inr (False, s))
      | AcceptError \<Rightarrow> Some (Inl Exited)
      | Hangup fd \<Rightarrow> Some (Inr (True, s\<lparr>new_socket := fd\<rparr>))
      | Letter fd m \<Rightarrow> ebind (serve env words junk m (s\<lparr>new_socket := fd\<rparr>)) (\<lambda>s. Some (Inr (True, s))))"

definition strstr :: "string \<Rightarrow> string \<Rightarrow> bool" where
  "strstr s t \<longleftrightarrow> (\<exists>i \<in> set [0..<length s + 1]. strncmp_eq (drop i s) t)"

text \<open>The command line program.\<close>

definition tx_main :: "txenv \<Rightarrow> string list \<Rightarrow> txs \<Rightarrow> txs run" where
  "tx_main env argv s =
     ebind (if strstr (hd argv) ''ft8'' then mainFT8 env argv s else mainWSPR env argv s) (\<lambda>(_, s). cleanup s)"

subsection \<open>From the QSO handler to the air\<close>

lemma cleanup_total:
  assumes "settles k (busy (board s))" "2 * k \<le> length (busy (board s))"
  shows "\<exists>s' es. cleanup s = Some (Inr s') \<and> trace s' = trace s @ es \<and> set es \<subseteq> range MemFreed \<union> {Unmapped a n |a n. True}"
proof -
  have k: "k \<le> length (busy (board s))" using assms(2) by linarith
  obtain b where b: "disable_clock (board s) = Some b" "settles k (busy b)" "length (busy (board s)) \<le> length (busy b) + k"
    using disable_clock_settles[OF assms(1) k] by blast
  then have "k \<le> length (busy b)" using assms(2) by linarith
  then obtain b' where "unSetupDMA b = Some b'"
    using txoff_settles[of k "set_reg DMA_BUS_BASE (push_bit 31 1) b"] b(2) by (cases "mapped b") (auto simp: unSetupDMA_def)
  then have "cleanup s = Some (Inr (deallocMemPool (s\<lparr>board := b'\<rparr>)))" using b(1) by (simp add: cleanup_def on_board_def)
  moreover have "\<exists>es. trace (deallocMemPool (s\<lparr>board := b'\<rparr>)) = trace s @ es \<and> set es \<subseteq> range MemFreed \<union> {Unmapped a n |a n. True}"
    by (auto simp: deallocMemPool_def Let_def)
  ultimately show ?thesis by blast
qed

lemma choose_center_verbatim:
  "\<not> isBandBase f \<Longrightarrow> fst (choose_center env False (of_int f, s)) = of_int f"
  by (simp add: choose_center_def)

lemma request_on_air:
  fixes q :: qso and qe :: qenv and w :: string
  defines "f \<equiv> freq (currentQSO q)" and "msg \<equiv> upper (src (currentQSO q) @ '' '' @ rcall (dec_options qe) @ '' '' @ w)"
  assumes words: "is_word (src (currentQSO q))" "is_word (rcall (dec_options qe))" "is_word w"
      "plain_word (src (currentQSO q))" "plain_word (rcall (dec_options qe))" "plain_word w"
    and f: "0 \<le> f" "\<not> isBandBase f" "length (int_dec f) < 35" "strtod env (int_dec f) = (of_int f, length (int_dec f))"
      "tones_fit (of_int f) (1 / FT8_SYMTIME) (F_PLLD_CLK env * (1 - start_ppm env default_opts / 1000000)) N"
    and enc: "ft8_symbols env msg = Inr symbols" "length symbols = NSYM" "\<forall>x \<in> set symbols. x < 8"
    and time: "clock s = ws @ tb # t0 # ts @ te # rest" "\<forall>t \<in> set ws. \<not> slot_start t" "slot_start tb"
      "length ts = NSYM" "\<forall>t \<in> set ts. t0 \<le> t"
    and hw: "length (junk_instrs env) = 1024" "settles k (busy (board s))" "6 * k \<le> length (busy (board s))"
      "0 < m" "moves m (polls (board s))"
      "4 * m * rounds (c_round (F_PWM_CLK_INIT * (real NSYM * FT8_SYMTIME))) * NSYM \<le> length (polls (board s))"
    and sock: "0 < fd"
  shows "\<exists>hs es s'. daemon_turn env (Some \<circ> c_words) junk
      (Letter fd \<lparr>msg_type = SEND_F8_REQ, ft8Message = tx_text qe q w, RTXstate = b\<rparr>) s = Some (Inr (True, s'))
    \<and> trace s' = trace s
        @ SentTo fd (junk\<lparr>msg_type := SEND_ACK, ft8Message := ''SEND_F8_REQ''\<rparr>)
        # SentTo fd (tx_letter True (''FREQ '' @ int_dec f))
        # SentTo fd (tx_letter True (''Transmitting...'' @ newline))
        # Carrier True # sym_events FT8_SYMTIME t0 0 symbols ts hs
        @ [Carrier False, SentTo fd (tx_letter False (''End of transmission...'' @ newline))] @ es
    \<and> length hs = NSYM \<and> list_all exact_event (sym_events FT8_SYMTIME t0 0 symbols ts hs)
    \<and> set es \<subseteq> range MemFreed \<union> {Unmapped a n |a n. True}"
proof -
  let ?po = "default_opts\<lparr>center_freq_set := [of_int f], o_message := msg\<rparr>"
  let ?s1 = "answer junk SEND_ACK ''SEND_F8_REQ'' (s\<lparr>new_socket := fd\<rparr>)"
  have parse: "parse_commandline (strtod env) (c_words (tx_text qe q w)) = Some ?po"
    using qso_request_understood_words[OF words, of "strtod env"] f(1,4) unfolding f_def msg_def by blast
  have po: "o_mode ?po \<noteq> TONE" "center_freq_set ?po = [of_int f]" "\<not> self_cal ?po" "\<not> no_delay ?po" "\<not> o_repeat ?po"
    "start_ppm env ?po = start_ppm env default_opts" "random_offset ?po = False" "o_message ?po = msg"
    by (simp_all add: default_opts_def start_ppm_def split: option.split)
  have s1: "clock ?s1 = clock s" "board ?s1 = board s" "new_socket ?s1 = fd"
    "trace ?s1 = trace s @ [SentTo fd (junk\<lparr>msg_type := SEND_ACK, ft8Message := ''SEND_F8_REQ''\<rparr>)]"
    by (simp_all add: answer_def)
  have c: "of_int f = fst (choose_center env (random_offset ?po) (of_int f, ?s1))"
    unfolding po(7) choose_center_verbatim[OF f(2)] ..
  have e1: "ft8_symbols env (o_message ?po) = Inr symbols" using enc(1) po(8) by simp
  have f1: "tones_fit (of_int f) (1 / FT8_SYMTIME) (F_PLLD_CLK env * (1 - start_ppm env ?po / 1000000)) N" unfolding po(6) by (rule f(5))
  have t1: "clock ?s1 = ws @ tb # t0 # ts @ te # rest" using time(1) s1(1) by simp
  have h1: "settles k (busy (board ?s1))" "moves m (polls (board ?s1))"
    "4 * m * rounds (c_round (F_PWM_CLK_INIT * (real NSYM * FT8_SYMTIME))) * NSYM \<le> length (polls (board ?s1))"
    unfolding s1(2) using hw by blast+
  have hw3: "4 * k \<le> length (busy (board ?s1))" using hw(3) s1(2) by simp
  have fr: "snprintf_s MAXMSGSIZE (''FREQ '' @ int_dec (c_round (of_int f))) = ''FREQ '' @ int_dec f"
    using f(3) by (simp add: MAXMSGSIZE_def)
  obtain hs s2 where r: "mainFT8 env (c_words (tx_text qe q w)) ?s1 = Some (Inr (0, s2))" "length hs = NSYM"
    "trace s2 = trace ?s1 @ (if 0 < new_socket ?s1 then [SentTo (new_socket ?s1) (tx_letter True (snprintf_s MAXMSGSIZE (''FREQ '' @ int_dec (c_round (of_int f)))))] else [])
        @ SentTo (new_socket ?s1) (tx_letter True (''Transmitting...'' @ newline))
        # Carrier True # sym_events FT8_SYMTIME t0 0 symbols ts hs
        @ [Carrier False, SentTo (new_socket ?s1) (tx_letter False (''End of transmission...'' @ newline))]"
    "list_all exact_event (sym_events FT8_SYMTIME t0 0 symbols ts hs)" "settles k (busy (board s2))"
    "length (busy (board ?s1)) \<le> length (busy (board s2)) + 4 * k"
    using ft8_request_total[OF parse po(1-5) e1 enc(2,3) c f1 t1 time(2-5) hw(1) h1(1) hw3 hw(4) h1(2,3)] by blast
  have "2 * k \<le> length (busy (board s2))" using r(6) hw(3) s1(2) by simp
  from cleanup_total[OF r(5) this] obtain s3 es where cl: "cleanup s2 = Some (Inr s3)" "trace s3 = trace s2 @ es"
    "set es \<subseteq> range MemFreed \<union> {Unmapped a n |a n. True}" by blast
  have "daemon_turn env (Some \<circ> c_words) junk (Letter fd \<lparr>msg_type = SEND_F8_REQ, ft8Message = tx_text qe q w, RTXstate = b\<rparr>) s = Some (Inr (True, s3))"
    using r(1) cl(1) by (simp add: daemon_turn_def serve_def)
  with r(2-4) cl(2,3) sock show ?thesis unfolding s1(3,4) fr by auto
qed



end
