(* ===== verification/WsprReceive.thy ===== *)
theory WsprReceive
  imports Wspr
begin

text \<open>
  What a receiver of WSPR computes from 162 symbols, and that it undoes the encoder on standard messages.
\<close>

subsection \<open>What a receiver of WSPR computes\<close>

fun unconvolve :: "nat list \<Rightarrow> u32 \<Rightarrow> bool list" where
  "unconvolve (s0 # s1 # r) nstate =
     (let z = push_bit 1 nstate; b = (s0 \<noteq> parity_loop (z AND poly0) 0) in b # unconvolve r (z OR of_bool b))"
| "unconvolve _ nstate = []"

definition from_bits :: "bool list \<Rightarrow> nat" where
  "from_bits bs = foldl (\<lambda>a b. 2 * a + of_bool b) 0 bs"

definition deinterleave :: "nat list \<Rightarrow> nat list" where
  "deinterleave symbols = map (\<lambda>i. symbols ! find_rev 162 i [0..<256] div 2) [0..<162]"

definition val_char :: "nat \<Rightarrow> string" where
  "val_char v = (if v < 10 then [char_of (48 + v)] else if v < 36 then [char_of (55 + v)] else [])"

definition letter_char :: "nat \<Rightarrow> string" where
  "letter_char v = (if v < 26 then [char_of (65 + v)] else [])"

definition unpack_call :: "nat \<Rightarrow> string" where
  "unpack_call n =
     (let a = n div 19683 in
      val_char (a div 360) @ val_char (a div 10 mod 36) @ [char_of (48 + a mod 10)]
      @ letter_char (n div 729 mod 27) @ letter_char (n div 27 mod 27) @ letter_char (n mod 27))"

definition unpack_grid :: "nat \<Rightarrow> string" where
  "unpack_grid g =
     (let m = 179 - g div 180; r = g mod 180 in
      [char_of (65 + m div 10), char_of (65 + r div 10), char_of (48 + m mod 10), char_of (48 + r mod 10)])"

definition wspr_receive :: "nat list \<Rightarrow> string \<times> string \<times> nat" where
  "wspr_receive symbols =
     (let bits = unconvolve (deinterleave symbols) 0;
          n1 = from_bits (take 28 bits); n2 = from_bits (take 22 (drop 28 bits))
      in (unpack_call n1, unpack_grid (n2 div 128), n2 mod 128 - 64))"

subsection \<open>The receiver undoes the encoder\<close>

lemma parity_flip: "ev \<le> 1 \<Longrightarrow> parity_loop n (1 - ev) = 1 - parity_loop n ev"
proof (induction n ev rule: parity_loop.induct)
  case (1 n ev)
  show ?case
  proof (cases "n = 0")
    case False
    have "parity_loop (n AND (n - 1)) (1 - (1 - ev)) = 1 - parity_loop (n AND (n - 1)) (1 - ev)"
      using 1 False by simp
    then show ?thesis using False by (subst (1 2) parity_loop.simps) simp
  qed (simp add: parity_loop.simps)
qed

lemma parity_or_1:
  assumes "\<not> bit z 0"
  shows "parity_loop (z OR 1) 0 = 1 - parity_loop z 0"
proof -
  have "z OR 1 = z + 1" using assms by (simp add: or_one_eq bit_0)
  then have "(z OR 1) - 1 = z" by simp
  moreover have "(z OR 1) AND z = z" by (simp add: bit.conj_disj_distrib2)
  moreover have "z OR 1 \<noteq> 0" by (metis bit_0_eq or_eq_0_iff zero_neq_one)
  ultimately have "parity_loop (z OR 1) 0 = parity_loop z (1 - 0)" by (subst parity_loop.simps) simp
  then show ?thesis using parity_flip[of 0 z] by simp
qed

lemma parity_le: "ev \<le> 1 \<Longrightarrow> parity_loop n ev \<le> 1"
  by (induction n ev rule: parity_loop.induct) (subst parity_loop.simps, simp)

lemma unconvolve_convolve: "unconvolve (convolve_bits bs nstate) nstate = bs"
proof (induction bs arbitrary: nstate)
  case (Cons b bs)
  let ?z = "push_bit 1 nstate AND poly0"
  have z: "\<not> bit ?z 0" by (simp only: bit_and_iff bit_push_bit_iff) simp
  have "(push_bit 1 nstate OR of_bool b) AND poly0 = (if b then ?z OR 1 else ?z)"
    by (auto intro!: bit_eqI simp: bit_simps poly0_def)
  then have "(parity_loop ((push_bit 1 nstate OR of_bool b) AND poly0) 0 \<noteq> parity_loop ?z 0) = b"
    using parity_or_1[OF z] parity_le[of 0 ?z] by (cases "parity_loop ?z 0") auto
  then show ?case using Cons by (simp add: Let_def)
qed simp

lemma convolve_length: "length (convolve_bits bs st) = 2 * length bs"
  by (induction bs arbitrary: st) (simp_all add: Let_def)

text \<open>The positions of the interleaver are a permutation of 0..161.\<close>

definition rev_order :: "nat list" where
  "rev_order = filter (\<lambda>j. j < 162) (map (\<lambda>k. rev_bits 8 k 0) [0..<256])"

lemma find_rev_nth:
  "i < length (filter (\<lambda>j. j < lim) (map (\<lambda>k. rev_bits 8 k 0) ks)) \<Longrightarrow>
     find_rev lim i ks = filter (\<lambda>j. j < lim) (map (\<lambda>k. rev_bits 8 k 0) ks) ! i"
proof (induction ks arbitrary: i)
  case (Cons k ks)
  then show ?case by (cases "rev_bits 8 k 0 < lim"; cases i) (simp_all only: find_rev.simps Let_def list.map filter.simps if_True if_False nat.case nth_Cons_0 nth_Cons_Suc list.size Suc_less_eq add_Suc_right add_0_right)
qed simp

lemma rev_bits_less: "rev_bits m k j < (j + 1) * 2 ^ m"
proof (induction m k j rule: rev_bits.induct)
  case (2 m k j)
  have "2 * j + k mod 2 + 1 \<le> 2 * (j + 1)" by presburger
  then have "(2 * j + k mod 2 + 1) * 2 ^ m \<le> 2 * (j + 1) * 2 ^ m" by (rule mult_right_mono) simp
  also have "\<dots> = (j + 1) * 2 ^ Suc m" by (simp only: power_Suc ac_simps)
  finally have "(2 * j + k mod 2 + 1) * 2 ^ m \<le> (j + 1) * 2 ^ Suc m" .
  with 2 show ?case unfolding rev_bits.simps by (rule order_less_le_trans)
qed simp

lemma rev_bits_inj: "rev_bits m k j = rev_bits m k' j' \<Longrightarrow> k < 2 ^ m \<Longrightarrow> k' < 2 ^ m \<Longrightarrow> k = k' \<and> j = j'"
proof (induction m arbitrary: k k' j j')
  case (Suc m)
  have d: "k div 2 < 2 ^ m" "k' div 2 < 2 ^ m" using Suc.prems(2,3) by (simp_all add: less_mult_imp_div_less mult.commute)
  have h: "k div 2 = k' div 2 \<and> 2 * j + k mod 2 = 2 * j' + k' mod 2"
    using Suc.IH[OF _ d] Suc.prems(1) unfolding rev_bits.simps by blast
  then have "(2 * j + k mod 2) mod 2 = (2 * j' + k' mod 2) mod 2" by simp
  then have "k mod 2 = k' mod 2" by simp
  with h show ?case by (metis div_mult_mod_eq add_right_cancel mult_cancel1 zero_neq_numeral)
qed simp

lemma rev_order_props: "distinct rev_order" "length rev_order = 162" "set rev_order = {0..<162}"
proof -
  let ?f = "\<lambda>k. rev_bits 8 k 0"
  have inj: "inj_on ?f {0..<256}"
  proof (rule inj_onI)
    fix x y :: nat assume "x \<in> {0..<256}" "y \<in> {0..<256}" "?f x = ?f y"
    then show "x = y" using rev_bits_inj[of 8 x 0 y 0] by simp
  qed
  then have d: "distinct (map ?f [0..<256])" by (simp only: distinct_map distinct_upt set_upt simp_thms)
  then show 1: "distinct rev_order" unfolding rev_order_def by (rule distinct_filter)
  have "?f ` {0..<256} \<subseteq> {0..<256}" using rev_bits_less[of 8 _ 0] by auto
  then have "?f ` {0..<256} = {0..<256}" using inj by (intro endo_inj_surj) simp_all
  then show 2: "set rev_order = {0..<162}" unfolding rev_order_def set_filter set_map set_upt by auto
  show "length rev_order = 162" using distinct_card[OF 1] 2 by simp
qed

lemma find_rev_162: "i < 162 \<Longrightarrow> find_rev 162 i [0..<256] = rev_order ! i"
  using find_rev_nth[of i 162 "[0..<256]"] rev_order_props(2) unfolding rev_order_def by simp

lemma fold_updates:
  assumes "distinct (map f is)" "\<forall>i \<in> set is. f i < length xs" "i \<in> set is"
  shows "fold (\<lambda>i s. s[f i := g i]) is xs ! f i = g i"
  using assms
proof (induction "is" arbitrary: xs)
  case (Cons j js)
  have keep: "f i \<notin> f ` set js \<Longrightarrow> fold (\<lambda>i s. s[f i := g i]) js ys ! f i = ys ! f i" for ys
    by (induction js arbitrary: ys) auto
  show ?case
  proof (cases "i \<in> set js")
    case True
    then show ?thesis using Cons by simp
  next
    case False
    then have "i = j" using Cons.prems by simp
    then show ?thesis using keep Cons.prems by auto
  qed
qed simp

lemma npr3_bits: "length npr3 = 162" "\<forall>x \<in> set npr3. x \<le> 1"
  by (simp_all add: npr3_def)

lemma deinterleave_interleave:
  assumes "162 \<le> length sy"
  shows "deinterleave (interleave 162 sy) = take 162 sy"
proof (rule nth_equalityI)
  show "length (deinterleave (interleave 162 sy)) = length (take 162 sy)" using assms by (simp add: deinterleave_def)
  fix i assume "i < length (deinterleave (interleave 162 sy))"
  then have i: "i < 162" by (simp add: deinterleave_def)
  let ?f = "\<lambda>i. find_rev 162 i [0..<256]"
  have e: "map ?f [0..<162] = rev_order"
    by (rule nth_equalityI) (use find_rev_162 rev_order_props(2) in simp_all)
  have d: "distinct (map ?f [0..<162])" unfolding e by (rule rev_order_props(1))
  have lt: "?f i < 162" if "i < 162" for i
    using find_rev_162[OF that] rev_order_props(2,3) nth_mem[of i rev_order] that by simp
  have "interleave 162 sy ! ?f i = npr3 ! ?f i + 2 * (sy ! i)"
    unfolding interleave_def Let_def
    by (rule fold_updates[of ?f "[0..<162]" "replicate 162 0" i "\<lambda>i. npr3 ! ?f i + 2 * (sy ! i)"])
      (use d lt i in \<open>simp_all del: upt_rec_numeral\<close>)
  moreover have "npr3 ! ?f i \<le> 1" using npr3_bits lt[OF i] by simp
  ultimately show "deinterleave (interleave 162 sy) ! i = take 162 sy ! i"
    using i by (simp add: deinterleave_def del: upt_rec_numeral)
qed

lemma convolve_range: "x \<in> set (convolve_bits bs st) \<Longrightarrow> x \<le> 1"
proof (induction bs arbitrary: st)
  case (Cons b bs)
  have "parity_loop z 0 \<le> 1" for z by (rule parity_le) simp
  with Cons show ?case unfolding convolve_bits.simps Let_def list.set by blast
qed simp

lemma interleave_range:
  assumes "162 \<le> length sy" "\<And>x. x \<in> set sy \<Longrightarrow> x \<le> 1"
  shows "length (interleave 162 sy) = 162 \<and> (\<forall>x \<in> set (interleave 162 sy). x < 4)"
proof -
  let ?upd = "\<lambda>i symbols. let j0 = find_rev 162 i [0..<256] in symbols[j0 := npr3 ! j0 + 2 * (sy ! i)]"
  have "length (fold ?upd is xs) = length xs \<and> (\<forall>x \<in> set (fold ?upd is xs). x < 4)"
    if "\<forall>x \<in> set xs. x < 4" "\<forall>i \<in> set is. i < 162" for "is" xs
    using that
  proof (induction "is" arbitrary: xs)
    case (Cons i js)
    let ?j = "find_rev 162 i [0..<256]"
    have i: "i < 162" using Cons.prems(2) by simp
    then have "?j \<in> {0..<162}" using find_rev_162 rev_order_props(2,3) nth_mem[of i rev_order] by simp
    then have "npr3 ! ?j \<le> 1" using npr3_bits by simp
    moreover have "sy ! i \<le> 1" using assms i by simp
    ultimately have "npr3 ! ?j + 2 * (sy ! i) < 4" by linarith
    then have "\<forall>x \<in> set (xs[?j := npr3 ! ?j + 2 * (sy ! i)]). x < 4"
      using Cons.prems(1) set_update_subset_insert by fastforce
    with Cons.IH[of "xs[?j := npr3 ! ?j + 2 * (sy ! i)]"] Cons.prems(2) show ?case by (simp add: Let_def del: upt_rec_numeral)
  qed simp
  from this[of "replicate 162 0" "[0..<162]"] show ?thesis by (simp add: interleave_def del: upt_rec_numeral)
qed

lemma byte_bits_eq: "byte_bits x = [bit x 7, bit x 6, bit x 5, bit x 4, bit x 3, bit x 2, bit x 1, bit x 0]"
  by (simp add: byte_bits_def upt_rec)

lemma packed_bits:
  "concat (map byte_bits (pack_bytes n1 n2))
     = map (\<lambda>i. bit n1 (27 - i)) [0..<28] @ map (\<lambda>i. bit n2 (21 - i)) [0..<22] @ replicate 38 False"
proof -
  have f: "bit (0x0F :: u32) 0" "bit (0x0F :: u32) 1" "bit (0x0F :: u32) 2" "bit (0x0F :: u32) 3" "bit (3 :: u32) 0" "bit (3 :: u32) 1"
    by (simp_all add: bit_simps)
  have r: "replicate 38 False = [False, False, False, False, False, False, False, False, False, False, False, False, False,
      False, False, False, False, False, False, False, False, False, False, False, False, False, False, False, False, False,
      False, False, False, False, False, False, False, False]" by (simp add: numeral_eq_Suc)
  show ?thesis unfolding r
    by (simp add: upt_rec pack_bytes_def byte_bits_eq bit_unsigned_iff bit_or_iff bit_and_iff bit_push_bit_iff bit_drop_bit_eq f numeral_eq_Suc[of "Num.One"])
qed

lemma from_bits_word:
  "foldl (\<lambda>a b. 2 * a + of_bool b) a (map (\<lambda>i. bit n (k - 1 - i)) [0..<k]) = a * 2 ^ k + take_bit k (n :: nat)"
proof (induction k arbitrary: a)
  case (Suc k)
  have "map (\<lambda>i. bit n (Suc k - 1 - i)) [0..<Suc k] = bit n k # map (\<lambda>i. bit n (k - 1 - i)) [0..<k]"
    by (rule nth_equalityI) (auto simp: nth_Cons split: nat.split simp del: upt_Suc)
  then show ?case using Suc[of "2 * a + of_bool (bit n k)"] by (simp add: take_bit_Suc_from_most algebra_simps del: upt_Suc)
qed simp

lemma received_words:
  assumes "unat n1 < 2 ^ 28" "unat n2 < 2 ^ 22"
  defines "bits \<equiv> unconvolve (deinterleave (interleave 162 (convolve (pack_bytes n1 n2)))) 0"
  shows "from_bits (take 28 bits) = unat n1" "from_bits (take 22 (drop 28 bits)) = unat n2"
proof -
  let ?bs = "concat (map byte_bits (pack_bytes n1 n2))"
  have len: "length ?bs = 88" by (simp add: packed_bits)
  have un: "unconvolve (take (2 * m) (convolve_bits bs st)) st = take m bs" for m bs st
  proof (induction bs arbitrary: m st)
    case (Cons b bs)
    show ?case
    proof (cases m)
      case (Suc m')
      have "unconvolve (convolve_bits (b # bs) st) st = b # bs" by (rule unconvolve_convolve)
      with Cons.IH[of m'] Suc show ?thesis by (simp add: Let_def)
    qed simp
  qed simp
  have "162 \<le> length (convolve (pack_bytes n1 n2))" by (simp add: convolve_def convolve_length len)
  then have b: "bits = take 81 ?bs"
    using un[of 81 ?bs 0] by (simp add: bits_def deinterleave_interleave convolve_def)
  have t: "take 28 bits = map (\<lambda>i. bit n1 (28 - 1 - i)) [0..<28]" "take 22 (drop 28 bits) = map (\<lambda>i. bit n2 (22 - 1 - i)) [0..<22]"
    unfolding b packed_bits by (simp_all del: upt_rec_numeral)
  have w: "map (\<lambda>i. bit n (k - 1 - i)) [0..<k] = map (\<lambda>i. bit (unat n) (k - 1 - i)) [0..<k]" if "k \<le> 32" for n :: u32 and k
    using that by (auto simp: bit_unsigned_iff)
  have w1: "map (\<lambda>i. bit n1 (28 - 1 - i)) [0..<28] = map (\<lambda>i. bit (unat n1) (28 - 1 - i)) [0..<28]" by (rule w) simp
  have w2: "map (\<lambda>i. bit n2 (22 - 1 - i)) [0..<22] = map (\<lambda>i. bit (unat n2) (22 - 1 - i)) [0..<22]" by (rule w) simp
  show "from_bits (take 28 bits) = unat n1" "from_bits (take 22 (drop 28 bits)) = unat n2"
    unfolding t from_bits_def w1 w2 from_bits_word using assms(1,2) by (simp_all add: take_bit_nat_eq_self)
qed

subsection \<open>Standard messages\<close>

definition upper_letter :: "char \<Rightarrow> bool" where
  "upper_letter x \<longleftrightarrow> 65 \<le> code x \<and> code x \<le> 90"

text \<open>One or two letters or digits, a digit, and up to three letters.\<close>

definition standard_call :: "string \<Rightarrow> bool" where
  "standard_call c \<longleftrightarrow> (\<exists>pre d suf. c = pre @ d # suf \<and> (length pre = 1 \<or> length pre = 2) \<and> length suf \<le> 3
     \<and> (\<forall>x \<in> set pre. upper_letter x \<or> isdigit_c x) \<and> isdigit_c d \<and> (\<forall>x \<in> set suf. upper_letter x))"

definition standard_grid :: "string \<Rightarrow> bool" where
  "standard_grid l \<longleftrightarrow> (\<exists>a b m n. l = [a, b, m, n] \<and> 65 \<le> code a \<and> code a \<le> 82 \<and> 65 \<le> code b \<and> code b \<le> 82
     \<and> isdigit_c m \<and> isdigit_c n)"

lemma horner: "r < b \<Longrightarrow> (q * b + r) div b = (q :: nat)" "r < b \<Longrightarrow> (q * b + r) mod b = (r :: nat)"
  by simp_all

lemma unpack_call_value:
  assumes "r1 < 36" "d < 10" "s1 < 27" "s2 < 27" "s3 < 27"
  shows "unpack_call (((((r2 * 36 + r1) * 10 + d) * 27 + s1) * 27 + s2) * 27 + s3)
    = val_char r2 @ val_char r1 @ [char_of (48 + d)] @ letter_char s1 @ letter_char s2 @ letter_char s3"
proof -
  have u: "unpack_call n = val_char (n div 27 div 27 div 27 div 10 div 36) @ val_char (n div 27 div 27 div 27 div 10 mod 36)
      @ [char_of (48 + n div 27 div 27 div 27 mod 10)]
      @ letter_char (n div 27 div 27 mod 27) @ letter_char (n div 27 mod 27) @ letter_char (n mod 27)" for n
    by (simp add: unpack_call_def Let_def flip: div_mult2_eq)
  show ?thesis unfolding u horner[OF assms(5)] horner[OF assms(4)] horner[OF assms(3)] horner[OF assms(2)] horner[OF assms(1)] ..
qed

lemma pack_call_value:
  "pack_call c =
     (let isd = (\<lambda>i. 48 \<le> chr_at c i \<and> chr_at c i \<le> 57); i = (if isd 2 then 2 else if isd 1 then 1 else (0::nat));
          n = int (strlen c) - int i - 1
      in word_of_int (((((right_val c i 2 * 36 + right_val c i 1) * 10 + (chr_at c i - 48)) * 27
           + (if n < 1 then 26 else chr_at c (i + 1) - 65)) * 27 + (if n < 2 then 26 else chr_at c (i + 2) - 65)) * 27
           + (if n < 3 then 26 else chr_at c (i + 3) - 65)))"
  by (simp add: pack_call_def Let_def algebra_simps)

lemma char_of_val: "char_of (code x) = x"
  by (simp add: code_def)

lemma val_char_alnum: "upper_letter x \<or> isdigit_c x \<Longrightarrow> val_char (nat (alnum_val (int (code x)))) = [x] \<and> nat (alnum_val (int (code x))) < 36
    \<and> 0 \<le> alnum_val (int (code x))"
proof -
  assume "upper_letter x \<or> isdigit_c x"
  then consider "48 \<le> code x \<and> code x \<le> 57" | "65 \<le> code x \<and> code x \<le> 90" by (auto simp: upper_letter_def isdigit_c_def)
  then show ?thesis
  proof cases
    case 1
    then have "nat (alnum_val (int (code x))) = code x - 48" by (auto simp: alnum_val_def)
    then show ?thesis using 1 by (auto simp: val_char_def char_of_val alnum_val_def)
  next
    case 2
    then have "nat (alnum_val (int (code x))) = code x - 55" by (auto simp: alnum_val_def)
    then show ?thesis using 2 by (auto simp: val_char_def char_of_val alnum_val_def)
  qed
qed

lemma letter_char_upper: "upper_letter x \<Longrightarrow> letter_char (nat (int (code x) - 65)) = [x] \<and> nat (int (code x) - 65) < 27"
  by (auto simp: letter_char_def upper_letter_def char_of_val nat_diff_distrib)

lemma standard_call_pack:
  assumes "standard_call c"
  shows "\<exists>N. pack_call c = of_nat N \<and> N < 2 ^ 28 \<and> unpack_call N = c"
proof -
  obtain pre d suf where c: "c = pre @ d # suf" "length pre = 1 \<or> length pre = 2" "length suf \<le> 3"
    "\<forall>x \<in> set pre. upper_letter x \<or> isdigit_c x" "isdigit_c d" "\<forall>x \<in> set suf. upper_letter x"
    using assms unfolding standard_call_def by blast
  let ?i = "length pre"
  let ?av = "\<lambda>x. nat (alnum_val (int (code x)))"
  define r2 where "r2 = (if ?i = 1 then 36 else ?av (hd pre))"
  define r1 where "r1 = ?av (last pre)"
  define dd where "dd = code d - 48"
  define sv where "sv k = (if k < length suf then code (suf ! k) - 65 else 26)" for k
  have nz: "\<forall>x \<in> set c. x \<noteq> CHR 0x00" using c by (auto simp: upper_letter_def isdigit_c_def code_def)
  then have len: "strlen c = ?i + 1 + length suf" using c(1) by (simp add: strlen_def takeWhile_eq_all_conv[THEN iffD2])
  have dig: "48 \<le> code d" "code d \<le> 57" using c(5) by (simp_all add: isdigit_c_def)
  have at_d: "chr_at c ?i = int (code d)" using c(1) by (simp add: chr_at_def)
  have at_s: "chr_at c (?i + 1 + k) = int (code (suf ! k))" if "k < length suf" for k
    using c(1) that by (simp add: chr_at_def nth_append)
  have s_up: "65 \<le> code (suf ! k)" "code (suf ! k) \<le> 90" if "k < length suf" for k
    using c(6) that by (auto simp: upper_letter_def)
  have i: "(if 48 \<le> chr_at c 2 \<and> chr_at c 2 \<le> 57 then 2 else if 48 \<le> chr_at c 1 \<and> chr_at c 1 \<le> 57 then 1 else 0) = ?i"
  proof (cases "?i = 2")
    case True
    then show ?thesis using at_d dig by simp
  next
    case False
    then have 1: "?i = 1" using c(2) by simp
    have "chr_at c 2 = (if suf = [] then 0 else int (code (suf ! 0)))"
      using c(1) 1 by (cases suf) (simp_all add: chr_at_def nth_append)
    then have "\<not> chr_at c 2 \<le> 57 \<or> chr_at c 2 = 0" using s_up[of 0] by auto
    then show ?thesis using at_d dig 1 by auto
  qed
  have pre_ne: "pre \<noteq> []" using c(2) by auto
  have last: "chr_at c (?i - 1) = int (code (last pre))"
  proof -
    have "?i - 1 < length c" "?i - 1 < length pre" using c(1) pre_ne by auto
    then show ?thesis using c(1) pre_ne by (simp add: chr_at_def nth_append last_conv_nth)
  qed
  have hd: "chr_at c (?i - 2) = int (code (hd pre))" using c(1) pre_ne c(2) by (auto simp: chr_at_def nth_append hd_conv_nth)
  have rv1: "right_val c ?i 1 = int r1" "r1 < 36" "val_char r1 = [last pre]"
    using val_char_alnum[of "last pre"] c(4) pre_ne last by (auto simp: right_val_def r1_def)
  have rv2: "right_val c ?i 2 = int r2" "r2 \<le> 36"
    using val_char_alnum[of "hd pre"] c(2,4) pre_ne hd by (auto simp: right_val_def r2_def)
  have sv: "(if int (length suf) < int k + 1 then 26 else chr_at c (?i + 1 + k) - 65) = int (sv k)" "sv k < 27"
    "letter_char (sv k) = (if k < length suf then [suf ! k] else [])" for k
    using at_s[of k] s_up[of k] by (auto simp: sv_def letter_char_def char_of_val)
  let ?N = "((((r2 * 36 + r1) * 10 + dd) * 27 + sv 0) * 27 + sv 1) * 27 + sv 2"
  have s012: "(if int (length suf) < 1 then 26 else chr_at c (?i + 1) - 65) = int (sv 0)"
    "(if int (length suf) < 2 then 26 else chr_at c (?i + 2) - 65) = int (sv 1)"
    "(if int (length suf) < 3 then 26 else chr_at c (?i + 3) - 65) = int (sv 2)"
    using at_s[of 0] at_s[of 1] at_s[of 2] s_up[of 0] s_up[of 1] s_up[of 2] by (auto simp: sv_def numeral_3_eq_3)
  have n: "int (strlen c) - int ?i - 1 = int (length suf)" using len by simp
  have dv: "chr_at c ?i - 48 = int dd" "dd < 10" "char_of (48 + dd) = d" using at_d dig by (auto simp: dd_def char_of_val)
  have "pack_call c = word_of_int (((((int r2 * 36 + int r1) * 10 + int dd) * 27 + int (sv 0)) * 27 + int (sv 1)) * 27 + int (sv 2))"
    unfolding pack_call_value Let_def i n rv1(1) rv2(1) dv(1) s012 ..
  then have "pack_call c = of_nat ?N" by simp
  moreover have "?N < 2 ^ 28" using rv2(2) rv1(2) dv(2) sv(2)[of 0] sv(2)[of 1] sv(2)[of 2] by simp
  moreover have "unpack_call ?N = c"
  proof -
    have "val_char r2 @ val_char r1 = pre"
    proof (cases "?i = 1")
      case True
      then show ?thesis using rv1(3) by (cases pre) (auto simp: r2_def val_char_def)
    next
      case False
      then obtain p q where "pre = [p, q]" using c(2) by (auto simp: numeral_2_eq_2 length_Suc_conv)
      then show ?thesis using rv1(3) val_char_alnum[of p] c(4) by (simp add: r2_def)
    qed
    moreover have "letter_char (sv 0) @ letter_char (sv 1) @ letter_char (sv 2) = suf"
      unfolding sv(3) using c(3) by (auto simp: le_Suc_eq numeral_3_eq_3 numeral_2_eq_2 length_Suc_conv)
    ultimately show ?thesis unfolding unpack_call_value[OF rv1(2) dv(2) sv(2) sv(2) sv(2)] dv(3) c(1) by simp
  qed
  ultimately show ?thesis by blast
qed

lemma standard_grid_pack:
  assumes "standard_grid l"
  shows "\<exists>g. pack_grid l = of_nat g \<and> g < 32768 \<and> unpack_grid g = l"
proof -
  obtain a b m n where l: "l = [a, b, m, n]" "65 \<le> code a" "code a \<le> 82" "65 \<le> code b" "code b \<le> 82" "isdigit_c m" "isdigit_c n"
    using assms unfolding standard_grid_def by blast
  define va vb vm vn where "va = code a - 65" "vb = code b - 65" "vm = code m - 48" "vn = code n - 48"
  note v = this
  have dig: "48 \<le> code m" "code m \<le> 57" "48 \<le> code n" "code n \<le> 57" using l by (simp_all add: isdigit_c_def)
  have up: "map toupper_c l = l" using l dig by (simp add: toupper_c_def)
  have b: "va < 18" "vb < 18" "vm < 10" "vn < 10" using l dig by (simp_all add: v)
  let ?g = "(179 - 10 * va - vm) * 180 + (vb * 10 + vn)"
  have c: "code a = va + 65" "code b = vb + 65" "code m = vm + 48" "code n = vn + 48"
    using l dig by (simp_all add: v)
  have "pack_grid l = word_of_int (180 * (179 - 10 * int va - int vm) + 10 * int vb + int vn)"
    using up l(1) by (simp add: pack_grid_def chr_at_def Let_def c)
  also have "180 * (179 - 10 * int va - int vm) + 10 * int vb + int vn = int ?g" using b by (simp add: of_nat_diff)
  finally have "pack_grid l = of_nat ?g" by simp
  moreover have "?g < 32768"
  proof -
    have "(179 - 10 * va - vm) * 180 \<le> 179 * 180" by (rule mult_right_mono) simp_all
    with b show ?thesis by linarith
  qed
  moreover have "unpack_grid ?g = l"
  proof -
    have "vb * 10 + vn < 180" using b by linarith
    then have 1: "?g div 180 = 179 - 10 * va - vm" "?g mod 180 = vb * 10 + vn" by (simp_all only: horner)
    have 2: "179 - (179 - 10 * va - vm) = va * 10 + vm" using b by simp
    have "char_of (65 + va) = a" "char_of (65 + vb) = b" "char_of (48 + vm) = m" "char_of (48 + vn) = n"
      using l dig by (simp_all add: v char_of_val)
    then show ?thesis unfolding unpack_grid_def Let_def 1 2 horner[OF b(3)] horner[OF b(4)] l(1) by simp
  qed
  ultimately show ?thesis by blast
qed

lemma standard_call_chars:
  assumes "standard_call call"
  shows "length call < 16" "map toupper_c call = call" "CHR ''/'' \<notin> set call"
proof -
  obtain pre d suf where c: "call = pre @ d # suf" "length pre = 1 \<or> length pre = 2" "length suf \<le> 3"
    "\<forall>x \<in> set pre. upper_letter x \<or> isdigit_c x" "isdigit_c d" "\<forall>x \<in> set suf. upper_letter x"
    using assms(1) unfolding standard_call_def by blast
  then have cs: "\<forall>x \<in> set call. upper_letter x \<or> isdigit_c x" by auto
  show "length call < 16" using c(1-3) by auto
  have "toupper_c x = x" if "x \<in> set call" for x
    using cs that by (auto simp: upper_letter_def isdigit_c_def toupper_c_def)
  then show "map toupper_c call = call" by (rule map_idI)
  have "\<not> upper_letter CHR ''/''" "\<not> isdigit_c CHR ''/''" by (simp_all add: upper_letter_def isdigit_c_def code_def)
  then show "CHR ''/'' \<notin> set call" using cs by auto
qed

lemma grid_power_word:
  assumes "g < 32768" "p \<le> 60"
  shows "unat (push_bit 7 (of_nat g :: u32) OR word_of_int (int p + 64 + 0)) = g * 128 + (p + 64)"
proof -
  have "of_nat (p + 64) = take_bit 7 (of_nat (p + 64) :: u32)"
    using assms(2) take_bit_nat_eq_self[of "p + 64" 7] by (simp only: take_bit_of_nat) simp
  then have "push_bit 7 (of_nat g :: u32) AND of_nat (p + 64) = push_bit 7 (of_nat g) AND take_bit 7 (of_nat (p + 64))" by simp
  also have "\<dots> = 0" by (auto intro!: bit_eqI simp: bit_simps)
  finally have "push_bit 7 (of_nat g :: u32) AND of_nat (p + 64) = 0" .
  then have "push_bit 7 (of_nat g :: u32) OR of_nat (p + 64) = push_bit 7 (of_nat g) + of_nat (p + 64)"
    by (simp add: disjunctive_add_eq_or)
  then have "push_bit 7 (of_nat g :: u32) OR word_of_int (int p + 64 + 0) = of_nat (g * 128 + (p + 64))"
    by (simp add: push_bit_eq_mult)
  then have "unat (push_bit 7 (of_nat g :: u32) OR word_of_int (int p + 64 + 0)) = (g * 128 + (p + 64)) mod 2 ^ LENGTH(32)"
    by (simp only: unat_of_nat)
  then show ?thesis using assms by simp
qed



end
