(* ===== verification/RxDsp.thy ===== *)
theory RxDsp
  imports FT8Types Complex_Main
begin

text \<open>
  The signal chain of the receiver, \<^verbatim>\<open>rtlsdr_callback\<close> of \<^verbatim>\<open>rtlsdr_ft8d.cpp\<close>: the mixer at a quarter of
  the sampling rate, the CIC decimator, the compensation filter and the store into the selected half of
  the double buffer. The integrators are 32-bit words that wrap around; \<^verbatim>\<open>float\<close> is read as a real number,
  so the filter's rounding is not part of the model.
\<close>

subsection \<open>State\<close>

text \<open>The static variables of one channel.\<close>

record cic =
  x1 :: u32
  x2 :: u32
  t1y :: u32
  t1z :: u32
  t2y :: u32
  t2z :: u32

record dsp =
  chanI :: cic
  chanQ :: cic
  decimationIndex :: nat
  firI :: "real list"
  firQ :: "real list"

definition dsp0 :: dsp where
  "dsp0 = (let c = \<lparr>x1 = 0, x2 = 0, t1y = 0, t1z = 0, t2y = 0, t2z = 0\<rparr>
           in \<lparr>chanI = c, chanQ = c, decimationIndex = 0, firI = replicate FIR_TAPS 0, firQ = replicate FIR_TAPS 0\<rparr>)"

text \<open>What the callback uses of \<^verbatim>\<open>rx_state\<close>; the arrays have \<open>BUF\<close> elements each.\<close>

definition BUF :: nat where "BUF = SIGNAL_LENGHT * SIGNAL_SAMPLE_RATE"

record rx_state =
  exit_flag :: bool
  iSamples :: "real list list"
  qSamples :: "real list list"
  iqIndex :: "nat list"
  bufferIndex :: nat
  callback_counter :: u32

subsection \<open>Mixer\<close>

text \<open>Four samples of two bytes at a time; \<^verbatim>\<open>^ 0x80\<close> makes an unsigned sample a signed one.\<close>

fun mix :: "u8 list \<Rightarrow> (u8 \<times> u8) list result" where
  "mix (b0 # b1 # b2 # b3 # b4 # b5 # b6 # b7 # bs) =
     rbind (mix bs) (\<lambda>r. Inr (
       (b0 XOR 0x80, b1 XOR 0x80) # (- (b3 XOR 0x80), b2 XOR 0x80)
       # (- (b4 XOR 0x80), - (b5 XOR 0x80)) # (b7 XOR 0x80, - (b6 XOR 0x80)) # r))"
| "mix [] = Inr []"
| "mix bs = Inl (OutOfBounds (length bs) 7)"

subsection \<open>Decimator and filter\<close>

definition integrate :: "u8 \<Rightarrow> cic \<Rightarrow> cic" where
  "integrate s c = (let x = x1 c + scast s in c\<lparr>x1 := x, x2 := x2 c + x\<rparr>)"

definition comb :: "cic \<Rightarrow> u32 \<times> cic" where
  "comb c = (let y1 = x2 c - t1z c; y2 = y1 - t2z c
             in (y2, c\<lparr>t1z := t1y c, t1y := x2 c, t2z := t2y c, t2y := y1\<rparr>))"

definition zCoef :: "real list" where
  "zCoef =
    [-0.0025719973, 0.0010118403, 0.0009110571, -0.0034940765,
     0.0069713409, -0.0114242790, 0.0167023466, -0.0223683056,
     0.0276808966, -0.0316243672, 0.0329894230, -0.0305042011,
     0.0230074504, -0.0096499429, -0.0098950502, 0.0352349632,
     -0.0650990428, 0.0972406918, -0.1284211497, 0.1544893973,
     -0.1705667465, 0.1713383321, -0.1514501610, 0.1060148823,
     -0.0312560926, -0.0745846391, 0.2096088743, -0.3638689868,
     0.5000000000,
     -0.3638689868, 0.2096088743, -0.0745846391, -0.0312560926,
     0.1060148823, -0.1514501610, 0.1713383321, -0.1705667465,
     0.1544893973, -0.1284211497, 0.0972406918, -0.0650990428,
     0.0352349632, -0.0098950502, -0.0096499429, 0.0230074504,
     -0.0305042011, 0.0329894230, -0.0316243672, 0.0276808966,
     -0.0223683056, 0.0167023466, -0.0114242790, 0.0069713409,
     -0.0034940765, 0.0009110571, 0.0010118403, -0.0025719973]"

text \<open>The loop sums and shifts at once.\<close>

definition fir_loop :: "real list \<Rightarrow> real \<times> real list" where
  "fir_loop buf =
     fold (\<lambda>j (sum, f). (sum + f ! j * zCoef ! j, if j < FIR_TAPS - 1 then f[j := f ! (j + 1)] else f))
       [0..<FIR_TAPS] (0, buf)"

definition fir :: "u32 \<Rightarrow> real list \<Rightarrow> real \<times> real list" where
  "fir y buf =
     (let (sum, f) = fir_loop buf; f = f[FIR_TAPS - 1 := of_int (sint y)]
      in (sum + f ! (FIR_TAPS - 1) * zCoef ! FIR_TAPS, f))"

text \<open>One mixed sample: \<open>None\<close> is the \<^verbatim>\<open>continue\<close> of the decimation stage.\<close>

definition dsp_step :: "u8 \<times> u8 \<Rightarrow> dsp \<Rightarrow> (real \<times> real) option \<times> dsp" where
  "dsp_step s d =
     (let ci = integrate (fst s) (chanI d); cq = integrate (snd s) (chanQ d); k = decimationIndex d + 1
      in if k \<le> DOWNSAMPLING then (None, d\<lparr>chanI := ci, chanQ := cq, decimationIndex := k\<rparr>)
         else
           (let (yi, ci) = comb ci; (yq, cq) = comb cq;
                (si, fi) = fir yi (firI d); (sq, fq) = fir yq (firQ d)
            in (Some (si / (32768 * real DOWNSAMPLING), sq / (32768 * real DOWNSAMPLING)),
                d\<lparr>chanI := ci, chanQ := cq, decimationIndex := 0, firI := fi, firQ := fq\<rparr>)))"

subsection \<open>The buffer\<close>

definition save :: "real \<times> real \<Rightarrow> rx_state \<Rightarrow> rx_state" where
  "save v rx =
     (let idx = bufferIndex rx; n = iqIndex rx ! idx in
      if n < BUF then
        rx\<lparr>iSamples := (iSamples rx)[idx := (iSamples rx ! idx)[n := fst v]],
           qSamples := (qSamples rx)[idx := (qSamples rx ! idx)[n := snd v]],
           iqIndex := (iqIndex rx)[idx := n + 1]\<rparr>
      else rx)"

definition sample_step :: "u8 \<times> u8 \<Rightarrow> dsp \<times> rx_state \<Rightarrow> dsp \<times> rx_state" where
  "sample_step s = (\<lambda>(d, rx).
     (case dsp_step s d of
        (None, d) \<Rightarrow> (d, rx)
      | (Some v, d) \<Rightarrow> (d, save v rx)))"

definition rtlsdr_callback :: "u8 list \<Rightarrow> dsp \<times> rx_state \<Rightarrow> (dsp \<times> rx_state) result" where
  "rtlsdr_callback samples st =
     rbind (mix samples) (\<lambda>ss. Inr (case fold sample_step ss st of
       (d, rx) \<Rightarrow> (d, rx\<lparr>callback_counter := callback_counter rx + 1\<rparr>)))"

end
