(* ===== verification/RxWaterfall.thy ===== *)
theory RxWaterfall
  imports CReal RxDsp Decode
begin

text \<open>
  \<^verbatim>\<open>ft8_subsystem\<close>, \<^verbatim>\<open>noiseFloorPower\<close> and \<^verbatim>\<open>estimateSNR\<close> of \<^verbatim>\<open>rtlsdr_ft8d.cpp\<close>: the waterfall of byte-coded
  levels a slot is turned into, its noise floor, and the level of a candidate. The Fourier transform is the
  parameter \<open>fft\<close>, the candidate search of \<^verbatim>\<open>ft8_lib\<close> the parameter \<open>find\<close>; \<^verbatim>\<open>float\<close> is read as real.
\<close>

subsection \<open>Constants\<close>

definition K_FSK_DEV :: real where "K_FSK_DEV = 6.25"
definition K_FREQ_OSR :: nat where "K_FREQ_OSR = 2"
definition K_TIME_OSR :: nat where "K_TIME_OSR = 2"
definition K_MAX_CANDIDATES :: nat where "K_MAX_CANDIDATES = 120"
definition K_MIN_SCORE :: int where "K_MIN_SCORE = 10"
definition NUM_BIN :: nat where "NUM_BIN = nat (c_int (real SIGNAL_SAMPLE_RATE / (2 * K_FSK_DEV)))"
definition BLOCK_SIZE :: nat where "BLOCK_SIZE = nat (c_int (real SIGNAL_SAMPLE_RATE / K_FSK_DEV))"
definition SUB_BLOCK_SIZE :: nat where "SUB_BLOCK_SIZE = BLOCK_SIZE div K_TIME_OSR"
definition NFFT :: nat where "NFFT = BLOCK_SIZE * K_FREQ_OSR"
definition NUM_BLOCKS :: nat where
  "NUM_BLOCKS = (SIGNAL_LENGHT * SIGNAL_SAMPLE_RATE - NFFT + SUB_BLOCK_SIZE) div BLOCK_SIZE"
definition MAG_ARRAY :: nat where "MAG_ARRAY = NUM_BLOCKS * K_FREQ_OSR * K_TIME_OSR * NUM_BIN"
definition FT8_SYMBOL_PERIOD :: real where "FT8_SYMBOL_PERIOD = 0.160"
definition FT8_NUM_SYNC :: nat where "FT8_NUM_SYNC = 3"
definition FT8_LENGTH_SYNC :: nat where "FT8_LENGTH_SYNC = 7"
definition FT8_SYNC_OFFSET :: nat where "FT8_SYNC_OFFSET = 36"
definition kFT8_Costas_pattern :: "nat list" where "kFT8_Costas_pattern = [3, 1, 4, 0, 6, 5, 2]"

subsection \<open>The waterfall\<close>

record ftx_waterfall =
  num_blocks :: nat
  num_bins :: nat
  time_osr :: nat
  freq_osr :: nat
  mag :: "u8 list"
  block_stride :: nat

record ftx_candidate =
  score :: int
  time_offset :: int
  freq_offset :: int
  time_sub :: nat
  freq_sub :: nat

definition hann :: "nat \<Rightarrow> real" where
  "hann i = sin (pi / real NFFT * real i)"

text \<open>The window of samples the transform gets; reading behind the array is an error.\<close>

definition fft_in :: "real list \<Rightarrow> real list \<Rightarrow> nat \<Rightarrow> (real \<times> real) list result" where
  "fft_in is qs start =
     (if length is < start + NFFT \<or> length qs < start + NFFT then Inl (OutOfBounds (length is) (start + NFFT - 1))
      else Inr (map (\<lambda>i. (is ! (start + i) * hann i, qs ! (start + i) * hann i)) [0..<NFFT]))"

definition mag_db :: "real \<times> real \<Rightarrow> real" where
  "mag_db c = 10 * log 10 (1 / 10 ^ 12 + (fst c * fst c + snd c * snd c) * 4 / (real NFFT * real NFFT))"

definition scale_db :: "real \<Rightarrow> u8" where
  "scale_db db = (let scaled = c_int (2 * db + 240) in
     word_of_int (if scaled < 0 then 0 else if 255 < scaled then 255 else scaled))"

text \<open>The bytes of one transform, sorted into the two frequency sub-bins.\<close>

definition spectrum_bytes :: "(real \<times> real) list \<Rightarrow> u8 list" where
  "spectrum_bytes out =
     concat (map (\<lambda>freq_sub. map (\<lambda>pos. scale_db (mag_db (out ! (pos * K_FREQ_OSR + freq_sub)))) [0..<NUM_BIN])
       [0..<K_FREQ_OSR])"

fun fill_waterfall :: "((real \<times> real) list \<Rightarrow> (real \<times> real) list) \<Rightarrow> real list \<Rightarrow> real list \<Rightarrow> (nat \<times> nat) list
    \<Rightarrow> u8 list result" where
  "fill_waterfall fft is qs [] = Inr []"
| "fill_waterfall fft is qs ((idx_block, t) # rest) =
     rbind (fft_in is qs (idx_block * BLOCK_SIZE + t * SUB_BLOCK_SIZE)) (\<lambda>x.
     rbind (fill_waterfall fft is qs rest) (\<lambda>r. Inr (spectrum_bytes (fft x) @ r)))"

definition waterfall_of :: "((real \<times> real) list \<Rightarrow> (real \<times> real) list) \<Rightarrow> real list \<Rightarrow> real list \<Rightarrow> ftx_waterfall result" where
  "waterfall_of fft is qs =
     rbind (fill_waterfall fft is qs (List.product [0..<NUM_BLOCKS] [0..<K_TIME_OSR])) (\<lambda>m.
     Inr \<lparr>num_blocks = NUM_BLOCKS, num_bins = NUM_BIN, time_osr = K_TIME_OSR, freq_osr = K_FREQ_OSR, mag = m,
          block_stride = K_TIME_OSR * K_FREQ_OSR * NUM_BIN\<rparr>)"

subsection \<open>Noise floor\<close>

definition byte_db :: "u8 \<Rightarrow> real" where
  "byte_db b = of_int (uint b) / 2 - 120"

text \<open>The sampling loop: at most 8192 bytes, \<^verbatim>\<open>step\<close> apart.\<close>

function collect_samples :: "u8 list \<Rightarrow> nat \<Rightarrow> nat \<Rightarrow> nat \<Rightarrow> nat \<Rightarrow> real list" where
  "collect_samples m tot step i n =
     (if i < tot \<and> n < 8192 then byte_db (m ! i) # collect_samples m tot step (i + step) (n + 1) else [])"
  by pat_completeness auto
termination by (relation "measure (\<lambda>(m, tot, step, i, n). 8192 - n)") auto

declare collect_samples.simps [simp del]

text \<open>The sort by exchanges, in place.\<close>

definition exchange :: "nat \<Rightarrow> nat \<Rightarrow> real list \<Rightarrow> real list" where
  "exchange i j s = (if s ! j < s ! i then s[i := s ! j, j := s ! i] else s)"

definition exchange_sort :: "real list \<Rightarrow> real list" where
  "exchange_sort s = fold (\<lambda>i. fold (exchange i) [i + 1..<length s]) [0..<length s] s"

definition noiseFloorPower :: "ftx_waterfall \<Rightarrow> real" where
  "noiseFloorPower w =
     (let tot = num_blocks w * block_stride w;
          step = (if tot div 8192 < 1 then 1 else tot div 8192);
          samples = collect_samples (mag w) tot step 0 0
      in if samples = [] then 1 / 10 ^ 12
         else 10 powr (exchange_sort samples ! (length samples div 2) / 10))"

subsection \<open>The level of a candidate\<close>

text \<open>One turn of the double loop, for a sync group and a symbol of it.\<close>

definition sync_cell :: "ftx_waterfall \<Rightarrow> ftx_candidate \<Rightarrow> nat \<times> nat \<Rightarrow> int option" where
  "sync_cell w cand = (\<lambda>(g, s).
     (let block = time_offset cand + int (g * FT8_SYNC_OFFSET + s);
          bin = freq_offset cand + int (kFT8_Costas_pattern ! s) * int (freq_osr w)
      in if block < 0 \<or> int (num_blocks w) \<le> block \<or> bin < 0 \<or> int (num_bins w) \<le> bin then None
         else Some (block * int (block_stride w) + int (time_sub cand) * int (freq_osr w * num_bins w)
                      + int (freq_sub cand) * int (num_bins w) + bin)))"

fun sum_cells :: "u8 list \<Rightarrow> int option list \<Rightarrow> real \<Rightarrow> nat \<Rightarrow> (real \<times> nat) result" where
  "sum_cells m [] sigSum nSig = Inr (sigSum, nSig)"
| "sum_cells m (None # cs) sigSum nSig = sum_cells m cs sigSum nSig"
| "sum_cells m (Some k # cs) sigSum nSig =
     (if k < 0 \<or> int (length m) \<le> k then Inl (OutOfBounds (length m) (nat k))
      else sum_cells m cs (sigSum + 10 powr (byte_db (m ! nat k) / 10)) (nSig + 1))"

definition estimateSNR :: "ftx_waterfall \<Rightarrow> ftx_candidate \<Rightarrow> real \<Rightarrow> real result" where
  "estimateSNR w cand noisePow =
     rbind (sum_cells (mag w) (map (sync_cell w cand) (List.product [0..<FT8_NUM_SYNC] [0..<FT8_LENGTH_SYNC])) 0 0)
       (\<lambda>(sigSum, nSig).
          if nSig = 0 \<or> noisePow < 1 / 10 ^ 15 then Inr (- 24)
          else
            (let signal = sigSum / real nSig - noisePow;
                 signal = (if signal < 1 / 10 ^ 12 then 1 / 10 ^ 12 else signal);
                 snr_bin = 10 * log 10 (signal / noisePow);
                 binBW = K_FSK_DEV / real (freq_osr w);
                 snr = snr_bin - 10 * log 10 (2500 / binBW);
                 snr = (if snr < - 24 then - 24 else snr)
             in Inr (if 49 < snr then 49 else snr)))"

subsection \<open>The subsystem\<close>

text \<open>What \<^verbatim>\<open>decode\<close> sees of a candidate; \<open>dec\<close> is \<^verbatim>\<open>ftx_decode_candidate\<close>.\<close>

definition see_candidate :: "(ftx_waterfall \<Rightarrow> ftx_candidate \<Rightarrow> ftx_message option) \<Rightarrow> ftx_waterfall \<Rightarrow> real \<Rightarrow> ftx_candidate
    \<Rightarrow> candidate result" where
  "see_candidate dec w noisePow cand =
     (let hz = (of_int (freq_offset cand) + real (freq_sub cand) / real (freq_osr w)) / FT8_SYMBOL_PERIOD in
      case dec w cand of
        None \<Rightarrow> Inr \<lparr>decoded_msg = None, freq_hz = c_int hz, est_snr = 0\<rparr>
      | Some m \<Rightarrow> rbind (estimateSNR w cand noisePow) (\<lambda>snr.
          Inr \<lparr>decoded_msg = Some m, freq_hz = c_int hz, est_snr = c_round snr\<rparr>))"

fun see_candidates :: "(ftx_waterfall \<Rightarrow> ftx_candidate \<Rightarrow> ftx_message option) \<Rightarrow> ftx_waterfall \<Rightarrow> real \<Rightarrow> ftx_candidate list
    \<Rightarrow> candidate list result" where
  "see_candidates dec w noisePow [] = Inr []"
| "see_candidates dec w noisePow (c # cs) =
     rbind (see_candidate dec w noisePow c) (\<lambda>x. rbind (see_candidates dec w noisePow cs) (\<lambda>xs. Inr (x # xs)))"

record rx_lib =
  fft :: "(real \<times> real) list \<Rightarrow> (real \<times> real) list"
  find_candidates :: "ftx_waterfall \<Rightarrow> nat \<Rightarrow> int \<Rightarrow> ftx_candidate list"
  decode_candidate :: "ftx_waterfall \<Rightarrow> ftx_candidate \<Rightarrow> ftx_message option"

text \<open>With \<^verbatim>\<open>malloc\<close> failing there are no results and nothing else happens.\<close>

definition ft8_subsystem :: "rx_lib \<Rightarrow> denv \<Rightarrow> bool \<Rightarrow> real list \<Rightarrow> real list \<Rightarrow> decoder_results list \<Rightarrow> hashtable \<Rightarrow> qso
    \<Rightarrow> (decoder_results list \<times> nat \<times> hashtable \<times> plain_message list \<times> qso) result" where
  "ft8_subsystem lib env mem is qs results tab q =
     (if \<not> mem then Inr (results, 0, tab, [], q)
      else
        rbind (waterfall_of (fft lib) is qs) (\<lambda>w.
        rbind (see_candidates (decode_candidate lib) w (noiseFloorPower w)
                (find_candidates lib w K_MAX_CANDIDATES K_MIN_SCORE)) (\<lambda>cs.
        decode env cs results tab q)))"

end
