(* ===== verification/RxOptions.thy ===== *)
theory RxOptions
  imports GetOpt FT8Types CReal PskReporter
begin

text \<open>
  The options of the receiver (\<^verbatim>\<open>rtlsdr_ft8d.cpp\<close>): \<^verbatim>\<open>initrx_options\<close>, the option loop of \<^verbatim>\<open>main\<close>,
  \<^verbatim>\<open>atofs\<close> and \<^verbatim>\<open>parse_u64\<close>, and the checks up to the start of the device. \<^verbatim>\<open>atof\<close> is a parameter; a
  double that does not fit the integer it is cast to is an error.
\<close>

subsection \<open>The records\<close>

datatype rtl_gen_t = rtlAuto | rtlV3 | rtlV4

record receiver_options =
  dialfreq :: u32
  realfreq :: u32
  gain :: int
  autogain :: bool
  rx_ppm :: int
  shift :: int
  upconverter :: u32
  directsampling :: u32
  maxloop :: u32
  nloop :: nat
  device :: u32
  noreport :: bool
  selftest :: bool
  writefile :: bool
  readfile :: bool
  use_qso :: bool
  isHF :: bool
  directset :: bool
  rxtest :: bool
  faketx :: bool
  rtlgen :: rtl_gen_t
  filename :: string

text \<open>The fields that are not assigned keep the zero of a static variable.\<close>

definition initrx_options :: "receiver_options \<Rightarrow> receiver_options" where
  "initrx_options o' = o'\<lparr>gain := 290, autogain := False, rx_ppm := 0, shift := 0, directsampling := 0, maxloop := 0,
     nloop := 0, device := 0, selftest := False, writefile := False, readfile := False, noreport := False, use_qso := True,
     isHF := False, directset := False, rxtest := False, faketx := False, rtlgen := rtlAuto\<rparr>"

definition static_options :: receiver_options where
  "static_options = \<lparr>dialfreq = 0, realfreq = 0, gain = 0, autogain = False, rx_ppm = 0, shift = 0, upconverter = 0,
     directsampling = 0, maxloop = 0, nloop = 0, device = 0, noreport = False, selftest = False, writefile = False,
     readfile = False, use_qso = False, isHF = False, directset = False, rxtest = False, faketx = False, rtlgen = rtlAuto,
     filename = []\<rparr>"

subsection \<open>Numbers\<close>

text \<open>The suffixes fall through: giga is three times a thousand.\<close>

definition atofs :: "(string \<Rightarrow> real) \<Rightarrow> string \<Rightarrow> real" where
  "atofs atof s =
     (if s = [] then 0
      else
        (let c = last s; b = butlast s in
         if c \<in> set ''gG'' then 1000 * 1000 * 1000 * atof b
         else if c \<in> set ''mM'' then 1000 * 1000 * atof b
         else if c \<in> set ''kK'' then 1000 * atof b
         else atof s))"

definition cast_u32 :: "real \<Rightarrow> u32 result" where
  "cast_u32 x = (if - 1 < x \<and> x < 2 ^ 32 then Inr (word_of_int (c_int x)) else Inl InvalidCast)"

text \<open>
  \<^verbatim>\<open>strtoull\<close> is a parameter: value and number of characters used. The result is the value, if the
  whole text behind the prefix was used.
\<close>

definition parse_u64 :: "(nat \<Rightarrow> string \<Rightarrow> 64 word \<times> nat) \<Rightarrow> string \<Rightarrow> 64 word option" where
  "parse_u64 strtoull s =
     (let (base, s) =
        (if 2 < length s \<and> s ! 0 = CHR ''0'' then
           (if s ! 1 = CHR ''x'' \<or> s ! 1 = CHR ''X'' then (16, drop 2 s)
            else if s ! 1 = CHR ''b'' \<or> s ! 1 = CHR ''B'' then (2, drop 2 s)
            else (10, s))
         else (10, s))
      in case strtoull base s of (v, n) \<Rightarrow> if n \<noteq> 0 \<and> length s \<le> n then Some v else None)"

subsection \<open>The option loop\<close>

definition rx_short_option :: "char \<Rightarrow> bool option" where
  "rx_short_option c =
     (if c \<in> set ''fclgopudniwr'' then Some True else if c \<in> set ''axt'' then Some False else None)"

text \<open>The long options have no letter in the code, where they come as 0 with an index; here each has one of its own.\<close>

definition rx_long_options :: "(string \<times> char) list" where
  "rx_long_options =
     [(''help'', CHR ''H''), (''version'', CHR ''V''), (''rtl3'', CHR ''3''), (''rtl4'', CHR ''4''),
      (''rx-test'', CHR ''R''), (''fake-tx'', CHR ''F'')]"

definition rx_band :: "string \<Rightarrow> (u32 \<times> bool) option" where
  "rx_band s =
     (if strcasecmp_eq s ''160m'' then Some (1840000, True)
      else if strcasecmp_eq s ''80m'' then Some (3573000, True)
      else if strcasecmp_eq s ''60m'' then Some (5357000, True)
      else if strcasecmp_eq s ''40m'' then Some (7074000, True)
      else if strcasecmp_eq s ''30m'' then Some (10136000, True)
      else if strcasecmp_eq s ''20m'' then Some (14074000, True)
      else if strcasecmp_eq s ''17m'' then Some (18100000, True)
      else if strcasecmp_eq s ''15m'' then Some (21074000, True)
      else if strcasecmp_eq s ''12m'' then Some (24915000, True)
      else if strcasecmp_eq s ''10m'' then Some (28074000, True)
      else if strcasecmp_eq s ''6m'' then Some (50313000, False)
      else if strcasecmp_eq s ''4m'' then Some (70100000, False)
      else if strcasecmp_eq s ''2m'' then Some (144174000, False)
      else if strcasecmp_eq s ''1m25'' then Some (222065000, False)
      else if strcasecmp_eq s ''70cm'' then Some (432065000, False)
      else if strcasecmp_eq s ''23cm'' then Some (1296174000, False)
      else None)"

text \<open>A band sets the HF flag or leaves it; a frequency below 30 MHz sets it.\<close>

definition set_dial :: "(string \<Rightarrow> real) \<Rightarrow> string \<Rightarrow> receiver_options \<Rightarrow> receiver_options result" where
  "set_dial atof v ro =
     (case rx_band v of
        Some (f, hf) \<Rightarrow> Inr (ro\<lparr>dialfreq := f, isHF := isHF ro \<or> hf\<rparr>)
      | None \<Rightarrow> rbind (cast_u32 (atofs atof v)) (\<lambda>f.
          Inr (ro\<lparr>dialfreq := f, isHF := isHF ro \<or> (f \<noteq> 0 \<and> f < 30000000)\<rparr>)))"

fun apply_rx_opts :: "(string \<Rightarrow> real) \<Rightarrow> opt_event list \<Rightarrow> receiver_options \<times> decoder_options
    \<Rightarrow> (receiver_options \<times> decoder_options) result" where
  "apply_rx_opts atof [] st = Inr st"
| "apply_rx_opts atof (BadOption # evs) st = Inl Exited"
| "apply_rx_opts atof (Opt c v # evs) (ro, d) =
     (let num = (\<lambda>f. rbind (cast_u32 (atofs atof v)) (\<lambda>x. apply_rx_opts atof evs (f x, d))); next = apply_rx_opts atof evs in
      if c = CHR ''H'' \<or> c = CHR ''V'' then Inl Exited
      else if c = CHR ''3'' then next (ro\<lparr>rtlgen := rtlV3\<rparr>, d)
      else if c = CHR ''4'' then next (ro\<lparr>rtlgen := rtlV4\<rparr>, d)
      else if c = CHR ''R'' then next (ro\<lparr>rxtest := True, noreport := True\<rparr>, d)
      else if c = CHR ''F'' then next (ro\<lparr>faketx := True, noreport := True\<rparr>, d)
      else if c = CHR ''f'' then rbind (set_dial atof v ro) (\<lambda>ro. next (ro, d))
      else if c = CHR ''c'' then next (ro, d\<lparr>rcall := snprintf_s 13 (take 12 v)\<rparr>)
      else if c = CHR ''l'' then next (ro, d\<lparr>rloc := snprintf_s 7 (take 6 v)\<rparr>)
      else if c = CHR ''g'' then next (ro\<lparr>gain := 10 * min 49 (max 0 (i32 (atoi v)))\<rparr>, d)
      else if c = CHR ''a'' then next (ro\<lparr>autogain := True\<rparr>, d)
      else if c = CHR ''o'' then next (ro\<lparr>shift := i32 (atoi v)\<rparr>, d)
      else if c = CHR ''p'' then next (ro\<lparr>rx_ppm := i32 (atoi v)\<rparr>, d)
      else if c = CHR ''u'' then num (\<lambda>x. ro\<lparr>upconverter := x\<rparr>)
      else if c = CHR ''d'' then num (\<lambda>x. ro\<lparr>directsampling := x, directset := True\<rparr>)
      else if c = CHR ''n'' then num (\<lambda>x. ro\<lparr>maxloop := x\<rparr>)
      else if c = CHR ''i'' then num (\<lambda>x. ro\<lparr>device := x\<rparr>)
      else if c = CHR ''x'' then next (ro\<lparr>noreport := True\<rparr>, d)
      else if c = CHR ''t'' then next (ro\<lparr>selftest := True\<rparr>, d)
      else if c = CHR ''w'' then next (ro\<lparr>writefile := True, filename := v\<rparr>, d)
      else if c = CHR ''r'' then next (ro\<lparr>readfile := True, filename := v\<rparr>, d)
      else Inl Exited)"

subsection \<open>Start-up\<close>

datatype startup =
    Refused string
  | SelfTest
  | PlayFile string
  | Running

text \<open>
  The part of \<^verbatim>\<open>main\<close> from the option loop to the choice of what to run: the options, the decoder's
  options and the reporter (\<open>rid\<close> is its random identifier).
\<close>

definition rx_startup :: "(string \<Rightarrow> real) \<Rightarrow> u32 \<Rightarrow> string \<Rightarrow> string list
    \<Rightarrow> (startup \<times> receiver_options \<times> decoder_options \<times> PskReporter option) result" where
  "rx_startup atof rid version argv =
     (let ro = initrx_options static_options; d = \<lparr>d_freq = 0, rcall = [], rloc = []\<rparr> in
      if length argv \<le> 1 then Inl Exited
      else rbind (apply_rx_opts atof (fst (getopt_long rx_short_option rx_long_options [] (tl argv))) (ro, d)) (\<lambda>(ro, d).
        if \<not> selftest ro \<and> dialfreq ro = 0 then Inr (Refused ''Please specify a dial frequency.'', ro, d, None)
        else if \<not> selftest ro \<and> rcall d = [] then Inr (Refused ''Please specify your callsign.'', ro, d, None)
        else if \<not> selftest ro \<and> rloc d = [] then Inr (Refused ''Please specify your locator.'', ro, d, None)
        else
          (let ro = (if rxtest ro \<or> faketx ro then ro\<lparr>noreport := True\<rparr> else ro);
               rep = (if rxtest ro \<or> faketx ro then None else Some (newPskReporter rid (rcall d) (rloc d) version));
               ro = ro\<lparr>realfreq := dialfreq ro + word_of_int (shift ro) + upconverter ro\<rparr>;
               d = d\<lparr>d_freq := dialfreq ro\<rparr>
           in Inr (if selftest ro then SelfTest else if readfile ro then PlayFile (filename ro) else Running, ro, d, rep))))"

definition enableReporting :: "receiver_options \<Rightarrow> receiver_options" where
  "enableReporting ro = ro\<lparr>noreport := False\<rparr>"

definition disableReporting :: "receiver_options \<Rightarrow> receiver_options" where
  "disableReporting ro = ro\<lparr>noreport := True\<rparr>"

definition getReportingStatus :: "receiver_options \<Rightarrow> bool" where
  "getReportingStatus ro \<longleftrightarrow> \<not> noreport ro"

end
