(* ===== verification/RxSlots.thy ===== *)
theory RxSlots
  imports RxWaterfall RxOptions TSQueue
begin

text \<open>
  The slots of the receiver (\<^verbatim>\<open>rtlsdr_ft8d.cpp\<close>): the main loop, which switches the halves of the double
  buffer 12.6 seconds into a slot and empties the new one when the next slot begins, and the decoder thread,
  which takes the other half. Times are in microseconds; the callbacks that arrive while a thread sleeps are
  arguments. The state \<open>receiver\<close> is what the threads share.
\<close>

subsection \<open>The buffers\<close>

definition initSampleStorage :: "rx_state \<Rightarrow> rx_state" where
  "initSampleStorage rx = rx\<lparr>bufferIndex := 0, iqIndex := (iqIndex rx)[0 := 0, 1 := 0], exit_flag := False\<rparr>"

definition flip :: "rx_state \<Rightarrow> rx_state" where
  "flip rx = (let b = (bufferIndex rx + 1) mod 2 in rx\<lparr>bufferIndex := b, iqIndex := (iqIndex rx)[b := 0]\<rparr>)"

definition reset_index :: "rx_state \<Rightarrow> rx_state" where
  "reset_index rx = rx\<lparr>iqIndex := (iqIndex rx)[bufferIndex rx := 0]\<rparr>"

fun run_callbacks :: "u8 list list \<Rightarrow> dsp \<times> rx_state \<Rightarrow> (dsp \<times> rx_state) result" where
  "run_callbacks [] st = Inr st"
| "run_callbacks (b # bs) st = rbind (rtlsdr_callback b st) (run_callbacks bs)"

subsection \<open>The main loop\<close>

definition usec_in_slot :: "int \<Rightarrow> u32" where
  "usec_in_slot t = word_of_int (t div 1000000 mod FT8_PERIOD) * 1000000 + word_of_int (t mod 1000000)"

definition ft8wait :: "int \<Rightarrow> u32" where "ft8wait t = of_nat FT8_TXTIME - usec_in_slot t"
definition uwait :: "int \<Rightarrow> u32" where "uwait t = of_nat FT8_BUFRESET - usec_in_slot t"

text \<open>
  A turn up to the signal: how long it sleeps first, and whether it then switched the buffers and signalled the
  decoder (the normal case) or only emptied the current half.
\<close>

definition until_signal :: "int \<Rightarrow> u8 list list \<Rightarrow> dsp \<times> rx_state \<Rightarrow> (u32 \<times> bool \<times> dsp \<times> rx_state) result" where
  "until_signal t0 blocks st =
     (let normal = ft8wait t0 < uwait t0 in
      rbind (run_callbacks blocks st) (\<lambda>(d, rx).
        Inr (if normal then ft8wait t0 else uwait t0, normal, d, if normal then flip rx else reset_index rx)))"

text \<open>The rest of a turn: \<open>before\<close> and \<open>behind\<close> are the callbacks before and after the half is emptied.\<close>

definition after_signal :: "bool \<Rightarrow> u8 list list \<Rightarrow> u8 list list \<Rightarrow> dsp \<times> rx_state \<Rightarrow> (dsp \<times> rx_state) result" where
  "after_signal normal before behind st =
     rbind (if normal then rbind (run_callbacks before st) (\<lambda>(d, rx). Inr (d, reset_index rx)) else Inr st) (run_callbacks behind)"

definition loop_goes_on :: "receiver_options \<Rightarrow> rx_state \<Rightarrow> bool" where
  "loop_goes_on ro rx \<longleftrightarrow> \<not> exit_flag rx \<and> \<not> (maxloop ro \<noteq> 0 \<and> sint (maxloop ro) \<le> int (nloop ro))"

subsection \<open>The decoder thread\<close>

definition prev_buffer :: "rx_state \<Rightarrow> nat" where
  "prev_buffer rx = (bufferIndex rx + 1) mod 2"

definition clear_tail :: "nat \<Rightarrow> real list \<Rightarrow> real list" where
  "clear_tail n xs = fold (\<lambda>i xs. xs[i := 0]) [n..<BUF] xs"

definition max_sig :: "real list \<Rightarrow> real list \<Rightarrow> nat \<Rightarrow> real" where
  "max_sig is qs n =
     fold (\<lambda>i m. let m = (if m < \<bar>is ! i\<bar> then \<bar>is ! i\<bar> else m) in if m < \<bar>qs ! i\<bar> then \<bar>qs ! i\<bar> else m)
       [0..<n] (1 / 10 ^ 24)"

definition scale_by :: "real \<Rightarrow> nat \<Rightarrow> real list \<Rightarrow> real list" where
  "scale_by k n xs = fold (\<lambda>i xs. xs[i := xs ! i * k]) [0..<n] xs"

text \<open>What the decoder makes of the other half, unless it is too short.\<close>

definition prepare_window :: "rx_state \<Rightarrow> rx_state option" where
  "prepare_window rx =
     (let p = prev_buffer rx; n = iqIndex rx ! p in
      if n < (SIGNAL_LENGHT - 3) * SIGNAL_SAMPLE_RATE then None
      else
        (let is = clear_tail n (iSamples rx ! p); qs = clear_tail n (qSamples rx ! p);
             k = (1 / 2) / max_sig is qs BUF
         in Some (rx\<lparr>iSamples := (iSamples rx)[p := scale_by k BUF is], qSamples := (qSamples rx)[p := scale_by k BUF qs]\<rparr>)))"

subsection \<open>Files\<close>

text \<open>Raw files as lists of numbers; \<^verbatim>\<open>fs\<close> maps the names of the files that exist.\<close>

definition writeRawIQfile :: "bool \<Rightarrow> real list \<Rightarrow> real list \<Rightarrow> string \<Rightarrow> (string \<Rightarrow> real list option)
    \<Rightarrow> int \<times> (string \<Rightarrow> real list option)" where
  "writeRawIQfile can_write is qs name fs =
     (if \<not> can_write then (0, fs)
      else (int BUF, fs(name \<mapsto> concat (map (\<lambda>i. [is ! i, - (qs ! i)]) [0..<BUF]))))"

definition readRawIQfile :: "(string \<Rightarrow> real list option) \<Rightarrow> real list \<Rightarrow> real list \<Rightarrow> string \<Rightarrow> nat \<times> real list \<times> real list" where
  "readRawIQfile fs is qs name =
     (case fs name of
        None \<Rightarrow> (0, is, qs)
      | Some content \<Rightarrow>
          (let filebuffer = take (2 * BUF) content; recsize = length filebuffer div 2;
               is = fold (\<lambda>i is. is[i := filebuffer ! (2 * i)]) [0..<recsize] is;
               qs = fold (\<lambda>i qs. qs[i := - (filebuffer ! (2 * i + 1))]) [0..<recsize] qs;
               k = (1 / 2) / max_sig is qs recsize
           in (recsize, scale_by k recsize is, scale_by k recsize qs)))"

text \<open>\<^verbatim>\<open>saveSample\<close>: the name has the first eight characters of the option and the time, at most 30 characters.\<close>

definition sample_name :: "string \<Rightarrow> tm \<Rightarrow> string" where
  "sample_name prefix t =
     snprintf_s 31 (take 8 prefix @ ''_'' @ int_dec0 4 (tm_year t + 1900) @ ''-'' @ int_dec0 2 (tm_mon t + 1) @ ''-'' @ int_dec0 2 (tm_mday t)
       @ ''_'' @ hms ''-'' t @ ''.iq'')"

definition saveSample :: "receiver_options \<Rightarrow> tm \<Rightarrow> bool \<Rightarrow> real list \<Rightarrow> real list \<Rightarrow> (string \<Rightarrow> real list option)
    \<Rightarrow> string \<Rightarrow> real list option" where
  "saveSample ro gtm can_write is qs fs =
     (if writefile ro then snd (writeRawIQfile can_write is qs (sample_name (filename ro) gtm) fs) else fs)"

subsection \<open>Spots\<close>

definition printSpots :: "u32 \<Rightarrow> decoder_results \<Rightarrow> decoder_results list \<Rightarrow> nat \<Rightarrow> decoder_results list \<Rightarrow> decoder_results list result" where
  "printSpots dial junk results n cq =
     (if length results < n then Inl (OutOfBounds (length results) (length results))
      else Inr (fold (\<lambda>r q. tsq_push q
              (junk\<lparr>r_call := snprintf_s 13 (take 12 (r_call r)), r_cmd := snprintf_s 13 (r_cmd r),
                    r_freq := sint (word_of_int (r_freq r) + dial), r_snr := r_snr r, r_tempus := r_tempus r\<rparr>))
            (take n results) cq))"

subsection \<open>One turn of the decoder thread\<close>

record receiver =
  rx_of :: rx_state
  ro_of :: receiver_options
  dec_results :: "decoder_results list"
  calls_seen :: hashtable
  handler :: qso
  dec_results_queue :: "decoder_results list"
  cq_queue :: "decoder_results list"
  log_queue :: "plain_message list"
  iq_files :: "string \<Rightarrow> real list option"
  slot_time :: int \<comment> \<open>\<^verbatim>\<open>rx_state.gtm\<close>, in seconds\<close>

text \<open>
  What a turn depends on: the library, the decoder's environment, \<^verbatim>\<open>malloc\<close>, the time, its broken-down form,
  whether files can be written, and an uninitialised record.
\<close>

record turn_env =
  t_lib :: rx_lib
  t_denv :: denv
  t_mem :: bool
  t_time :: int
  t_tm :: tm
  t_can_write :: bool
  t_junk :: decoder_results

text \<open>After the wait: \<open>False\<close> ends the thread.\<close>

definition decoder_turn :: "turn_env \<Rightarrow> receiver \<Rightarrow> (bool \<times> receiver) result" where
  "decoder_turn env s =
     (if exit_flag (rx_of s) then Inr (False, s)
      else case prepare_window (rx_of s) of
          None \<Rightarrow> Inr (True, s)
        | Some rx' \<Rightarrow>
            (let p = prev_buffer rx'; is = iSamples rx' ! p; qs = qSamples rx' ! p;
                 s = s\<lparr>rx_of := rx', ro_of := (ro_of s)\<lparr>nloop := nloop (ro_of s) + 1\<rparr>, slot_time := t_time env - 15 + 1\<rparr>;
                 dial = d_freq (d_opts (t_denv env))
             in rbind (ft8_subsystem (t_lib env) (t_denv env) (t_mem env) is qs (dec_results s) (calls_seen s) (handler s))
                (\<lambda>(ds, n, tab, log, h).
                let fs = saveSample (ro_of s) (t_tm env) (t_can_write env) is qs (iq_files s) in
                rbind (postSpots (noreport (ro_of s)) dial (t_junk env) ds n (dec_results_queue s)) (\<lambda>psk.
                rbind (printSpots dial (t_junk env) ds n (cq_queue s)) (\<lambda>cq.
                Inr (True, s\<lparr>dec_results := ds, calls_seen := tab, handler := h, dec_results_queue := psk, cq_queue := cq,
                             log_queue := log_queue s @ log, iq_files := fs\<rparr>))))))"

end
