(* ===== verification/RxFilter.thy ===== *)
theory RxFilter
  imports RxSlots
begin

text \<open>
  What the receiver's signal chain computes: a quarter-rate shift of the input, the convolution with the
  triangle that two decimating combs of delay 2 give, and the compensation filter. The wrap-around of the
  integrators and the cutting of the stream into callbacks leave no trace in the samples.
\<close>

subsection \<open>The reference\<close>

definition DEC :: nat where "DEC = DOWNSAMPLING + 1"

lemma DEC_eq: "DEC = 376"
  by (simp add: DEC_def DOWNSAMPLING_def SAMPLING_RATE_def SIGNAL_SAMPLE_RATE_def)

text \<open>The triangle of two boxcars of \<open>2 * 376\<close> samples, by the age of a sample.\<close>

definition tri :: "nat \<Rightarrow> int" where
  "tri a = (if a < 752 then int a + 1 else if a < 1504 then 1503 - int a else 0)"

definition cic_ref :: "(nat \<Rightarrow> int) \<Rightarrow> nat \<Rightarrow> int" where
  "cic_ref x m = (\<Sum>j<376 * m. tri (376 * m - 1 - j) * x j)"

text \<open>Output \<open>m\<close>, counted from 1; there is nothing before the first input.\<close>

definition fir_ref :: "(nat \<Rightarrow> int) \<Rightarrow> nat \<Rightarrow> real" where
  "fir_ref x m = (\<Sum>j\<le>FIR_TAPS. real_of_int (cic_ref x (m + j - FIR_TAPS)) * zCoef ! j) / (32768 * real DOWNSAMPLING)"

text \<open>The raw samples, and their rotation by a quarter turn per sample.\<close>

definition raw :: "u8 list \<Rightarrow> nat \<Rightarrow> int" where
  "raw bytes k = uint (bytes ! k) - 128"

definition mixI :: "u8 list \<Rightarrow> nat \<Rightarrow> int" where
  "mixI bytes n = (let a = raw bytes (2 * n); b = raw bytes (2 * n + 1) in [a, - b, - a, b] ! (n mod 4))"

definition mixQ :: "u8 list \<Rightarrow> nat \<Rightarrow> int" where
  "mixQ bytes n = (let a = raw bytes (2 * n); b = raw bytes (2 * n + 1) in [b, a, - b, - a] ! (n mod 4))"

subsection \<open>Mixer\<close>

lemma flip_sign_values: "list_all (\<lambda>u. signed_take_bit 7 (u XOR 128) = u - 128) [0..255]"
  by code_simp

lemma flip_sign: "sint (b XOR 0x80 :: u8) = uint b - 128"
proof -
  have "uint b \<in> set [0..255]" using uint_range_size[of b] by (simp add: word_size)
  then have "signed_take_bit 7 (uint b XOR 128) = uint b - 128" using flip_sign_values unfolding list_all_iff by blast
  then show ?thesis by (simp add: sint_uint uint_xor)
qed

lemma flip_sign_neg: "b \<noteq> 0 \<Longrightarrow> sint (- (b XOR 0x80) :: u8) = 128 - uint b"
proof -
  assume "b \<noteq> 0"
  then have "uint b \<noteq> 0" by (simp add: uint_0_iff)
  then have "0 < uint b" by (simp add: uint_lt_0 order_less_le)
  moreover have "uint b < 256" using uint_range_size[of b] by (simp add: word_size)
  ultimately have "signed_take_bit 7 (128 - uint b) = 128 - uint b" by (intro signed_take_bit_int_eq_self) simp_all
  then show ?thesis by (simp add: sint_word_minus flip_sign)
qed

definition pair_vals :: "u8 list \<Rightarrow> nat \<Rightarrow> u8 \<times> u8 \<Rightarrow> bool" where
  "pair_vals bytes n p \<longleftrightarrow> sint (fst p) = mixI bytes n \<and> sint (snd p) = mixQ bytes n"

lemma mix_shift: "mixI (bs @ r) (length bs div 2 + n) = mixI r n" "mixQ (bs @ r) (length bs div 2 + n) = mixQ r n"
  if "8 dvd length bs"
proof -
  note even = that
  from even obtain k where k: "length bs = 8 * k" by (elim dvdE)
  have "(4 * k + n) mod 4 = n mod 4" by simp
  moreover have "raw (bs @ r) (2 * (4 * k + n) + i) = raw r (2 * n + i)" for i by (simp add: raw_def nth_append k)
  from this[of 0] this[of 1] have "raw (bs @ r) (2 * (4 * k + n)) = raw r (2 * n)" "raw (bs @ r) (2 * (4 * k + n) + 1) = raw r (2 * n + 1)"
    by simp_all
  ultimately show "mixI (bs @ r) (length bs div 2 + n) = mixI r n" "mixQ (bs @ r) (length bs div 2 + n) = mixQ r n"
    unfolding mixI_def mixQ_def k by simp_all
qed

lemma mix_rotates:
  "8 dvd length bytes \<Longrightarrow> 0 \<notin> set bytes \<Longrightarrow>
   \<exists>ps. mix bytes = Inr ps \<and> 2 * length ps = length bytes \<and> (\<forall>n < length ps. pair_vals bytes n (ps ! n))"
proof (induction bytes rule: mix.induct)
  case (1 b0 b1 b2 b3 b4 b5 b6 b7 bs)
  let ?h = "[b0, b1, b2, b3, b4, b5, b6, b7]"
  from "1.prems" have "8 dvd length bs" "0 \<notin> set bs" "0 \<notin> set ?h" by (simp_all add: dvd_def) presburger
  with "1.IH" obtain ps where ps: "mix bs = Inr ps" "2 * length ps = length bs" "\<forall>n < length ps. pair_vals bs n (ps ! n)" by blast
  let ?q = "[(b0 XOR 0x80, b1 XOR 0x80), (- (b3 XOR 0x80), b2 XOR 0x80), (- (b4 XOR 0x80), - (b5 XOR 0x80)), (b7 XOR 0x80, - (b6 XOR 0x80))]"
  have first: "pair_vals (?h @ bs) n (?q ! n)" if "n < 4" for n
  proof -
    from that consider "n = 0" | "n = 1" | "n = 2" | "n = 3" by linarith
    then show ?thesis using \<open>0 \<notin> set ?h\<close>
      by cases (simp_all add: pair_vals_def mixI_def mixQ_def raw_def flip_sign flip_sign_neg)
  qed
  have "pair_vals (?h @ bs) n ((?q @ ps) ! n)" if "n < length (?q @ ps)" for n
  proof (cases "n < 4")
    case False
    then obtain k where k: "n = 4 + k" by (metis le_Suc_ex not_less)
    have "pair_vals bs k (ps ! k)" using ps(3) that k by simp
    moreover have h: "length ?h div 2 = 4" by simp
    have "8 dvd length ?h" by (rule dvdI[of _ _ 1]) simp
    then have "mixI (?h @ bs) (4 + k) = mixI bs k" "mixQ (?h @ bs) (4 + k) = mixQ bs k"
      using mix_shift[of ?h bs k] unfolding h by blast+
    ultimately show ?thesis unfolding k pair_vals_def by (simp add: nth_append del: append.simps)
  next
    case True
    then show ?thesis using first[OF True] by (simp add: nth_append del: append.simps)
  qed
  then show ?case using ps(1,2) by (intro exI[of _ "?q @ ps"]) simp
qed (auto dest: dvd_imp_le)

subsection \<open>Decimator\<close>

definition S :: "(nat \<Rightarrow> int) \<Rightarrow> nat \<Rightarrow> int" where
  "S x t = (\<Sum>j<t. (int t - int j) * x j)"

lemma S_Suc: "S x (Suc t) = S x t + (\<Sum>j<t. x j) + x t"
proof -
  have "(\<Sum>j<t. (int (Suc t) - int j) * x j) = S x t + (\<Sum>j<t. x j)"
    unfolding S_def sum.distrib [symmetric] by (rule sum.cong) (simp_all add: algebra_simps)
  then show ?thesis by (simp add: S_def)
qed

definition Y1 :: "(nat \<Rightarrow> int) \<Rightarrow> nat \<Rightarrow> int" where
  "Y1 x m = S x (376 * m) - S x (376 * (m - 2))"

lemma S_ages: "S x (t - a) = (\<Sum>j<t. (if a + j < t then int (t - a - j) else 0) * x j)"
proof -
  have "S x (t - a) = (\<Sum>j<t - a. int (t - a - j) * x j)"
    unfolding S_def by (rule sum.cong) (simp_all add: of_nat_diff)
  also have "\<dots> = (\<Sum>j<t. (if a + j < t then int (t - a - j) else 0) * x j)"
    by (rule sum.mono_neutral_cong_left) auto
  finally show ?thesis .
qed

lemma Y1_cic: "Y1 x m - Y1 x (m - 2) = cic_ref x m"
proof -
  have s: "376 * (m - 2) = 376 * m - 752" "376 * (m - 2 - 2) = 376 * m - 1504" by simp_all
  have "Y1 x m - Y1 x (m - 2) = S x (376 * m - 0) - 2 * S x (376 * m - 752) + S x (376 * m - 1504)"
    unfolding Y1_def s by simp
  also have "\<dots> = cic_ref x m"
    unfolding cic_ref_def S_ages sum_distrib_left sum_subtractf [symmetric] sum.distrib [symmetric]
    by (rule sum.cong) (auto simp: tri_def of_nat_diff algebra_simps)
  finally show ?thesis .
qed

lemma tri_bounds: "0 \<le> tri a" "tri a \<le> 752" "1504 \<le> a \<Longrightarrow> tri a = 0"
  by (simp_all add: tri_def)

lemma cic_bound:
  assumes "\<forall>j. \<bar>x j\<bar> \<le> 128"
  shows "\<bar>cic_ref x m\<bar> \<le> 144785408"
proof -
  let ?t = "376 * m"
  have "\<bar>cic_ref x m\<bar> \<le> (\<Sum>j<?t. \<bar>tri (?t - 1 - j) * x j\<bar>)" unfolding cic_ref_def by (rule sum_abs)
  also have "\<dots> \<le> (\<Sum>j<?t. if ?t - 1 - j < 1504 then 96256 else 0)"
  proof (rule sum_mono)
    fix j
    have "\<bar>tri (?t - 1 - j)\<bar> * \<bar>x j\<bar> \<le> 752 * 128"
      using tri_bounds(1,2)[of "?t - 1 - j"] assms by (intro mult_mono) simp_all
    then show "\<bar>tri (?t - 1 - j) * x j\<bar> \<le> (if ?t - 1 - j < 1504 then 96256 else 0)"
      using tri_bounds(3)[of "?t - 1 - j"] by (simp add: abs_mult)
  qed
  also have "\<dots> = (\<Sum>a<?t. if a < 1504 then 96256 else 0)"
    by (rule sum.reindex_bij_witness[of _ "\<lambda>a. ?t - 1 - a" "\<lambda>j. ?t - 1 - j"]) auto
  also have "\<dots> = (\<Sum>a\<in>{..<?t} \<inter> {..<1504}. 96256)" 
    using sum.inter_restrict[of "{..<?t}" "\<lambda>_. 96256 :: int" "{..<1504}"] by simp
  also have "\<dots> \<le> 144785408"
    using card_mono[of "{..<1504::nat}" "{..<?t} \<inter> {..<1504}"] by simp
  finally show ?thesis .
qed

definition chan_inv :: "(nat \<Rightarrow> int) \<Rightarrow> nat \<Rightarrow> cic \<Rightarrow> bool" where
  "chan_inv x n c \<longleftrightarrow>
     x1 c = word_of_int (\<Sum>j<n. x j) \<and> x2 c = word_of_int (S x n)
     \<and> t1y c = word_of_int (S x (376 * (n div 376))) \<and> t1z c = word_of_int (S x (376 * (n div 376 - 1)))
     \<and> t2y c = word_of_int (Y1 x (n div 376)) \<and> t2z c = word_of_int (Y1 x (n div 376 - 1))"

lemma scast_val: "sint s = v \<Longrightarrow> (scast (s :: u8) :: u32) = word_of_int v"
  by (simp add: scast_eq)

lemma integrate_vals:
  assumes "chan_inv x n c" "sint s = x n"
  shows "x1 (integrate s c) = word_of_int (\<Sum>j<Suc n. x j)" "x2 (integrate s c) = word_of_int (S x (Suc n))"
    "t1y (integrate s c) = t1y c" "t1z (integrate s c) = t1z c" "t2y (integrate s c) = t2y c" "t2z (integrate s c) = t2z c"
  using assms by (simp_all add: integrate_def Let_def chan_inv_def scast_val S_Suc wi_hom_add add.assoc)

lemma integrate_keeps:
  assumes "chan_inv x n c" "sint s = x n" "Suc n mod 376 \<noteq> 0"
  shows "chan_inv x (Suc n) (integrate s c)"
proof -
  have "Suc n div 376 = n div 376" using assms(3) by (simp add: div_Suc)
  then show ?thesis using integrate_vals[OF assms(1,2)] assms(1) by (simp add: chan_inv_def)
qed

lemma comb_output:
  assumes inv: "chan_inv x n c" and s: "sint s = x n" and n: "Suc n = 376 * Suc m"
  shows "fst (comb (integrate s c)) = word_of_int (cic_ref x (Suc m))"
    "chan_inv x (Suc n) (snd (comb (integrate s c)))"
proof -
  have d: "n div 376 = m" "Suc n div 376 = Suc m" using n by simp_all
  note v = integrate_vals[OF inv s]
  have t: "t1y c = word_of_int (S x (376 * m))" "t1z c = word_of_int (S x (376 * (m - 1)))"
    "t2y c = word_of_int (Y1 x m)" "t2z c = word_of_int (Y1 x (m - 1))"
    using inv unfolding chan_inv_def d by blast+
  have y1: "word_of_int (S x (Suc n)) - word_of_int (S x (376 * (m - 1))) = (word_of_int (Y1 x (Suc m)) :: u32)"
    unfolding Y1_def n wi_hom_sub by simp
  have y2: "word_of_int (Y1 x (Suc m)) - word_of_int (Y1 x (m - 1)) = (word_of_int (cic_ref x (Suc m)) :: u32)"
    unfolding Y1_cic [symmetric] wi_hom_sub by simp
  show "fst (comb (integrate s c)) = word_of_int (cic_ref x (Suc m))"
    using y1 y2 by (simp add: comb_def Let_def v t)
  show "chan_inv x (Suc n) (snd (comb (integrate s c)))"
    unfolding chan_inv_def d using y1 n by (simp add: comb_def Let_def v t)
qed

subsection \<open>Compensation filter\<close>

lemma FIR_TAPS_eq: "FIR_TAPS = 56"
  by (simp add: FIR_TAPS_def)

lemma fir_loop_shift:
  "k \<le> 56 \<Longrightarrow> length buf = 56 \<Longrightarrow>
   fold (\<lambda>j (sum, f). (sum + f ! j * zCoef ! j, if j < FIR_TAPS - 1 then f[j := f ! (j + 1)] else f)) [0..<k] (0, buf)
   = (\<Sum>j<k. buf ! j * zCoef ! j, map (\<lambda>i. if i < k \<and> i < 55 then buf ! (i + 1) else buf ! i) [0..<56])"
proof (induction k)
  case 0
  then show ?case by (auto intro: nth_equalityI)
next
  case (Suc k)
  then show ?case by (auto simp: FIR_TAPS_eq intro!: nth_equalityI simp del: upt_Suc simp: upt_Suc_append nth_list_update)
qed

definition fir_inv :: "(nat \<Rightarrow> int) \<Rightarrow> nat \<Rightarrow> real list \<Rightarrow> bool" where
  "fir_inv x m f \<longleftrightarrow> length f = 56 \<and> (\<forall>j < 56. f ! j = of_int (cic_ref x (m + 1 + j - 56)))"

lemma fir_output:
  assumes "fir_inv x m f" "sint y = cic_ref x (Suc m)"
  shows "fst (fir y f) / (32768 * real DOWNSAMPLING) = fir_ref x (Suc m)" "fir_inv x (Suc m) (snd (fir y f))"
proof -
  have len: "length f = 56" and f: "\<And>j. j < 56 \<Longrightarrow> f ! j = of_int (cic_ref x (m + 1 + j - 56))"
    using assms(1) by (auto simp: fir_inv_def)
  let ?f = "map (\<lambda>i. if i < 56 \<and> i < 55 then f ! (i + 1) else f ! i) [0..<56]"
  have l: "fir_loop f = (\<Sum>j<56. f ! j * zCoef ! j, ?f)"
    unfolding fir_loop_def using fir_loop_shift[of 56 f] len by (simp only: FIR_TAPS_eq) 
  have "(\<Sum>j<56. f ! j * zCoef ! j) = (\<Sum>j<56. of_int (cic_ref x (Suc m + j - 56)) * zCoef ! j)"
    by (rule sum.cong) (simp_all add: f)
  moreover have "{..FIR_TAPS} = insert 56 {..<56}" by (auto simp: FIR_TAPS_eq)
  ultimately show "fst (fir y f) / (32768 * real DOWNSAMPLING) = fir_ref x (Suc m)"
    by (simp add: fir_def l Let_def FIR_TAPS_eq fir_ref_def assms(2))
  have "?f[55 := of_int (cic_ref x (Suc m))] ! j = of_int (cic_ref x (Suc m + 1 + j - 56))" if "j < 56" for j
    using that f[of "Suc j"] by (cases "j = 55") (simp_all add: nth_list_update)
  then show "fir_inv x (Suc m) (snd (fir y f))"
    by (simp add: fir_inv_def fir_def l Let_def FIR_TAPS_eq assms(2))
qed

subsection \<open>The stream\<close>

definition dsp_inv :: "(nat \<Rightarrow> int) \<Rightarrow> (nat \<Rightarrow> int) \<Rightarrow> nat \<Rightarrow> dsp \<Rightarrow> bool" where
  "dsp_inv xI xQ n d \<longleftrightarrow> chan_inv xI n (chanI d) \<and> chan_inv xQ n (chanQ d) \<and> decimationIndex d = n mod 376
     \<and> fir_inv xI (n div 376) (firI d) \<and> fir_inv xQ (n div 376) (firQ d)"

lemma dsp0_inv: "dsp_inv xI xQ 0 dsp0"
  by (simp add: dsp_inv_def dsp0_def Let_def chan_inv_def fir_inv_def S_def Y1_def cic_ref_def FIR_TAPS_eq)

lemma sint_cic: "\<forall>j. \<bar>x j\<bar> \<le> 128 \<Longrightarrow> sint (word_of_int (cic_ref x m) :: u32) = cic_ref x m"
  using cic_bound[of x m] i32_small[of "cic_ref x m"] unfolding i32_def by simp

definition out_pair :: "(nat \<Rightarrow> int) \<Rightarrow> (nat \<Rightarrow> int) \<Rightarrow> nat \<Rightarrow> real \<times> real" where
  "out_pair xI xQ m = (fir_ref xI m, fir_ref xQ m)"

lemma dsp_step_ref:
  assumes inv: "dsp_inv xI xQ n d" and s: "sint (fst s) = xI n" "sint (snd s) = xQ n"
    and b: "\<forall>j. \<bar>xI j\<bar> \<le> 128" "\<forall>j. \<bar>xQ j\<bar> \<le> 128"
  shows "\<exists>d'. dsp_step s d = (if Suc n mod 376 = 0 then Some (out_pair xI xQ (Suc n div 376)) else None, d')
    \<and> dsp_inv xI xQ (Suc n) d'"
proof -
  have D: "DOWNSAMPLING = 375" using DEC_eq by (simp add: DEC_def)
  have i: "chan_inv xI n (chanI d)" "chan_inv xQ n (chanQ d)" "decimationIndex d = n mod 376"
    "fir_inv xI (n div 376) (firI d)" "fir_inv xQ (n div 376) (firQ d)"
    using inv by (simp_all add: dsp_inv_def)
  show ?thesis
  proof (cases "Suc n mod 376 = 0")
    case False
    then have "Suc (n mod 376) \<le> 375" "Suc n mod 376 = Suc (n mod 376)" "Suc n div 376 = n div 376"
      by (simp_all add: mod_Suc div_Suc split: if_splits)
    with False i integrate_keeps[OF i(1) s(1) False] integrate_keeps[OF i(2) s(2) False] show ?thesis
      by (simp add: dsp_step_def Let_def D dsp_inv_def)
  next
    case True
    define m where "m = n div 376"
    have m2: "Suc n div 376 = Suc m" using True by (simp add: div_Suc m_def)
    have "Suc n = 376 * (Suc n div 376) + Suc n mod 376" by (simp only: mult_div_mod_eq)
    then have m1: "Suc n = 376 * Suc m" unfolding True m2 by simp
    have "\<not> Suc (n mod 376) \<le> 375" using True by (simp add: mod_Suc split: if_splits)
    note m = m1 m2 this
    note ci = comb_output[OF i(1) s(1) m(1)] and cq = comb_output[OF i(2) s(2) m(1)]
    obtain yi ci' where ci': "comb (integrate (fst s) (chanI d)) = (yi, ci')" by fastforce
    obtain yq cq' where cq': "comb (integrate (snd s) (chanQ d)) = (yq, cq')" by fastforce
    obtain si fi where fi: "fir yi (firI d) = (si, fi)" by fastforce
    obtain sq fq where fq: "fir yq (firQ d) = (sq, fq)" by fastforce
    have "sint yi = cic_ref xI (Suc m)" "sint yq = cic_ref xQ (Suc m)"
      using ci(1) cq(1) sint_cic[OF b(1)] sint_cic[OF b(2)] by (simp_all add: ci' cq')
    then have "si / (32768 * real DOWNSAMPLING) = fir_ref xI (Suc m)" "fir_inv xI (Suc m) fi"
      "sq / (32768 * real DOWNSAMPLING) = fir_ref xQ (Suc m)" "fir_inv xQ (Suc m) fq"
      using fir_output[of xI m "firI d" yi] fir_output[of xQ m "firQ d" yq] i(4,5) by (simp_all add: m_def fi fq)
    moreover have "\<not> decimationIndex d + 1 \<le> 375" using m(3) i(3) by simp
    ultimately show ?thesis using True ci(2) cq(2) m(2)
      by (simp add: dsp_step_def Let_def D dsp_inv_def ci' cq' fi fq out_pair_def del: of_nat_numeral)
  qed
qed

lemma stream_saved:
  assumes "\<forall>j. \<bar>xI j\<bar> \<le> 128" "\<forall>j. \<bar>xQ j\<bar> \<le> 128"
  shows "dsp_inv xI xQ n d \<Longrightarrow> \<forall>i < length ss. sint (fst (ss ! i)) = xI (n + i) \<and> sint (snd (ss ! i)) = xQ (n + i) \<Longrightarrow>
    \<exists>d'. fold sample_step ss (d, rx)
      = (d', fold save (map (out_pair xI xQ) [Suc (n div 376)..<Suc ((n + length ss) div 376)]) rx)
      \<and> dsp_inv xI xQ (n + length ss) d'"
proof (induction ss arbitrary: n d rx)
  case (Cons s ss)
  have s: "sint (fst s) = xI n" "sint (snd s) = xQ n" using Cons.prems(2) by (force dest: spec[of _ 0])+
  obtain d1 where d1: "dsp_step s d = (if Suc n mod 376 = 0 then Some (out_pair xI xQ (Suc n div 376)) else None, d1)"
    "dsp_inv xI xQ (Suc n) d1"
    using dsp_step_ref[OF Cons.prems(1) s assms] by blast
  define rx1 where "rx1 = (if Suc n mod 376 = 0 then save (out_pair xI xQ (Suc n div 376)) rx else rx)"
  have st: "sample_step s (d, rx) = (d1, rx1)" by (simp add: sample_step_def d1(1) rx1_def)
  have "\<forall>i < length ss. sint (fst (ss ! i)) = xI (Suc n + i) \<and> sint (snd (ss ! i)) = xQ (Suc n + i)"
    using Cons.prems(2) by (auto dest: spec[of _ "Suc i" for i])
  from Cons.IH[OF d1(2) this, of rx1] obtain d' where d':
    "fold sample_step ss (d1, rx1) = (d', fold save (map (out_pair xI xQ) [Suc (Suc n div 376)..<Suc ((Suc n + length ss) div 376)]) rx1)"
    "dsp_inv xI xQ (Suc n + length ss) d'"
    by blast
  have le: "Suc n div 376 \<le> (Suc n + length ss) div 376" by (rule div_le_mono) simp
  have "fold save (map (out_pair xI xQ) [Suc (n div 376)..<Suc ((n + length (s # ss)) div 376)]) rx
      = fold save (map (out_pair xI xQ) [Suc (Suc n div 376)..<Suc ((Suc n + length ss) div 376)]) rx1"
  proof (cases "Suc n mod 376 = 0")
    case True
    then have "Suc n div 376 = Suc (n div 376)" by (simp add: div_Suc)
    moreover from this le have "[Suc (n div 376)..<Suc ((Suc n + length ss) div 376)]
        = Suc (n div 376) # [Suc (Suc (n div 376))..<Suc ((Suc n + length ss) div 376)]"
      by (intro upt_conv_Cons) simp
    ultimately show ?thesis using True by (simp add: rx1_def del: upt_Suc)
  next
    case False
    then have "Suc n div 376 = n div 376" by (simp add: div_Suc)
    then show ?thesis using False by (simp add: rx1_def del: upt_Suc)
  qed
  with st d' show ?case by simp
qed simp

subsection \<open>The selected half of the buffer\<close>

definition rx_ok :: "rx_state \<Rightarrow> bool" where
  "rx_ok rx \<longleftrightarrow> length (iSamples rx) = 2 \<and> length (qSamples rx) = 2 \<and> length (iqIndex rx) = 2 \<and> bufferIndex rx < 2
     \<and> (\<forall>b < 2. length (iSamples rx ! b) = BUF \<and> length (qSamples rx ! b) = BUF \<and> iqIndex rx ! b \<le> BUF)"

definition store :: "real list \<Rightarrow> nat \<Rightarrow> real list \<Rightarrow> real list" where
  "store old n vs = take BUF (take n old @ vs @ drop (n + length vs) old)"

lemma store_full: "length old = BUF \<Longrightarrow> store old BUF vs = old"
  by (simp add: store_def)

lemma store_Nil: "length old = BUF \<Longrightarrow> store old n [] = old"
  by (simp add: store_def)

lemma store_Cons: "length old = BUF \<Longrightarrow> n < BUF \<Longrightarrow> store old n (v # vs) = store (old[n := v]) (Suc n) vs"
  by (simp add: store_def take_Suc_conv_app_nth)

lemma store_nth: "length old = BUF \<Longrightarrow> k < length vs \<Longrightarrow> k < BUF \<Longrightarrow> store old 0 vs ! k = vs ! k"
  by (simp add: store_def nth_append)

lemma saves_append:
  "rx_ok rx \<Longrightarrow> fold save vs rx = rx\<lparr>
     iSamples := (iSamples rx)[bufferIndex rx := store (iSamples rx ! bufferIndex rx) (iqIndex rx ! bufferIndex rx) (map fst vs)],
     qSamples := (qSamples rx)[bufferIndex rx := store (qSamples rx ! bufferIndex rx) (iqIndex rx ! bufferIndex rx) (map snd vs)],
     iqIndex := (iqIndex rx)[bufferIndex rx := min BUF (iqIndex rx ! bufferIndex rx + length vs)]\<rparr>"
proof (induction vs arbitrary: rx)
  case Nil
  then show ?case by (simp add: rx_ok_def store_Nil)
next
  case (Cons v vs)
  let ?b = "bufferIndex rx"
  have ok: "length (iSamples rx) = 2" "length (qSamples rx) = 2" "length (iqIndex rx) = 2" "?b < 2"
    "length (iSamples rx ! ?b) = BUF" "length (qSamples rx ! ?b) = BUF" "iqIndex rx ! ?b \<le> BUF"
    using Cons.prems by (auto simp: rx_ok_def)
  show ?case
  proof (cases "iqIndex rx ! ?b < BUF")
    case True
    have "rx_ok (save v rx)" using Cons.prems True by (auto simp: save_def Let_def rx_ok_def nth_list_update)
    from Cons.IH[OF this] ok True show ?thesis
      by (simp add: save_def Let_def store_Cons)
  next
    case False
    then have f: "iqIndex rx ! ?b = BUF" using ok(7) by simp
    then have "save v rx = rx" by (simp add: save_def)
    with Cons.IH[OF Cons.prems] ok f show ?thesis by (simp add: store_full)
  qed
qed

lemma rx_ok_save: "rx_ok rx \<Longrightarrow> rx_ok (save v rx)"
  by (auto simp: save_def Let_def rx_ok_def nth_list_update)

lemma rx_ok_saves: "rx_ok rx \<Longrightarrow> rx_ok (fold save vs rx)"
  by (induction vs arbitrary: rx) (simp_all add: rx_ok_save)

subsection \<open>From the device to the buffer\<close>

lemma dvd_8 [simp]: "8 dvd Suc (Suc (Suc (Suc (Suc (Suc (Suc (Suc n))))))) \<longleftrightarrow> 8 dvd n"
  by presburger

lemma mix_append:
  "8 dvd length b \<Longrightarrow> mix (b @ r) = rbind (mix b) (\<lambda>p. rbind (mix r) (\<lambda>q. Inr (p @ q)))"
  by (induction b rule: mix.induct) (auto simp: rbind_assoc rbind_def split: sum.split dest: dvd_imp_le)

lemma save_counter: "save v (rx\<lparr>callback_counter := c\<rparr>) = (save v rx)\<lparr>callback_counter := c\<rparr>"
  by (simp add: save_def Let_def)

lemma saves_counter: "fold save vs (rx\<lparr>callback_counter := c\<rparr>) = (fold save vs rx)\<lparr>callback_counter := c\<rparr>"
  by (induction vs arbitrary: rx) (simp_all add: save_counter)

lemma sample_step_counter:
  "sample_step s (d, rx\<lparr>callback_counter := c\<rparr>) = (case sample_step s (d, rx) of (d, rx) \<Rightarrow> (d, rx\<lparr>callback_counter := c\<rparr>))"
  by (simp add: sample_step_def save_counter split: prod.split option.split)

lemma sample_steps_counter:
  "fold sample_step ss (d, rx\<lparr>callback_counter := c\<rparr>) = (case fold sample_step ss (d, rx) of (d, rx) \<Rightarrow> (d, rx\<lparr>callback_counter := c\<rparr>))"
proof (induction ss arbitrary: d rx)
  case (Cons s ss)
  obtain d1 r1 where "sample_step s (d, rx) = (d1, r1)" by fastforce
  with Cons.IH[of d1 r1] show ?case by (simp add: sample_step_counter)
qed simp

lemma callback_counter_kept [simp]: "callback_counter (snd (fold sample_step ss st)) = callback_counter (snd st)"
  by (induction ss arbitrary: st) (auto simp: sample_step_def save_def Let_def split: prod.split option.split)

text \<open>Cutting the stream into callbacks changes nothing but their count.\<close>

lemma callbacks_concat:
  "\<forall>b \<in> set blocks. 8 dvd length b \<Longrightarrow>
   run_callbacks blocks (d, rx) = rbind (mix (concat blocks)) (\<lambda>ss. Inr (case fold sample_step ss (d, rx) of
     (d', rx') \<Rightarrow> (d', rx'\<lparr>callback_counter := callback_counter rx' + of_nat (length blocks)\<rparr>)))"
proof (induction blocks arbitrary: d rx)
  case (Cons b bs)
  have m: "mix (b @ concat bs) = rbind (mix b) (\<lambda>p. rbind (mix (concat bs)) (\<lambda>q. Inr (p @ q)))"
    using Cons.prems by (intro mix_append) simp
  have IH: "run_callbacks bs (d, rx) = rbind (mix (concat bs)) (\<lambda>ss. Inr (case fold sample_step ss (d, rx) of
     (d', rx') \<Rightarrow> (d', rx'\<lparr>callback_counter := callback_counter rx' + of_nat (length bs)\<rparr>)))" for d rx
    using Cons.prems by (intro Cons.IH) simp
  have kept: "fold sample_step ss (d, rx) = (d1, r1) \<Longrightarrow> callback_counter r1 = callback_counter rx" for ss d rx d1 r1
    using callback_counter_kept[of ss "(d, rx)"] by simp
  show ?case
    by (auto simp: m IH rtlsdr_callback_def rbind_def sample_steps_counter add.assoc dest!: kept split: sum.split prod.split)
qed (simp add: rbind_def)

lemma raw_bound: "\<bar>raw bytes k\<bar> \<le> 128"
  using uint_range_size[of "bytes ! k"] by (simp add: raw_def word_size abs_le_iff)

lemma mixed_bound: "\<bar>mixI bytes n\<bar> \<le> 128" "\<bar>mixQ bytes n\<bar> \<le> 128"
proof -
  have "n mod 4 < 4" by simp
  then consider "n mod 4 = 0" | "n mod 4 = 1" | "n mod 4 = 2" | "n mod 4 = 3" by linarith
  then show "\<bar>mixI bytes n\<bar> \<le> 128" "\<bar>mixQ bytes n\<bar> \<le> 128"
    by (cases; simp add: mixI_def mixQ_def Let_def raw_bound)+
qed


definition demo_rx :: rx_state where
  "demo_rx = \<lparr>exit_flag = False, iSamples = replicate 2 (replicate BUF 0), qSamples = replicate 2 (replicate BUF 0),
     iqIndex = [0, 0], bufferIndex = 0, callback_counter = 0\<rparr>"

lemma demo_rx_ok: "rx_ok demo_rx" "iqIndex demo_rx ! bufferIndex demo_rx = 0" "iqIndex demo_rx = [0, 0]" "bufferIndex demo_rx = 0"
  by (auto simp: rx_ok_def demo_rx_def less_Suc_eq numeral_2_eq_2)


end
