(* ===== verification/RxLevels.thy ===== *)
theory RxLevels
  imports RxWaterfall DecodeSpots "HOL-Library.Multiset"
begin

text \<open>
  What the level estimates of the receiver mean: the noise floor is a median, a lone signal is reported
  10 log 7 dB too low because the estimator reads the wrong tones, and the chain from the samples to the
  decoder stays inside its arrays.
\<close>

subsection \<open>The sort by exchanges\<close>

lemma exchange_facts:
  assumes "i < j" "j < length s"
  shows "length (exchange i j s) = length s" "mset (exchange i j s) = mset s"
    "exchange i j s ! i \<le> exchange i j s ! j" "exchange i j s ! i \<le> s ! i"
    "k \<noteq> i \<Longrightarrow> k \<noteq> j \<Longrightarrow> exchange i j s ! k = s ! k"
    "exchange i j s ! i \<in> {s ! i, s ! j}" "exchange i j s ! j \<in> {s ! i, s ! j}"
  using assms mset_swap[of j s i] by (auto simp: exchange_def list_update_swap)

definition inner_inv :: "nat \<Rightarrow> nat \<Rightarrow> real list \<Rightarrow> real list \<Rightarrow> bool" where
  "inner_inv i k s s' \<longleftrightarrow> length s' = length s \<and> mset s' = mset s \<and> (\<forall>a < i. s' ! a = s ! a)
     \<and> (\<forall>j. i \<le> j \<and> j < k \<longrightarrow> s' ! i \<le> s' ! j)
     \<and> (\<forall>j. i \<le> j \<and> j < length s \<longrightarrow> (\<exists>b. i \<le> b \<and> b < length s \<and> s' ! j = s ! b))"

lemma exchange_inner:
  assumes "inner_inv i k s s'" "i < k" "k < length s"
  shows "inner_inv i (Suc k) s (exchange i k s')"
proof -
  have l: "length s' = length s" using assms(1) by (simp add: inner_inv_def)
  note e = exchange_facts[of i k s', unfolded l, OF assms(2,3)]
  have "exchange i k s' ! i \<le> exchange i k s' ! j" if "i \<le> j" "j < Suc k" for j
  proof -
    consider "j = i" | "j = k" | "i < j" "j < k" using \<open>i \<le> j\<close> \<open>j < Suc k\<close> by linarith
    then show ?thesis
    proof cases
      case 3
      then have "s' ! i \<le> s' ! j" using assms(1) by (simp add: inner_inv_def)
      with 3 e(4) e(5)[of j] show ?thesis by simp
    qed (use e(3) in simp_all)
  qed
  moreover have "\<exists>b. i \<le> b \<and> b < length s \<and> exchange i k s' ! j = s ! b" if "i \<le> j" "j < length s" for j
  proof -
    have "exchange i k s' ! j \<in> {s' ! i, s' ! k, s' ! j}" using e(5)[of j] e(6,7) by (cases "j = i"; cases "j = k") auto
    then show ?thesis using assms that unfolding inner_inv_def by (auto 4 4)
  qed
  ultimately show ?thesis using assms(1,2) e(1,2) e(5) unfolding inner_inv_def by auto
qed

lemma inner_sorted:
  "Suc i \<le> k \<Longrightarrow> k \<le> length s \<Longrightarrow> inner_inv i k s (fold (exchange i) [Suc i..<k] s)"
proof (induction k)
  case (Suc k)
  show ?case
  proof (cases "Suc i \<le> k")
    case True
    with Suc show ?thesis using exchange_inner[of i k s] by (simp add: upt_Suc_append)
  next
    case False
    then have "k = i" using Suc.prems by simp
    then show ?thesis by (auto simp: inner_inv_def le_less_Suc_eq)
  qed
qed simp

definition outer_inv :: "nat \<Rightarrow> real list \<Rightarrow> real list \<Rightarrow> bool" where
  "outer_inv i s s' \<longleftrightarrow> length s' = length s \<and> mset s' = mset s
     \<and> (\<forall>a b. a < i \<and> a \<le> b \<and> b < length s \<longrightarrow> s' ! a \<le> s' ! b)"

lemma outer_step:
  assumes "outer_inv i s s'" "i < length s"
  shows "outer_inv (Suc i) s (fold (exchange i) [Suc i..<length s] s')"
proof -
  have l: "length s' = length s" using assms(1) by (simp add: outer_inv_def)
  let ?t = "fold (exchange i) [Suc i..<length s] s'"
  have t: "inner_inv i (length s) s' ?t" using inner_sorted[of i "length s" s'] assms(2) l by simp
  have "?t ! a \<le> ?t ! b" if ab: "a < Suc i" "a \<le> b" "b < length s" for a b
  proof (cases "a = i")
    case True
    with t that show ?thesis by (simp add: inner_inv_def)
  next
    case False
    then have a: "a < i" using that by simp
    show ?thesis
    proof (cases "b < i")
      case True
      with a t assms(1) that show ?thesis by (simp add: inner_inv_def outer_inv_def)
    next
      case False
      from t have "\<forall>j. i \<le> j \<and> j < length s' \<longrightarrow> (\<exists>b. i \<le> b \<and> b < length s' \<and> ?t ! j = s' ! b)"
        unfolding inner_inv_def by blast
      with False ab(3) l obtain c where "i \<le> c" "c < length s" "?t ! b = s' ! c" by (metis not_less)
      with a t assms(1) show ?thesis by (simp add: inner_inv_def outer_inv_def)
    qed
  qed
  then show ?thesis using t assms(1) l by (simp add: inner_inv_def outer_inv_def)
qed

lemma outer_sorted: "k \<le> length s \<Longrightarrow> outer_inv k s (fold (\<lambda>i. fold (exchange i) [Suc i..<length s]) [0..<k] s)"
proof (induction k)
  case 0
  then show ?case by (simp add: outer_inv_def)
next
  case (Suc k)
  then show ?case using outer_step[of k s] by simp
qed

lemma exchange_sort_sorts: "exchange_sort s = sort s"
proof -
  have o: "outer_inv (length s) s (exchange_sort s)" using outer_sorted[of "length s" s] by (simp add: exchange_sort_def)
  then have "sorted (exchange_sort s)" "mset (exchange_sort s) = mset s"
    unfolding outer_inv_def sorted_iff_nth_mono by auto
  then show ?thesis by (simp add: properties_for_sort)
qed

lemma wide_constants:
  "NUM_BIN = 512" "BLOCK_SIZE = 1024" "SUB_BLOCK_SIZE = 512" "NFFT = 2048" "NUM_BLOCKS = 92" "MAG_ARRAY = 188416" "BUF = 96000"
  "K_FREQ_OSR = 2" "K_TIME_OSR = 2"
proof -
  have r: "real SIGNAL_SAMPLE_RATE / (2 * K_FSK_DEV) = 512" "real SIGNAL_SAMPLE_RATE / K_FSK_DEV = 1024"
    by (simp_all add: SIGNAL_SAMPLE_RATE_def K_FSK_DEV_def)
  have c: "NUM_BIN = 512" "BLOCK_SIZE = 1024" unfolding NUM_BIN_def BLOCK_SIZE_def r by (simp_all add: c_int_def)
  have k: "K_FREQ_OSR = 2" "K_TIME_OSR = 2" "SIGNAL_LENGHT * SIGNAL_SAMPLE_RATE = 96000"
    by (simp_all add: K_FREQ_OSR_def K_TIME_OSR_def SIGNAL_LENGHT_def SIGNAL_SAMPLE_RATE_def)
  have b: "SUB_BLOCK_SIZE = 512" "NFFT = 2048" unfolding SUB_BLOCK_SIZE_def NFFT_def c k by simp_all
  have n: "NUM_BLOCKS = 92" unfolding NUM_BLOCKS_def b c k by simp
  have m: "MAG_ARRAY = 188416" unfolding MAG_ARRAY_def n c k by simp
  show "NUM_BIN = 512" "BLOCK_SIZE = 1024" "SUB_BLOCK_SIZE = 512" "NFFT = 2048" "NUM_BLOCKS = 92" "MAG_ARRAY = 188416" "BUF = 96000"
    "K_FREQ_OSR = 2" "K_TIME_OSR = 2"
    by (rule c b n m k BUF_def [unfolded k(3)])+
qed

subsection \<open>The noise floor\<close>

lemma collect_samples_eq:
  "n \<le> 8192 \<Longrightarrow> (\<forall>k < 8192. k * step < tot) \<Longrightarrow>
   collect_samples m tot step (n * step) n = map (\<lambda>k. byte_db (m ! (k * step))) [n..<8192]"
proof (induction "8192 - n" arbitrary: n)
  case 0
  then show ?case by (subst collect_samples.simps) simp
next
  case (Suc d)
  then have n: "n < 8192" "n * step < tot" by auto
  have "collect_samples m tot step (n * step) n = byte_db (m ! (n * step)) # collect_samples m tot step (Suc n * step) (Suc n)"
    by (subst collect_samples.simps) (simp add: n add.commute)
  also have "\<dots> = map (\<lambda>k. byte_db (m ! (k * step))) (n # [Suc n..<8192])"
    using Suc.hyps(1)[of "Suc n"] Suc.hyps(2) Suc.prems(2) n(1) by simp
  finally show ?case using n(1) by (simp only: upt_conv_Cons)
qed

text \<open>The shape of the receiver's waterfall.\<close>

definition rx_shape :: "ftx_waterfall \<Rightarrow> bool" where
  "rx_shape w \<longleftrightarrow> num_blocks w = NUM_BLOCKS \<and> num_bins w = NUM_BIN \<and> time_osr w = K_TIME_OSR \<and> freq_osr w = K_FREQ_OSR
     \<and> block_stride w = K_TIME_OSR * K_FREQ_OSR * NUM_BIN \<and> length (mag w) = MAG_ARRAY"

definition floor_samples :: "ftx_waterfall \<Rightarrow> real list" where
  "floor_samples w = map (\<lambda>k. byte_db (mag w ! (23 * k))) [0..<8192]"

lemma noise_floor_sorted:
  assumes "rx_shape w"
  shows "noiseFloorPower w = 10 powr (sort (floor_samples w) ! 4096 / 10)"
proof -
  have d: "num_blocks w * block_stride w = 188416" using assms by (simp add: rx_shape_def wide_constants)
  have "k * 23 < (188416 :: nat)" if "k < 8192" for k using that by simp
  then have "collect_samples (mag w) 188416 23 0 0 = floor_samples w"
    using collect_samples_eq[of 0 23 188416 "mag w"] unfolding floor_samples_def by (simp add: mult.commute del: upt.simps upt_rec_numeral)
  moreover have "length (floor_samples w) = 8192" by (simp add: floor_samples_def del: upt.simps upt_rec_numeral)
  moreover from this have "floor_samples w \<noteq> []" by (metis list.size(3) zero_neq_numeral)
  ultimately show ?thesis by (simp add: noiseFloorPower_def d exchange_sort_sorts Let_def)
qed

lemma median_splits:
  fixes xs :: "'a :: linorder list"
  assumes "n < length xs"
  shows "length (filter (\<lambda>x. x < sort xs ! n) xs) \<le> n" "length (filter (\<lambda>x. sort xs ! n < x) xs) \<le> length xs - Suc n"
proof -
  let ?s = "sort xs"
  have m: "length (filter P xs) = length (filter P ?s)" for P
    by (metis mset_filter mset_sort size_mset)
  define a x b where "a = take n ?s" and "x = ?s ! n" and "b = drop (Suc n) ?s"
  have s: "?s = a @ x # b" using assms by (simp add: a_def x_def b_def id_take_nth_drop)
  have len: "length a = n" "length b = length xs - Suc n" using assms by (simp_all add: a_def b_def)
  have "sorted (a @ x # b)" unfolding s [symmetric] by simp
  then have "\<forall>y \<in> set a. y \<le> x" "\<forall>y \<in> set b. x \<le> y" by (auto simp: sorted_append)
  then have e: "filter (\<lambda>y. y < x) b = []" "filter (\<lambda>y. x < y) a = []" unfolding filter_empty_conv by (auto simp: not_less)
  have "length (filter (\<lambda>y. y < x) xs) \<le> length a" "length (filter (\<lambda>y. x < y) xs) \<le> length b"
    unfolding m[of "\<lambda>y. y < x"] m[of "\<lambda>y. x < y"] s by (simp_all add: e)
  then show "length (filter (\<lambda>x. x < sort xs ! n) xs) \<le> n" "length (filter (\<lambda>x. sort xs ! n < x) xs) \<le> length xs - Suc n"
    unfolding len x_def by simp_all
qed

text \<open>
  The noise floor is the median of the 8192 waterfall cells that lie 23 apart: at most 4096 of them are
  quieter and at most 4095 louder than the level it stands for. Signals that fill less than half of the
  cells do not move it above the loudest cell without a signal.
\<close>

theorem noise_floor_median:
  assumes "rx_shape w"
  shows "\<exists>level \<in> set (floor_samples w). noiseFloorPower w = 10 powr (level / 10)
     \<and> length (filter (\<lambda>x. x < level) (floor_samples w)) \<le> 4096
     \<and> length (filter (\<lambda>x. level < x) (floor_samples w)) \<le> 4095"
proof -
  have l: "length (floor_samples w) = 8192" by (simp add: floor_samples_def del: upt.simps upt_rec_numeral)
  then have "sort (floor_samples w) ! 4096 \<in> set (floor_samples w)" 
    using nth_mem[of 4096 "sort (floor_samples w)"] by simp
  then show ?thesis using noise_floor_sorted[OF assms] median_splits[of 4096 "floor_samples w"] unfolding l by auto
qed

definition quiet :: "u8 \<Rightarrow> ftx_waterfall" where
  "quiet b = \<lparr>num_blocks = NUM_BLOCKS, num_bins = NUM_BIN, time_osr = K_TIME_OSR, freq_osr = K_FREQ_OSR,
     mag = replicate MAG_ARRAY b, block_stride = K_TIME_OSR * K_FREQ_OSR * NUM_BIN\<rparr>"

theorem noise_floor_median_witness: "noiseFloorPower (quiet 40) = 10 powr (- 10)"
proof -
  have h: "rx_shape (quiet 40)" by (simp add: rx_shape_def quiet_def)
  have "set (floor_samples (quiet 40)) \<subseteq> {- 100}"
    by (auto simp: floor_samples_def quiet_def wide_constants byte_db_def simp del: upt.simps upt_rec_numeral)
  then show ?thesis using noise_floor_median[OF h] by auto
qed

subsection \<open>The level of a lone signal\<close>

text \<open>The place of a cell of the candidate's rows: symbol \<open>i\<close>, bin \<open>b\<close>.\<close>

definition cell :: "ftx_candidate \<Rightarrow> nat \<Rightarrow> nat \<Rightarrow> nat" where
  "cell c i b = nat (time_offset c + int i) * 2048 + time_sub c * 1024 + freq_sub c * 512 + b"

definition placed :: "ftx_candidate \<Rightarrow> bool" where
  "placed c \<longleftrightarrow> 0 \<le> time_offset c \<and> time_offset c + 79 \<le> 92 \<and> 0 \<le> freq_offset c \<and> freq_offset c + 12 < 512
     \<and> time_sub c < 2 \<and> freq_sub c < 2"

lemma sync_cell_placed:
  assumes "rx_shape w" "placed c" "g < 3" "s < 7"
  shows "sync_cell w c (g, s) = Some (int (cell c (36 * g + s) (nat (freq_offset c) + 2 * kFT8_Costas_pattern ! s)))"
    "cell c (36 * g + s) (nat (freq_offset c) + 2 * kFT8_Costas_pattern ! s) < length (mag w)"
proof -
  have w: "num_blocks w = 92" "num_bins w = 512" "freq_osr w = 2" "block_stride w = 2048" "length (mag w) = 188416"
    using assms(1) by (simp_all add: rx_shape_def wide_constants)
  have t: "kFT8_Costas_pattern ! s \<le> 6" using assms(4) by (auto simp: kFT8_Costas_pattern_def less_Suc_eq numeral_eq_Suc)
  have c: "0 \<le> time_offset c" "time_offset c + 79 \<le> 92" "0 \<le> freq_offset c" "freq_offset c + 12 < 512" "time_sub c < 2" "freq_sub c < 2"
    using assms(2) by (simp_all add: placed_def)
  have b: "g * 36 + s \<le> 78" "36 * g + s = g * 36 + s" using assms(3,4) by simp_all
  show "sync_cell w c (g, s) = Some (int (cell c (36 * g + s) (nat (freq_offset c) + 2 * kFT8_Costas_pattern ! s)))"
    using c t b(1) unfolding b(2) by (simp add: sync_cell_def Let_def w FT8_SYNC_OFFSET_def cell_def)
  have "nat (time_offset c + int (g * 36 + s)) \<le> 91" "nat (freq_offset c) + 2 * kFT8_Costas_pattern ! s \<le> 511"
    using c t b(1) by linarith+
  then show "cell c (36 * g + s) (nat (freq_offset c) + 2 * kFT8_Costas_pattern ! s) < length (mag w)"
    using c(5,6) unfolding w b(2) cell_def by linarith
qed

lemma sum_cells_all:
  "\<forall>k \<in> set ks. k < length m \<Longrightarrow>
   sum_cells m (map (\<lambda>k. Some (int k)) ks) s n = Inr (s + (\<Sum>k\<leftarrow>ks. 10 powr (byte_db (m ! k) / 10)), n + length ks)"
  by (induction ks arbitrary: s n) simp_all

text \<open>A transmission: its tones carry the Costas pattern at the sync symbols.\<close>

definition sync_tones :: "nat list \<Rightarrow> bool" where
  "sync_tones ts \<longleftrightarrow> length ts = 79 \<and> (\<forall>g < 3. \<forall>s < 7. ts ! (36 * g + s) = kFT8_Costas_pattern ! s)"

definition lone_signal :: "ftx_waterfall \<Rightarrow> ftx_candidate \<Rightarrow> nat list \<Rightarrow> u8 \<Rightarrow> u8 \<Rightarrow> bool" where
  "lone_signal w c ts a n \<longleftrightarrow>
     (\<forall>i < 79. \<forall>b < 512. mag w ! cell c i b = (if b = nat (freq_offset c) + ts ! i then a else n))"

definition bin_power :: "u8 \<Rightarrow> real" where
  "bin_power b = 10 powr (byte_db b / 10)"

definition clamp_level :: "real \<Rightarrow> real" where
  "clamp_level x = min 49 (max (- 24) x)"

text \<open>The level the comment of \<^verbatim>\<open>estimateSNR\<close> describes.\<close>

definition documented_snr :: "u8 \<Rightarrow> u8 \<Rightarrow> real" where
  "documented_snr a n = 10 * log 10 ((bin_power a - bin_power n) / bin_power n) - 10 * log 10 (2500 / (6.25 / 2))"

lemma sync_grid: "List.product [0..<FT8_NUM_SYNC] [0..<FT8_LENGTH_SYNC] =
  [(0, 0), (0, 1), (0, 2), (0, 3), (0, 4), (0, 5), (0, 6), (1, 0), (1, 1), (1, 2), (1, 3), (1, 4), (1, 5), (1, 6),
   (2, 0), (2, 1), (2, 2), (2, 3), (2, 4), (2, 5), (2, 6)]"
  by (simp add: FT8_NUM_SYNC_def FT8_LENGTH_SYNC_def upt_rec)

lemma lone_signal_sum:
  assumes w: "rx_shape w" "placed c" and s: "sync_tones ts" "lone_signal w c ts a n"
  shows "sum_cells (mag w) (map (sync_cell w c) (List.product [0..<FT8_NUM_SYNC] [0..<FT8_LENGTH_SYNC])) 0 0
    = Inr (3 * bin_power a + 18 * bin_power n, 21)"
proof -
  let ?k = "\<lambda>(g, s). cell c (36 * g + s) (nat (freq_offset c) + 2 * kFT8_Costas_pattern ! s)"
  let ?l = "List.product [0..<3] [0..<7] :: (nat \<times> nat) list"
  have r: "g < 3 \<and> s < 7" if "(g, s) \<in> set ?l" for g s using that by (simp add: set_product del: upt.simps upt_rec_numeral)
  have "map (sync_cell w c) ?l = map (\<lambda>k. Some (int k)) (map ?k ?l)"
    using r sync_cell_placed(1)[OF w] by (auto simp del: upt.simps upt_rec_numeral)
  moreover have "\<forall>k \<in> set (map ?k ?l). k < length (mag w)"
    using r sync_cell_placed(2)[OF w] by (auto simp del: upt.simps upt_rec_numeral)
  ultimately have e: "sum_cells (mag w) (map (sync_cell w c) ?l) 0 0
      = Inr (\<Sum>k\<leftarrow>map ?k ?l. 10 powr (byte_db (mag w ! k) / 10), 21)"
    by (simp add: sum_cells_all length_product del: map_map upt.simps upt_rec_numeral)
  have v: "mag w ! ?k (g, s) = (if kFT8_Costas_pattern ! s = 0 then a else n)" if "g < 3" "s < 7" for g s
  proof -
    have t: "ts ! (36 * g + s) = kFT8_Costas_pattern ! s" using s(1) that by (simp add: sync_tones_def)
    have "kFT8_Costas_pattern ! s \<le> 6" using that(2) by (auto simp: kFT8_Costas_pattern_def less_Suc_eq numeral_eq_Suc)
    moreover have "0 \<le> freq_offset c" "freq_offset c + 12 < 512" using w(2) by (simp_all add: placed_def)
    ultimately have "nat (freq_offset c) + 2 * kFT8_Costas_pattern ! s < 512" by linarith
    moreover have "36 * g + s < 79" using that by simp
    ultimately show ?thesis using s(2) t by (simp add: lone_signal_def)
  qed
  have "(\<Sum>k\<leftarrow>map ?k ?l. 10 powr (byte_db (mag w ! k) / 10))
      = (\<Sum>(g, s)\<leftarrow>?l. bin_power (if kFT8_Costas_pattern ! s = 0 then a else n))"
    unfolding map_map o_def bin_power_def using r v by (intro arg_cong[of _ _ sum_list] map_cong) auto
  also have "\<dots> = 3 * bin_power a + 18 * bin_power n"
    using sync_grid by (simp add: FT8_NUM_SYNC_def FT8_LENGTH_SYNC_def kFT8_Costas_pattern_def)
  finally show ?thesis using e by (simp add: FT8_NUM_SYNC_def FT8_LENGTH_SYNC_def del: upt.simps upt_rec_numeral)
qed

text \<open>
  C29. The level of a lone signal is reported \<open>10 * log 10 7\<close> (about 8.5) dB below the one the comment
  describes: of the 21 sync symbols the estimator measures the right tone only for the three with tone 0,
  because it multiplies the tone by the frequency oversampling although the waterfall keeps the sub-bins in
  rows of their own.
\<close>

theorem lone_signal_snr:
  assumes w: "rx_shape w" "placed c" and s: "sync_tones ts" "lone_signal w c ts a n"
    and loud: "7 / 10 ^ 12 \<le> bin_power a - bin_power n"
  shows "estimateSNR w c (bin_power n) = Inr (clamp_level (documented_snr a n - 10 * log 10 7))"
proof -
  have "0 \<le> uint n" by (rule uint_ge_0)
  then have "- 120 \<le> byte_db n" unfolding byte_db_def by linarith
  then have "- 12 \<le> byte_db n / 10" by simp
  then have "10 powr (- 12) \<le> bin_power n" unfolding bin_power_def by (rule powr_mono) simp
  moreover have "10 powr (- 12 :: real) = 1 / 10 ^ 12" by (simp only: powr_minus_divide powr_numeral zero_le_numeral)
  ultimately have n: "1 / 10 ^ 12 \<le> bin_power n" by (simp only:)
  then have pos: "0 < bin_power n" "\<not> bin_power n < 1 / 10 ^ 15" "0 < bin_power a - bin_power n" using loud by simp_all
  have sig: "(3 * bin_power a + 18 * bin_power n) / real 21 - bin_power n = (bin_power a - bin_power n) / 7" by (simp add: field_simps)
  have fl: "\<not> (bin_power a - bin_power n) / 7 < 1 / 10 ^ 12" using loud by simp
  have "log 10 ((bin_power a - bin_power n) / 7 / bin_power n) = log 10 ((bin_power a - bin_power n) / bin_power n) - log 10 7"
    using pos log_divide[of 10 "(bin_power a - bin_power n) / bin_power n" 7] by (simp add: mult.commute)
  then have v: "10 * log 10 ((bin_power a - bin_power n) / 7 / bin_power n) - 10 * log 10 (2500 / (K_FSK_DEV / real (freq_osr w)))
      = documented_snr a n - 10 * log 10 7"
    using w(1) by (simp add: documented_snr_def K_FSK_DEV_def rx_shape_def wide_constants)
  show ?thesis
    unfolding estimateSNR_def lone_signal_sum[OF w s] using pos(2) fl
    by (simp only: rbind_simps prod.case sig Let_def v if_False if_cancel) (simp add: clamp_level_def)
qed

definition demo_tones :: "nat list" where
  "demo_tones = kFT8_Costas_pattern @ replicate 29 5 @ kFT8_Costas_pattern @ replicate 29 2 @ kFT8_Costas_pattern"

definition demo_ftx :: ftx_candidate where
  "demo_ftx = \<lparr>score = 30, time_offset = 0, freq_offset = 100, time_sub = 0, freq_sub = 0\<rparr>"

definition demo_waterfall :: ftx_waterfall where
  "demo_waterfall = (quiet 40)\<lparr>mag :=
     map (\<lambda>k. if k mod 2048 = 100 + demo_tones ! (k div 2048) then 200 else 40) [0..<MAG_ARRAY]\<rparr>"

theorem lone_signal_snr_witness:
  "estimateSNR demo_waterfall demo_ftx (bin_power 40) = Inr (clamp_level (documented_snr 200 40 - 10 * log 10 7))"
proof -
  have w: "rx_shape demo_waterfall" by (simp add: rx_shape_def demo_waterfall_def quiet_def del: upt.simps upt_rec_numeral)
  have c: "placed demo_ftx" by (simp add: placed_def demo_ftx_def)
  have t: "sync_tones demo_tones" unfolding sync_tones_def demo_tones_def kFT8_Costas_pattern_def
    by (auto simp: nth_append less_Suc_eq numeral_eq_Suc)
  have l: "lone_signal demo_waterfall demo_ftx demo_tones 200 40"
    unfolding lone_signal_def
  proof (intro allI impI)
    fix i b :: nat
    assume "i < 79" "b < 512"
    then have "cell demo_ftx i b = i * 2048 + b" "i * 2048 + b < MAG_ARRAY" "(i * 2048 + b) mod 2048 = b" "(i * 2048 + b) div 2048 = i"
      by (simp_all add: cell_def demo_ftx_def wide_constants)
    moreover have "mag demo_waterfall ! k = (if k mod 2048 = 100 + demo_tones ! (k div 2048) then 200 else 40)" if "k < MAG_ARRAY" for k
      using that by (simp add: demo_waterfall_def del: upt.simps upt_rec_numeral)
    moreover have "nat (freq_offset demo_ftx) = 100" by (simp add: demo_ftx_def)
    ultimately show "mag demo_waterfall ! cell demo_ftx i b = (if b = nat (freq_offset demo_ftx) + demo_tones ! i then 200 else 40)"
      by (simp only:)
  qed
  have p: "bin_power 200 = 1 / 10 ^ 2" "bin_power 40 = 1 / 10 ^ 10"
    by (simp_all add: bin_power_def byte_db_def powr_minus_divide)
  have "7 / 10 ^ 12 \<le> bin_power 200 - bin_power 40" unfolding p by simp
  from lone_signal_snr[OF w c t l this] show ?thesis .
qed

subsection \<open>From the samples to the decoder\<close>

lemma length_spectrum [simp]: "length (spectrum_bytes out) = 1024"
  by (simp add: spectrum_bytes_def length_concat o_def wide_constants sum_list_triv)

lemma fill_waterfall_total:
  assumes "length is = BUF" "length qs = BUF"
  shows "\<forall>(k, t) \<in> set blocks. k < NUM_BLOCKS \<and> t < K_TIME_OSR \<Longrightarrow>
    \<exists>m. fill_waterfall F is qs blocks = Inr m \<and> length m = 1024 * length blocks"
proof (induction blocks)
  case (Cons kt blocks)
  obtain k t where kt: "kt = (k, t)" by fastforce
  have "k < 92" "t < 2" using Cons.prems by (auto simp: kt wide_constants)
  then have "k * 1024 + t * 512 + 2048 \<le> 96000" by linarith
  then have "\<exists>x. fft_in is qs (k * BLOCK_SIZE + t * SUB_BLOCK_SIZE) = Inr x"
    by (simp add: fft_in_def assms wide_constants)
  with Cons show ?case by (auto simp: kt)
qed simp

lemma waterfall_shape:
  assumes "length is = BUF" "length qs = BUF"
  shows "\<exists>w. waterfall_of F is qs = Inr w \<and> rx_shape w"
proof -
  let ?b = "List.product [0..<NUM_BLOCKS] [0..<K_TIME_OSR]"
  obtain m where m: "fill_waterfall F is qs ?b = Inr m" "length m = 1024 * length ?b"
    using fill_waterfall_total[OF assms, of ?b F] by (auto simp del: upt.simps upt_rec_numeral)
  then have "length m = MAG_ARRAY" by (simp add: length_product wide_constants del: upt.simps upt_rec_numeral)
  with m(1) show ?thesis by (simp add: waterfall_of_def rx_shape_def del: upt.simps upt_rec_numeral)
qed

text \<open>What the candidate search promises.\<close>

definition candidate_ok :: "ftx_candidate \<Rightarrow> bool" where
  "candidate_ok c \<longleftrightarrow> time_sub c < K_TIME_OSR \<and> freq_sub c < K_FREQ_OSR"

lemma sync_cell_bounds:
  assumes "rx_shape w" "candidate_ok c" "sync_cell w c gs = Some k"
  shows "0 \<le> k" "k < int (length (mag w))"
proof -
  have w: "num_blocks w = 92" "num_bins w = 512" "freq_osr w = 2" "block_stride w = 2048" "length (mag w) = 188416"
    using assms(1) by (simp_all add: rx_shape_def wide_constants)
  have c: "time_sub c < 2" "freq_sub c < 2" using assms(2) by (simp_all add: candidate_ok_def wide_constants)
  obtain g s where gs: "gs = (g, s)" by fastforce
  define block where "block = time_offset c + int (g * FT8_SYNC_OFFSET + s)"
  define bin where "bin = freq_offset c + int (kFT8_Costas_pattern ! s) * int 2"
  have "k = block * 2048 + int (time_sub c) * 1024 + int (freq_sub c) * 512 + bin"
    "0 \<le> block" "block < 92" "0 \<le> bin" "bin < 512"
    using assms(3) unfolding gs sync_cell_def Let_def w prod.case block_def [symmetric] bin_def [symmetric]
    by (simp_all split: if_splits)
  then show "0 \<le> k" "k < int (length (mag w))" using c unfolding w by linarith+
qed

lemma sum_cells_total:
  "\<forall>k \<in> set cs. \<forall>i. k = Some i \<longrightarrow> 0 \<le> i \<and> i < int (length m) \<Longrightarrow> \<exists>r. sum_cells m cs s n = Inr r"
  by (induction m cs s n rule: sum_cells.induct) auto

lemma estimateSNR_total:
  assumes "rx_shape w" "candidate_ok c"
  shows "\<exists>v. estimateSNR w c p = Inr v \<and> - 24 \<le> v \<and> v \<le> 49"
proof -
  obtain r where "sum_cells (mag w) (map (sync_cell w c) (List.product [0..<FT8_NUM_SYNC] [0..<FT8_LENGTH_SYNC])) 0 0 = Inr r"
    using sum_cells_total[of "map (sync_cell w c) (List.product [0..<FT8_NUM_SYNC] [0..<FT8_LENGTH_SYNC])" "mag w" 0 0]
      sync_cell_bounds[OF assms] by fastforce
  then show ?thesis by (cases r) (auto simp: estimateSNR_def Let_def)
qed

lemma see_candidates_total:
  assumes "rx_shape w"
  shows "\<forall>c \<in> set cs. candidate_ok c \<Longrightarrow> \<exists>xs. see_candidates dec w p cs = Inr xs \<and> length xs = length cs
    \<and> (\<forall>x \<in> set xs. - 24 \<le> est_snr x \<and> est_snr x \<le> 49)"
proof (induction cs)
  case (Cons c cs)
  have "\<exists>x. see_candidate dec w p c = Inr x \<and> - 24 \<le> est_snr x \<and> est_snr x \<le> 49"
  proof (cases "dec w c")
    case (Some m)
    obtain v where v: "estimateSNR w c p = Inr v" "- 24 \<le> v" "v \<le> 49"
      using estimateSNR_total[OF assms, of c p] Cons.prems by auto
    have "c_round (of_int (- 24)) \<le> c_round v" "c_round v \<le> c_round (of_int 49)" using v by (intro c_round_mono; simp)+
    then show ?thesis using v(1) Some unfolding c_round_of_int by (simp add: see_candidate_def Let_def)
  qed (simp add: see_candidate_def Let_def)
  with Cons show ?case by fastforce
qed simp

text \<open>
  From the samples of a slot to the decoded messages no array is left, whatever the samples, the Fourier
  transform and the candidates are, as long as the search keeps the sub-bins of its candidates in range: the
  reads of the sample buffers, the writes of the waterfall, the cells of the level estimator and the results.
  At most 50 results come out, every estimated level lies between -24 and 49 dB, and the handler gets one tick
  (none when the memory is exhausted).
\<close>

theorem samples_to_spots:
  assumes "length is = BUF" "length qs = BUF" "length results = K_MAX_MESSAGES"
    and search: "\<And>w c. rx_shape w \<Longrightarrow> c \<in> set (find_candidates lib w K_MAX_CANDIDATES K_MIN_SCORE) \<Longrightarrow> candidate_ok c"
  shows "\<exists>ds n tab' log q'. ft8_subsystem lib env mem is qs results tab q = Inr (ds, n, tab', log, q')
    \<and> n \<le> K_MAX_MESSAGES \<and> length ds = K_MAX_MESSAGES
    \<and> tick_queue q' = tick_queue q @ (if mem then [this_slot env] else [])
    \<and> (\<forall>w. waterfall_of (fft lib) is qs = Inr w \<longrightarrow>
         (\<exists>cs. see_candidates (decode_candidate lib) w (noiseFloorPower w) (find_candidates lib w K_MAX_CANDIDATES K_MIN_SCORE) = Inr cs
            \<and> (\<forall>c \<in> set cs. - 24 \<le> est_snr c \<and> est_snr c \<le> 49)))"
proof -
  obtain w where w: "waterfall_of (fft lib) is qs = Inr w" "rx_shape w" using waterfall_shape[OF assms(1,2)] by blast
  obtain cs where cs: "see_candidates (decode_candidate lib) w (noiseFloorPower w) (find_candidates lib w K_MAX_CANDIDATES K_MIN_SCORE) = Inr cs"
    "\<forall>c \<in> set cs. - 24 \<le> est_snr c \<and> est_snr c \<le> 49"
    using see_candidates_total[OF w(2), of "find_candidates lib w K_MAX_CANDIDATES K_MIN_SCORE"] search[OF w(2)] by blast
  show ?thesis
    using decode_in_bounds[OF assms(3), of env cs tab q] w(1) cs assms(3)
    by (cases mem) (auto simp: ft8_subsystem_def)
qed

definition demo_lib :: rx_lib where
  "demo_lib = \<lparr>fft = id, find_candidates = (\<lambda>w n s. [demo_ftx]), decode_candidate = (\<lambda>w c. Some \<lparr>payload = [1, 2], msg_hash = 7\<rparr>)\<rparr>"

theorem samples_to_spots_witness:
  "\<exists>ds n tab' log q'. ft8_subsystem demo_lib demo_denv True (replicate BUF 0) (replicate BUF 0) (replicate 50 no_result) [] init_globals
     = Inr (ds, n, tab', log, q') \<and> tick_queue q' = [even_slot]"
proof -
  have h: "length (replicate 50 no_result) = K_MAX_MESSAGES" "length (replicate BUF (0 :: real)) = BUF" by (simp_all add: K_MAX_MESSAGES_def)
  have c: "rx_shape w \<Longrightarrow> c \<in> set (find_candidates demo_lib w K_MAX_CANDIDATES K_MIN_SCORE) \<Longrightarrow> candidate_ok c" for w c
    by (simp add: demo_lib_def candidate_ok_def demo_ftx_def wide_constants)
  have t: "tick_queue init_globals = []" "this_slot demo_denv = even_slot"
    by (simp_all add: init_globals_def this_slot_def demo_denv_def slot_of_time_def FT8_PERIOD_def)
  show ?thesis
    using samples_to_spots[where lib = demo_lib and env = demo_denv and mem = True and tab = "[]" and q = init_globals, OF h(2,2,1) c] t
    by fastforce
qed

end
