(* ===== verification/RxWindow.thy ===== *)
theory RxWindow
  imports RxFilter RxLevels
begin

text \<open>
  What the decoder gets in each slot: the window of samples between the start of the slot and 12.6 seconds,
  whatever arrives around it, and what a turn of the decoder thread makes of it.
\<close>

subsection \<open>Time\<close>

lemma usec_value: "usec_in_slot t = word_of_int (t mod 15000000)" "0 \<le> t mod 15000000" "t mod 15000000 < 15000000"
proof -
  have "t mod 15000000 = (t div 1000000 mod 15) * 1000000 + t mod 1000000"
    using mod_mult2_eq'[of t 1000000 15] by (simp add: algebra_simps)
  then show "usec_in_slot t = word_of_int (t mod 15000000)" by (simp add: usec_in_slot_def FT8_PERIOD_def wi_hom_syms)
qed simp_all

lemma unsigned_small: "0 \<le> k \<Longrightarrow> k < 2 ^ 32 \<Longrightarrow> uint (word_of_int k :: u32) = k"
  by (simp add: uint_word_of_int)

lemma wait_values:
  "uint (uwait t) = 15000000 - t mod 15000000"
  "t mod 15000000 \<le> 12600000 \<Longrightarrow> uint (ft8wait t) = 12600000 - t mod 15000000"
  "12600000 < t mod 15000000 \<Longrightarrow> 15000000 < uint (ft8wait t)"
proof -
  let ?m = "t mod 15000000"
  note m = usec_value(2,3)[of t]
  have u: "uwait t = word_of_int (15000000 - ?m)" "ft8wait t = word_of_int (12600000 - ?m)"
    by (simp_all add: uwait_def ft8wait_def usec_value(1) FT8_BUFRESET_def FT8_TXTIME_def wi_hom_syms)
  show "uint (uwait t) = 15000000 - ?m" unfolding u using m by (intro unsigned_small) simp_all
  show "?m \<le> 12600000 \<Longrightarrow> uint (ft8wait t) = 12600000 - ?m" unfolding u using m by (intro unsigned_small) simp_all
  assume l: "12600000 < ?m"
  have "uint (word_of_int (12600000 - ?m) :: u32) = (12600000 - ?m) mod 2 ^ 32" by (subst uint_word_of_int) simp
  also have "\<dots> = (12600000 - ?m + 2 ^ 32) mod 2 ^ 32" by (rule mod_add_self2 [symmetric])
  also have "\<dots> = 12600000 - ?m + 2 ^ 32" using m l by (intro mod_pos_pos_trivial) simp_all
  finally show "15000000 < uint (ft8wait t)" unfolding u using m by simp
qed

lemma normal_turn: "ft8wait t < uwait t \<longleftrightarrow> t mod 15000000 \<le> 12600000"
  using wait_values[of t] usec_value(2)[of t] by (cases "t mod 15000000 \<le> 12600000") (simp_all add: word_less_def)

lemma wakes_at:
  "t mod 15000000 \<le> 12600000 \<Longrightarrow> (t + uint (ft8wait t)) mod 15000000 = 12600000"
  "(t + uint (uwait t)) mod 15000000 = 0"
proof -
  have "(t + (k - t mod 15000000)) mod 15000000 = k mod 15000000" for k
    using mod_diff_right_eq[of "t + k" t 15000000] by (simp add: algebra_simps)
  from this[of 12600000] this[of 15000000]
  show "t mod 15000000 \<le> 12600000 \<Longrightarrow> (t + uint (ft8wait t)) mod 15000000 = 12600000"
    "(t + uint (uwait t)) mod 15000000 = 0" by (simp_all add: wait_values)
qed

subsection \<open>Callbacks from any state of the filter\<close>

definition good_blocks :: "u8 list list \<Rightarrow> bool" where
  "good_blocks bs \<longleftrightarrow> (\<forall>b \<in> set bs. 8 dvd length b \<and> 0 \<notin> set b)"

lemma good_append [simp]: "good_blocks (xs @ ys) \<longleftrightarrow> good_blocks xs \<and> good_blocks ys"
  by (auto simp: good_blocks_def)

lemma good_concat: "good_blocks bs \<Longrightarrow> 8 dvd length (concat bs) \<and> 0 \<notin> set (concat bs)"
  by (induction bs) (auto simp: good_blocks_def)

text \<open>The filter after the bytes \<open>past\<close>, as past from the whole stream \<open>past @ rest\<close>.\<close>

definition after_bytes :: "u8 list \<Rightarrow> u8 list \<Rightarrow> dsp \<Rightarrow> bool" where
  "after_bytes past rest d \<longleftrightarrow> 8 dvd length past
     \<and> dsp_inv (mixI (past @ rest)) (mixQ (past @ rest)) (length past div 2) d"

lemma mix_prefix: "n < length r div 2 \<Longrightarrow> mixI (r @ s) n = mixI r n \<and> mixQ (r @ s) n = mixQ r n"
proof -
  assume "n < length r div 2"
  then have "2 * n < length r" "2 * n + 1 < length r" by linarith+
  then show ?thesis by (simp add: mixI_def mixQ_def raw_def nth_append)
qed

lemma callbacks_from:
  assumes d: "after_bytes past (concat bs @ rest) d" and g: "good_blocks bs"
  shows "\<exists>d'. run_callbacks bs (d, rx) = Inr (d',
      (fold save (map (out_pair (mixI (past @ concat bs @ rest)) (mixQ (past @ concat bs @ rest)))
         [Suc (length past div 2 div 376)..<Suc (length (past @ concat bs) div 2 div 376)]) rx)
        \<lparr>callback_counter := callback_counter rx + of_nat (length bs)\<rparr>)
    \<and> after_bytes (past @ concat bs) rest d'"
proof -
  let ?B = "concat bs" and ?W = "past @ concat bs @ rest"
  have B: "8 dvd length ?B" "0 \<notin> set ?B" using good_concat[OF g] by blast+
  from mix_rotates[OF this] obtain ps where ps: "mix ?B = Inr ps" "2 * length ps = length ?B"
    "\<forall>n < length ps. pair_vals ?B n (ps ! n)" by blast
  have s: "8 dvd length past" and inv: "dsp_inv (mixI ?W) (mixQ ?W) (length past div 2) d"
    using d by (simp_all add: after_bytes_def)
  have "\<forall>i < length ps. sint (fst (ps ! i)) = mixI ?W (length past div 2 + i) \<and> sint (snd (ps ! i)) = mixQ ?W (length past div 2 + i)"
    using ps(2,3) mix_shift[OF s] mix_prefix[of _ ?B rest] by (auto simp: pair_vals_def)
  from stream_saved[OF allI allI, OF mixed_bound inv this, of rx] obtain d' where d':
    "fold sample_step ps (d, rx) = (d', fold save (map (out_pair (mixI ?W) (mixQ ?W))
       [Suc (length past div 2 div 376)..<Suc ((length past div 2 + length ps) div 376)]) rx)"
    "dsp_inv (mixI ?W) (mixQ ?W) (length past div 2 + length ps) d'" by blast
  have len: "length past div 2 + length ps = length (past @ ?B) div 2" using s ps(2) by (auto elim!: dvdE)
  have "\<forall>b \<in> set bs. 8 dvd length b" using g by (simp add: good_blocks_def)
  from callbacks_concat[OF this, of d rx] d' show ?thesis
    unfolding len using s B(1) callback_counter_kept[of ps "(d, rx)"]
    by (intro exI[of _ d']) (simp add: ps(1) after_bytes_def del: upt_Suc)
qed

subsection \<open>The window\<close>

lemma saves_iq:
  assumes "rx_ok rx"
  shows "iqIndex (fold save vs rx) = (iqIndex rx)[bufferIndex rx := min BUF (iqIndex rx ! bufferIndex rx + length vs)]"
    "bufferIndex (fold save vs rx) = bufferIndex rx" "exit_flag (fold save vs rx) = exit_flag rx"
    "b \<noteq> bufferIndex rx \<Longrightarrow> iSamples (fold save vs rx) ! b = iSamples rx ! b \<and> qSamples (fold save vs rx) ! b = qSamples rx ! b"
    "iSamples (fold save vs rx) ! bufferIndex rx = store (iSamples rx ! bufferIndex rx) (iqIndex rx ! bufferIndex rx) (map fst vs)"
    "qSamples (fold save vs rx) ! bufferIndex rx = store (qSamples rx ! bufferIndex rx) (iqIndex rx ! bufferIndex rx) (map snd vs)"
  using assms by (auto simp: saves_append[OF assms] rx_ok_def)

lemma rx_ok_counter [simp]: "rx_ok (rx\<lparr>callback_counter := c\<rparr>) = rx_ok rx"
  by (simp add: rx_ok_def)

lemma rx_ok_flip: "rx_ok rx \<Longrightarrow> rx_ok (flip rx)"
  by (auto simp: rx_ok_def flip_def Let_def nth_list_update)

lemma rx_ok_reset: "rx_ok rx \<Longrightarrow> rx_ok (reset_index rx)"
  by (auto simp: rx_ok_def reset_index_def nth_list_update)

text \<open>The other half and its length are out of reach of callbacks and of emptying the current half.\<close>

definition same_window :: "rx_state \<Rightarrow> rx_state \<Rightarrow> bool" where
  "same_window rx rx' \<longleftrightarrow> bufferIndex rx' = bufferIndex rx \<and> (let p = prev_buffer rx in
     iqIndex rx' ! p = iqIndex rx ! p \<and> iSamples rx' ! p = iSamples rx ! p \<and> qSamples rx' ! p = qSamples rx ! p)"

lemma prev_other: "bufferIndex rx < 2 \<Longrightarrow> prev_buffer rx \<noteq> bufferIndex rx \<and> prev_buffer rx < 2"
  by (auto simp: prev_buffer_def less_Suc_eq numeral_2_eq_2)

lemma same_window_saves: "rx_ok rx \<Longrightarrow> same_window rx ((fold save vs rx)\<lparr>callback_counter := c\<rparr>)"
  using prev_other[of rx] by (simp add: same_window_def saves_iq rx_ok_def)

lemma same_window_reset: "rx_ok rx \<Longrightarrow> same_window rx (reset_index rx)"
  using prev_other[of rx] by (simp add: same_window_def reset_index_def rx_ok_def Let_def)

lemma same_window_trans: "same_window a b \<Longrightarrow> same_window b c \<Longrightarrow> same_window a c"
  by (simp add: same_window_def prev_buffer_def Let_def)

lemma callbacks_window:
  assumes "after_bytes past (concat bs @ rest) d" "good_blocks bs" "rx_ok rx" "run_callbacks bs (d, rx) = Inr (d', rx')"
  shows "same_window rx rx' \<and> rx_ok rx' \<and> after_bytes (past @ concat bs) rest d'"
  using callbacks_from[OF assms(1,2), of rx] assms(4) same_window_saves[OF assms(3)] rx_ok_saves[OF assms(3)] by auto

lemma after_signal_window:
  assumes "after_bytes past (concat E @ concat F @ rest) d" "good_blocks (E @ F)" "rx_ok rx"
    and "after_signal True E F (d, rx) = Inr (d', rx')"
  shows "same_window rx rx' \<and> rx_ok rx'"
proof -
  have g: "good_blocks E" "good_blocks F" using assms(2) by simp_all
  obtain d1 rx1 where 1: "run_callbacks E (d, rx) = Inr (d1, rx1)" "run_callbacks F (d1, reset_index rx1) = Inr (d', rx')"
    using assms(4) by (auto simp: after_signal_def rbind_def split: sum.splits prod.splits)
  have w1: "same_window rx rx1" "rx_ok rx1" "after_bytes (past @ concat E) (concat F @ rest) d1"
    using callbacks_window[OF assms(1) g(1) assms(3) 1(1)] by simp_all
  have "same_window (reset_index rx1) rx' \<and> rx_ok rx'"
    using callbacks_window[OF w1(3) g(2) rx_ok_reset[OF w1(2)] 1(2)] by simp
  then show ?thesis using w1(1) same_window_reset[OF w1(2)] same_window_trans by blast
qed

lemma fir_ref_cong:
  assumes "\<forall>j < 376 * m. x j = y j"
  shows "fir_ref x m = fir_ref y m"
proof -
  have "cic_ref x (m + i - FIR_TAPS) = cic_ref y (m + i - FIR_TAPS)" if "i \<le> FIR_TAPS" for i
  proof -
    have "m + i - FIR_TAPS \<le> m" using that by linarith
    then have "376 * (m + i - FIR_TAPS) \<le> 376 * m" by (rule mult_le_mono2)
    then show ?thesis unfolding cic_ref_def using assms by (intro sum.cong refl) simp
  qed
  then show ?thesis unfolding fir_ref_def by simp
qed

lemma nth_run: "i < n - m \<Longrightarrow> i < length (map f [Suc m..<Suc n]) \<and> map f [Suc m..<Suc n] ! i = f (m + i + 1)"
  by (simp add: nth_upt del: upt_Suc)

lemma slot_runs:
  fixes R :: "8 word list"
  assumes past: "run_callbacks past (dsp0, rxp) = Inr (d, rxq)" "rx_ok rxp" and g: "good_blocks (past @ C @ D)"
  defines "W \<equiv> concat (past @ C @ D)"
  defines "vs \<equiv> map (out_pair (mixI (W @ R)) (mixQ (W @ R))) [Suc (length (concat past) div 2 div 376)..<Suc (length W div 2 div 376)]"
  obtains d1 rx1 d2 c where "run_callbacks C (d, rx) = Inr (d1, rx1)"
    "run_callbacks D (d1, rx1) = Inr (d2, (fold save vs rx)\<lparr>callback_counter := c\<rparr>)" "after_bytes W R d2"
proof -
  let ?P = "concat past"
  have gp: "good_blocks past" "good_blocks C" "good_blocks D" using g by simp_all
  have "after_bytes [] (?P @ concat C @ concat D @ R) dsp0" by (simp add: after_bytes_def dsp0_inv)
  from callbacks_window[OF this gp(1) past(2,1)] have d: "after_bytes ?P (concat C @ concat D @ R) d" by simp
  define xI xQ where "xI = mixI (W @ R)" and "xQ = mixQ (W @ R)"
  let ?k0 = "length ?P div 2 div 376" and ?k1 = "length (?P @ concat C) div 2 div 376" and ?k2 = "length W div 2 div 376"
  define rx1 where "rx1 = (fold save (map (out_pair xI xQ) [Suc ?k0..<Suc ?k1]) rx)
        \<lparr>callback_counter := callback_counter rx + of_nat (length C)\<rparr>"
  obtain d1 where r1: "run_callbacks C (d, rx) = Inr (d1, rx1)" "after_bytes (?P @ concat C) (concat D @ R) d1"
    using callbacks_from[OF d gp(2), of rx] unfolding rx1_def xI_def xQ_def W_def by auto
  obtain d2 where r2: "run_callbacks D (d1, rx1) = Inr (d2, (fold save (map (out_pair xI xQ) [Suc ?k1..<Suc ?k2]) rx1)
        \<lparr>callback_counter := callback_counter rx1 + of_nat (length D)\<rparr>)" "after_bytes W R d2"
    using callbacks_from[OF r1(2) gp(3), of rx1] unfolding xI_def xQ_def W_def by auto
  have "?k0 \<le> ?k1" "?k1 \<le> ?k2" unfolding W_def by (intro div_le_mono; simp)+
  then have up: "[Suc ?k0..<Suc ?k1] @ [Suc ?k1..<Suc ?k2] = [Suc ?k0..<Suc ?k2]"
    using upt_add_eq_append[of "Suc ?k0" "Suc ?k1" "?k2 - ?k1"] by simp
  have "fold save (map (out_pair xI xQ) [Suc ?k1..<Suc ?k2]) (fold save (map (out_pair xI xQ) [Suc ?k0..<Suc ?k1]) rx) = fold save vs rx"
    unfolding vs_def xI_def [symmetric] xQ_def [symmetric] up [symmetric] by (simp del: upt_Suc)
  then obtain c where "run_callbacks D (d1, rx1) = Inr (d2, (fold save vs rx)\<lparr>callback_counter := c\<rparr>)"
    using r2(1) unfolding rx1_def saves_counter by auto
  with r1(1) r2(2) that show thesis by blast
qed

lemma flipped_window:
  fixes rx :: rx_state and vs :: "(real \<times> real) list" and c
  assumes rx: "rx_ok rx" "iqIndex rx ! bufferIndex rx = 0"
  defines "r \<equiv> flip ((fold save vs rx)\<lparr>callback_counter := c\<rparr>)" and "b \<equiv> bufferIndex rx"
  shows "prev_buffer r = b" "iqIndex r ! bufferIndex r = 0" "iqIndex r ! b = min BUF (length vs)"
    "iSamples r ! b = store (iSamples rx ! b) 0 (map fst vs)" "qSamples r ! b = store (qSamples rx ! b) 0 (map snd vs)"
proof -
  have b: "b < 2" "length (iqIndex rx) = 2" using rx(1) by (auto simp: rx_ok_def b_def)
  note f = saves_iq(1,2,3,5,6)[OF rx(1), of vs]
  show "prev_buffer r = b" "iqIndex r ! bufferIndex r = 0"
    using b f(1,2) by (auto simp: r_def b_def flip_def Let_def prev_buffer_def less_Suc_eq numeral_2_eq_2)
  show "iqIndex r ! b = min BUF (length vs)" "iSamples r ! b = store (iSamples rx ! b) 0 (map fst vs)"
    "qSamples r ! b = store (qSamples rx ! b) 0 (map snd vs)"
    using b f rx(2) by (auto simp: r_def b_def flip_def Let_def less_Suc_eq numeral_2_eq_2)
qed

lemma window_refs:
  assumes "m \<le> length W div 2 div 376"
  shows "fir_ref (mixI (W @ R)) m = fir_ref (mixI W) m" "fir_ref (mixQ (W @ R)) m = fir_ref (mixQ W) m"
proof -
  have "376 * m \<le> 376 * (length W div 2 div 376)" using assms by (rule mult_le_mono2)
  also have "\<dots> \<le> length W div 2" by (rule times_div_less_eq_dividend)
  finally have "\<forall>j < 376 * m. mixI (W @ R) j = mixI W j \<and> mixQ (W @ R) j = mixQ W j"
    using mix_prefix[of _ W R] by fastforce
  then show "fir_ref (mixI (W @ R)) m = fir_ref (mixI W) m" "fir_ref (mixQ (W @ R)) m = fir_ref (mixQ W) m"
    by (intro fir_ref_cong; blast)+
qed



end
