(* ===== verification/RxDevice.thy ===== *)
theory RxDevice
  imports RxOptions
begin

text \<open>
  The handling of the receiver's device (\<^verbatim>\<open>rtlsdr_ft8d.cpp\<close>): opening and configuring it, the clean restart,
  and the stall watchdog of the main loop. The driver \<^verbatim>\<open>librtlsdr\<close> is the record \<open>driver\<close> of what its calls
  return; the calls made are kept in a trace. Text goes to the caller's array, whose size \<open>cap\<close> the functions
  do not know.
\<close>

subsection \<open>Driver and state\<close>

record driver =
  device_count :: nat
  rc_open :: int
  is_R828D :: bool
  device_name :: "string option"
  rc_gain :: int
  rc_direct :: int
  rc_rate :: int
  rc_ppm :: int
  rc_center :: int
  rc_reset :: int

datatype rtl_call =
    OpenDev u32
  | SetGainMode int
  | SetGain int
  | SetDirect u32
  | SetRate nat
  | SetPpm int
  | SetCenter u32
  | ResetBuffer
  | CloseDev
  | CancelAsync
  | JoinRx
  | SpawnRx

record rx_device =
  rtl_device :: bool \<comment> \<open>whether the handle is set\<close>
  dev_opts :: receiver_options
  calls :: "rtl_call list"

definition call :: "rtl_call \<Rightarrow> rx_device \<Rightarrow> rx_device" where
  "call c s = s\<lparr>calls := calls s @ [c]\<rparr>"

definition closeRtlDevice :: "rx_device \<Rightarrow> rx_device" where
  "closeRtlDevice s = (if rtl_device s then call CloseDev s else s)"

subsection \<open>startRtlDevice\<close>

text \<open>\<^verbatim>\<open>snprintf(resultText, 96, ..)\<close> into an array of \<open>cap\<close> bytes.\<close>

definition snprintf_into :: "nat \<Rightarrow> nat \<Rightarrow> string \<Rightarrow> string result" where
  "snprintf_into cap n t = sprintf_s cap (snprintf_s n t)"

text \<open>A failed step: the text, the device closed and the handle reset.\<close>

definition give_up :: "nat \<Rightarrow> string \<Rightarrow> rx_device \<Rightarrow> (bool \<times> string \<times> rx_device) result" where
  "give_up cap t s = rbind (sprintf_s cap (t @ newline)) (\<lambda>t. Inr (False, t, (call CloseDev s)\<lparr>rtl_device := False\<rparr>))"

definition rtl_generation :: "driver \<Rightarrow> receiver_options \<Rightarrow> rtl_gen_t" where
  "rtl_generation drv ro = (if rtlgen ro = rtlAuto then (if is_R828D drv then rtlV4 else rtlV3) else rtlgen ro)"

definition choose_sampling :: "rtl_gen_t \<Rightarrow> receiver_options \<Rightarrow> receiver_options" where
  "choose_sampling gen ro =
     (if isHF ro \<and> \<not> directset ro then ro\<lparr>directsampling := if gen = rtlV4 then 0 else 2\<rparr> else ro)"

definition device_text :: "driver \<Rightarrow> rtl_gen_t \<Rightarrow> string" where
  "device_text drv gen =
     (case device_name drv of Some n \<Rightarrow> if n \<noteq> [] then n else ''RTL device'' | None \<Rightarrow> ''RTL device'')
     @ '' (RTL-SDR '' @ (if gen = rtlV4 then ''v4'' else ''v3'') @ '')''"

text \<open>
  The configuration steps: whether the call is made, the call, what it returns and the text of its failure.
  \<open>rc\<close> is \<^verbatim>\<open>rtl_result\<close>, which a call that is not made leaves as it is.
\<close>

fun configure :: "nat \<Rightarrow> (bool \<times> rtl_call \<times> int \<times> string) list \<Rightarrow> int \<Rightarrow> string \<Rightarrow> rx_device \<Rightarrow> (bool \<times> string \<times> rx_device) result" where
  "configure cap [] rc dt s = Inr (True, dt, call SpawnRx s)"
| "configure cap ((made, c, r, fail) # steps) rc dt s =
     (let (s, rc) = (if made then (call c s, r) else (s, rc)) in
      if rc < 0 then give_up cap fail s else configure cap steps rc dt s)"

definition rtl_steps :: "driver \<Rightarrow> receiver_options \<Rightarrow> (bool \<times> rtl_call \<times> int \<times> string) list" where
  "rtl_steps drv ro =
     [(True, if autogain ro then SetGainMode 0 else SetGain (gain ro), rc_gain drv, ''Cannot set gain''),
      (directsampling ro \<noteq> 0, SetDirect (directsampling ro), rc_direct drv, ''Cannot set direct sampling''),
      (True, SetRate SAMPLING_RATE, rc_rate drv, ''Cannot set sampling rate''),
      (rx_ppm ro \<noteq> 0, SetPpm (rx_ppm ro), rc_ppm drv, ''Cannot set frequency correction''),
      (True, SetCenter (realfreq ro + of_nat FS4_RATE), rc_center drv, ''Cannot set center frequency''),
      (True, ResetBuffer, rc_reset drv, ''Cannot reset device buffer'')]"

definition startRtlDevice :: "driver \<Rightarrow> nat \<Rightarrow> rx_device \<Rightarrow> (bool \<times> string \<times> rx_device) result" where
  "startRtlDevice drv cap s =
     (if device_count drv = 0 then
        rbind (sprintf_s cap (''Device crashed'' @ newline)) (\<lambda>t. Inr (False, t, s))
      else
        (let s = call (OpenDev (device (dev_opts s))) s in
         if rc_open drv < 0 then rbind (sprintf_s cap (''Cannot open device'' @ newline)) (\<lambda>t. Inr (False, t, s))
         else
           (let gen = rtl_generation drv (dev_opts s);
                s = s\<lparr>rtl_device := True, dev_opts := choose_sampling gen (dev_opts s)\<rparr>
            in rbind (snprintf_into cap 96 (device_text drv gen))
                 (\<lambda>dt. configure cap (rtl_steps drv (dev_opts s)) (rc_open drv) dt s))))"

definition restartRtlDevice :: "driver \<Rightarrow> nat \<Rightarrow> rx_device \<Rightarrow> (bool \<times> string \<times> rx_device) result" where
  "restartRtlDevice drv cap s =
     startRtlDevice drv cap
       (if rtl_device s then (call CloseDev (call JoinRx (call CancelAsync s)))\<lparr>rtl_device := False\<rparr> else s)"

subsection \<open>The watchdog\<close>

record watchdog =
  lastSeenCbCount :: u32
  lastCbChange :: int
  restartFailures :: nat
  wd_exit :: bool
  wd_dev :: rx_device

text \<open>
  One turn at time \<open>now\<close> with the callback count \<open>cb\<close>; \<open>after\<close> and \<open>cb2\<close> are what clock and counter read
  after a restart. The text array has 32 bytes.
\<close>

definition watchdog_turn :: "driver \<Rightarrow> u32 \<Rightarrow> int \<Rightarrow> u32 \<Rightarrow> int \<Rightarrow> watchdog \<Rightarrow> watchdog result" where
  "watchdog_turn drv cb now cb2 after w =
     (if cb \<noteq> lastSeenCbCount w then Inr (w\<lparr>lastSeenCbCount := cb, lastCbChange := now, restartFailures := 0\<rparr>)
      else if RTL_STALL_TIMEOUT \<le> now - lastCbChange w then
        rbind (restartRtlDevice drv 32 (wd_dev w)) (\<lambda>(ok, dt, dev).
          let w = w\<lparr>wd_dev := dev\<rparr> in
          Inr (if ok then w\<lparr>lastSeenCbCount := cb2, lastCbChange := after, restartFailures := 0\<rparr>
               else
                 (let n = restartFailures w + 1; w = w\<lparr>restartFailures := n\<rparr> in
                  if RTL_MAX_RESTART \<le> n then w\<lparr>wd_exit := True\<rparr> else w\<lparr>lastCbChange := after\<rparr>)))
      else Inr w)"

end
