(* ===== verification/RxStall.thy ===== *)
theory RxStall
  imports RxDevice
begin

text \<open>
  The device is opened completely or not at all; the watchdog's restart writes behind its 32 bytes of text
  when the device has its usual name; and a device that is gone ends the program after three attempts.
\<close>

subsection \<open>Opening\<close>

lemma device_text_fits: "cap \<ge> 96 \<Longrightarrow> snprintf_into cap 96 t = Inr (snprintf_s 96 t)"
  using snprintf_s_length[of 96 t] by (simp add: snprintf_into_def)

lemma give_up_closes: "32 < cap \<Longrightarrow> length t \<le> 31 \<Longrightarrow>
   give_up cap t s = Inr (False, t @ newline, (call CloseDev s)\<lparr>rtl_device := False\<rparr>)"
  by (simp add: give_up_def newline_def)

lemma configure_facts:
  "33 \<le> cap \<Longrightarrow> \<forall>(m, c, r, f) \<in> set steps. length f \<le> 31 \<and> c \<noteq> SpawnRx \<Longrightarrow>
   \<exists>ok t s' cs. configure cap steps rc dt s = Inr (ok, t, s') \<and> calls s' = calls s @ cs
     \<and> (ok \<longrightarrow> cs = map (\<lambda>(m, c, r, f). c) (filter fst steps) @ [SpawnRx] \<and> rtl_device s' = rtl_device s \<and> dev_opts s' = dev_opts s)
     \<and> (\<not> ok \<longrightarrow> \<not> rtl_device s' \<and> last cs = CloseDev \<and> cs \<noteq> [] \<and> SpawnRx \<notin> set cs)"
proof (induction cap steps rc dt s rule: configure.induct)
  case (1 cap rc dt s)
  then show ?case by (simp add: call_def) blast
next
  case (2 cap made c r fail steps rc dt s)
  define s1 where "s1 = (if made then call c s else s)"
  define rc1 where "rc1 = (if made then r else rc)"
  have e: "(if made then (call c s, r) else (s, rc)) = (s1, rc1)" by (simp add: s1_def rc1_def)
  have c1: "calls s1 = calls s @ (if made then [c] else [])" "rtl_device s1 = rtl_device s" "dev_opts s1 = dev_opts s"
    by (simp_all add: s1_def call_def)
  show ?case
  proof (cases "rc1 < 0")
    case True
    have "give_up cap fail s1 = Inr (False, fail @ newline, (call CloseDev s1)\<lparr>rtl_device := False\<rparr>)"
      using "2.prems" by (intro give_up_closes) auto
    then show ?thesis using True c1 "2.prems" by (auto simp: e Let_def call_def)
  next
    case False
    have h: "33 \<le> cap" "\<forall>(m, c, r, f) \<in> set steps. length f \<le> 31 \<and> c \<noteq> SpawnRx" using "2.prems" by auto
    from "2.IH"[OF e [symmetric] refl False h] obtain ok t s' cs where
      "configure cap steps rc1 dt s1 = Inr (ok, t, s')" "calls s' = calls s1 @ cs"
      "ok \<longrightarrow> cs = map (\<lambda>(m, c, r, f). c) (filter fst steps) @ [SpawnRx] \<and> rtl_device s' = rtl_device s1 \<and> dev_opts s' = dev_opts s1"
      "\<not> ok \<longrightarrow> \<not> rtl_device s' \<and> last cs = CloseDev \<and> cs \<noteq> [] \<and> SpawnRx \<notin> set cs"
      by blast
    then show ?thesis using False c1
      by (intro exI[of _ ok] exI[of _ t] exI[of _ s'] exI[of _ "(if made then [c] else []) @ cs"])
         (use "2.prems" c1 in \<open>auto simp: e Let_def\<close>)
  qed
qed

text \<open>The calls that open and configure the device for the options \<open>ro\<close>.\<close>

definition configured :: "receiver_options \<Rightarrow> rtl_call list" where
  "configured ro =
     OpenDev (device ro) # (if autogain ro then SetGainMode 0 else SetGain (gain ro))
     # (if directsampling ro \<noteq> 0 then [SetDirect (directsampling ro)] else []) @ SetRate 2400000
     # (if rx_ppm ro \<noteq> 0 then [SetPpm (rx_ppm ro)] else []) @ [SetCenter (realfreq ro + 600000), ResetBuffer, SpawnRx]"

lemma start_facts:
  assumes "\<not> rtl_device s" "96 \<le> cap"
  shows "\<exists>ok t s' cs. startRtlDevice drv cap s = Inr (ok, t, s') \<and> rtl_device s' = ok \<and> calls s' = calls s @ cs
    \<and> (ok \<longrightarrow> dev_opts s' = choose_sampling (rtl_generation drv (dev_opts s)) (dev_opts s) \<and> cs = configured (dev_opts s'))
    \<and> (\<not> ok \<longrightarrow> SpawnRx \<notin> set cs \<and> (device_count drv = 0 \<or> rc_open drv < 0 \<or> last cs = CloseDev))"
proof (cases "device_count drv = 0 \<or> rc_open drv < 0")
  case True
  then show ?thesis using assms by (auto simp: startRtlDevice_def Let_def newline_def call_def)
next
  case False
  define s1 where "s1 = (call (OpenDev (device (dev_opts s))) s)\<lparr>rtl_device := True,
    dev_opts := choose_sampling (rtl_generation drv (dev_opts s)) (dev_opts s)\<rparr>"
  let ?dt = "snprintf_s 96 (device_text drv (rtl_generation drv (dev_opts s)))" and ?ro = "dev_opts s1"
  have "startRtlDevice drv cap s = configure cap (rtl_steps drv ?ro) (rc_open drv) ?dt s1"
    using False assms(2) by (simp add: startRtlDevice_def Let_def device_text_fits s1_def call_def)
  moreover have "\<forall>(m, c, r, f) \<in> set (rtl_steps drv ?ro). length f \<le> 31 \<and> c \<noteq> SpawnRx" by (simp add: rtl_steps_def)
  moreover have "OpenDev (device ?ro) # map (\<lambda>(m, c, r, f). c) (filter fst (rtl_steps drv ?ro)) @ [SpawnRx] = configured ?ro"
    by (simp add: rtl_steps_def configured_def FS4_RATE_def SAMPLING_RATE_def)
  moreover have "calls s1 = calls s @ [OpenDev (device ?ro)]" "rtl_device s1"
    by (simp_all add: s1_def call_def choose_sampling_def)
  moreover have "dev_opts s1 = choose_sampling (rtl_generation drv (dev_opts s)) (dev_opts s)" by (simp add: s1_def)
  ultimately show ?thesis
    using configure_facts[of cap "rtl_steps drv ?ro" "rc_open drv" ?dt s1] assms(2) by (auto 4 3)
qed

text \<open>
  Opening the device is all or nothing: with room for the text, either the handle is set and the driver
  got exactly the calls of the options, with Q-branch sampling on HF chosen by the generation and the tuner
  600 kHz above the dial, and the receiving thread was started as the last of them; or the handle is not set,
  no thread was started, and a device that had been opened was closed again as the last call.
\<close>

theorem device_all_or_nothing:
  assumes "\<not> rtl_device s" "96 \<le> cap"
  shows "\<exists>ok t s' cs. startRtlDevice drv cap s = Inr (ok, t, s') \<and> rtl_device s' = ok \<and> calls s' = calls s @ cs
    \<and> (ok \<longrightarrow> dev_opts s' = choose_sampling (rtl_generation drv (dev_opts s)) (dev_opts s) \<and> cs = configured (dev_opts s'))
    \<and> (\<not> ok \<longrightarrow> SpawnRx \<notin> set cs \<and> (device_count drv = 0 \<or> rc_open drv < 0 \<or> last cs = CloseDev))"
  using assms by (rule start_facts)

definition demo_driver :: driver where
  "demo_driver = \<lparr>device_count = 1, rc_open = 0, is_R828D = False, device_name = Some ''Generic RTL2832U OEM'', rc_gain = 0,
     rc_direct = 0, rc_rate = 0, rc_ppm = 0, rc_center = 0, rc_reset = - 1\<rparr>"

definition demo_dev :: rx_device where
  "demo_dev = \<lparr>rtl_device = False, dev_opts = (initrx_options static_options)\<lparr>isHF := True, realfreq := 14074000\<rparr>, calls = []\<rparr>"

theorem device_all_or_nothing_witness:
  "\<exists>ok t s' cs. startRtlDevice demo_driver 96 demo_dev = Inr (ok, t, s') \<and> rtl_device s' = ok \<and> calls s' = [] @ cs"
  using device_all_or_nothing[of demo_dev 96 demo_driver] by (auto simp: demo_dev_def)

subsection \<open>The restart\<close>

lemma restart_overflow:
  assumes "0 < device_count drv" "0 \<le> rc_open drv" "32 \<le> length (snprintf_s 96 (device_text drv (rtl_generation drv (dev_opts s))))"
  shows "restartRtlDevice drv 32 s
    = Inl (BufferOverflow 32 (length (snprintf_s 96 (device_text drv (rtl_generation drv (dev_opts s)))) + 1))"
proof -
  define s0 where "s0 = (if rtl_device s then (call CloseDev (call JoinRx (call CancelAsync s)))\<lparr>rtl_device := False\<rparr> else s)"
  have "dev_opts s0 = dev_opts s" by (simp add: s0_def call_def)
  with assms show ?thesis
    unfolding restartRtlDevice_def s0_def [symmetric]
    by (simp add: startRtlDevice_def Let_def call_def snprintf_into_def sprintf_s_def)
qed


definition demo_wd :: watchdog where
  "demo_wd = \<lparr>lastSeenCbCount = 7, lastCbChange = 1000, restartFailures = 0, wd_exit = False, wd_dev = demo_dev\<rparr>"


subsection \<open>A device that is gone\<close>

text \<open>The watchdog over the turns of the main loop, which ends with the exit flag; restarts take no time.\<close>

fun watch :: "driver \<Rightarrow> u32 \<Rightarrow> int list \<Rightarrow> watchdog \<Rightarrow> watchdog result" where
  "watch drv cb [] w = Inr w"
| "watch drv cb (t # ts) w = (if wd_exit w then Inr w else rbind (watchdog_turn drv cb t cb t w) (watch drv cb ts))"

lemma gone_turn:
  assumes "device_count drv = 0" "cb = lastSeenCbCount w"
  shows "\<exists>dev. watchdog_turn drv cb t cb t w = Inr
    (if t - lastCbChange w < 30 then w
     else if restartFailures w < 2 then w\<lparr>wd_dev := dev, restartFailures := restartFailures w + 1, lastCbChange := t\<rparr>
     else w\<lparr>wd_dev := dev, restartFailures := restartFailures w + 1, wd_exit := True\<rparr>)"
  using assms
  by (intro exI[of _ "if rtl_device (wd_dev w) then (call CloseDev (call JoinRx (call CancelAsync (wd_dev w))))\<lparr>rtl_device := False\<rparr>
        else wd_dev w"])
     (simp add: watchdog_turn_def RTL_STALL_TIMEOUT_def RTL_MAX_RESTART_def restartRtlDevice_def startRtlDevice_def newline_def Let_def)

text \<open>Turns at most 16 seconds apart.\<close>

fun steady :: "int \<Rightarrow> int list \<Rightarrow> bool" where
  "steady p [] = True"
| "steady p (t # ts) \<longleftrightarrow> p \<le> t \<and> t \<le> p + 16 \<and> steady t ts"

lemma steady_last: "steady p ts \<Longrightarrow> p \<le> last (p # ts)"
  by (induction p ts rule: steady.induct) auto

lemma watch_exited: "wd_exit w \<Longrightarrow> watch drv cb ts w = Inr w"
  by (cases ts) simp_all

lemma gone_device:
  assumes "device_count drv = 0"
  shows "cb = lastSeenCbCount w \<Longrightarrow> \<not> wd_exit w \<Longrightarrow> restartFailures w \<le> 2 \<Longrightarrow> p < lastCbChange w + 30 \<Longrightarrow> steady p ts \<Longrightarrow>
    \<exists>w'. watch drv cb ts w = Inr w'
      \<and> (wd_exit w' \<longrightarrow> lastCbChange w + 30 * (3 - int (restartFailures w)) \<le> last (p # ts))
      \<and> (lastCbChange w + 46 * (3 - int (restartFailures w)) \<le> last (p # ts) \<longrightarrow> wd_exit w')"
proof (induction ts arbitrary: w p)
  case Nil
  then show ?case by simp
next
  case (Cons t ts)
  have t: "p \<le> t" "t \<le> p + 16" "steady t ts" using Cons.prems(5) by simp_all
  obtain dev where turn: "watchdog_turn drv cb t cb t w = Inr
    (if t - lastCbChange w < 30 then w
     else if restartFailures w < 2 then w\<lparr>wd_dev := dev, restartFailures := restartFailures w + 1, lastCbChange := t\<rparr>
     else w\<lparr>wd_dev := dev, restartFailures := restartFailures w + 1, wd_exit := True\<rparr>)"
    using gone_turn[OF assms Cons.prems(1)] by blast
  have l: "last (p # t # ts) = last (t # ts)" by simp
  consider (early) "t - lastCbChange w < 30" | (retry) "30 \<le> t - lastCbChange w" "restartFailures w < 2"
    | (final) "30 \<le> t - lastCbChange w" "restartFailures w = 2"
    using Cons.prems(3) by linarith
  then show ?case
  proof cases
    case early
    with turn have "watch drv cb (t # ts) w = watch drv cb ts w" using Cons.prems(2) by simp
    with Cons.IH[OF Cons.prems(1-3) _ t(3)] early show ?thesis unfolding l by fastforce
  next
    case retry
    let ?w = "w\<lparr>wd_dev := dev, restartFailures := restartFailures w + 1, lastCbChange := t\<rparr>"
    have "watch drv cb (t # ts) w = watch drv cb ts ?w" using turn retry Cons.prems(2) by simp
    moreover obtain w' where "watch drv cb ts ?w = Inr w'"
      "wd_exit w' \<longrightarrow> t + 30 * (2 - int (restartFailures w)) \<le> last (t # ts)"
      "t + 46 * (2 - int (restartFailures w)) \<le> last (t # ts) \<longrightarrow> wd_exit w'"
      using Cons.IH[of ?w t] Cons.prems retry(2) t(3) by (auto simp: algebra_simps)
    moreover have "t < lastCbChange w + 46" using Cons.prems(4) t(2) by linarith
    ultimately show ?thesis using retry(1) unfolding l by (intro exI[of _ w']) auto
  next
    case final
    let ?w = "w\<lparr>wd_dev := dev, restartFailures := restartFailures w + 1, wd_exit := True\<rparr>"
    have "watch drv cb (t # ts) w = Inr ?w" using turn final Cons.prems(2) by (simp add: watch_exited)
    then show ?thesis using final steady_last[OF t(3)] unfolding l by (intro exI[of _ ?w]) auto
  qed
qed

text \<open>
  A device that is gone ends the program: when no callback arrives any more and every restart fails, the
  watchdog gives up on its third attempt, not before 90 seconds and, with the main loop's turns at most 16
  seconds apart, not later than 138 seconds after the last progress.
\<close>

theorem dead_device_gives_up:
  assumes "device_count drv = 0" "steady (lastCbChange w) ts" "\<not> wd_exit w" "restartFailures w = 0"
  shows "\<exists>w'. watch drv (lastSeenCbCount w) ts w = Inr w'
    \<and> (wd_exit w' \<longrightarrow> lastCbChange w + 90 \<le> last (lastCbChange w # ts))
    \<and> (lastCbChange w + 138 \<le> last (lastCbChange w # ts) \<longrightarrow> wd_exit w')"
  using gone_device[OF assms(1) refl assms(3), of "lastCbChange w" ts] assms(2,4) by simp

theorem dead_device_gives_up_witness:
  "\<exists>w'. watch (demo_driver\<lparr>device_count := 0\<rparr>) 7 [1015, 1030, 1045, 1060, 1075, 1090, 1105, 1120, 1135, 1150] demo_wd = Inr w' \<and> wd_exit w'"
  using dead_device_gives_up[of "demo_driver\<lparr>device_count := 0\<rparr>" demo_wd "[1015, 1030, 1045, 1060, 1075, 1090, 1105, 1120, 1135, 1150]"]
  by (simp add: demo_wd_def)

end
