(* ===== verification/WordBits.thy ===== *)
theory WordBits
  imports Prelude
begin

text \<open>
  Words compared bit by bit: with the positions written out, the simplifier decides equations between packed and
  unpacked fields.
\<close>

definition positions :: "nat list" where
  "positions = [0, 1, 2, 3, 4, 5, 6, 7, 8, 9, 10, 11, 12, 13, 14, 15, 16, 17, 18, 19, 20, 21, 22, 23, 24, 25, 26, 27, 28, 29,
     30, 31, 32, 33, 34, 35, 36, 37, 38, 39, 40, 41, 42, 43, 44, 45, 46, 47, 48, 49, 50, 51, 52, 53, 54, 55, 56, 57, 58, 59,
     60, 61, 62, 63]"

lemma positions_upt: "positions = [0..<64]"
  by code_simp

lemma word_bitwise:
  fixes x y :: "'a::len word"
  assumes "LENGTH('a) \<le> 64" "list_all (\<lambda>n. n < LENGTH('a) \<longrightarrow> bit x n = bit y n) positions"
  shows "x = y"
proof (rule bit_word_eqI)
  fix n assume n: "n < LENGTH('a)"
  then have "n \<in> set positions" using assms(1) unfolding positions_upt by simp
  then show "bit x n = bit y n" using assms(2) n unfolding list_all_iff by blast
qed

lemma small_bits: "take_bit k (w :: 'a::len word) = w \<Longrightarrow> k \<le> n \<Longrightarrow> \<not> bit w n"
  by (metis bit_take_bit_iff not_le)

lemma beyond_word: "LENGTH('a) \<le> n \<Longrightarrow> \<not> bit (w :: 'a::len word) n"
  by (auto dest: bit_imp_le_length)

lemma Suc_numerals: "Suc (Suc 0) = 2" "Suc (Suc (Suc 0)) = 3"
  by simp_all

lemma bit_times_two: "bit (w * 2) n \<longleftrightarrow> n < LENGTH('a) \<and> 0 < n \<and> bit w (n - 1)" for w :: "'a::len word"
  using bit_push_bit_iff[of 1 w n] by (auto simp: mult.commute bit_simps)

lemmas bitwise = positions_def bit_simps small_bits beyond_word Suc_numerals bit_times_two bit_1_iff

lemma uint_of_int: "0 \<le> k \<Longrightarrow> k < 2 ^ LENGTH('a) \<Longrightarrow> uint (word_of_int k :: 'a::len word) = k"
  by (simp add: uint_word_of_int)

lemma take_bit_fits: "uint w < 2 ^ k \<Longrightarrow> take_bit k w = w" for w :: "'a::len word"
  by (rule word_uint_eqI) (simp add: unsigned_take_bit_eq take_bit_int_eq_self)

lemma uint_fits: "take_bit k w = w \<Longrightarrow> uint w < 2 ^ k" for w :: "'a::len word"
  by (metis take_bit_int_less_exp unsigned_take_bit_eq)

end
