(* ===== verification/FtxText.thy ===== *)
theory FtxText
  imports Prelude
begin

text \<open>
  The text helpers of the FT8 codec (\<^verbatim>\<open>libft8/ft8/text.c\<close>): trimming, character classes and tables, tokens,
  two-digit numbers. A character array is its text up to the NUL; \<open>cat s i\<close> is \<^verbatim>\<open>s[i]\<close>, the NUL behind the text.
\<close>

subsection \<open>Strings\<close>

definition cat :: "string \<Rightarrow> nat \<Rightarrow> char" where
  "cat s i = (if i < length s then s ! i else char_of (0::nat))"

definition trim_front :: "string \<Rightarrow> string" where
  "trim_front s = dropWhile (\<lambda>c. c = CHR '' '') s"

definition trim_back :: "string \<Rightarrow> string" where
  "trim_back s = rev (dropWhile (\<lambda>c. c = CHR '' '') (rev s))"

definition trim :: "string \<Rightarrow> string" where
  "trim s = trim_back (trim_front s)"

definition trim_copy :: "string \<Rightarrow> string" where
  "trim_copy s = (let s = trim_front s in take (length (trim_back s)) s)"

definition to_upper :: "char \<Rightarrow> char" where
  "to_upper c = (if 97 \<le> code c \<and> code c \<le> 122 then char_of (code c - 97 + 65) else c)"

definition is_digit :: "char \<Rightarrow> bool" where
  "is_digit c \<longleftrightarrow> 48 \<le> code c \<and> code c \<le> 57"

definition is_letter :: "char \<Rightarrow> bool" where
  "is_letter c \<longleftrightarrow> 65 \<le> code c \<and> code c \<le> 90 \<or> 97 \<le> code c \<and> code c \<le> 122"

definition is_space :: "char \<Rightarrow> bool" where
  "is_space c \<longleftrightarrow> c = CHR '' ''"

definition in_range :: "char \<Rightarrow> char \<Rightarrow> char \<Rightarrow> bool" where
  "in_range c lo hi \<longleftrightarrow> code lo \<le> code c \<and> code c \<le> code hi"

definition starts_with :: "string \<Rightarrow> string \<Rightarrow> bool" where
  "starts_with s p \<longleftrightarrow> take (length p) s = p"

definition ends_with :: "string \<Rightarrow> string \<Rightarrow> bool" where
  "ends_with s x \<longleftrightarrow> length x \<le> length s \<and> drop (length s - length x) s = x"

text \<open>Upper case, runs of spaces merged; \<open>l\<close> is the last character written.\<close>

fun fmtmsg_from :: "char \<Rightarrow> string \<Rightarrow> string" where
  "fmtmsg_from l [] = []"
| "fmtmsg_from l (c # cs) =
     (if c \<noteq> CHR '' '' \<or> l \<noteq> CHR '' '' then to_upper c # fmtmsg_from (to_upper c) cs else fmtmsg_from l cs)"

definition fmtmsg :: "string \<Rightarrow> string" where
  "fmtmsg s = fmtmsg_from (char_of (0::nat)) s"

definition append_string :: "string \<Rightarrow> string \<Rightarrow> string" where
  "append_string s t = s @ t"

text \<open>The array of \<open>n\<close> characters that gets the token (NULs fill it up), and the text behind the token.\<close>

definition copy_token :: "nat \<Rightarrow> string \<Rightarrow> string \<times> string" where
  "copy_token n s =
     (take n (takeWhile (\<lambda>c. c \<noteq> CHR '' '') s),
      dropWhile (\<lambda>c. c = CHR '' '') (dropWhile (\<lambda>c. c \<noteq> CHR '' '') s))"

subsection \<open>Numbers\<close>

fun dd_loop :: "nat \<Rightarrow> string \<Rightarrow> int \<Rightarrow> int" where
  "dd_loop 0 s v = v"
| "dd_loop (Suc n) [] v = v"
| "dd_loop (Suc n) (c # cs) v = (if \<not> is_digit c then v else dd_loop n cs (v * 10 + (int (code c) - 48)))"

definition dd_to_int :: "string \<Rightarrow> nat \<Rightarrow> int" where
  "dd_to_int s n =
     (if cat s 0 = CHR ''-'' then - dd_loop (n - 1) (tl s) 0
      else if cat s 0 = CHR ''+'' then dd_loop (n - 1) (tl s) 0
      else dd_loop n s 0)"

text \<open>The digits from the divisor \<open>10 ^ (w - 1)\<close> down; a first digit above 9 is a character behind \<open>9\<close>.\<close>

fun dd_digits :: "nat \<Rightarrow> nat \<Rightarrow> string" where
  "dd_digits 0 v = []"
| "dd_digits (Suc w) v = char_of (48 + v div 10 ^ w) # dd_digits w (v - v div 10 ^ w * 10 ^ w)"

definition int_to_dd :: "int \<Rightarrow> nat \<Rightarrow> bool \<Rightarrow> string" where
  "int_to_dd v w full_sign =
     (if v < 0 then CHR ''-'' # dd_digits w (nat (- v))
      else if full_sign then CHR ''+'' # dd_digits w (nat v)
      else dd_digits w (nat v))"

subsection \<open>Character tables\<close>

datatype char_table = FULL | ALPHANUM_SPACE_SLASH | ALPHANUM_SPACE | LETTERS_SPACE | ALPHANUM | NUMERIC

text \<open>All callers pass remainders, which are not negative.\<close>

definition charn :: "nat \<Rightarrow> char_table \<Rightarrow> char" where
  "charn c table =
     (if table \<noteq> ALPHANUM \<and> table \<noteq> NUMERIC \<and> c = 0 then CHR '' ''
      else
        (let c = (if table \<noteq> ALPHANUM \<and> table \<noteq> NUMERIC then c - 1 else c) in
         if table \<noteq> LETTERS_SPACE \<and> c < 10 then char_of (48 + c)
         else
           (let c = (if table \<noteq> LETTERS_SPACE then c - 10 else c) in
            if table \<noteq> NUMERIC \<and> c < 26 then char_of (65 + c)
            else
              (let c = (if table \<noteq> NUMERIC then c - 26 else c) in
               if table = FULL \<and> c < 5 then ''+-./?'' ! c
               else if table = ALPHANUM_SPACE_SLASH \<and> c = 0 then CHR ''/''
               else CHR ''_''))))"

definition nchar :: "char \<Rightarrow> char_table \<Rightarrow> int" where
  "nchar c table =
     (let sp = table \<noteq> ALPHANUM \<and> table \<noteq> NUMERIC; n1 = (if sp then 1 else 0);
          n2 = (if table \<noteq> LETTERS_SPACE then n1 + 10 else n1); n3 = (if table \<noteq> NUMERIC then n2 + 26 else n2)
      in if sp \<and> c = CHR '' '' then 0
         else if table \<noteq> LETTERS_SPACE \<and> is_digit c then n1 + (int (code c) - 48)
         else if table \<noteq> NUMERIC \<and> 65 \<le> code c \<and> code c \<le> 90 then n2 + (int (code c) - 65)
         else if table = FULL then
           (if c = CHR ''+'' then n3 else if c = CHR ''-'' then n3 + 1 else if c = CHR ''.'' then n3 + 2
            else if c = CHR ''/'' then n3 + 3 else if c = CHR ''?'' then n3 + 4 else -1)
         else if table = ALPHANUM_SPACE_SLASH \<and> c = CHR ''/'' then n3
         else -1)"

subsection \<open>Facts about the tables\<close>

fun table_size :: "char_table \<Rightarrow> nat" where
  "table_size FULL = 42" | "table_size ALPHANUM_SPACE_SLASH = 38" | "table_size ALPHANUM_SPACE = 37"
| "table_size LETTERS_SPACE = 27" | "table_size ALPHANUM = 36" | "table_size NUMERIC = 10"

definition in_table :: "char_table \<Rightarrow> char \<Rightarrow> bool" where
  "in_table tb c \<longleftrightarrow> 0 \<le> nchar c tb"

lemma code_char_of [simp]: "n < 256 \<Longrightarrow> code (char_of n) = n"
  by (simp add: code_def)

lemma char_of_code [simp]: "char_of (code c) = c"
  by (simp add: code_def)

lemma code_less: "code c < 256"
  by (simp add: code_def)

lemma code_inject: "code a = code b \<Longrightarrow> a = b"
  by (simp add: code_def)

lemma nchar_range: "nchar c tb < int (table_size tb)" "- 1 \<le> nchar c tb"
  by (cases tb; simp add: nchar_def Let_def is_digit_def)+

lemma code_chars [simp]:
  "code CHR '' '' = 32" "code CHR ''+'' = 43" "code CHR ''-'' = 45" "code CHR ''.'' = 46" "code CHR ''/'' = 47" "code CHR ''?'' = 63"
  "code CHR ''0'' = 48" "code CHR ''9'' = 57" "code CHR ''A'' = 65" "code CHR ''R'' = 82" "code CHR ''Z'' = 90"
  by (simp_all add: code_def)

lemma char_ofI: "code c = n \<Longrightarrow> c = char_of n"
  using char_of_code[of c] by simp

lemma digit_range: "is_digit c \<Longrightarrow> \<exists>k < 10. c = char_of (48 + k :: nat)"
  by (intro exI[of _ "code c - 48"]) (auto simp: is_digit_def intro: char_ofI)

lemma letter_range: "65 \<le> code c \<Longrightarrow> code c \<le> 90 \<Longrightarrow> \<exists>k < 26. c = char_of (65 + k :: nat)"
  by (intro exI[of _ "code c - 65"]) (auto intro: char_ofI)

definition has_space :: "char_table \<Rightarrow> bool" where "has_space tb \<longleftrightarrow> tb \<noteq> ALPHANUM \<and> tb \<noteq> NUMERIC"

lemma table_cases:
  assumes "in_table tb c"
  obtains "has_space tb" "c = CHR '' ''" | k where "tb \<noteq> LETTERS_SPACE" "k < 10" "c = char_of (48 + k :: nat)"
    | k where "tb \<noteq> NUMERIC" "k < 26" "c = char_of (65 + k :: nat)" | "tb = FULL" "c \<in> set ''+-./?''" | "tb = ALPHANUM_SPACE_SLASH" "c = CHR ''/''"
proof -
  have "has_space tb \<and> c = CHR '' '' \<or> tb \<noteq> LETTERS_SPACE \<and> is_digit c \<or> tb \<noteq> NUMERIC \<and> 65 \<le> code c \<and> code c \<le> 90
    \<or> tb = FULL \<and> c \<in> set ''+-./?'' \<or> tb = ALPHANUM_SPACE_SLASH \<and> c = CHR ''/''"
    using assms by (cases tb) (simp_all add: in_table_def nchar_def Let_def has_space_def split: if_splits)
  then show thesis using that digit_range letter_range by blast
qed

definition dig_base :: "char_table \<Rightarrow> nat" where "dig_base tb = (if has_space tb then 1 else 0)"
definition let_base :: "char_table \<Rightarrow> nat" where "let_base tb = (if tb \<noteq> LETTERS_SPACE then dig_base tb + 10 else dig_base tb)"

lemma nchar_values:
  "has_space tb \<Longrightarrow> nchar CHR '' '' tb = 0"
  "tb \<noteq> LETTERS_SPACE \<Longrightarrow> k < 10 \<Longrightarrow> nchar (char_of (48 + k)) tb = int (dig_base tb + k)"
  "tb \<noteq> NUMERIC \<Longrightarrow> k < 26 \<Longrightarrow> nchar (char_of (65 + k)) tb = int (let_base tb + k)"
proof -
  show "has_space tb \<Longrightarrow> nchar CHR '' '' tb = 0" by (simp add: nchar_def has_space_def Let_def)
  assume k: "k < 10" "tb \<noteq> LETTERS_SPACE"
  then have "code (char_of (48 + k)) = 48 + k" by simp
  moreover from this have "char_of (48 + k) \<noteq> CHR '' ''" by auto
  ultimately show "nchar (char_of (48 + k)) tb = int (dig_base tb + k)" using k
    by (simp add: nchar_def Let_def dig_base_def has_space_def is_digit_def)
next
  assume k: "k < 26" "tb \<noteq> NUMERIC"
  then have "code (char_of (65 + k)) = 65 + k" by simp
  moreover from this have "char_of (65 + k) \<noteq> CHR '' ''" by auto
  ultimately show "nchar (char_of (65 + k)) tb = int (let_base tb + k)" using k
    by (simp add: nchar_def Let_def let_base_def dig_base_def has_space_def is_digit_def)
qed

lemma charn_values:
  "has_space tb \<Longrightarrow> charn 0 tb = CHR '' ''"
  "tb \<noteq> LETTERS_SPACE \<Longrightarrow> k < 10 \<Longrightarrow> charn (dig_base tb + k) tb = char_of (48 + k)"
  "tb \<noteq> NUMERIC \<Longrightarrow> k < 26 \<Longrightarrow> charn (let_base tb + k) tb = char_of (65 + k)"
  by (simp_all add: charn_def has_space_def dig_base_def let_base_def Let_def)

lemma charn_nchar [simp]:
  assumes "in_table tb c"
  shows "charn (nat (nchar c tb)) tb = c"
  using assms
proof (cases rule: table_cases)
  case 4
  then have "c = CHR ''+'' \<or> c = CHR ''-'' \<or> c = CHR ''.'' \<or> c = CHR ''/'' \<or> c = CHR ''?''" by simp
  then show ?thesis using 4(1) by (elim disjE) (simp_all add: charn_def nchar_def is_digit_def Let_def)
next
  case 5
  then show ?thesis by (simp add: charn_def nchar_def is_digit_def Let_def)
qed (simp_all add: nchar_values charn_values nat_int_add)

lemma in_table_values [simp]:
  "in_table tb CHR '' '' \<longleftrightarrow> has_space tb" "tb \<noteq> LETTERS_SPACE \<Longrightarrow> is_digit c \<Longrightarrow> in_table tb c"
  "in_table NUMERIC c \<longleftrightarrow> is_digit c"
  by (auto simp: in_table_def nchar_def has_space_def is_digit_def Let_def)

lemma nchar_nat: "in_table tb c \<Longrightarrow> nat (nchar c tb) < table_size tb \<and> int (nat (nchar c tb)) = nchar c tb"
  using nchar_range(1)[of c tb] by (simp add: in_table_def)

end
