(* ===== verification/FtxMessage.thy ===== *)
theory FtxMessage
  imports FtxText CallsignHash
begin

text \<open>
  The message codec (\<^verbatim>\<open>libft8/ft8/message.c\<close>): 77 bits of payload from a text and back. The call sign hash
  interface is a record of the two functions (\<open>None\<close> is the NULL the transmitter passes) over a state that is
  passed along. 32-bit intermediate values that cannot overflow are integers, bit fields are words.
\<close>

subsection \<open>Types\<close>

definition MAX22 :: int where "MAX22 = 4194304"
definition NTOKENS :: int where "NTOKENS = 2063592"
definition MAXGRID4 :: int where "MAXGRID4 = 32400"

record 'h hash_if =
  lookup_hash :: "hash_type \<Rightarrow> u32 \<Rightarrow> 'h \<Rightarrow> string option"
  save_hash :: "string \<Rightarrow> u32 \<Rightarrow> 'h \<Rightarrow> 'h"

type_synonym 'h hash_ptr = "'h hash_if option"

datatype message_type =
  FREE_TEXT | DXPEDITION | EU_VHF | ARRL_FD | TELEMETRY | CONTESTING | STANDARD | ARRL_RTTY | NONSTD_CALL | WWROF | UNKNOWN_TYPE

datatype message_rc = RC_OK | ERROR_CALLSIGN1 | ERROR_CALLSIGN2 | ERROR_SUFFIX | ERROR_GRID | ERROR_TYPE

type_synonym payload = "u8 list"

subsection \<open>The kind of a message\<close>

definition get_i3 :: "payload \<Rightarrow> u8" where
  "get_i3 p = drop_bit 3 (p ! 9) AND 7"

definition get_n3 :: "payload \<Rightarrow> u8" where
  "get_n3 p = (push_bit 2 (p ! 8) AND 4) OR (drop_bit 6 (p ! 9) AND 3)"

definition get_type :: "payload \<Rightarrow> message_type" where
  "get_type p =
     (let i3 = get_i3 p in
      if i3 = 0 then
        (let n3 = get_n3 p in
         if n3 = 0 then FREE_TEXT else if n3 = 1 then DXPEDITION else if n3 = 2 then EU_VHF
         else if n3 = 3 \<or> n3 = 4 then ARRL_FD else if n3 = 5 then TELEMETRY else UNKNOWN_TYPE)
      else if i3 = 1 \<or> i3 = 2 then STANDARD else if i3 = 3 then ARRL_RTTY else if i3 = 4 then NONSTD_CALL
      else if i3 = 5 then WWROF else UNKNOWN_TYPE)"

subsection \<open>Call sign hashes\<close>

text \<open>Both loops: up to eleven characters, then padding.\<close>

fun hash_chars :: "nat \<Rightarrow> string \<Rightarrow> 64 word \<Rightarrow> 64 word option" where
  "hash_chars 0 s n58 = Some n58"
| "hash_chars (Suc k) [] n58 = hash_chars k [] (38 * n58)"
| "hash_chars (Suc k) (c # cs) n58 =
     (let j = nchar c ALPHANUM_SPACE_SLASH in
      if j < 0 then None else hash_chars k cs (38 * n58 + word_of_int j))"

definition hash22 :: "64 word \<Rightarrow> u32" where
  "hash22 n58 = ucast (drop_bit (64 - 22) (47055833459 * n58)) AND 0x3FFFFF"

text \<open>The 22-bit hash when the characters allow one; the 12- and 10-bit hashes are its upper bits.\<close>

definition save_callsign :: "'h hash_ptr \<Rightarrow> string \<Rightarrow> 'h \<Rightarrow> u32 option \<times> 'h" where
  "save_callsign hi c h =
     (case hash_chars 11 c 0 of
        None \<Rightarrow> (None, h)
      | Some n58 \<Rightarrow>
          (let h22 = hash22 n58 in (Some h22, (case hi of None \<Rightarrow> h | Some f \<Rightarrow> save_hash f c h22 h))))"

definition add_brackets :: "string \<Rightarrow> string" where
  "add_brackets s = ''<'' @ s @ ''>''"

definition lookup_callsign :: "'h hash_ptr \<Rightarrow> hash_type \<Rightarrow> u32 \<Rightarrow> 'h \<Rightarrow> string" where
  "lookup_callsign hi ty hash h =
     (case (case hi of None \<Rightarrow> None | Some f \<Rightarrow> lookup_hash f ty hash h) of
        None \<Rightarrow> ''<...>''
      | Some c \<Rightarrow> add_brackets c)"

subsection \<open>Call signs in 28 bits\<close>

text \<open>\<^verbatim>\<open>memcpy(dst + off, src, strlen(src))\<close> inside the array.\<close>

definition overlay :: "nat \<Rightarrow> string \<Rightarrow> string \<Rightarrow> string" where
  "overlay off s dst = take off dst @ s @ drop (off + length s) dst"

definition base_chars :: "string \<Rightarrow> nat \<Rightarrow> string" where
  "base_chars c len =
     (let c6 = replicate 6 CHR '' ''; s = take len c in
      if starts_with c ''3DA0'' \<and> 4 < len \<and> len \<le> 7 then overlay 3 (drop 4 s) (overlay 0 ''3D0'' c6)
      else if starts_with c ''3X'' \<and> is_letter (cat c 2) \<and> len \<le> 7 then overlay 1 (drop 2 s) (overlay 0 ''Q'' c6)
      else if is_digit (cat c 2) \<and> len \<le> 6 then overlay 0 s c6
      else if is_digit (cat c 1) \<and> len \<le> 5 then overlay 1 s c6
      else c6)"

definition pack_basecall :: "string \<Rightarrow> nat \<Rightarrow> int" where
  "pack_basecall c len =
     (if 2 < len then
        (let c6 = base_chars c len;
             i0 = nchar (c6 ! 0) ALPHANUM_SPACE; i1 = nchar (c6 ! 1) ALPHANUM; i2 = nchar (c6 ! 2) NUMERIC;
             i3 = nchar (c6 ! 3) LETTERS_SPACE; i4 = nchar (c6 ! 4) LETTERS_SPACE; i5 = nchar (c6 ! 5) LETTERS_SPACE
         in if 0 \<le> i0 \<and> 0 \<le> i1 \<and> 0 \<le> i2 \<and> 0 \<le> i3 \<and> 0 \<le> i4 \<and> 0 \<le> i5
            then ((((i0 * 36 + i1) * 10 + i2) * 27 + i3) * 27 + i4) * 27 + i5
            else -1)
      else -1)"

text \<open>The value (negative: an error), the suffix bit, the hash state.\<close>

definition pack28 :: "string \<Rightarrow> 'h hash_ptr \<Rightarrow> 'h \<Rightarrow> int \<times> u32 \<times> 'h" where
  "pack28 c hi h =
     (if c = ''DE'' then (0, 0, h)
      else if c = ''QRZ'' then (1, 0, h)
      else if c = ''CQ'' then (2, 0, h)
      else if starts_with c ''CQ_'' \<and> length c < 8 then (-1, 0, h)
      else
        (let sfx = ends_with c ''/P'' \<or> ends_with c ''/R''; ip = (if sfx then 1 else 0);
             n28 = pack_basecall c (if sfx then length c - 2 else length c)
         in if 0 \<le> n28 then
              (case save_callsign hi c h of
                 (None, h) \<Rightarrow> (-1, ip, h)
               | (Some _, h) \<Rightarrow> (NTOKENS + MAX22 + n28, ip, h))
            else if 3 \<le> length c \<and> length c \<le> 11 then
              (case save_callsign hi c h of
                 (None, h) \<Rightarrow> (-1, ip, h)
               | (Some h22, h) \<Rightarrow> (NTOKENS + uint h22, 0, h))
            else (-1, ip, h)))"

definition six_chars :: "nat \<Rightarrow> string" where
  "six_chars n =
     [charn (n div 27 div 27 div 27 div 10 div 36 mod 37) ALPHANUM_SPACE,
      charn (n div 27 div 27 div 27 div 10 mod 36) ALPHANUM, charn (n div 27 div 27 div 27 mod 10) NUMERIC,
      charn (n div 27 div 27 mod 27) LETTERS_SPACE, charn (n div 27 mod 27) LETTERS_SPACE, charn (n mod 27) LETTERS_SPACE]"

definition four_chars :: "nat \<Rightarrow> string" where
  "four_chars n = [charn (n div 27 div 27 div 27 mod 27) LETTERS_SPACE, charn (n div 27 div 27 mod 27) LETTERS_SPACE,
     charn (n div 27 mod 27) LETTERS_SPACE, charn (n mod 27) LETTERS_SPACE]"

text \<open>The work-arounds for two prefixes undone.\<close>

definition base_call :: "string \<Rightarrow> string" where
  "base_call c =
     (if starts_with c ''3D0'' \<and> \<not> is_space (cat c 3) then ''3DA0'' @ trim_copy (drop 3 c)
      else if cat c 0 = CHR ''Q'' \<and> is_letter (cat c 1) then ''3X'' @ trim_copy (drop 1 c)
      else trim_copy c)"

text \<open>Success, the text left in the array, the hash state.\<close>

definition unpack28 :: "u32 \<Rightarrow> u32 \<Rightarrow> u8 \<Rightarrow> 'h hash_ptr \<Rightarrow> 'h \<Rightarrow> bool \<times> string \<times> 'h" where
  "unpack28 n28 ip i3 hi h =
     (let n = uint n28 in
      if n < NTOKENS then
        (if n \<le> 2 then (True, (if n = 0 then ''DE'' else if n = 1 then ''QRZ'' else ''CQ''), h)
         else if n \<le> 1002 then (True, ''CQ '' @ int_to_dd (n - 3) 3 False, h)
         else if n \<le> 532443 then (True, ''CQ '' @ trim_front (four_chars (nat (n - 1003))), h)
         else (False, [], h))
      else if n - NTOKENS < MAX22 then (True, lookup_callsign hi HASH_22_BITS (word_of_int (n - NTOKENS)) h, h)
      else
        (let r = base_call (six_chars (nat (n - NTOKENS - MAX22))) in
         if length r < 3 then (False, r, h)
         else if ip \<noteq> 0 \<and> i3 \<noteq> 1 \<and> i3 \<noteq> 2 then (False, r, h)
         else
           (let r = (if ip = 0 then r else if i3 = 1 then r @ ''/R'' else r @ ''/P'') in
            (True, r, snd (save_callsign hi r h)))))"

subsection \<open>Call signs in 58 bits\<close>

text \<open>Up to a NUL, a \<open><\<close> or eleven characters; the characters taken and their value.\<close>

fun pack58_loop :: "nat \<Rightarrow> string \<Rightarrow> 64 word \<Rightarrow> (string \<times> 64 word) option" where
  "pack58_loop 0 s r = Some ([], r)"
| "pack58_loop (Suc k) [] r = Some ([], r)"
| "pack58_loop (Suc k) (c # cs) r =
     (if c = CHR ''<'' then Some ([], r)
      else
        (let j = nchar c ALPHANUM_SPACE_SLASH in
         if j < 0 then None
         else map_option (\<lambda>(t, v). (c # t, v)) (pack58_loop k cs (r * 38 + word_of_int j))))"

definition pack58 :: "'h hash_ptr \<Rightarrow> string \<Rightarrow> 'h \<Rightarrow> 64 word option \<times> 'h" where
  "pack58 hi c h =
     (case pack58_loop 11 (if cat c 0 = CHR ''<'' then tl c else c) 0 of
        None \<Rightarrow> (None, h)
      | Some (c11, n58) \<Rightarrow> (case save_callsign hi c11 h of (None, h) \<Rightarrow> (None, h) | (Some _, h) \<Rightarrow> (Some n58, h)))"

fun chars58 :: "nat \<Rightarrow> nat \<Rightarrow> string" where
  "chars58 0 n = []"
| "chars58 (Suc k) n = chars58 k (n div 38) @ [charn (n mod 38) ALPHANUM_SPACE_SLASH]"

definition unpack58 :: "64 word \<Rightarrow> 'h hash_ptr \<Rightarrow> 'h \<Rightarrow> string \<times> 'h" where
  "unpack58 n58 hi h =
     (let c = trim_copy (chars58 11 (unat n58)) in (c, if 3 \<le> length c then snd (save_callsign hi c h) else h))"

subsection \<open>Locators and reports\<close>

definition packgrid :: "string \<Rightarrow> u16" where
  "packgrid g =
     (if g = [] then word_of_int (MAXGRID4 + 1)
      else if g = ''RRR'' then word_of_int (MAXGRID4 + 2)
      else if g = ''RR73'' then word_of_int (MAXGRID4 + 3)
      else if g = ''73'' then word_of_int (MAXGRID4 + 4)
      else if in_range (cat g 0) CHR ''A'' CHR ''R'' \<and> in_range (cat g 1) CHR ''A'' CHR ''R'' \<and> is_digit (cat g 2) \<and> is_digit (cat g 3)
      then word_of_int ((((int (code (cat g 0)) - 65) * 18 + (int (code (cat g 1)) - 65)) * 10
             + (int (code (cat g 2)) - 48)) * 10 + (int (code (cat g 3)) - 48))
      else if cat g 0 = CHR ''R'' then word_of_int (MAXGRID4 + uint (word_of_int (35 + dd_to_int (tl g) 3) :: u16)) OR 0x8000
      else word_of_int (MAXGRID4 + uint (word_of_int (35 + dd_to_int g 3) :: u16)))"

definition unpackgrid :: "u16 \<Rightarrow> u8 \<Rightarrow> string" where
  "unpackgrid igrid4 ir =
     (let n = uint igrid4 in
      if n \<le> MAXGRID4 then
        (let n = nat n in
         (if 0 < ir then ''R '' else []) @
         [char_of (65 + n div 10 div 10 div 18 mod 18), char_of (65 + n div 10 div 10 mod 18),
          char_of (48 + n div 10 mod 10), char_of (48 + n mod 10)])
      else
        (let irpt = n - MAXGRID4 in
         if irpt = 1 then [] else if irpt = 2 then ''RRR'' else if irpt = 3 then ''RR73'' else if irpt = 4 then ''73''
         else (if 0 < ir then ''R'' else []) @ int_to_dd (irpt - 35) 2 True))"

subsection \<open>Standard messages\<close>

definition std_payload :: "u32 \<Rightarrow> u32 \<Rightarrow> u16 \<Rightarrow> u8 \<Rightarrow> payload" where
  "std_payload n29a n29b igrid4 i3 =
     [ucast (drop_bit 21 n29a), ucast (drop_bit 13 n29a), ucast (drop_bit 5 n29a),
      ucast (push_bit 3 n29a) OR ucast (drop_bit 26 n29b),
      ucast (drop_bit 18 n29b), ucast (drop_bit 10 n29b), ucast (drop_bit 2 n29b),
      ucast (push_bit 6 n29b) OR ucast (drop_bit 10 igrid4),
      ucast (drop_bit 2 igrid4), ucast (push_bit 6 igrid4) OR push_bit 3 i3]"

text \<open>The payload when the code is \<open>RC_OK\<close>.\<close>

definition encode_std :: "'h hash_ptr \<Rightarrow> string \<Rightarrow> string \<Rightarrow> string \<Rightarrow> 'h \<Rightarrow> message_rc \<times> payload \<times> 'h" where
  "encode_std hi call_to call_de extra h =
     (let (n28a, ipa, h) = pack28 call_to hi h; (n28b, ipb, h) = pack28 call_de hi h in
      if n28a < 0 then (ERROR_CALLSIGN1, [], h)
      else if n28b < 0 then (ERROR_CALLSIGN2, [], h)
      else
        (let p = ends_with call_to ''/P'' \<or> ends_with call_de ''/P''; i3 = (if p then 2 else 1) in
         if p \<and> (ends_with call_to ''/R'' \<or> ends_with call_de ''/R'') then (ERROR_SUFFIX, [], h)
         else
           (let igrid4 = packgrid extra;
                n29a = push_bit 1 (word_of_int n28a) OR ipa; n29b = push_bit 1 (word_of_int n28b) OR ipb;
                (n29a, i3) = (if ends_with call_to ''/R'' then (n29a OR 1, i3)
                              else if ends_with call_to ''/P'' then (n29a OR 1, 2) else (n29a, i3))
            in (RC_OK, std_payload n29a n29b igrid4 i3, h))))"

definition std_n29a :: "payload \<Rightarrow> u32" where
  "std_n29a p = push_bit 21 (ucast (p ! 0)) OR push_bit 13 (ucast (p ! 1)) OR push_bit 5 (ucast (p ! 2)) OR ucast (drop_bit 3 (p ! 3))"

definition std_n29b :: "payload \<Rightarrow> u32" where
  "std_n29b p = push_bit 26 (ucast (p ! 3 AND 7)) OR push_bit 18 (ucast (p ! 4)) OR push_bit 10 (ucast (p ! 5))
     OR push_bit 2 (ucast (p ! 6)) OR ucast (drop_bit 6 (p ! 7))"

definition std_ir :: "payload \<Rightarrow> u8" where
  "std_ir p = drop_bit 5 (p ! 7 AND 0x20)"

definition std_igrid4 :: "payload \<Rightarrow> u16" where
  "std_igrid4 p = push_bit 10 (ucast (p ! 7 AND 0x1F)) OR push_bit 2 (ucast (p ! 8)) OR ucast (drop_bit 6 (p ! 9))"

text \<open>The three fields; those behind an error are empty.\<close>

definition decode_std :: "payload \<Rightarrow> 'h hash_ptr \<Rightarrow> 'h \<Rightarrow> message_rc \<times> (string \<times> string \<times> string) \<times> 'h" where
  "decode_std p hi h =
     (let n29a = std_n29a p; n29b = std_n29b p; i3 = get_i3 p;
          (ok, call_to, h) = unpack28 (drop_bit 1 n29a) (n29a AND 1) i3 hi h in
      if \<not> ok then (ERROR_CALLSIGN1, (call_to, [], []), h)
      else
        (let (ok, call_de, h) = unpack28 (drop_bit 1 n29b) (n29b AND 1) i3 hi h in
         if \<not> ok then (ERROR_CALLSIGN2, (call_to, call_de, []), h)
         else (RC_OK, (call_to, call_de, unpackgrid (std_igrid4 p) (std_ir p)), h)))"

subsection \<open>Messages with one nonstandard call sign\<close>

definition nonstd_payload :: "u16 \<Rightarrow> 64 word \<Rightarrow> u8 \<Rightarrow> u8 \<Rightarrow> u8 \<Rightarrow> u8 \<Rightarrow> payload" where
  "nonstd_payload n12 n58 iflip nrpt icq i3 =
     [ucast (drop_bit 4 n12), ucast (push_bit 4 n12) OR ucast (drop_bit 54 n58),
      ucast (drop_bit 46 n58), ucast (drop_bit 38 n58), ucast (drop_bit 30 n58), ucast (drop_bit 22 n58),
      ucast (drop_bit 14 n58), ucast (drop_bit 6 n58),
      ucast (push_bit 2 n58) OR push_bit 1 iflip OR drop_bit 1 nrpt,
      push_bit 7 nrpt OR push_bit 6 icq OR push_bit 3 i3]"

definition encode_nonstd :: "'h hash_ptr \<Rightarrow> string \<Rightarrow> string \<Rightarrow> string \<Rightarrow> 'h \<Rightarrow> message_rc \<times> payload \<times> 'h" where
  "encode_nonstd hi call_to call_de extra h =
     (let icq = call_to = ''CQ'' in
      if \<not> icq \<and> length call_to < 3 then (ERROR_CALLSIGN1, [], h)
      else if length call_de < 3 then (ERROR_CALLSIGN2, [], h)
      else
        (let iflip = \<not> icq \<and> cat call_de 0 = CHR ''<'' \<and> cat call_de (length call_to - 1) = CHR ''>'';
             call12 = (if iflip then call_de else call_to); call58 = (if \<not> icq \<and> iflip then call_to else call_de);
             (h22, h) = (if icq then (Some 0, h) else save_callsign hi call12 h) in
         case h22 of
           None \<Rightarrow> (ERROR_CALLSIGN1, [], h)
         | Some h22 \<Rightarrow>
             (let n12 = ucast (drop_bit 10 h22); (n58, h) = pack58 hi call58 h in
              case n58 of
                None \<Rightarrow> (ERROR_CALLSIGN2, [], h)
              | Some n58 \<Rightarrow>
                  (let nrpt = (if icq then 0 else if extra = ''RRR'' then 1 else if extra = ''RR73'' then 2
                               else if extra = ''73'' then 3 else 0)
                   in (RC_OK, nonstd_payload n12 n58 (if iflip then 1 else 0) nrpt (if icq then 1 else 0) 4, h)))))"

definition nonstd_n12 :: "payload \<Rightarrow> u32" where
  "nonstd_n12 p = push_bit 4 (ucast (p ! 0)) OR ucast (drop_bit 4 (p ! 1))"

definition nonstd_n58 :: "payload \<Rightarrow> 64 word" where
  "nonstd_n58 p = push_bit 54 (ucast (p ! 1 AND 0x0F)) OR push_bit 46 (ucast (p ! 2)) OR push_bit 38 (ucast (p ! 3))
     OR push_bit 30 (ucast (p ! 4)) OR push_bit 22 (ucast (p ! 5)) OR push_bit 14 (ucast (p ! 6)) OR push_bit 6 (ucast (p ! 7))
     OR ucast (drop_bit 2 (p ! 8))"

definition decode_nonstd :: "payload \<Rightarrow> 'h hash_ptr \<Rightarrow> 'h \<Rightarrow> message_rc \<times> (string \<times> string \<times> string) \<times> 'h" where
  "decode_nonstd p hi h =
     (let iflip = drop_bit 1 (p ! 8) AND 1; nrpt = push_bit 1 (p ! 8 AND 1) OR drop_bit 7 (p ! 9);
          icq = drop_bit 6 (p ! 9) AND 1;
          (call_decoded, h) = unpack58 (nonstd_n58 p) hi h;
          call_3 = lookup_callsign hi HASH_12_BITS (nonstd_n12 p) h;
          (call_1, call_2) = (if iflip \<noteq> 0 then (call_decoded, call_3) else (call_3, call_decoded))
      in (RC_OK,
          (if icq = 0 then (call_1, call_2, if nrpt = 1 then ''RRR'' else if nrpt = 2 then ''RR73'' else if nrpt = 3 then ''73'' else [])
           else (''CQ'', call_2, [])), h))"

subsection \<open>Free text and telemetry\<close>

text \<open>The thirteen characters: the tail of a longer text, spaces before a shorter one.\<close>

definition free_chars :: "string \<Rightarrow> string" where
  "free_chars text = replicate (13 - length text) CHR '' '' @ map to_upper (drop (length text - 13) text)"

text \<open>One character: the number times 42 plus its index. The bytes come from the last one on.\<close>

fun mul42 :: "u8 list \<Rightarrow> u32 \<Rightarrow> u8 list" where
  "mul42 [] carry = []"
| "mul42 (b # bs) carry = (let v = ucast b * 42 + carry in ucast (v AND 0xFF) # mul42 bs (drop_bit 8 v))"

definition free_step :: "char \<Rightarrow> u8 list \<Rightarrow> u8 list" where
  "free_step c b71 = (let n = nchar c FULL in rev (mul42 (rev b71) (if n < 0 then 0 else word_of_int n)))"

fun shift_left :: "u8 list \<Rightarrow> u8 \<Rightarrow> u8 list \<times> u8" where
  "shift_left [] carry = ([], carry)"
| "shift_left (b # bs) carry =
     (let (r, top) = shift_left bs (drop_bit 7 b AND 1) in ((push_bit 1 b OR carry) # r, top))"

definition encode_free :: "string \<Rightarrow> payload" where
  "encode_free text =
     (let b71 = fold free_step (free_chars text) (replicate 9 0); (r, carry) = shift_left (rev b71) 0
      in rev r @ [push_bit 7 carry])"

fun shift_right :: "u8 list \<Rightarrow> u8 \<Rightarrow> u8 list" where
  "shift_right [] carry = []"
| "shift_right (b # bs) carry = (push_bit 7 carry OR drop_bit 1 b) # shift_right bs (b AND 1)"

definition decode_telemetry :: "payload \<Rightarrow> u8 list" where
  "decode_telemetry p = shift_right (take 9 p) 0"

fun div42 :: "u8 list \<Rightarrow> u16 \<Rightarrow> u8 list \<times> u16" where
  "div42 [] rm = ([], rm)"
| "div42 (b # bs) rm =
     (let rm = push_bit 8 rm OR ucast b; (q, r) = div42 bs (rm mod 42) in (ucast (rm div 42) # q, r))"

fun free_text :: "nat \<Rightarrow> u8 list \<Rightarrow> string" where
  "free_text 0 b71 = []"
| "free_text (Suc k) b71 = (let (q, r) = div42 b71 0 in free_text k q @ [charn (unat r) FULL])"

definition decode_free :: "payload \<Rightarrow> string" where
  "decode_free p = trim (free_text 13 (decode_telemetry p))"

definition hex_char :: "u8 \<Rightarrow> char" where
  "hex_char n = (if 9 < n then char_of (unat n - 10 + 65) else char_of (unat n + 48))"

definition decode_telemetry_hex :: "payload \<Rightarrow> string" where
  "decode_telemetry_hex p = concat (map (\<lambda>b. [hex_char (drop_bit 4 b), hex_char (b AND 0x0F)]) (decode_telemetry p))"

subsection \<open>Texts\<close>

definition message_encode :: "'h hash_ptr \<Rightarrow> string \<Rightarrow> 'h \<Rightarrow> message_rc \<times> payload \<times> 'h" where
  "message_encode hi text h =
     (let (call_to, r) = copy_token 12 text; (call_de, r) = copy_token 12 r; (extra, r) = copy_token 20 r in
      if 12 \<le> length call_to then (ERROR_CALLSIGN1, [], h)
      else if 12 \<le> length call_de then (ERROR_CALLSIGN2, [], h)
      else if 20 \<le> length extra then (ERROR_GRID, [], h)
      else
        (let (rc, p, h) = encode_std hi call_to call_de extra h in
         if rc = RC_OK then (rc, p, h)
         else
           (let (rc, p, h) = encode_nonstd hi call_to call_de extra h in
            if rc = RC_OK then (rc, p, h) else (RC_OK, encode_free text, h))))"

text \<open>
  The fields have 14, 14 and 7 bytes of a buffer of 35 and are written without a check; the text is what the
  caller's array gets.
\<close>

definition message_decode :: "payload \<Rightarrow> 'h hash_ptr \<Rightarrow> 'h \<Rightarrow> (message_rc \<times> string \<times> 'h) result" where
  "message_decode p hi h =
     (let join = (\<lambda>(rc, (f1, f2, f3), h). rbind (sprintf_s 14 f1) (\<lambda>f1. rbind (sprintf_s 14 f2) (\<lambda>f2. rbind (sprintf_s 7 f3) (\<lambda>f3.
          Inr (rc, append_string (append_string (append_string (append_string (append_string [] f1) '' '') f2) '' '') f3, h))))) in
      case get_type p of
        STANDARD \<Rightarrow> join (decode_std p hi h)
      | NONSTD_CALL \<Rightarrow> join (decode_nonstd p hi h)
      | FREE_TEXT \<Rightarrow> rbind (sprintf_s 35 (decode_free p)) (\<lambda>t. Inr (RC_OK, append_string [] t, h))
      | TELEMETRY \<Rightarrow> rbind (sprintf_s 35 (decode_telemetry_hex p)) (\<lambda>t. Inr (RC_OK, append_string [] t, h))
      | _ \<Rightarrow> Inr (ERROR_TYPE, [], h))"

end
