(* ===== verification/FtxEncode.thy ===== *)
theory FtxEncode
  imports FtxTables FtxMessage RxWaterfall
begin

text \<open>
  From 77 bits of payload to 79 tones: the CRC (\<^verbatim>\<open>libft8/ft8/crc.c\<close>) and the encoder
  (\<^verbatim>\<open>libft8/ft8/encode.c\<close>), with the arrays as lists of their fixed length.
\<close>

subsection \<open>The checksum\<close>

definition TOPBIT :: u16 where "TOPBIT = push_bit (FT8_CRC_WIDTH - 1) 1"

definition crc_step :: "u8 list \<Rightarrow> nat \<Rightarrow> u16 \<Rightarrow> u16" where
  "crc_step bytes idx_bit rm =
     (let rm = (if idx_bit mod 8 = 0 then rm XOR push_bit (FT8_CRC_WIDTH - 8) (ucast (bytes ! (idx_bit div 8))) else rm)
      in if rm AND TOPBIT \<noteq> 0 then push_bit 1 rm XOR FT8_CRC_POLYNOMIAL else push_bit 1 rm)"

definition ftx_compute_crc :: "u8 list \<Rightarrow> nat \<Rightarrow> u16" where
  "ftx_compute_crc bytes num_bits = fold (crc_step bytes) [0..<num_bits] 0 AND (push_bit 1 TOPBIT - 1)"

definition ftx_extract_crc :: "u8 list \<Rightarrow> u16" where
  "ftx_extract_crc a91 = push_bit 11 (ucast (a91 ! 9 AND 7)) OR push_bit 3 (ucast (a91 ! 10)) OR ucast (drop_bit 5 (a91 ! 11))"

text \<open>What \<^verbatim>\<open>a91\<close> holds; its last byte is only written at the end.\<close>

definition ftx_add_crc :: "payload \<Rightarrow> u8 list" where
  "ftx_add_crc p =
     (let a91 = (take 10 p)[9 := p ! 9 AND 0xF8] @ [0, 0]; checksum = ftx_compute_crc a91 (96 - 14)
      in (take 10 p)[9 := (p ! 9 AND 0xF8) OR ucast (drop_bit 11 checksum)] @ [ucast (drop_bit 3 checksum), ucast (push_bit 5 checksum)])"

subsection \<open>The codeword\<close>

definition parity8 :: "u8 \<Rightarrow> u8" where
  "parity8 x = (let x = x XOR drop_bit 4 x; x = x XOR drop_bit 2 x; x = x XOR drop_bit 1 x in x mod 2)"

definition check_sum :: "u8 list \<Rightarrow> u8 list \<Rightarrow> u8" where
  "check_sum bytes row = fold (\<lambda>j nsum. nsum XOR parity8 (bytes ! j AND row ! j)) [0..<FTX_LDPC_K_BYTES] 0"

text \<open>One checksum bit: codeword, mask and byte index before and after.\<close>

definition codeword_step :: "u8 list \<Rightarrow> nat \<Rightarrow> u8 list \<times> u8 \<times> nat \<Rightarrow> u8 list \<times> u8 \<times> nat" where
  "codeword_step bytes i = (\<lambda>(codeword, col_mask, col_idx).
     (let codeword = (if check_sum bytes (kFTX_LDPC_generator ! i) mod 2 \<noteq> 0
                      then codeword[col_idx := codeword ! col_idx OR col_mask] else codeword);
          col_mask = drop_bit 1 col_mask
      in if col_mask = 0 then (codeword, 0x80, col_idx + 1) else (codeword, col_mask, col_idx)))"

definition encode174 :: "u8 list \<Rightarrow> u8 list" where
  "encode174 bytes =
     fst (fold (codeword_step bytes) [0..<FTX_LDPC_M]
       (map (\<lambda>j. if j < FTX_LDPC_K_BYTES then bytes ! j else 0) [0..<FTX_LDPC_N_BYTES],
        drop_bit (FTX_LDPC_K mod 8) 0x80, FTX_LDPC_K_BYTES - 1))"

subsection \<open>The tones\<close>

text \<open>One of the three bits of a symbol: its value when set, and the next mask and byte.\<close>

definition next_bit :: "u8 list \<Rightarrow> nat \<Rightarrow> nat \<times> u8 \<times> nat \<Rightarrow> nat \<times> u8 \<times> nat" where
  "next_bit codeword v = (\<lambda>(bits3, msk, i_byte).
     (let bits3 = (if codeword ! i_byte AND msk \<noteq> 0 then bits3 + v else bits3); msk = drop_bit 1 msk
      in if msk = 0 then (bits3, 0x80, i_byte + 1) else (bits3, msk, i_byte)))"

fun code_tones :: "u8 list \<Rightarrow> nat list \<Rightarrow> u8 \<times> nat \<Rightarrow> nat list" where
  "code_tones codeword [] pos = []"
| "code_tones codeword (i_tone # is) (msk, i_byte) =
     (if i_tone < 7 then kFT8_Costas_pattern ! i_tone # code_tones codeword is (msk, i_byte)
      else if 36 \<le> i_tone \<and> i_tone < 43 then kFT8_Costas_pattern ! (i_tone - 36) # code_tones codeword is (msk, i_byte)
      else if 72 \<le> i_tone \<and> i_tone < 79 then kFT8_Costas_pattern ! (i_tone - 72) # code_tones codeword is (msk, i_byte)
      else
        (let (bits3, msk, i_byte) = fold (next_bit codeword) [4, 2, 1] (0, msk, i_byte)
         in kFT8_Gray_map ! bits3 # code_tones codeword is (msk, i_byte)))"

definition ft8_encode :: "payload \<Rightarrow> nat list" where
  "ft8_encode p = code_tones (encode174 (ftx_add_crc p)) [0..<FT8_NN] (0x80, 0)"

end
