(* ===== verification/FtxMatrix.thy ===== *)
theory FtxMatrix
  imports FtxTables
begin

text \<open>
  The generator matrix and the parity check matrix of \<^verbatim>\<open>constants.c\<close> belong to the same code: every
  row of the check matrix cancels on every codeword. The proof evaluates the tables.
\<close>

subsection \<open>The matrices belong together\<close>

text \<open>The bytes of a codeword's bit as a combination of message bits: a bit of the message or a row of the generator.\<close>

definition code_row :: "nat \<Rightarrow> u8 list" where
  "code_row k = (if k < FTX_LDPC_K then (replicate FTX_LDPC_K_BYTES 0)[k div 8 := drop_bit (k mod 8) 0x80]
     else kFTX_LDPC_generator ! (k - FTX_LDPC_K))"

definition check_cols :: "nat \<Rightarrow> nat list" where
  "check_cols m = map (\<lambda>n. n - 1) (take (kFTX_LDPC_Num_rows ! m) (kFTX_LDPC_Nm ! m))"

definition xor_rows :: "u8 list list \<Rightarrow> u8 list" where
  "xor_rows rs = foldr (map2 (XOR)) rs (replicate FTX_LDPC_K_BYTES 0)"

definition checks_match :: "nat \<Rightarrow> bool" where
  "checks_match m \<longleftrightarrow> xor_rows (map code_row (check_cols m)) = replicate FTX_LDPC_K_BYTES 0"

lemma checks_match_1: "list_all checks_match [0..<17]"
  by code_simp

lemma checks_match_2: "list_all checks_match [17..<34]"
  by code_simp

lemma checks_match_3: "list_all checks_match [34..<51]"
  by code_simp

lemma checks_match_4: "list_all checks_match [51..<67]"
  by code_simp

lemma checks_match_5: "list_all checks_match [67..<83]"
  by code_simp

lemma generator_matches_checks:
  assumes "m < FTX_LDPC_M"
  shows "xor_rows (map code_row (check_cols m)) = replicate FTX_LDPC_K_BYTES 0"
proof -
  have "m \<in> set [0..<17] \<or> m \<in> set [17..<34] \<or> m \<in> set [34..<51] \<or> m \<in> set [51..<67] \<or> m \<in> set [67..<83]"
    using assms unfolding FTX_LDPC_M_def set_upt atLeastLessThan_iff by linarith
  then have "checks_match m"
    using checks_match_1 checks_match_2 checks_match_3 checks_match_4 checks_match_5 unfolding list_all_iff by blast
  then show ?thesis by (simp add: checks_match_def)
qed

end
