(* ===== verification/FtxBits.thy ===== *)
theory FtxBits
  imports FtxEncode FtxMatrix
begin

text \<open>
  Bit positions in byte arrays, shared by the loops of \<^verbatim>\<open>encode.c\<close> and \<^verbatim>\<open>decode.c\<close> that walk a mask and a
  byte index, and the parity function, which is linear. The result is what the encoder writes: bit by bit
  a codeword of the parity check matrix that starts with the message.
\<close>

subsection \<open>Walking through bits\<close>

definition bit_at :: "u8 list \<Rightarrow> nat \<Rightarrow> bool" where
  "bit_at bs p = bit (bs ! (p div 8)) (7 - p mod 8)"

definition mask_at :: "nat \<Rightarrow> u8" where
  "mask_at p = drop_bit (p mod 8) 0x80"

lemma bit_0x80: "bit (0x80 :: u8) n \<longleftrightarrow> n = 7"
proof -
  have e: "(0x80 :: u8) = 2 ^ 7" by simp
  show ?thesis unfolding e bit_exp_iff by (auto simp: possible_bit_def)
qed

lemma bit_mask_at: "bit (mask_at p) n \<longleftrightarrow> n = 7 - p mod 8"
proof -
  have "p mod 8 < 8" by simp
  then show ?thesis unfolding mask_at_def bit_drop_bit_eq o_apply bit_0x80 by linarith
qed

lemma and_mask: "x AND mask_at p \<noteq> 0 \<longleftrightarrow> bit x (7 - p mod 8)"
proof
  assume "x AND mask_at p \<noteq> 0"
  then obtain n where "bit (x AND mask_at p) n" by (metis bit_word_eqI bit_0_eq bot_apply bot_bool_def)
  then show "bit x (7 - p mod 8)" by (auto simp: bit_and_iff bit_mask_at)
next
  assume "bit x (7 - p mod 8)"
  then have "bit (x AND mask_at p) (7 - p mod 8)" by (simp add: bit_and_iff bit_mask_at)
  then show "x AND mask_at p \<noteq> 0" by auto
qed

lemma mask_next: "drop_bit 1 (mask_at p) = 0 \<longleftrightarrow> p mod 8 = 7"
proof -
  have b: "bit (drop_bit 1 (mask_at p)) n \<longleftrightarrow> n + 1 = 7 - p mod 8" for n
    unfolding bit_drop_bit_eq by (simp add: bit_mask_at)
  have "drop_bit 1 (mask_at p) = 0 \<longleftrightarrow> (\<forall>n. \<not> bit (drop_bit 1 (mask_at p)) n)"
    by (metis bit_word_eqI bit_0_eq bot_apply bot_bool_def)
  also have "\<dots> \<longleftrightarrow> (\<forall>n. n + 1 \<noteq> 7 - p mod 8)" unfolding b ..
  also have "\<dots> \<longleftrightarrow> 7 - p mod 8 = 0" by (cases "7 - p mod 8") simp_all
  also have "\<dots> \<longleftrightarrow> p mod 8 = 7" using mod_less_divisor[of 8 p] by linarith
  finally show ?thesis .
qed

lemma div_mod_8: "p mod 8 = 7 \<Longrightarrow> (p + 1) mod 8 = 0 \<and> (p + 1) div 8 = p div 8 + 1"
  "p mod 8 \<noteq> 7 \<Longrightarrow> (p + 1) mod 8 = p mod 8 + 1 \<and> (p + 1) div 8 = p div (8 :: nat)"
proof -
  have p: "p mod 8 < 8" "p = p div 8 * 8 + p mod 8" by simp_all
  show "p mod 8 = 7 \<Longrightarrow> (p + 1) mod 8 = 0 \<and> (p + 1) div 8 = p div 8 + 1"
    using mod_Suc[of p 8] div_Suc[of p 8] by simp
  show "p mod 8 \<noteq> 7 \<Longrightarrow> (p + 1) mod 8 = p mod 8 + 1 \<and> (p + 1) div 8 = p div 8"
    using mod_Suc[of p 8] div_Suc[of p 8] by simp
qed

text \<open>The step of every such loop.\<close>

lemma walk_step:
  "(if drop_bit 1 (mask_at p) = 0 then (x, 0x80, p div 8 + 1) else (x, drop_bit 1 (mask_at p), p div 8))
     = (x, mask_at (p + 1), (p + 1) div 8)"
proof (cases "p mod 8 = 7")
  case True
  then show ?thesis using div_mod_8(1)[OF True] mask_next[of p] by (simp add: mask_at_def)
next
  case False
  then show ?thesis using div_mod_8(2)[OF False] mask_next[of p] by (simp add: mask_at_def)
qed

lemma same_position: "k div 8 = p div 8 \<Longrightarrow> 7 - k mod 8 = 7 - p mod 8 \<Longrightarrow> k = (p :: nat)"
  using mod_less_divisor[of 8 k] mod_less_divisor[of 8 p] div_mult_mod_eq[of k 8] div_mult_mod_eq[of p 8] by linarith

lemma bit_at_write:
  "p div 8 < length bs \<Longrightarrow> bit_at (bs[p div 8 := bs ! (p div 8) OR mask_at p]) k \<longleftrightarrow> bit_at bs k \<or> k = p"
  using same_position[of k p] by (auto simp: bit_at_def nth_list_update bit_or_iff bit_mask_at)

text \<open>Arrays are equal when their bits are.\<close>

lemma bytes_eqI:
  assumes "length xs = length ys" "\<And>k. k < 8 * length xs \<Longrightarrow> bit_at xs k = bit_at ys k"
  shows "xs = ys"
proof (rule nth_equalityI[OF assms(1)])
  fix i assume i: "i < length xs"
  show "xs ! i = ys ! i"
  proof (rule bit_word_eqI)
    fix n assume n: "n < LENGTH(8)"
    define k where "k = 7 - n"
    have k: "k < 8" "n = 7 - k" using n by (simp_all add: k_def)
    have p: "(8 * i + k) div 8 = i" "(8 * i + k) mod 8 = k" using k(1) by simp_all
    have "8 * i + k < 8 * length xs" using i k(1) by linarith
    from assms(2)[OF this] show "bit (xs ! i) n = bit (ys ! i) n" unfolding bit_at_def p k(2) .
  qed
qed

subsection \<open>Parity is linear\<close>

lemma mod_two: "x mod 2 = take_bit 1 x" for x :: u8
  by (simp add: take_bit_eq_mod)

lemma parity8_xor: "parity8 (x XOR y) = parity8 x XOR parity8 y"
  by (simp only: parity8_def Let_def mod_two take_bit_xor drop_bit_xor) (simp only: ac_simps)

lemma parity8_zero [simp]: "parity8 0 = 0"
  by (simp add: parity8_def)

lemma parity8_mask: "parity8 (x AND mask_at p) = (if bit x (7 - p mod 8) then 1 else 0)"
proof -
  have e: "x AND mask_at p = (if bit x (7 - p mod 8) then mask_at p else 0)"
    by (rule bit_word_eqI) (auto simp: bit_and_iff bit_mask_at)
  have "list_all (\<lambda>r. parity8 (drop_bit r 0x80) = 1) [0..<8]" by code_simp
  moreover have "p mod 8 \<in> set [0..<8]" by simp
  ultimately have "parity8 (mask_at p) = 1" unfolding mask_at_def list_all_iff by blast
  then show ?thesis unfolding e by simp
qed

lemma parity8_cases: "parity8 x = 0 \<or> parity8 x = 1"
proof -
  have "uint (parity8 x) = 0 \<or> uint (parity8 x) = 1" unfolding parity8_def Let_def uint_mod by auto
  then show ?thesis by (simp add: word_uint_eq_iff)
qed

lemma and_xor: "x AND (y XOR z) = (x AND y) XOR (x AND z)" for x :: u8
  by (rule bit_word_eqI) (auto simp: bit_simps)

text \<open>A dot product, as a running exclusive or.\<close>

lemma fold_xor_add: "fold (\<lambda>j a. a XOR (f j XOR g j)) js (a XOR b) = fold (\<lambda>j a. a XOR f j) js a XOR fold (\<lambda>j a. a XOR g j) js (b :: u8)"
proof (induction js arbitrary: a b)
  case (Cons j js)
  have e: "(a XOR b) XOR (f j XOR g j) = (a XOR f j) XOR (b XOR g j)" by (simp only: ac_simps)
  show ?case using Cons.IH[of "a XOR f j" "b XOR g j"] unfolding fold_simps o_apply e .
qed simp

lemma fold_xor_zero: "\<forall>j \<in> set js. f j = 0 \<Longrightarrow> fold (\<lambda>j a. a XOR f j) js a = (a :: u8)"
  by (induction js) simp_all

lemma fold_xor_single:
  "distinct js \<Longrightarrow> \<forall>j \<in> set js. j \<noteq> i \<longrightarrow> f j = 0 \<Longrightarrow> i \<in> set js \<Longrightarrow> fold (\<lambda>j a. a XOR f j) js a = a XOR (f i :: u8)"
proof (induction js arbitrary: a)
  case (Cons j js)
  show ?case
  proof (cases "j = i")
    case True
    then have "\<forall>j \<in> set js. f j = 0" using Cons.prems by auto
    then show ?thesis using True fold_xor_zero[of js f "a XOR f i"] by simp
  next
    case False
    then show ?thesis using Cons by simp
  qed
qed simp

lemma fold_xor_cases: "\<forall>j. f j = 0 \<or> f j = 1 \<Longrightarrow> a = 0 \<or> a = 1 \<Longrightarrow>
    fold (\<lambda>j a. a XOR f j) js a = 0 \<or> fold (\<lambda>j a. a XOR f j) js a = (1 :: u8)"
proof (induction js arbitrary: a)
  case (Cons j js)
  then have "(a = 0 \<or> a = 1) \<and> (f j = 0 \<or> f j = 1)" by simp
  then have "a XOR f j = 0 \<or> a XOR f j = 1" by (elim conjE disjE) simp_all
  with Cons show ?case by simp
qed simp

lemma check_sum_cases: "check_sum bytes row = 0 \<or> check_sum bytes row = 1"
  unfolding check_sum_def by (rule fold_xor_cases) (simp_all add: parity8_cases)

lemma check_sum_odd: "check_sum bytes row mod 2 \<noteq> 0 \<longleftrightarrow> check_sum bytes row = 1"
  using check_sum_cases[of bytes row] by auto

lemma check_sum_xor:
  assumes "length r = FTX_LDPC_K_BYTES" "length s = FTX_LDPC_K_BYTES"
  shows "check_sum bytes (map2 (XOR) r s) = check_sum bytes r XOR check_sum bytes s"
proof -
  have "check_sum bytes (map2 (XOR) r s)
      = fold (\<lambda>j a. a XOR (parity8 (bytes ! j AND r ! j) XOR parity8 (bytes ! j AND s ! j))) [0..<FTX_LDPC_K_BYTES] (0 XOR 0)"
    unfolding check_sum_def using assms by (intro fold_cong) (simp_all add: and_xor parity8_xor)
  then show ?thesis unfolding fold_xor_add check_sum_def .
qed

lemma check_sum_zero: "check_sum bytes (replicate FTX_LDPC_K_BYTES 0) = 0"
  unfolding check_sum_def by (rule fold_xor_zero) simp

lemma length_xor_rows: "\<forall>r \<in> set rs. length r = FTX_LDPC_K_BYTES \<Longrightarrow> length (xor_rows rs) = FTX_LDPC_K_BYTES"
  by (induction rs) (simp_all add: xor_rows_def)

lemma check_sum_rows:
  "\<forall>r \<in> set rs. length r = FTX_LDPC_K_BYTES \<Longrightarrow> check_sum bytes (xor_rows rs) = foldr (\<lambda>r a. check_sum bytes r XOR a) rs 0"
proof (induction rs)
  case Nil
  then show ?case by (simp add: xor_rows_def check_sum_zero)
next
  case (Cons r rs)
  have "xor_rows (r # rs) = map2 (XOR) r (xor_rows rs)" by (simp add: xor_rows_def)
  then show ?case using Cons check_sum_xor[of r "xor_rows rs" bytes] length_xor_rows[of rs] by simp
qed

lemma unit_check_sum:
  assumes "k < FTX_LDPC_K"
  shows "check_sum bytes (code_row k) = (if bit_at bytes k then 1 else 0)"
proof -
  have k: "k div 8 < 12" "k < 91" using assms by (simp_all add: FTX_LDPC_K_def)
  have row: "code_row k = (replicate 12 0)[k div 8 := mask_at k]"
    using k(2) by (simp add: code_row_def FTX_LDPC_K_def FTX_LDPC_K_BYTES_def mask_at_def)
  have "check_sum bytes (code_row k) = 0 XOR parity8 (bytes ! (k div 8) AND code_row k ! (k div 8))"
    unfolding check_sum_def using k row by (intro fold_xor_single) (simp_all add: FTX_LDPC_K_BYTES_def FTX_LDPC_K_def nth_list_update)
  then show ?thesis unfolding row using k(1) parity8_mask[of "bytes ! (k div 8)" k] by (simp add: bit_at_def)
qed


subsection \<open>The bits of a codeword\<close>

text \<open>Bit \<open>k\<close> of the codeword of a message of 91 bits.\<close>

definition code_bit :: "u8 list \<Rightarrow> nat \<Rightarrow> bool" where
  "code_bit bytes k \<longleftrightarrow> check_sum bytes (code_row k) = 1"

definition message_bytes :: "u8 list \<Rightarrow> bool" where
  "message_bytes bytes \<longleftrightarrow> length bytes = FTX_LDPC_K_BYTES \<and> (\<forall>k. FTX_LDPC_K \<le> k \<longrightarrow> k < 96 \<longrightarrow> \<not> bit_at bytes k)"

lemma code_bit_message: "k < FTX_LDPC_K \<Longrightarrow> code_bit bytes k = bit_at bytes k"
  by (simp add: code_bit_def unit_check_sum)

lemma code_bit_check: "code_bit bytes (FTX_LDPC_K + i) \<longleftrightarrow> check_sum bytes (kFTX_LDPC_generator ! i) = 1"
  by (simp add: code_bit_def code_row_def)

definition codeword_inv :: "u8 list \<Rightarrow> nat \<Rightarrow> u8 list \<times> u8 \<times> nat \<Rightarrow> bool" where
  "codeword_inv bytes i st \<longleftrightarrow> snd st = (mask_at (FTX_LDPC_K + i), (FTX_LDPC_K + i) div 8) \<and> length (fst st) = FTX_LDPC_N_BYTES
     \<and> (\<forall>k < 176. bit_at (fst st) k \<longleftrightarrow> k < FTX_LDPC_K + i \<and> code_bit bytes k)"

lemma codeword_step_inv:
  assumes "codeword_inv bytes i st" "i < FTX_LDPC_M"
  shows "codeword_inv bytes (i + 1) (codeword_step bytes i st)"
proof -
  define p where "p = FTX_LDPC_K + i"
  obtain cw where st: "st = (cw, mask_at p, p div 8)" and len: "length cw = 22"
    and bits: "\<forall>k < 176. bit_at cw k \<longleftrightarrow> k < p \<and> code_bit bytes k"
    using assms(1) unfolding codeword_inv_def p_def [symmetric]
    by (cases st) (simp add: FTX_LDPC_N_BYTES_def FTX_LDPC_N_def)
  have p: "p div 8 < 22" using assms(2) by (simp add: p_def FTX_LDPC_K_def FTX_LDPC_M_def)
  define cw' where "cw' = (if code_bit bytes p then cw[p div 8 := cw ! (p div 8) OR mask_at p] else cw)"
  have "codeword_step bytes i st = (cw', mask_at (p + 1), (p + 1) div 8)"
    unfolding codeword_step_def st prod.case Let_def check_sum_odd code_bit_check [symmetric] p_def [symmetric]
      cw'_def [symmetric] by (rule walk_step)
  moreover have "length cw' = 22" by (simp add: cw'_def len)
  moreover have "bit_at cw' k \<longleftrightarrow> k < p + 1 \<and> code_bit bytes k" if "k < 176" for k
    using bits that bit_at_write[of p cw k] p len unfolding cw'_def by (cases "k = p") auto
  ultimately show ?thesis unfolding codeword_inv_def p_def by (simp add: FTX_LDPC_N_BYTES_def FTX_LDPC_N_def)
qed

lemma codeword_start:
  assumes "message_bytes bytes"
  shows "codeword_inv bytes 0
    (map (\<lambda>j. if j < FTX_LDPC_K_BYTES then bytes ! j else 0) [0..<FTX_LDPC_N_BYTES], drop_bit (FTX_LDPC_K mod 8) 0x80, FTX_LDPC_K_BYTES - 1)"
proof -
  define z where "z = map (\<lambda>j. if j < 12 then bytes ! j else 0) [0..<22]"
  have "bit_at z k \<longleftrightarrow> k < 91 \<and> code_bit bytes k" if k: "k < 176" for k
  proof -
    have kd: "k div 8 < 22" "k div 8 < 12 \<longleftrightarrow> k < 96" using k by auto
    have "bit_at z k \<longleftrightarrow> k < 96 \<and> bit_at bytes k" using kd unfolding bit_at_def z_def by simp
    also have "\<dots> \<longleftrightarrow> k < 91 \<and> bit_at bytes k"
      using assms unfolding message_bytes_def FTX_LDPC_K_def by (cases "k < 91") simp_all
    also have "\<dots> \<longleftrightarrow> k < 91 \<and> code_bit bytes k" using code_bit_message[of k bytes] by (auto simp: FTX_LDPC_K_def)
    finally show ?thesis .
  qed
  moreover have "length z = 22" by (simp add: z_def)
  ultimately show ?thesis
    unfolding codeword_inv_def z_def mask_at_def
    by (simp add: FTX_LDPC_K_def FTX_LDPC_N_BYTES_def FTX_LDPC_N_def FTX_LDPC_K_BYTES_def del: upt.simps upt_rec_numeral)
qed

lemma encode174_bits:
  assumes "message_bytes bytes"
  shows "length (encode174 bytes) = FTX_LDPC_N_BYTES" "k < FTX_LDPC_N \<Longrightarrow> bit_at (encode174 bytes) k = code_bit bytes k"
proof -
  define st where "st i = fold (codeword_step bytes) [0..<i]
    (map (\<lambda>j. if j < FTX_LDPC_K_BYTES then bytes ! j else 0) [0..<FTX_LDPC_N_BYTES], drop_bit (FTX_LDPC_K mod 8) 0x80, FTX_LDPC_K_BYTES - 1)" for i
  have "codeword_inv bytes i (st i)" if "i \<le> FTX_LDPC_M" for i
    using that
  proof (induction i)
    case 0
    then show ?case using codeword_start[OF assms] by (simp add: st_def)
  next
    case (Suc i)
    then show ?case using codeword_step_inv[of bytes i "st i"] by (simp add: st_def)
  qed
  then have i: "codeword_inv bytes FTX_LDPC_M (st FTX_LDPC_M)" by simp
  have e: "encode174 bytes = fst (st FTX_LDPC_M)" unfolding encode174_def st_def ..
  show "length (encode174 bytes) = FTX_LDPC_N_BYTES" using i unfolding e codeword_inv_def by blast
  show "k < FTX_LDPC_N \<Longrightarrow> bit_at (encode174 bytes) k = code_bit bytes k"
    using i unfolding e codeword_inv_def by (simp add: FTX_LDPC_K_def FTX_LDPC_N_def FTX_LDPC_M_def)
qed

subsection \<open>The parity checks hold\<close>

definition code_bits :: "u8 list \<Rightarrow> nat list" where
  "code_bits bytes = map (\<lambda>k. if code_bit bytes k then 1 else 0) [0..<FTX_LDPC_N]"

lemma check_table: "\<forall>r \<in> set kFTX_LDPC_Nm. length r = 7 \<and> (\<forall>n \<in> set r. n - 1 < FTX_LDPC_N)" "\<forall>n \<in> set kFTX_LDPC_Num_rows. n \<le> 7"
  by (simp_all add: kFTX_LDPC_Nm_def kFTX_LDPC_Num_rows_def FTX_LDPC_N_def)

lemma table_facts:
  assumes "m < FTX_LDPC_M"
  shows "\<forall>k \<in> set (check_cols m). k < FTX_LDPC_N" "kFTX_LDPC_Num_rows ! m \<le> length (kFTX_LDPC_Nm ! m)"
proof -
  have r: "kFTX_LDPC_Nm ! m \<in> set kFTX_LDPC_Nm" "kFTX_LDPC_Num_rows ! m \<in> set kFTX_LDPC_Num_rows"
    using assms table_sizes by simp_all
  show "\<forall>k \<in> set (check_cols m). k < FTX_LDPC_N"
    using check_table(1) r(1) set_take_subset[of "kFTX_LDPC_Num_rows ! m" "kFTX_LDPC_Nm ! m"] by (auto simp: check_cols_def)
  show "kFTX_LDPC_Num_rows ! m \<le> length (kFTX_LDPC_Nm ! m)" using check_table r by simp
qed

lemma generator_rows: "k < FTX_LDPC_N \<Longrightarrow> length (code_row k) = FTX_LDPC_K_BYTES"
proof -
  have "list_all (\<lambda>r. length r = FTX_LDPC_K_BYTES) kFTX_LDPC_generator" by code_simp
  then have "length (kFTX_LDPC_generator ! i) = FTX_LDPC_K_BYTES" if "i < FTX_LDPC_M" for i
    using that table_sizes(1) unfolding list_all_iff by simp
  then show "k < FTX_LDPC_N \<Longrightarrow> length (code_row k) = FTX_LDPC_K_BYTES"
    by (simp add: code_row_def FTX_LDPC_N_def FTX_LDPC_K_def FTX_LDPC_M_def)
qed

lemma check_cols_sum:
  assumes "m < FTX_LDPC_M"
  shows "map (\<lambda>i. codeword ! (kFTX_LDPC_Nm ! m ! i - 1)) [0..<kFTX_LDPC_Num_rows ! m] = map ((!) codeword) (check_cols m)"
  using table_facts(2)[OF assms] unfolding check_cols_def by (intro nth_equalityI) simp_all

lemma parity_sum:
  "odd (sum_list (map (\<lambda>k. if P k then 1 else 0 :: nat) ks)) \<longleftrightarrow> foldr (\<lambda>k a. (if P k then 1 else 0) XOR a) ks 0 = (1 :: u8)"
  "foldr (\<lambda>k a. (if P k then 1 else 0) XOR a) ks 0 \<in> {0, 1 :: u8}"
  by (induction ks) auto

lemma codeword_check:
  assumes "m < FTX_LDPC_M"
  shows "even (sum_list (map ((!) (code_bits bytes)) (check_cols m)))"
proof -
  have len: "\<forall>r \<in> set (map code_row (check_cols m)). length r = FTX_LDPC_K_BYTES"
    using table_facts(1)[OF assms] generator_rows by auto
  have "foldr (\<lambda>r a. check_sum bytes r XOR a) (map code_row (check_cols m)) 0 = 0"
    using check_sum_rows[OF len, of bytes] check_sum_zero[of bytes] unfolding generator_matches_checks[OF assms] by simp
  moreover have "foldr (\<lambda>r a. check_sum bytes r XOR a) (map code_row ks) 0 = foldr (\<lambda>k a. (if code_bit bytes k then 1 else 0) XOR a) ks (0 :: u8)"
    for ks
  proof (induction ks)
    case (Cons k ks)
    have "check_sum bytes (code_row k) = (if code_bit bytes k then 1 else 0)"
      using check_sum_cases[of bytes "code_row k"] by (auto simp: code_bit_def)
    with Cons show ?case by simp
  qed simp
  ultimately have z: "foldr (\<lambda>k a. (if code_bit bytes k then 1 else 0) XOR a) (check_cols m) 0 = (0 :: u8)" by simp
  have c: "map ((!) (code_bits bytes)) (check_cols m) = map (\<lambda>k. if code_bit bytes k then 1 else 0) (check_cols m)"
    using table_facts(1)[OF assms] by (intro map_cong refl) (simp add: code_bits_def)
  show ?thesis using parity_sum(1)[of "code_bit bytes" "check_cols m"] z unfolding c by simp
qed

end
