(* ===== verification/FtxDecode.thy ===== *)
theory FtxDecode
  imports FtxEncode
begin

text \<open>
  The candidate search, the soft decisions, the belief propagation decoder and the checks of a candidate
  (\<^verbatim>\<open>libft8/ft8/decode.c\<close>, \<^verbatim>\<open>libft8/ft8/ldpc.c\<close>), for FT8. Reading outside the waterfall is an error;
  floating point is exact real arithmetic, with the division by a vanishing variance as an error.
\<close>

subsection \<open>The score of a candidate\<close>

definition cand_mag :: "ftx_waterfall \<Rightarrow> ftx_candidate \<Rightarrow> int" where
  "cand_mag w c =
     ((time_offset c * int (time_osr w) + int (time_sub c)) * int (freq_osr w) + int (freq_sub c)) * int (num_bins w)
       + freq_offset c"

definition mag_at :: "ftx_waterfall \<Rightarrow> int \<Rightarrow> u8 result" where
  "mag_at w i = (if 0 \<le> i \<and> i < int (length (mag w)) then Inr (mag w ! nat i) else Inl (OutOfBounds (length (mag w)) (nat i)))"

text \<open>The cells compared with the expected one, as offsets from it.\<close>

definition sync_neighbours :: "ftx_waterfall \<Rightarrow> nat \<Rightarrow> nat \<Rightarrow> int \<Rightarrow> int list" where
  "sync_neighbours w sm k block_abs =
     (if 0 < sm then [-1] else []) @ (if sm < 7 then [1] else [])
     @ (if 0 < k \<and> 0 < block_abs then [- int (block_stride w)] else [])
     @ (if k + 1 < FT8_LENGTH_SYNC \<and> block_abs + 1 < int (num_blocks w) then [int (block_stride w)] else [])"

fun add_neighbours :: "ftx_waterfall \<Rightarrow> int \<Rightarrow> int list \<Rightarrow> int \<times> int \<Rightarrow> (int \<times> int) result" where
  "add_neighbours w p [] acc = Inr acc"
| "add_neighbours w p (d # ds) (tot, num) =
     rbind (mag_at w p) (\<lambda>a. rbind (mag_at w (p + d)) (\<lambda>b. add_neighbours w p ds (tot + (uint a - uint b), num + 1)))"

text \<open>One sync group from symbol \<open>k\<close> on; a symbol behind the last block ends the group.\<close>

fun score_group :: "ftx_waterfall \<Rightarrow> ftx_candidate \<Rightarrow> nat \<Rightarrow> nat list \<Rightarrow> int \<times> int \<Rightarrow> (int \<times> int) result" where
  "score_group w c m [] acc = Inr acc"
| "score_group w c m (k # ks) acc =
     (let block = FT8_SYNC_OFFSET * m + k; block_abs = time_offset c + int block; sm = kFT8_Costas_pattern ! k in
      if block_abs < 0 then score_group w c m ks acc
      else if int (num_blocks w) \<le> block_abs then Inr acc
      else rbind (add_neighbours w (cand_mag w c + int (block * block_stride w) + int sm) (sync_neighbours w sm k block_abs) acc)
             (score_group w c m ks))"

definition ft8_sync_score :: "ftx_waterfall \<Rightarrow> ftx_candidate \<Rightarrow> int result" where
  "ft8_sync_score w c =
     rbind (foldl (\<lambda>acc m. rbind acc (score_group w c m [0..<FT8_LENGTH_SYNC])) (Inr (0, 0)) [0..<FT8_NUM_SYNC]) (\<lambda>(tot, num).
     Inr (if 0 < num then c_div tot num else tot))"

subsection \<open>The heap of candidates\<close>

text \<open>\<open>less a b\<close> compares two entries; the heap is the front of the array.\<close>

definition score_at :: "ftx_candidate list \<Rightarrow> nat \<Rightarrow> int" where
  "score_at hp i = score (hp ! i)"

definition exchange_at :: "nat \<Rightarrow> nat \<Rightarrow> 'a list \<Rightarrow> 'a list" where
  "exchange_at i j xs = xs[i := xs ! j, j := xs ! i]"

definition smallest_child :: "ftx_candidate list \<Rightarrow> nat \<Rightarrow> nat \<Rightarrow> nat" where
  "smallest_child hp n cur =
     (let l = 2 * cur + 1; r = l + 1; s = (if l < n \<and> score_at hp l < score_at hp cur then l else cur)
      in if r < n \<and> score_at hp r < score_at hp s then r else s)"

function heapify_down :: "ftx_candidate list \<Rightarrow> nat \<Rightarrow> nat \<Rightarrow> ftx_candidate list" where
  "heapify_down hp n cur =
     (let s = smallest_child hp n cur in if s = cur then hp else heapify_down (exchange_at s cur hp) n s)"
  by pat_completeness auto
termination
  by (relation "measure (\<lambda>(hp, n, cur). n - cur)") (auto simp: smallest_child_def Let_def split: if_splits)

fun heapify_up :: "ftx_candidate list \<Rightarrow> nat \<Rightarrow> ftx_candidate list" where
  "heapify_up hp cur =
     (if cur = 0 then hp
      else
        (let parent = (cur - 1) div 2 in
         if \<not> score_at hp cur < score_at hp parent then hp
         else heapify_up (exchange_at parent cur hp) parent))"

declare heapify_down.simps [simp del] heapify_up.simps [simp del]

text \<open>One candidate with its score: the array and the size of the heap.\<close>

definition consider_cand :: "nat \<Rightarrow> ftx_candidate \<Rightarrow> ftx_candidate list \<times> nat \<Rightarrow> ftx_candidate list \<times> nat" where
  "consider_cand limit c = (\<lambda>(hp, n).
     (let (hp, n) = (if n = limit \<and> score_at hp 0 < score c then (heapify_down (hp[0 := hp ! (n - 1)]) (n - 1) 0, n - 1) else (hp, n))
      in if n < limit then (heapify_up (hp[n := c]) n, n + 1) else (hp, n)))"

definition positions_of :: "ftx_waterfall \<Rightarrow> ftx_candidate list" where
  "positions_of w =
     concat (map (\<lambda>ts. concat (map (\<lambda>fs. concat (map (\<lambda>t. map (\<lambda>f.
        \<lparr>score = 0, time_offset = t, freq_offset = int f, time_sub = ts, freq_sub = fs\<rparr>)
        [0..<num_bins w - 7]) [-10..19])) [0..<freq_osr w])) [0..<time_osr w])"

fun search_loop :: "ftx_waterfall \<Rightarrow> nat \<Rightarrow> int \<Rightarrow> ftx_candidate list \<Rightarrow> ftx_candidate list \<times> nat
    \<Rightarrow> (ftx_candidate list \<times> nat) result" where
  "search_loop w limit min_score [] st = Inr st"
| "search_loop w limit min_score (c # cs) st =
     rbind (ft8_sync_score w c) (\<lambda>sc.
       let c = c\<lparr>score := sint (word_of_int sc :: 16 word)\<rparr> in
       search_loop w limit min_score cs (if score c < min_score then st else consider_cand limit c st))"

text \<open>Taking the smallest to the end of the heap, from a heap of \<open>n\<close> entries.\<close>

fun sort_heap :: "nat \<Rightarrow> ftx_candidate list \<Rightarrow> ftx_candidate list" where
  "sort_heap 0 hp = hp"
| "sort_heap (Suc 0) hp = hp"
| "sort_heap (Suc n) hp = sort_heap n (heapify_down (exchange_at 0 n hp) n 0)"

definition ftx_find_candidates :: "ftx_waterfall \<Rightarrow> nat \<Rightarrow> ftx_candidate list \<Rightarrow> int \<Rightarrow> (ftx_candidate list \<times> nat) result" where
  "ftx_find_candidates w limit hp min_score =
     rbind (search_loop w limit min_score (positions_of w) (hp, 0)) (\<lambda>(hp, n). Inr (sort_heap n hp, n))"

subsection \<open>Soft decisions\<close>

definition max4 :: "real \<Rightarrow> real \<Rightarrow> real \<Rightarrow> real \<Rightarrow> real" where
  "max4 a b c d = max (max a b) (max c d)"

definition ft8_extract_symbol :: "(nat \<Rightarrow> real) \<Rightarrow> real list" where
  "ft8_extract_symbol w =
     (let s = \<lambda>j. w (kFT8_Gray_map ! j) in
      [max4 (s 4) (s 5) (s 6) (s 7) - max4 (s 0) (s 1) (s 2) (s 3),
       max4 (s 2) (s 3) (s 6) (s 7) - max4 (s 0) (s 1) (s 4) (s 5),
       max4 (s 1) (s 3) (s 5) (s 7) - max4 (s 0) (s 2) (s 4) (s 6)])"

text \<open>The eight cells of a symbol, when they are inside the waterfall.\<close>

definition symbol_cells :: "ftx_waterfall \<Rightarrow> int \<Rightarrow> (nat \<Rightarrow> real) result" where
  "symbol_cells w i =
     (if 0 \<le> i \<and> i + 7 < int (length (mag w)) then Inr (\<lambda>t. byte_db (mag w ! (nat i + t)))
      else Inl (OutOfBounds (length (mag w)) (nat (i + 7))))"

fun extract_loop :: "ftx_waterfall \<Rightarrow> ftx_candidate \<Rightarrow> nat list \<Rightarrow> real list result" where
  "extract_loop w c [] = Inr []"
| "extract_loop w c (k # ks) =
     (let sym_idx = k + (if k < 29 then 7 else 14); block = time_offset c + int sym_idx in
      rbind (if block < 0 \<or> int (num_blocks w) \<le> block then Inr [0, 0, 0]
             else rbind (symbol_cells w (cand_mag w c + int (sym_idx * block_stride w))) (\<lambda>s. Inr (ft8_extract_symbol s)))
        (\<lambda>l. rbind (extract_loop w c ks) (\<lambda>ls. Inr (l @ ls))))"

definition ft8_extract_likelihood :: "ftx_waterfall \<Rightarrow> ftx_candidate \<Rightarrow> real list result" where
  "ft8_extract_likelihood w c = extract_loop w c [0..<FT8_ND]"

definition ftx_normalize_logl :: "real list \<Rightarrow> real list result" where
  "ftx_normalize_logl log174 =
     (let sum = sum_list log174; sum2 = sum_list (map (\<lambda>x. x * x) log174); inv_n = 1 / real FTX_LDPC_N;
          variance = (sum2 - sum * sum * inv_n) * inv_n
      in if variance \<le> 0 then Inl InvalidCast else Inr (map (\<lambda>x. x * sqrt (24 / variance)) log174))"

subsection \<open>Belief propagation\<close>

definition fast_tanh :: "real \<Rightarrow> real" where
  "fast_tanh x =
     (if x < -4.97 then -1 else if 4.97 < x then 1
      else
        (let x2 = x * x; a = x * (945 + x2 * (105 + x2)); b = 945 + x2 * (420 + x2 * 15) in a / b))"

definition fast_atanh :: "real \<Rightarrow> real" where
  "fast_atanh x =
     (let x2 = x * x; a = x * (945 + x2 * (-735 + x2 * 64)); b = 945 + x2 * (-1050 + x2 * 225) in a / b)"

definition ldpc_check :: "nat list \<Rightarrow> nat" where
  "ldpc_check codeword =
     length (filter (\<lambda>m. odd (sum_list (map (\<lambda>i. codeword ! (kFTX_LDPC_Nm ! m ! i - 1)) [0..<kFTX_LDPC_Num_rows ! m]))) [0..<FTX_LDPC_M])"

definition hard_decision :: "real list \<Rightarrow> real list list \<Rightarrow> nat list" where
  "hard_decision codeword tov =
     map (\<lambda>n. if 0 < codeword ! n + tov ! n ! 0 + tov ! n ! 1 + tov ! n ! 2 then 1 else 0) [0..<FTX_LDPC_N]"

definition bits_to_checks :: "real list \<Rightarrow> real list list \<Rightarrow> real list list" where
  "bits_to_checks codeword tov =
     map (\<lambda>m. map (\<lambda>n_idx.
        let n = kFTX_LDPC_Nm ! m ! n_idx - 1;
            Tnm = fold (\<lambda>m_idx t. if kFTX_LDPC_Mn ! n ! m_idx - 1 \<noteq> m then t + tov ! n ! m_idx else t) [0..<3] (codeword ! n)
        in fast_tanh (- Tnm / 2)) [0..<kFTX_LDPC_Num_rows ! m]) [0..<FTX_LDPC_M]"

definition checks_to_bits :: "real list list \<Rightarrow> real list list" where
  "checks_to_bits toc =
     map (\<lambda>n. map (\<lambda>m_idx.
        let m = kFTX_LDPC_Mn ! n ! m_idx - 1;
            Tmn = fold (\<lambda>n_idx t. if kFTX_LDPC_Nm ! m ! n_idx - 1 \<noteq> n then t * toc ! m ! n_idx else t) [0..<kFTX_LDPC_Num_rows ! m] 1
        in - 2 * fast_atanh Tmn) [0..<3]) [0..<FTX_LDPC_N]"

text \<open>The iterations that are left: the best number of errors and the bits of the last guess.\<close>

fun bp_loop :: "nat \<Rightarrow> real list \<Rightarrow> real list list \<Rightarrow> nat \<Rightarrow> nat list \<Rightarrow> nat \<times> nat list" where
  "bp_loop 0 codeword tov min_errors plain = (min_errors, plain)"
| "bp_loop (Suc k) codeword tov min_errors plain =
     (let plain = hard_decision codeword tov in
      if sum_list plain = 0 then (min_errors, plain)
      else
        (let errors = ldpc_check plain; min_errors = (if errors < min_errors then errors else min_errors) in
         if errors = 0 then (min_errors, plain)
         else bp_loop k codeword (checks_to_bits (bits_to_checks codeword tov)) min_errors plain))"

definition bp_decode :: "real list \<Rightarrow> nat \<Rightarrow> nat list \<Rightarrow> nat \<times> nat list" where
  "bp_decode codeword max_iters plain = bp_loop max_iters codeword (replicate FTX_LDPC_N [0, 0, 0]) FTX_LDPC_M plain"

subsection \<open>A candidate\<close>

definition pack_step :: "nat \<Rightarrow> u8 list \<times> u8 \<times> nat \<Rightarrow> u8 list \<times> u8 \<times> nat" where
  "pack_step b = (\<lambda>(packed, msk, byte_idx).
     (let packed = (if b \<noteq> 0 then packed[byte_idx := packed ! byte_idx OR msk] else packed); msk = drop_bit 1 msk
      in if msk = 0 then (packed, 0x80, byte_idx + 1) else (packed, msk, byte_idx)))"

definition pack_bits :: "nat list \<Rightarrow> nat \<Rightarrow> u8 list" where
  "pack_bits bits num_bits = fst (fold pack_step (take num_bits bits) (replicate ((num_bits + 7) div 8) 0, 0x80, 0))"

definition K_LDPC_ITERS :: nat where "K_LDPC_ITERS = 20"

text \<open>\<open>plain\<close> is what the array of bits holds before.\<close>

definition ftx_decode_candidate :: "nat list \<Rightarrow> ftx_waterfall \<Rightarrow> ftx_candidate \<Rightarrow> nat \<Rightarrow> ftx_message option result" where
  "ftx_decode_candidate plain w c max_iterations =
     rbind (ft8_extract_likelihood w c) (\<lambda>log174.
     rbind (ftx_normalize_logl log174) (\<lambda>log174.
     let (errors, plain) = bp_decode log174 max_iterations plain in
     if 0 < errors then Inr None
     else
       (let a91 = pack_bits plain FTX_LDPC_K; extracted = ftx_extract_crc a91;
            a91 = a91[9 := a91 ! 9 AND 0xF8, 10 := 0]; calculated = ftx_compute_crc a91 (96 - 14)
        in if extracted \<noteq> calculated then Inr None
           else Inr (Some \<lparr>payload = take 10 a91, msg_hash = calculated\<rparr>))))"

end
