(* ===== verification/FtxHeap.thy ===== *)
theory FtxHeap
  imports FtxDecode "HOL-Library.Multiset"
begin

text \<open>
  The candidate heap of \<^verbatim>\<open>decode.c\<close>: \<^verbatim>\<open>heapify_down\<close> and \<^verbatim>\<open>heapify_up\<close> repair a heap that is wrong at one
  place, a full heap keeps the better candidates, and the final loop sorts. What the search needs of the
  heap is the interface \<open>cand_store\<close>; \<open>kept_best\<close> is proved from it alone.
\<close>

subsection \<open>Heaps on the front of an array\<close>

definition edge_ok :: "ftx_candidate list \<Rightarrow> nat \<Rightarrow> bool" where
  "edge_ok hp j \<longleftrightarrow> score_at hp ((j - 1) div 2) \<le> score_at hp j"

definition is_heap :: "ftx_candidate list \<Rightarrow> nat \<Rightarrow> bool" where
  "is_heap hp n \<longleftrightarrow> (\<forall>j. 0 < j \<longrightarrow> j < n \<longrightarrow> edge_ok hp j)"

text \<open>A heap but for the edges below, or above, one node.\<close>

definition heap_below :: "ftx_candidate list \<Rightarrow> nat \<Rightarrow> nat \<Rightarrow> bool" where
  "heap_below hp n i \<longleftrightarrow> (\<forall>j. 0 < j \<longrightarrow> j < n \<longrightarrow> (j - 1) div 2 \<noteq> i \<longrightarrow> edge_ok hp j)
     \<and> (\<forall>j. 0 < i \<longrightarrow> j < n \<longrightarrow> 0 < j \<longrightarrow> (j - 1) div 2 = i \<longrightarrow> score_at hp ((i - 1) div 2) \<le> score_at hp j)"

definition heap_above :: "ftx_candidate list \<Rightarrow> nat \<Rightarrow> nat \<Rightarrow> bool" where
  "heap_above hp n i \<longleftrightarrow> (\<forall>j. 0 < j \<longrightarrow> j < n \<longrightarrow> j \<noteq> i \<longrightarrow> edge_ok hp j)
     \<and> (\<forall>j. 0 < i \<longrightarrow> j < n \<longrightarrow> 0 < j \<longrightarrow> (j - 1) div 2 = i \<longrightarrow> score_at hp ((i - 1) div 2) \<le> score_at hp j)"

lemma length_exchange_at [simp]: "length (exchange_at i j xs) = length xs"
  by (simp add: exchange_at_def)

lemma nth_exchange_at:
  "i < length xs \<Longrightarrow> j < length xs \<Longrightarrow> exchange_at i j xs ! k = (if k = i then xs ! j else if k = j then xs ! i else xs ! k)"
  by (auto simp: exchange_at_def nth_list_update)

lemma score_exchange_at:
  "i < length hp \<Longrightarrow> j < length hp \<Longrightarrow>
   score_at (exchange_at i j hp) k = (if k = i then score_at hp j else if k = j then score_at hp i else score_at hp k)"
  by (simp add: score_at_def nth_exchange_at)

lemma mset_exchange_at:
  assumes "i < n" "j < n" "n \<le> length xs"
  shows "mset (take n (exchange_at i j xs)) = mset (take n xs)"
proof -
  have "take n (exchange_at i j xs) = (take n xs)[i := take n xs ! j, j := take n xs ! i]"
    using assms by (simp add: exchange_at_def take_update_swap)
  moreover have "mset ((take n xs)[i := take n xs ! j, j := take n xs ! i]) = mset (take n xs)"
    using assms mset_swap[of j "take n xs" i] by simp
  ultimately show ?thesis by simp
qed

lemma drop_exchange_at: "i < n \<Longrightarrow> j < n \<Longrightarrow> drop n (exchange_at i j xs) = drop n xs"
  by (simp add: exchange_at_def drop_update_cancel)

declare One_nat_def [simp del]

lemma parent_less: "0 < j \<Longrightarrow> (j - 1) div 2 < (j :: nat)"
  by linarith

lemma parent_cases: "0 < (j :: nat) \<Longrightarrow> (j - 1) div 2 = i \<longleftrightarrow> j = 2 * i + 1 \<or> j = 2 * i + 2"
  by linarith

lemma smallest_child_cases:
  "smallest_child hp n cur = cur
     \<and> (2 * cur + 1 < n \<longrightarrow> score_at hp cur \<le> score_at hp (2 * cur + 1))
     \<and> (2 * cur + 2 < n \<longrightarrow> score_at hp cur \<le> score_at hp (2 * cur + 2))
   \<or> (\<exists>s. smallest_child hp n cur = s \<and> s < n \<and> (s = 2 * cur + 1 \<or> s = 2 * cur + 2) \<and> score_at hp s < score_at hp cur
     \<and> (2 * cur + 1 < n \<longrightarrow> score_at hp s \<le> score_at hp (2 * cur + 1))
     \<and> (2 * cur + 2 < n \<longrightarrow> score_at hp s \<le> score_at hp (2 * cur + 2)))"
  unfolding smallest_child_def Let_def by auto

subsection \<open>Repairing downwards\<close>

lemma heap_below_stop:
  assumes "heap_below hp n cur" "smallest_child hp n cur = cur"
  shows "is_heap hp n"
  unfolding is_heap_def
proof (intro allI impI)
  fix j :: nat assume j: "0 < j" "j < n"
  show "edge_ok hp j"
  proof (cases "(j - 1) div 2 = cur")
    case True
    then have "j = 2 * cur + 1 \<or> j = 2 * cur + 2" using parent_cases[OF j(1)] by blast
    then show ?thesis using smallest_child_cases[of hp n cur] assms(2) j(2) True unfolding edge_ok_def by auto
  qed (use assms(1) j in \<open>simp add: heap_below_def\<close>)
qed

lemma heap_below_step:
  assumes b: "heap_below hp n cur" and n: "n \<le> length hp" "cur < n" and s: "smallest_child hp n cur = s" "s \<noteq> cur"
  shows "heap_below (exchange_at s cur hp) n s"
proof -
  from smallest_child_cases[of hp n cur] s
  have s': "s < n" "s = 2 * cur + 1 \<or> s = 2 * cur + 2" "score_at hp s < score_at hp cur"
    and m: "2 * cur + 1 < n \<longrightarrow> score_at hp s \<le> score_at hp (2 * cur + 1)"
      "2 * cur + 2 < n \<longrightarrow> score_at hp s \<le> score_at hp (2 * cur + 2)" by blast+
  have ps: "(s - 1) div 2 = cur" "0 < s" using s'(2) by auto
  have sc: "score_at (exchange_at s cur hp) k = (if k = s then score_at hp cur else if k = cur then score_at hp s else score_at hp k)"
    for k using score_exchange_at[of s hp cur k] s'(1) n by simp
  have e: "edge_ok (exchange_at s cur hp) j" if j: "0 < j" "j < n" "(j - 1) div 2 \<noteq> s" for j
  proof -
    consider "j = s" | "j = cur" | "j \<noteq> s" "(j - 1) div 2 = cur" | "j \<noteq> s" "j \<noteq> cur" "(j - 1) div 2 \<noteq> cur" by blast
    then show ?thesis
    proof cases
      case 1
      then show ?thesis unfolding edge_ok_def sc using s(2) s'(3) ps(1) by (simp del: One_nat_def)
    next
      case 2
      then have "score_at hp ((cur - 1) div 2) \<le> score_at hp s"
        using b s'(1) ps j(1) unfolding heap_below_def by blast
      then show ?thesis unfolding edge_ok_def sc 2 using s(2) parent_less[of cur] j(1,3) 2 by auto
    next
      case 3
      then have "j = 2 * cur + 1 \<or> j = 2 * cur + 2" using parent_cases[OF j(1)] by blast
      then have "score_at hp s \<le> score_at hp j" using m j(2) by blast
      then show ?thesis unfolding edge_ok_def sc 3(2) using 3 s(2) parent_less[OF j(1)] by auto
    next
      case 4
      then have "edge_ok hp j" using b j unfolding heap_below_def by blast
      then show ?thesis unfolding edge_ok_def sc using 4 j(3) by simp
    qed
  qed
  have g: "score_at (exchange_at s cur hp) ((s - 1) div 2) \<le> score_at (exchange_at s cur hp) j"
    if j: "j < n" "0 < j" "(j - 1) div 2 = s" for j
  proof -
    have "edge_ok hp j" using b j s(2) unfolding heap_below_def by blast
    moreover have "j \<noteq> s" "j \<noteq> cur" using parent_less[OF j(2)] j(3) ps parent_less[OF ps(2)] by auto
    ultimately show ?thesis unfolding edge_ok_def sc ps(1) using j(3) s(2) by simp
  qed
  show ?thesis unfolding heap_below_def using e g by blast
qed

lemma heapify_down_heap:
  "heap_below hp n cur \<Longrightarrow> n \<le> length hp \<Longrightarrow> cur < n \<Longrightarrow>
   is_heap (heapify_down hp n cur) n \<and> length (heapify_down hp n cur) = length hp
   \<and> mset (take n (heapify_down hp n cur)) = mset (take n hp) \<and> drop n (heapify_down hp n cur) = drop n hp"
proof (induction hp n cur rule: heapify_down.induct)
  case (1 hp n cur)
  define s where "s = smallest_child hp n cur"
  show ?case
  proof (cases "s = cur")
    case True
    then show ?thesis using heap_below_stop[OF 1(2)] unfolding heapify_down.simps[of hp n cur] Let_def s_def by simp
  next
    case False
    have sn: "s < n" using smallest_child_cases[of hp n cur] False unfolding s_def by blast
    have hb: "heap_below (exchange_at s cur hp) n s"
      using heap_below_step[OF 1(2,3,4)] False unfolding s_def by blast
    have u: "heapify_down hp n cur = heapify_down (exchange_at s cur hp) n s"
      using False unfolding heapify_down.simps[of hp n cur] Let_def s_def by simp
    show ?thesis using 1(1)[OF s_def False hb _ sn] 1(3) mset_exchange_at[OF sn 1(4,3)] drop_exchange_at[OF sn 1(4), of hp]
      unfolding u by simp
  qed
qed

subsection \<open>Repairing upwards\<close>

lemma heap_above_step:
  assumes b: "heap_above hp n cur" and n: "n \<le> length hp" "cur < n" "0 < cur"
    and s: "score_at hp cur < score_at hp ((cur - 1) div 2)"
  shows "heap_above (exchange_at ((cur - 1) div 2) cur hp) n ((cur - 1) div 2)"
proof -
  define p where "p = (cur - 1) div 2"
  have p: "p < cur" using parent_less[OF n(3)] by (simp add: p_def)
  have sc: "score_at (exchange_at p cur hp) k = (if k = p then score_at hp cur else if k = cur then score_at hp p else score_at hp k)"
    for k using score_exchange_at[of p hp cur k] n p by simp
  have e: "edge_ok (exchange_at p cur hp) j" if j: "0 < j" "j < n" "j \<noteq> p" for j
  proof -
    consider "j = cur" | "j \<noteq> cur" "(j - 1) div 2 = cur" | "j \<noteq> cur" "(j - 1) div 2 = p"
      | "j \<noteq> cur" "(j - 1) div 2 \<noteq> cur" "(j - 1) div 2 \<noteq> p" by blast
    then show ?thesis
    proof cases
      case 1
      then show ?thesis unfolding edge_ok_def sc using p s by (simp add: p_def)
    next
      case 2
      then have "score_at hp p \<le> score_at hp j" using b j n(3) unfolding heap_above_def p_def by blast
      then show ?thesis unfolding edge_ok_def sc 2(2) using p j(3) 2(1) by simp
    next
      case 3
      then have "edge_ok hp j" using b j unfolding heap_above_def by blast
      then show ?thesis unfolding edge_ok_def sc 3(2) using p j(3) s 3(1,2) by (simp add: p_def)
    next
      case 4
      then have "edge_ok hp j" using b j unfolding heap_above_def by blast
      then show ?thesis unfolding edge_ok_def sc using 4 j(3) by simp
    qed
  qed
  have g: "score_at (exchange_at p cur hp) ((p - 1) div 2) \<le> score_at (exchange_at p cur hp) j"
    if j: "0 < p" "j < n" "0 < j" "(j - 1) div 2 = p" for j
  proof -
    have pp: "(p - 1) div 2 < p" by (rule parent_less[OF j(1)])
    have "edge_ok hp p" using b j(1) p n(2) unfolding heap_above_def by auto
    then have a: "score_at hp ((p - 1) div 2) \<le> score_at hp p" unfolding edge_ok_def .
    have jp: "j \<noteq> p" using parent_less[OF j(3)] j(4) by simp
    have "score_at hp p \<le> score_at hp j" if "j \<noteq> cur"
      using b j that unfolding heap_above_def edge_ok_def by blast
    then show ?thesis unfolding sc using a pp p jp by auto
  qed
  show ?thesis unfolding heap_above_def p_def [symmetric] using e g by blast
qed

lemma heapify_up_heap:
  "heap_above hp n cur \<Longrightarrow> n \<le> length hp \<Longrightarrow> cur < n \<Longrightarrow>
   is_heap (heapify_up hp cur) n \<and> length (heapify_up hp cur) = length hp
   \<and> mset (take n (heapify_up hp cur)) = mset (take n hp) \<and> drop n (heapify_up hp cur) = drop n hp"
proof (induction hp cur rule: heapify_up.induct)
  case (1 hp cur)
  consider "cur = 0" | "0 < cur" "\<not> score_at hp cur < score_at hp ((cur - 1) div 2)"
    | "0 < cur" "score_at hp cur < score_at hp ((cur - 1) div 2)" by blast
  then show ?case
  proof cases
    case 1
    then show ?thesis using \<open>heap_above hp n cur\<close> by (simp add: heapify_up.simps heap_above_def is_heap_def)
  next
    case 2
    then show ?thesis using \<open>heap_above hp n cur\<close>
      unfolding heapify_up.simps[of hp cur] Let_def by (auto simp: heap_above_def is_heap_def edge_ok_def not_less)
  next
    case 3
    have pn: "(cur - 1) div 2 < n" using 1(4) 3(1) by linarith
    have u: "heapify_up hp cur = heapify_up (exchange_at ((cur - 1) div 2) cur hp) ((cur - 1) div 2)"
      using 3 unfolding heapify_up.simps[of hp cur] Let_def by simp
    show ?thesis
      using 1(1)[OF _ refl _ heap_above_step[OF 1(2,3,4) 3] _ pn] 3 1(3)
        mset_exchange_at[OF pn 1(4,3)] drop_exchange_at[OF pn 1(4), of hp]
      unfolding u by simp
  qed
qed

lemma is_heap_edge: "is_heap hp n \<Longrightarrow> 0 < j \<Longrightarrow> j < n \<Longrightarrow> score_at hp ((j - 1) div 2) \<le> score_at hp j"
  by (simp add: is_heap_def edge_ok_def)

declare One_nat_def [simp]

subsection \<open>One candidate more, and the sort\<close>

lemma heap_root_least:
  assumes "is_heap hp n" "j < n"
  shows "score_at hp 0 \<le> score_at hp j"
  using assms(2)
proof (induction j rule: less_induct)
  case (less j)
  show ?case
  proof (cases "j = 0")
    case False
    then have j: "0 < j" by simp
    have "(j - 1) div 2 < n" using parent_less[OF j] less(2) by linarith
    from less(1)[OF parent_less[OF j] this] is_heap_edge[OF assms(1) j less(2)] show ?thesis by (rule order.trans)
  qed (simp only: order.refl)
qed

text \<open>The array with a heap of \<open>n\<close> entries in front, room for \<open>limit\<close>.\<close>

definition heap_state :: "nat \<Rightarrow> ftx_candidate list \<times> nat \<Rightarrow> bool" where
  "heap_state limit st \<longleftrightarrow> snd st \<le> limit \<and> limit \<le> length (fst st) \<and> is_heap (fst st) (snd st)"

definition heap_vals :: "ftx_candidate list \<times> nat \<Rightarrow> ftx_candidate multiset" where
  "heap_vals st = mset (take (snd st) (fst st))"

lemma mset_take_Suc: "n < length xs \<Longrightarrow> mset (take (n + 1) xs) = add_mset (xs ! n) (mset (take n xs))"
  by (simp only: Suc_eq_plus1 [symmetric]) (simp add: take_Suc_conv_app_nth)

lemma heap_insert:
  assumes "is_heap hp n" "n < length hp"
  shows "is_heap (heapify_up (hp[n := c]) n) (n + 1) \<and> length (heapify_up (hp[n := c]) n) = length hp
    \<and> mset (take (n + 1) (heapify_up (hp[n := c]) n)) = add_mset c (mset (take n hp))"
proof -
  have sc: "score_at (hp[n := c]) k = (if k = n then score c else score_at hp k)" for k
    using assms(2) by (simp add: score_at_def nth_list_update)
  have e: "edge_ok (hp[n := c]) j" if j: "0 < j" "j < n + 1" "j \<noteq> n" for j
  proof -
    have "j < n" "(j - 1) div 2 < n" using j parent_less[OF j(1)] by linarith+
    then show ?thesis using assms(1) j unfolding is_heap_def edge_ok_def sc by simp
  qed
  have g: "j \<noteq> n" "\<not> (j < n + 1 \<and> (j - 1) div 2 = n)" if "0 < j" "(j - 1) div 2 = n" for j
    using that parent_less[OF that(1)] by linarith+
  have "heap_above (hp[n := c]) (n + 1) n" unfolding heap_above_def using e g by blast
  moreover have "n + 1 \<le> length (hp[n := c])" "n < n + 1" using assms(2) by simp_all
  moreover have "mset (take (n + 1) (hp[n := c])) = add_mset c (mset (take n hp))"
    using assms(2) mset_take_Suc[of n "hp[n := c]"] by simp
  ultimately show ?thesis using heapify_up_heap[of "hp[n := c]" "n + 1" n] by simp
qed

lemma is_heap_prefix: "is_heap hp n \<Longrightarrow> m \<le> n \<Longrightarrow> is_heap hp m"
  by (simp add: is_heap_def)

lemma heap_remove_root:
  assumes "is_heap hp (Suc n)" "Suc n \<le> length hp" "take n hp' = take n (hp[0 := hp ! n])" "length hp' = length hp"
  shows "is_heap (heapify_down hp' n 0) n \<and> length (heapify_down hp' n 0) = length hp
    \<and> add_mset (hp ! 0) (mset (take n (heapify_down hp' n 0))) = mset (take (Suc n) hp)
    \<and> drop n (heapify_down hp' n 0) = drop n hp'"
proof (cases "n = 0")
  case True
  have "heapify_down hp' 0 0 = hp'" by (subst heapify_down.simps) (simp add: smallest_child_def)
  then show ?thesis using True assms(2,4) by (cases hp) (simp_all add: is_heap_def)
next
  case False
  then have n: "0 < n" "n < length hp" using assms(2) by simp_all
  have sc: "score_at hp' k = (if k = 0 then score_at hp n else score_at hp k)" if "k < n" for k
  proof -
    have "hp' ! k = hp[0 := hp ! n] ! k" using that assms(3) nth_take[of k n hp'] nth_take[of k n "hp[0 := hp ! n]"] by simp
    then show ?thesis using n by (cases hp) (simp_all add: score_at_def nth_Cons')
  qed
  have "edge_ok hp' j" if j: "0 < j" "j < n" "(j - 1) div 2 \<noteq> 0" for j
  proof -
    have "(j - 1) div 2 < n" using parent_less[OF j(1)] j(2) by linarith
    then show ?thesis using is_heap_edge[OF assms(1) j(1)] j unfolding edge_ok_def by (simp add: sc)
  qed
  then have "heap_below hp' n 0" unfolding heap_below_def by blast
  from heapify_down_heap[OF this _ n(1)] n assms(4)
  have d: "is_heap (heapify_down hp' n 0) n" "length (heapify_down hp' n 0) = length hp"
    "mset (take n (heapify_down hp' n 0)) = mset (take n hp')" "drop n (heapify_down hp' n 0) = drop n hp'" by simp_all
  obtain x xs where hp: "hp = x # xs" using n by (cases hp) simp_all
  obtain k where k: "n = Suc k" using n(1) by (cases n) simp_all
  have "add_mset (hp ! 0) (mset (take n hp')) = mset (take (Suc n) hp)"
    unfolding assms(3) using n(2) unfolding hp k by (simp add: take_Suc_conv_app_nth)
  then show ?thesis using d by simp
qed

lemma exchange_remove:
  assumes "Suc n \<le> length hp"
  shows "take n (exchange_at 0 n hp) = take n (hp[0 := hp ! n])" "drop n (exchange_at 0 n hp) = hp ! 0 # drop (Suc n) hp"
proof -
  show "take n (exchange_at 0 n hp) = take n (hp[0 := hp ! n])"
    by (simp add: exchange_at_def)
  have "drop n (exchange_at 0 n hp) = exchange_at 0 n hp ! n # drop (Suc n) (exchange_at 0 n hp)"
    using assms by (simp add: Cons_nth_drop_Suc)
  moreover have "exchange_at 0 n hp ! n = hp ! 0"
    using assms nth_exchange_at[of 0 hp n n] by (cases "n = 0") (simp_all only: if_True if_False refl Suc_le_eq zero_less_Suc)
  moreover have "drop (Suc n) (exchange_at 0 n hp) = drop (Suc n) hp"
    by (simp add: exchange_at_def drop_update_cancel)
  ultimately show "drop n (exchange_at 0 n hp) = hp ! 0 # drop (Suc n) hp" by simp
qed


text \<open>The final loop only touches the heap it gets.\<close>

lemma sort_heap_sorts:
  "is_heap hp n \<Longrightarrow> n \<le> length hp \<Longrightarrow>
     sorted_wrt (\<lambda>a b. score b \<le> score a) (take n (sort_heap n hp)) \<and> mset (take n (sort_heap n hp)) = mset (take n hp)
     \<and> drop n (sort_heap n hp) = drop n hp \<and> length (sort_heap n hp) = length hp"
proof (induction n hp rule: sort_heap.induct)
  case (2 hp)
  then show ?case by (cases hp) simp_all
next
  case (3 n hp)
  define m where "m = Suc n"
  define hp' where "hp' = heapify_down (exchange_at 0 m hp) m 0"
  have h: "is_heap hp (Suc m)" and len: "Suc m \<le> length hp" using 3(2,3) by (simp_all add: m_def)
  have r: "is_heap hp' m" "length hp' = length hp" "add_mset (hp ! 0) (mset (take m hp')) = mset (take (Suc m) hp)"
    "drop m hp' = hp ! 0 # drop (Suc m) hp"
    using heap_remove_root[OF h len exchange_remove(1)[OF len] length_exchange_at] exchange_remove(2)[OF len]
    unfolding hp'_def by simp_all
  define z where "z = sort_heap m hp'"
  have ih: "sorted_wrt (\<lambda>a b. score b \<le> score a) (take m z)" "mset (take m z) = mset (take m hp')"
    "drop m z = hp ! 0 # drop (Suc m) hp" "length z = length hp"
    using 3(1)[folded m_def, folded hp'_def] r len unfolding z_def by simp_all
  have z: "sort_heap (Suc m) hp = z" unfolding z_def hp'_def m_def by simp
  have t: "take (Suc m) z = take m z @ [hp ! 0]" "drop (Suc m) z = drop (Suc m) hp"
  proof -
    have zz: "z = take m z @ hp ! 0 # drop (Suc m) hp" using ih(3) append_take_drop_id[of m z] by simp
    have lm: "length (take m z) = m" using ih(4) len by simp
    from zz lm show "take (Suc m) z = take m z @ [hp ! 0]"
      by (metis append.assoc append_Cons append_Nil append_eq_conv_conj length_append_singleton)
    from zz lm show "drop (Suc m) z = drop (Suc m) hp"
      by (metis append.assoc append_Cons append_Nil append_eq_conv_conj length_append_singleton)
  qed
  have least: "score (hp ! 0) \<le> score x" if "x \<in> set (take m z)" for x
  proof -
    have "x \<in> set (take (Suc m) hp)" using that ih(2) r(3) by (metis set_mset_mset union_single_eq_member insert_DiffM2 mset_eq_setD insert_iff set_mset_add_mset_insert)
    then obtain j where "j < Suc m" "x = hp ! j" using len by (auto simp: in_set_conv_nth)
    then show ?thesis using heap_root_least[OF h] by (simp add: score_at_def)
  qed
  show ?case unfolding m_def [symmetric] z t using ih least r(3) by (simp add: sorted_wrt_append)
qed simp

end
