(* ===== verification/FtxSearch.thy ===== *)
theory FtxSearch
  imports FtxHeap RxLevels
begin

text \<open>
  \<^verbatim>\<open>ftx_find_candidates\<close>: no cell outside the waterfall is read, the score is an average of byte
  differences and fits its 16 bits, and the array ends up with the best candidates, in order.
\<close>

subsection \<open>A bounded store of candidates\<close>

text \<open>\<open>K\<close> is a best choice of at most \<open>limit\<close> among \<open>M\<close>.\<close>

definition best_of :: "nat \<Rightarrow> ftx_candidate multiset \<Rightarrow> ftx_candidate multiset \<Rightarrow> bool" where
  "best_of limit M K \<longleftrightarrow> K \<subseteq># M \<and> size K = min limit (size M) \<and> (\<forall>x \<in># M - K. \<forall>y \<in># K. score x \<le> score y)"

locale cand_store =
  fixes ok :: "'s \<Rightarrow> bool" and vals :: "'s \<Rightarrow> ftx_candidate multiset" and offer :: "ftx_candidate \<Rightarrow> 's \<Rightarrow> 's" and limit :: nat
  assumes ok_offer: "ok s \<Longrightarrow> ok (offer c s)"
    and bounded: "ok s \<Longrightarrow> size (vals s) \<le> limit"
    and room: "ok s \<Longrightarrow> size (vals s) < limit \<Longrightarrow> vals (offer c s) = add_mset c (vals s)"
    and full: "ok s \<Longrightarrow> size (vals s) = limit \<Longrightarrow>
      vals (offer c s) = vals s \<and> (\<forall>x \<in># vals s. score c \<le> score x)
      \<or> (\<exists>x \<in># vals s. (\<forall>y \<in># vals s. score x \<le> score y) \<and> score x < score c \<and> vals (offer c s) = add_mset c (vals s - {#x#}))"
begin

lemma offer_best:
  assumes "ok s" "best_of limit M (vals s)"
  shows "best_of limit (add_mset c M) (vals (offer c s))"
proof (cases "size (vals s) < limit")
  case True
  then have "size (vals s) = size M" using assms(2) by (simp add: best_of_def)
  then have "vals s = M" using assms(2) by (metis best_of_def mset_subset_size subset_mset.le_less less_irrefl)
  then show ?thesis using room[OF assms(1) True, of c] True \<open>size (vals s) = size M\<close> by (simp add: best_of_def)
next
  case False
  then have sz: "size (vals s) = limit" using bounded[OF assms(1)] by simp
  have sub: "vals s \<subseteq># M" and best: "\<forall>x \<in># M - vals s. \<forall>y \<in># vals s. score x \<le> score y" and m: "limit \<le> size M"
    using assms(2) sz unfolding best_of_def by (simp, simp, metis min.cobounded2)
  from full[OF assms(1) sz, of c] show ?thesis
  proof (elim disjE conjE bexE)
    assume v: "vals (offer c s) = vals s" and le: "\<forall>x \<in># vals s. score c \<le> score x"
    have "add_mset c M - vals s = add_mset c (M - vals s)" using sub by (metis add_mset_add_single mset_subset_eq_multiset_union_diff_commute subset_mset.add_diff_assoc2)
    then show ?thesis using v le best sub sz m by (auto simp: best_of_def subset_mset.le_iff_add)
  next
    fix x assume x: "x \<in># vals s" and least: "\<forall>y \<in># vals s. score x \<le> score y" and c: "score x < score c"
      and v: "vals (offer c s) = add_mset c (vals s - {#x#})"
    obtain V where V: "vals s = add_mset x V" using x by (metis insert_DiffM)
    obtain N where N: "M = add_mset x V + N" using sub unfolding V by (metis subset_mset.le_iff_add)
    have "add_mset c M - vals (offer c s) = add_mset x N" unfolding v V N by simp
    moreover have "M - vals s = N" unfolding V N by simp
    ultimately show ?thesis unfolding best_of_def using v V N least best c sz by auto
  qed
qed

lemma kept_best:
  assumes "ok s" "vals s = {#}"
  shows "ok (fold offer cs s) \<and> best_of limit (mset cs) (vals (fold offer cs s))"
proof (induction cs rule: rev_induct)
  case Nil
  then show ?case using assms by (simp add: best_of_def)
next
  case (snoc c cs)
  then show ?case using offer_best[of "fold offer cs s" "mset cs" c] ok_offer by simp
qed

end

subsection \<open>The heap is one\<close>

lemma heap_offer_room:
  assumes "heap_state limit (hp, n)" "n < limit"
  shows "heap_state limit (consider_cand limit c (hp, n)) \<and> heap_vals (consider_cand limit c (hp, n)) = add_mset c (heap_vals (hp, n))"
  using heap_insert[of hp n c] assms by (simp add: heap_state_def heap_vals_def consider_cand_def)

lemma heap_offer_full:
  assumes "heap_state limit (hp, limit)"
  shows "heap_state limit (consider_cand limit c (hp, limit)) \<and>
    (heap_vals (consider_cand limit c (hp, limit)) = heap_vals (hp, limit) \<and> (\<forall>x \<in># heap_vals (hp, limit). score c \<le> score x)
     \<or> (\<exists>x \<in># heap_vals (hp, limit). (\<forall>y \<in># heap_vals (hp, limit). score x \<le> score y) \<and> score x < score c
          \<and> heap_vals (consider_cand limit c (hp, limit)) = add_mset c (heap_vals (hp, limit) - {#x#})))"
proof (cases limit)
  case 0
  have "heapify_down hp' 0 0 = hp'" for hp' by (subst heapify_down.simps) (simp add: smallest_child_def)
  then show ?thesis using assms 0 by (simp add: heap_state_def heap_vals_def consider_cand_def is_heap_def)
next
  case (Suc m)
  have h: "is_heap hp (Suc m)" "Suc m \<le> length hp" using assms Suc by (simp_all add: heap_state_def)
  have root: "score (hp ! 0) \<le> score x" if x: "x \<in> set (take (Suc m) hp)" for x
  proof -
    from x h(2) obtain j where "j < Suc m" "x = hp ! j" by (auto simp: in_set_conv_nth)
    then show ?thesis using heap_root_least[OF h(1)] by (simp add: score_at_def)
  qed
  show ?thesis
  proof (cases "score_at hp 0 < score c")
    case False
    then have "\<forall>x \<in># heap_vals (hp, limit). score c \<le> score x"
      using root Suc by (fastforce simp: heap_vals_def score_at_def)
    then show ?thesis using False assms Suc by (simp add: consider_cand_def)
  next
    case True
    define hp' where "hp' = heapify_down (hp[0 := hp ! m]) m 0"
    have r: "is_heap hp' m" "length hp' = length hp" "add_mset (hp ! 0) (mset (take m hp')) = mset (take (Suc m) hp)"
      using heap_remove_root[OF h refl] by (simp_all add: hp'_def)
    have c: "consider_cand limit c (hp, limit) = (heapify_up (hp'[m := c]) m, m + 1)"
      using True Suc by (simp add: consider_cand_def hp'_def)
    have i: "is_heap (heapify_up (hp'[m := c]) m) (m + 1)" "length (heapify_up (hp'[m := c]) m) = length hp"
      "mset (take (m + 1) (heapify_up (hp'[m := c]) m)) = add_mset c (mset (take m hp'))"
      using heap_insert[OF r(1), of c] r(2) h(2) by simp_all
    have v: "heap_vals (hp, limit) = add_mset (hp ! 0) (mset (take m hp'))" using r(3) Suc by (simp add: heap_vals_def)
    have "heap_vals (consider_cand limit c (hp, limit)) = add_mset c (heap_vals (hp, limit) - {#hp ! 0#})"
      using i(3) unfolding c v by (simp add: heap_vals_def)
    moreover have "hp ! 0 \<in># heap_vals (hp, limit)" by (simp add: v)
    moreover have "\<forall>y \<in># heap_vals (hp, limit). score (hp ! 0) \<le> score y" using root Suc by (auto simp: heap_vals_def)
    moreover have "heap_state limit (consider_cand limit c (hp, limit))" using i h(2) Suc unfolding c by (simp add: heap_state_def)
    ultimately show ?thesis using True by (auto simp: score_at_def)
  qed
qed

lemma size_heap_vals: "heap_state limit (hp, n) \<Longrightarrow> size (heap_vals (hp, n)) = n"
  by (simp add: heap_state_def heap_vals_def)

interpretation heap_store: cand_store "heap_state limit" heap_vals "consider_cand limit" limit for limit
proof
  fix s c assume ok: "heap_state limit s"
  obtain hp n where s: "s = (hp, n)" by fastforce
  have n: "n \<le> limit" using ok by (simp add: heap_state_def s)
  show "heap_state limit (consider_cand limit c s)"
    using heap_offer_room[of limit hp n c] heap_offer_full[of limit hp c] ok n unfolding s by (cases "n = limit") auto
  show "size (heap_vals s) \<le> limit" using ok n by (simp add: s size_heap_vals)
  show "heap_vals (consider_cand limit c s) = add_mset c (heap_vals s)" if "size (heap_vals s) < limit"
    using heap_offer_room[of limit hp n c] ok that by (simp add: s size_heap_vals)
  show "heap_vals (consider_cand limit c s) = heap_vals s \<and> (\<forall>x \<in># heap_vals s. score c \<le> score x)
    \<or> (\<exists>x \<in># heap_vals s. (\<forall>y \<in># heap_vals s. score x \<le> score y) \<and> score x < score c
         \<and> heap_vals (consider_cand limit c s) = add_mset c (heap_vals s - {#x#}))" if "size (heap_vals s) = limit"
    using heap_offer_full[of limit hp c] ok that by (simp add: s size_heap_vals)
qed

subsection \<open>The cells of a candidate\<close>

text \<open>A grid position whose eight tones are inside a row; a waterfall with all its cells.\<close>

definition position_ok :: "ftx_waterfall \<Rightarrow> ftx_candidate \<Rightarrow> bool" where
  "position_ok w c \<longleftrightarrow> time_sub c < time_osr w \<and> freq_sub c < freq_osr w \<and> 0 \<le> freq_offset c \<and> freq_offset c + 7 < int (num_bins w)"

definition waterfall_ok :: "ftx_waterfall \<Rightarrow> bool" where
  "waterfall_ok w \<longleftrightarrow> block_stride w = time_osr w * freq_osr w * num_bins w \<and> length (mag w) = num_blocks w * block_stride w"

lemma rx_shape_ok: "rx_shape w \<Longrightarrow> waterfall_ok w"
  by (simp add: rx_shape_def waterfall_ok_def wide_constants)

definition row_pos :: "ftx_waterfall \<Rightarrow> ftx_candidate \<Rightarrow> int" where
  "row_pos w c = (int (time_sub c) * int (freq_osr w) + int (freq_sub c)) * int (num_bins w) + freq_offset c"

lemma index_bound: "0 \<le> b \<Longrightarrow> b < n \<Longrightarrow> 0 \<le> r \<Longrightarrow> r < s \<Longrightarrow> 0 \<le> b * s + r \<and> b * s + r < n * (s :: int)"
  using mult_right_mono[of "b + 1" n s] by (simp add: distrib_right)

lemma row_pos_bounds:
  assumes "waterfall_ok w" "position_ok w c"
  shows "0 \<le> row_pos w c" "row_pos w c + 7 < int (block_stride w)"
proof -
  have a: "0 \<le> int (time_sub c) * int (freq_osr w) + int (freq_sub c)"
    "int (time_sub c) * int (freq_osr w) + int (freq_sub c) < int (time_osr w) * int (freq_osr w)"
    using index_bound[of "int (time_sub c)" "int (time_osr w)" "int (freq_sub c)" "int (freq_osr w)"] assms(2)
    by (simp_all add: position_ok_def)
  have "0 \<le> (int (time_sub c) * int (freq_osr w) + int (freq_sub c)) * int (num_bins w) + (freq_offset c + 7)
      \<and> (int (time_sub c) * int (freq_osr w) + int (freq_sub c)) * int (num_bins w) + (freq_offset c + 7)
        < int (time_osr w) * int (freq_osr w) * int (num_bins w)"
    using index_bound[OF a, of "freq_offset c + 7" "int (num_bins w)"] assms(2) by (simp add: position_ok_def)
  then show "row_pos w c + 7 < int (block_stride w)"
    using assms(1) by (simp add: row_pos_def waterfall_ok_def)
  show "0 \<le> row_pos w c" unfolding row_pos_def using a(1) assms(2) by (simp add: position_ok_def)
qed

lemma cand_cell:
  assumes "waterfall_ok w"
  shows "cand_mag w c + int (block * block_stride w) = (time_offset c + int block) * int (block_stride w) + row_pos w c"
  using assms by (simp add: cand_mag_def row_pos_def waterfall_ok_def algebra_simps)

lemma row_in_waterfall:
  assumes "waterfall_ok w" "position_ok w c" "0 \<le> b" "b < int (num_blocks w)" "0 \<le> t" "t < 8"
  shows "0 \<le> b * int (block_stride w) + row_pos w c + t" "b * int (block_stride w) + row_pos w c + t < int (length (mag w))"
  using index_bound[of b "int (num_blocks w)" "row_pos w c + t" "int (block_stride w)"] row_pos_bounds[OF assms(1,2)] assms
  by (simp_all add: waterfall_ok_def)

subsection \<open>The score\<close>

lemma costas_tone: "k < 7 \<Longrightarrow> kFT8_Costas_pattern ! k < 8"
proof -
  have "list_all (\<lambda>k. kFT8_Costas_pattern ! k < 8) [0..<7]" by code_simp
  then show "k < 7 \<Longrightarrow> kFT8_Costas_pattern ! k < 8" by (simp add: list_all_iff)
qed

text \<open>Sums of at most 255 a step.\<close>

definition score_sum :: "(int \<times> int) result \<Rightarrow> bool" where
  "score_sum r \<longleftrightarrow> (\<exists>tot num. r = Inr (tot, num) \<and> 0 \<le> num \<and> \<bar>tot\<bar> \<le> 255 * num)"

lemma sum_step:
  fixes a b t n :: int
  assumes "0 \<le> a" "a < 256" "0 \<le> b" "b < 256" "\<bar>t\<bar> \<le> 255 * n"
  shows "\<bar>t + (a - b)\<bar> \<le> 255 * (n + 1)"
proof -
  have "t \<le> 255 * n" "- t \<le> 255 * n" "255 * (n + 1) = 255 * n + 255" using assms(5) by simp_all
  then show ?thesis unfolding abs_le_iff using assms(1-4) by (intro conjI) linarith+
qed

lemma add_neighbours_sum:
  "\<forall>d \<in> set ds. 0 \<le> p + d \<and> p + d < int (length (mag w)) \<Longrightarrow> 0 \<le> p \<Longrightarrow> p < int (length (mag w))
   \<Longrightarrow> 0 \<le> num \<Longrightarrow> \<bar>tot\<bar> \<le> 255 * num \<Longrightarrow> score_sum (add_neighbours w p ds (tot, num))"
proof (induction ds arbitrary: tot num)
  case Nil
  then show ?case by (simp add: score_sum_def)
next
  case (Cons d ds)
  have u: "uint (mag w ! nat p) < 256" "uint (mag w ! nat (p + d)) < 256"
    using uint_bounded[of "mag w ! nat p"] uint_bounded[of "mag w ! nat (p + d)"] by simp_all
  have "\<bar>tot + (uint (mag w ! nat p) - uint (mag w ! nat (p + d)))\<bar> \<le> 255 * (num + 1)"
    by (rule sum_step[OF uint_ge_0 u(1) uint_ge_0 u(2) Cons.prems(5)])
  then show ?case using Cons by (simp add: mag_at_def)
qed

lemma score_group_sum:
  assumes "waterfall_ok w" "position_ok w c"
  shows "\<forall>k \<in> set ks. k < 7 \<Longrightarrow> 0 \<le> num \<Longrightarrow> \<bar>tot\<bar> \<le> 255 * num \<Longrightarrow> score_sum (score_group w c m ks (tot, num))"
proof (induction ks arbitrary: tot num)
  case Nil
  then show ?case by (simp add: score_sum_def)
next
  case (Cons k ks)
  define b where "b = time_offset c + int (FT8_SYNC_OFFSET * m + k)"
  define sm where "sm = kFT8_Costas_pattern ! k"
  consider "b < 0" | "int (num_blocks w) \<le> b" "0 \<le> b" | "0 \<le> b" "b < int (num_blocks w)" by linarith
  then show ?case
  proof cases
    case 1
    then show ?thesis using Cons by (simp add: Let_def b_def)
  next
    case 2
    then show ?thesis using Cons.prems by (simp add: Let_def b_def score_sum_def)
  next
    case 3
    note b = 3
    have s: "sm < 8" unfolding sm_def using costas_tone Cons.prems by simp
    define p where "p = b * int (block_stride w) + row_pos w c + int sm"
    have p: "cand_mag w c + int ((FT8_SYNC_OFFSET * m + k) * block_stride w) + int sm = p"
      unfolding p_def b_def cand_cell[OF assms(1)] ..
    have inn: "0 \<le> b' * int (block_stride w) + row_pos w c + t \<and> b' * int (block_stride w) + row_pos w c + t < int (length (mag w))"
      if "0 \<le> b'" "b' < int (num_blocks w)" "0 \<le> t" "t < 8" for b' t
      using row_in_waterfall[OF assms that] by blast
    have "0 \<le> p + d \<and> p + d < int (length (mag w))" if "d \<in> set (sync_neighbours w sm k b)" for d
    proof -
      from that consider "d = - 1" "0 < sm" | "d = 1" "sm < 7" | "d = - int (block_stride w)" "0 < b"
        | "d = int (block_stride w)" "b + 1 < int (num_blocks w)"
        unfolding sync_neighbours_def by (auto split: if_splits)
      then show ?thesis
      proof cases
        case 1 then show ?thesis using inn[of b "int sm - 1"] b s unfolding p_def by simp
      next
        case 2 then show ?thesis using inn[of b "int sm + 1"] b s unfolding p_def by simp
      next
        case 3 then show ?thesis using inn[of "b - 1" "int sm"] b s unfolding p_def by (simp add: algebra_simps)
      next
        case 4 then show ?thesis using inn[of "b + 1" "int sm"] b s unfolding p_def by (simp add: algebra_simps)
      qed
    qed
    moreover have "0 \<le> p" "p < int (length (mag w))" using inn[of b "int sm"] 3 s unfolding p_def by simp_all
    ultimately have "score_sum (add_neighbours w p (sync_neighbours w sm k b) (tot, num))"
      using add_neighbours_sum[of "sync_neighbours w sm k b" p w num tot] Cons.prems by blast
    then obtain tot' num' where a: "add_neighbours w p (sync_neighbours w sm k b) (tot, num) = Inr (tot', num')"
      "0 \<le> num'" "\<bar>tot'\<bar> \<le> 255 * num'" by (auto simp: score_sum_def)
    have "score_group w c m (k # ks) (tot, num) = score_group w c m ks (tot', num')"
      using 3 a(1) unfolding score_group.simps Let_def b_def [symmetric] sm_def [symmetric] p by simp
    then show ?thesis using Cons.IH[OF _ a(2,3)] Cons.prems by simp
  qed
qed

lemma c_div_bound:
  assumes "0 < num" "\<bar>tot\<bar> \<le> 255 * num"
  shows "\<bar>c_div tot num\<bar> \<le> 255"
proof -
  have "\<bar>tot\<bar> div num \<le> 255 * num div num" by (rule zdiv_mono1[OF assms(2,1)])
  then have "\<bar>tot\<bar> div num \<le> 255" "0 \<le> \<bar>tot\<bar> div num" using assms(1) by (simp_all add: pos_imp_zdiv_nonneg_iff)
  then show ?thesis using assms(1) unfolding c_div_def by (auto simp: abs_mult sgn_if)
qed

lemma sync_score_total:
  assumes "waterfall_ok w" "position_ok w c"
  shows "\<exists>s. ft8_sync_score w c = Inr s \<and> \<bar>s\<bar> \<le> 255"
proof -
  have g: "score_sum (foldl (\<lambda>acc m. rbind acc (score_group w c m [0..<7])) acc ms)" if "score_sum acc" for acc ms
    using that
  proof (induction ms arbitrary: acc)
    case (Cons m ms)
    then obtain tot num where "acc = Inr (tot, num)" "0 \<le> num" "\<bar>tot\<bar> \<le> 255 * num" by (auto simp: score_sum_def)
    then show ?case using Cons score_group_sum[OF assms, of "[0..<7]" num tot m] by simp
  qed simp
  have "score_sum (Inr (0, 0))" by (simp add: score_sum_def)
  from g[OF this, of "[0..<FT8_NUM_SYNC]"] obtain tot num
    where t: "foldl (\<lambda>acc m. rbind acc (score_group w c m [0..<7])) (Inr (0, 0)) [0..<FT8_NUM_SYNC] = Inr (tot, num)"
      "0 \<le> num" "\<bar>tot\<bar> \<le> 255 * num" unfolding score_sum_def by blast
  have "num = 0 \<Longrightarrow> \<bar>tot\<bar> \<le> 255" using t(3) by simp
  then show ?thesis using t(2,3) c_div_bound[of num tot] unfolding ft8_sync_score_def FT8_LENGTH_SYNC_def t(1) by auto
qed

subsection \<open>The search\<close>

text \<open>The candidate of a position with its score.\<close>

definition scored :: "ftx_waterfall \<Rightarrow> ftx_candidate \<Rightarrow> ftx_candidate" where
  "scored w c = (case ft8_sync_score w c of Inl e \<Rightarrow> c | Inr s \<Rightarrow> c\<lparr>score := s\<rparr>)"

definition above :: "ftx_waterfall \<Rightarrow> int \<Rightarrow> ftx_candidate list" where
  "above w min_score = filter (\<lambda>c. min_score \<le> score c) (map (scored w) (positions_of w))"

lemma positions_ok: "c \<in> set (positions_of w) \<Longrightarrow> position_ok w c"
  by (auto simp: positions_of_def position_ok_def)

lemma scored_position: "position_ok w (scored w c) = position_ok w c"
  by (simp add: scored_def position_ok_def split: sum.split)

lemma score_fits_i16:
  assumes "\<bar>s\<bar> \<le> 255"
  shows "sint (word_of_int s :: 16 word) = s"
  using assms by (simp add: sint_sbintrunc' signed_take_bit_int_eq_self)

lemma search_loop_fold:
  assumes "waterfall_ok w"
  shows "\<forall>c \<in> set cs. position_ok w c \<Longrightarrow>
    search_loop w limit min_score cs st
      = Inr (fold (consider_cand limit) (filter (\<lambda>c. min_score \<le> score c) (map (scored w) cs)) st)"
proof (induction cs arbitrary: st)
  case (Cons c cs)
  obtain s where s: "ft8_sync_score w c = Inr s" "\<bar>s\<bar> \<le> 255" using sync_score_total[OF assms] Cons.prems by auto
  then have "scored w c = c\<lparr>score := s\<rparr>" by (simp add: scored_def)
  then show ?case using Cons s score_fits_i16[OF s(2)] by (auto simp: not_le)
qed simp

lemma length_heapify_down [simp]: "length (heapify_down hp n cur) = length hp"
proof (induction hp n cur rule: heapify_down.induct)
  case (1 hp n cur)
  then show ?case by (cases "smallest_child hp n cur = cur") (simp_all add: heapify_down.simps[of hp n cur] Let_def)
qed

lemma length_heapify_up [simp]: "length (heapify_up hp cur) = length hp"
proof (induction hp cur rule: heapify_up.induct)
  case (1 hp cur)
  then show ?case
    by (cases "cur = 0 \<or> \<not> score_at hp cur < score_at hp ((cur - 1) div 2)") (auto simp: heapify_up.simps[of hp cur] Let_def)
qed

lemma length_fold_consider: "length (fst (fold (consider_cand limit) cs st)) = length (fst st)"
  by (induction cs arbitrary: st) (simp_all add: consider_cand_def Let_def split: prod.split)

text \<open>What the search leaves in the array.\<close>

lemma search_result:
  assumes "waterfall_ok w" "limit \<le> length hp"
  shows "\<exists>hp' n. ftx_find_candidates w limit hp min_score = Inr (hp', n) \<and> n \<le> length hp' \<and> length hp' = length hp
    \<and> sorted_wrt (\<lambda>a b. score b \<le> score a) (take n hp') \<and> best_of limit (mset (above w min_score)) (mset (take n hp'))"
proof -
  define st where "st = fold (consider_cand limit) (above w min_score) (hp, 0)"
  obtain h n where hn: "st = (h, n)" by fastforce
  have "search_loop w limit min_score (positions_of w) (hp, 0) = Inr st"
    unfolding st_def above_def using search_loop_fold[OF assms(1)] positions_ok by blast
  then have l: "search_loop w limit min_score (positions_of w) (hp, 0) = Inr (h, n)" unfolding hn .
  have "heap_state limit (hp, 0)" "heap_vals (hp, 0) = {#}" using assms(2) by (simp_all add: heap_state_def heap_vals_def is_heap_def)
  from heap_store.kept_best[OF this, of "above w min_score"]
  have k: "heap_state limit (h, n)" "best_of limit (mset (above w min_score)) (heap_vals (h, n))"
    unfolding st_def [symmetric] hn by simp_all
  have len: "length h = length hp"
    using length_fold_consider[of limit "above w min_score" "(hp, 0)"] unfolding st_def [symmetric] hn by simp
  have h: "is_heap h n" "n \<le> length h" using k(1) by (simp_all add: heap_state_def)
  show ?thesis
    using sort_heap_sorts[OF h] k(2) l h len unfolding ftx_find_candidates_def by (simp add: heap_vals_def)
qed

lemma best_of_mem: "best_of limit M K \<Longrightarrow> x \<in># K \<Longrightarrow> x \<in># M"
  unfolding best_of_def by (metis mset_subset_eqD)

lemma best_of_size: "best_of limit M K \<Longrightarrow> size K = min limit (size M)"
  unfolding best_of_def by blast

lemma sync_score_position: "ft8_sync_score w (c\<lparr>score := s\<rparr>) = ft8_sync_score w c"
proof -
  have "score_group w (c\<lparr>score := s\<rparr>) m ks = score_group w c m ks" for m ks
    by (induction ks; rule ext) (simp_all add: cand_mag_def Let_def)
  then show ?thesis by (simp add: ft8_sync_score_def)
qed

lemma above_facts:
  assumes "waterfall_ok w" "c \<in> set (above w min_score)"
  shows "position_ok w c \<and> min_score \<le> score c \<and> ft8_sync_score w c = Inr (score c)"
proof -
  obtain d where d: "d \<in> set (positions_of w)" "c = scored w d" "min_score \<le> score c" using assms(2) by (auto simp: above_def)
  obtain s where "ft8_sync_score w d = Inr s" using sync_score_total[OF assms(1) positions_ok[OF d(1)]] by blast
  then have "c = d\<lparr>score := s\<rparr>" "ft8_sync_score w d = Inr s" using d(2) by (simp_all add: scored_def)
  moreover have "position_ok w c" unfolding d(2) scored_position by (rule positions_ok[OF d(1)])
  ultimately show ?thesis using d(3) sync_score_position by simp
qed

text \<open>
  C11. The candidate search of a slot reads no cell outside the waterfall and writes nothing behind the array
  of candidates. What it leaves is a best choice of at most \<open>limit\<close> among the positions of the grid
  whose sync score reaches the minimum (nothing left out scores higher than anything kept), in descending
  order, each at a position whose eight tones lie inside the waterfall.
\<close>

theorem search_keeps_best:
  assumes "rx_shape w" "limit \<le> length hp"
  shows "\<exists>hp' n. ftx_find_candidates w limit hp min_score = Inr (hp', n) \<and> length hp' = length hp
    \<and> n = min limit (length (above w min_score))
    \<and> sorted_wrt (\<lambda>a b. score b \<le> score a) (take n hp') \<and> best_of limit (mset (above w min_score)) (mset (take n hp'))
    \<and> (\<forall>c \<in> set (take n hp'). position_ok w c \<and> min_score \<le> score c \<and> ft8_sync_score w c = Inr (score c))"
proof -
  have w: "waterfall_ok w" by (rule rx_shape_ok[OF assms(1)])
  obtain hp' n where r: "ftx_find_candidates w limit hp min_score = Inr (hp', n)" "n \<le> length hp'" "length hp' = length hp"
    "sorted_wrt (\<lambda>a b. score b \<le> score a) (take n hp')" "best_of limit (mset (above w min_score)) (mset (take n hp'))"
    using search_result[OF w assms(2)] by blast
  have "n = min limit (length (above w min_score))" using best_of_size[OF r(5)] r(2) by simp
  moreover have "position_ok w c \<and> min_score \<le> score c \<and> ft8_sync_score w c = Inr (score c)" if "c \<in> set (take n hp')" for c
    using best_of_mem[OF r(5)] that above_facts[OF w, of c min_score] by simp
  ultimately show ?thesis using r by blast
qed

definition loud_cell :: ftx_waterfall where
  "loud_cell = \<lparr>num_blocks = NUM_BLOCKS, num_bins = NUM_BIN, time_osr = K_TIME_OSR, freq_osr = K_FREQ_OSR,
     mag = (replicate MAG_ARRAY 0)[3 := 200], block_stride = K_TIME_OSR * K_FREQ_OSR * NUM_BIN\<rparr>"

theorem search_keeps_best_witness:
  "\<exists>hp' n. ftx_find_candidates loud_cell 120 (replicate 120 (undefined :: ftx_candidate)) 10 = Inr (hp', n) \<and> length hp' = 120 \<and> n \<le> 120"
proof -
  have "rx_shape loud_cell" by (simp add: rx_shape_def loud_cell_def wide_constants)
  from search_keeps_best[OF this, of 120 "replicate 120 undefined" 10] show ?thesis by fastforce
qed

end
