(* ===== verification/FtxOnAir.thy ===== *)
theory FtxOnAir
  imports FtxBits FtxSearch
begin

text \<open>
  The physical layer from end to end: the tones of a payload, and a waterfall in which they are the loudest,
  give the payload back through \<^verbatim>\<open>ft8_extract_likelihood\<close>, \<^verbatim>\<open>bp_decode\<close> and the CRC.
\<close>

subsection \<open>The tones of a codeword\<close>

definition bit_num :: "u8 list \<Rightarrow> nat \<Rightarrow> nat" where
  "bit_num cw p = (if bit_at cw p then 1 else 0)"

definition sym3 :: "u8 list \<Rightarrow> nat \<Rightarrow> nat" where
  "sym3 cw p = 4 * bit_num cw p + 2 * bit_num cw (p + 1) + bit_num cw (p + 2)"

lemma sym3_less: "sym3 cw p < 8"
  by (simp add: sym3_def bit_num_def)

lemma next_bit_at: "next_bit cw v (x, mask_at p, p div 8) = (x + v * bit_num cw p, mask_at (p + 1), (p + 1) div 8)"
  unfolding next_bit_def prod.case Let_def and_mask bit_at_def [symmetric]
  using walk_step[of p "if bit_at cw p then x + v else x"] by (simp add: bit_num_def)

lemma three_bits:
  "fold (next_bit cw) [4, 2, 1] (0, mask_at p, p div 8) = (sym3 cw p, mask_at (p + 3), (p + 3) div 8)"
proof -
  have e: "p + 1 + 1 = p + 2" "p + 2 + 1 = p + 3" by simp_all
  show ?thesis unfolding fold_simps o_apply id_apply next_bit_at e by (simp add: sym3_def)
qed

lemma code_tones_data:
  "\<forall>i \<in> set is. 7 \<le> i \<and> i < 36 \<or> 43 \<le> i \<and> i < 72 \<Longrightarrow>
   code_tones cw (is @ js) (mask_at p, p div 8)
     = map (\<lambda>s. kFT8_Gray_map ! sym3 cw (p + 3 * s)) [0..<length is]
       @ code_tones cw js (mask_at (p + 3 * length is), (p + 3 * length is) div 8)"
proof (induction "is" arbitrary: p)
  case (Cons i "is")
  have "code_tones cw ((i # is) @ js) (mask_at p, p div 8)
      = kFT8_Gray_map ! sym3 cw p # code_tones cw (is @ js) (mask_at (p + 3), (p + 3) div 8)"
    using Cons.prems unfolding append_Cons code_tones.simps three_bits by auto
  also have "\<dots> = kFT8_Gray_map ! sym3 cw p # map (\<lambda>s. kFT8_Gray_map ! sym3 cw (p + 3 + 3 * s)) [0..<length is]
      @ code_tones cw js (mask_at (p + 3 + 3 * length is), (p + 3 + 3 * length is) div 8)"
    using Cons by simp
  also have "map (\<lambda>s. kFT8_Gray_map ! sym3 cw (p + 3 + 3 * s)) [0..<length is]
      = map (\<lambda>s. kFT8_Gray_map ! sym3 cw (p + 3 * s)) [Suc 0..<Suc (length is)]"
    by (simp add: map_Suc_upt[symmetric] algebra_simps del: upt_Suc)
  finally show ?case by (simp add: upt_conv_Cons algebra_simps del: upt_Suc)
qed simp

lemma code_tones_sync:
  assumes "a = 0 \<or> a = 36 \<or> a = 72"
  shows "code_tones cw ([a, a + 1, a + 2, a + 3, a + 4, a + 5, a + 6] @ js) pos = kFT8_Costas_pattern @ code_tones cw js pos"
  using assms by (cases pos) (auto simp: kFT8_Costas_pattern_def)

definition frame :: "nat list \<Rightarrow> nat list" where
  "frame ds = kFT8_Costas_pattern @ take 29 ds @ kFT8_Costas_pattern @ drop 29 ds @ kFT8_Costas_pattern"

definition data_tones :: "u8 list \<Rightarrow> nat list" where
  "data_tones cw = map (\<lambda>s. kFT8_Gray_map ! sym3 cw (3 * s)) [0..<FT8_ND]"

lemma ft8_encode_frame: "ft8_encode p = frame (data_tones (encode174 (ftx_add_crc p)))"
proof -
  define cw where "cw = encode174 (ftx_add_crc p)"
  have pos: "(0x80 :: u8, 0 :: nat) = (mask_at 0, 0 div 8)" by (simp add: mask_at_def)
  have idx: "[0..<FT8_NN] = [0, 0 + 1, 0 + 2, 0 + 3, 0 + 4, 0 + 5, 0 + 6] @ [7..<36] @ [36, 36 + 1, 36 + 2, 36 + 3, 36 + 4, 36 + 5, 36 + 6]
      @ [43..<72] @ [72, 72 + 1, 72 + 2, 72 + 3, 72 + 4, 72 + 5, 72 + 6] @ []"
    unfolding FT8_NN_def by (simp add: upt_rec)
  have t: "take 29 (data_tones cw) = map (\<lambda>s. kFT8_Gray_map ! sym3 cw (0 + 3 * s)) [0..<length [7..<36]]"
    by (simp add: data_tones_def FT8_ND_def take_map del: upt.simps upt_rec_numeral)
  have d: "drop 29 (data_tones cw) = map (\<lambda>s. kFT8_Gray_map ! sym3 cw ((0 + 3 * length [7..<36]) + 3 * s)) [0..<length [43..<72]]"
    unfolding data_tones_def FT8_ND_def drop_map
    by (rule nth_equalityI) (simp_all add: algebra_simps del: upt.simps upt_rec_numeral)
  show ?thesis
    unfolding ft8_encode_def cw_def [symmetric] frame_def t d idx pos
    by (subst code_tones_sync, simp, subst code_tones_data, simp, subst code_tones_sync, simp, subst code_tones_data, simp,
        subst code_tones_sync, simp) simp
qed

lemma gray_tone: "v < 8 \<Longrightarrow> kFT8_Gray_map ! v < 8"
proof -
  have "list_all (\<lambda>v. kFT8_Gray_map ! v < 8) [0..<8]" by code_simp
  then show "v < 8 \<Longrightarrow> kFT8_Gray_map ! v < 8" by (simp add: list_all_iff)
qed

lemma length_data_tones [simp]: "length (data_tones cw) = 58"
  by (simp add: data_tones_def FT8_ND_def del: upt.simps upt_rec_numeral)

lemma frame_length: "length ds = 58 \<Longrightarrow> length (frame ds) = 79"
  by (simp add: frame_def kFT8_Costas_pattern_def)

lemma frame_data:
  assumes "length ds = 58" "k < 58"
  shows "frame ds ! (k + (if k < 29 then 7 else 14)) = ds ! k"
proof -
  have c: "length kFT8_Costas_pattern = 7" by (simp add: kFT8_Costas_pattern_def)
  show ?thesis
  proof (cases "k < 29")
    case True
    then show ?thesis using assms c unfolding frame_def by (simp add: nth_append)
  next
    case False
    then obtain j where j: "k = 29 + j" "j < 29" using assms(2) by (metis add_diff_inverse_nat nat_add_left_cancel_less numeral_Bit0)
    have f: "frame ds = (kFT8_Costas_pattern @ take 29 ds @ kFT8_Costas_pattern) @ drop 29 ds @ kFT8_Costas_pattern"
      by (simp add: frame_def)
    have "frame ds ! (43 + j) = drop 29 ds ! j" unfolding f using assms(1) c j(2) by (simp add: nth_append)
    moreover have "k + (if k < 29 then 7 else 14) = 43 + j" using j by simp
    ultimately show ?thesis using assms j by simp
  qed
qed

subsection \<open>The soft decisions of a loud tone\<close>

text \<open>Tone \<open>t\<close> is the loudest of the eight.\<close>

definition loudest :: "(nat \<Rightarrow> real) \<Rightarrow> nat \<Rightarrow> bool" where
  "loudest s t \<longleftrightarrow> (\<forall>u < 8. u \<noteq> t \<longrightarrow> s u < s t)"

lemma max4_less:
  assumes "e < x" "f < x" "g < x" "h < x" "x = a \<or> x = b \<or> x = c \<or> x = d"
  shows "max4 e f g h < max4 a b c d"
proof -
  have "max4 e f g h < x" using assms by (simp add: max4_def)
  also have "x \<le> max4 a b c d" using assms(5) unfolding max4_def by (auto simp: le_max_iff_disj)
  finally show ?thesis .
qed

lemma gray_inj: "i < 8 \<Longrightarrow> j < 8 \<Longrightarrow> kFT8_Gray_map ! i = kFT8_Gray_map ! j \<longleftrightarrow> i = j"
  using nth_eq_iff_index_eq[of kFT8_Gray_map i j] by (simp add: kFT8_Gray_map_def)

text \<open>The decision on a bit: its sign.\<close>

definition decides :: "real \<Rightarrow> bool \<Rightarrow> bool" where
  "decides x b \<longleftrightarrow> (if b then 0 < x else x < 0)"

lemma soft_bits:
  assumes "v < 8" "loudest s (kFT8_Gray_map ! v)"
  shows "list_all2 decides (ft8_extract_symbol s) [4 \<le> v, 2 \<le> v mod 4, odd v]"
proof -
  define S where "S j = s (kFT8_Gray_map ! j)" for j
  have l: "S j < S v" if "j < 8" "j \<noteq> v" for j
    using assms gray_inj[of j v] gray_tone[of j] that unfolding S_def loudest_def by simp
  have v: "v = 0 \<or> v = 1 \<or> v = 2 \<or> v = 3 \<or> v = 4 \<or> v = 5 \<or> v = 6 \<or> v = 7" using assms(1) by linarith
  have a: "decides (max4 (S 4) (S 5) (S 6) (S 7) - max4 (S 0) (S 1) (S 2) (S 3)) (4 \<le> v)"
    using v max4_less[of _ "S v"] l by (cases "4 \<le> v") (simp_all add: decides_def, auto)
  have b: "decides (max4 (S 2) (S 3) (S 6) (S 7) - max4 (S 0) (S 1) (S 4) (S 5)) (2 \<le> v mod 4)"
    using v max4_less[of _ "S v"] l by (cases "2 \<le> v mod 4") (simp_all add: decides_def, auto)
  have c: "decides (max4 (S 1) (S 3) (S 5) (S 7) - max4 (S 0) (S 2) (S 4) (S 6)) (odd v)"
    using v max4_less[of _ "S v"] l by (cases "odd v") (simp_all add: decides_def, auto)
  show ?thesis using a b c unfolding ft8_extract_symbol_def Let_def S_def by simp
qed

subsection \<open>The soft decisions of a message\<close>

definition data_index :: "nat \<Rightarrow> nat" where
  "data_index k = k + (if k < 29 then 7 else 14)"

definition cell_db :: "ftx_waterfall \<Rightarrow> ftx_candidate \<Rightarrow> nat \<Rightarrow> nat \<Rightarrow> real" where
  "cell_db w c i t = byte_db (mag w ! (nat (cand_mag w c + int (i * block_stride w)) + t))"

text \<open>Data symbol \<open>k\<close> lies in the recording, and its tone is the loudest.\<close>

definition heard :: "ftx_waterfall \<Rightarrow> ftx_candidate \<Rightarrow> nat \<Rightarrow> nat \<Rightarrow> bool" where
  "heard w c k t \<longleftrightarrow> 0 \<le> time_offset c + int (data_index k) \<and> time_offset c + int (data_index k) < int (num_blocks w)
     \<and> loudest (cell_db w c (data_index k)) t"

lemma symbol_cells_in:
  assumes "waterfall_ok w" "position_ok w c" "0 \<le> time_offset c + int i" "time_offset c + int i < int (num_blocks w)"
  shows "symbol_cells w (cand_mag w c + int (i * block_stride w)) = Inr (cell_db w c i)"
  using row_in_waterfall[OF assms, of 0] row_in_waterfall[OF assms, of 7] unfolding cell_db_def symbol_cells_def cand_cell[OF assms(1)]
  by simp

lemma extract_length: "length (ft8_extract_symbol s) = 3"
  by (simp add: ft8_extract_symbol_def Let_def)

lemma extract_total:
  assumes "waterfall_ok w" "position_ok w c"
  shows "\<exists>ls. extract_loop w c ks = Inr ls \<and> length ls = 3 * length ks"
proof (induction ks)
  case (Cons k ks)
  have "\<exists>l. (if time_offset c + int (data_index k) < 0 \<or> int (num_blocks w) \<le> time_offset c + int (data_index k) then Inr [0, 0, 0]
      else rbind (symbol_cells w (cand_mag w c + int (data_index k * block_stride w))) (\<lambda>s. Inr (ft8_extract_symbol s))) = Inr l \<and> length l = 3"
    using symbol_cells_in[OF assms, of "data_index k"] extract_length by auto
  then show ?case using Cons unfolding extract_loop.simps Let_def data_index_def [symmetric] by auto
qed simp

lemma extract_heard:
  assumes "waterfall_ok w" "position_ok w c"
  shows "\<forall>k \<in> set ks. v k < 8 \<and> heard w c k (kFT8_Gray_map ! v k) \<Longrightarrow>
    \<exists>ls. extract_loop w c ks = Inr ls \<and> list_all2 decides ls (concat (map (\<lambda>k. [4 \<le> v k, 2 \<le> v k mod 4, odd (v k)]) ks))"
proof (induction ks)
  case (Cons k ks)
  then have h: "v k < 8" "heard w c k (kFT8_Gray_map ! v k)" by simp_all
  then have t: "\<not> time_offset c + int (data_index k) < 0" "\<not> int (num_blocks w) \<le> time_offset c + int (data_index k)"
    "loudest (cell_db w c (data_index k)) (kFT8_Gray_map ! v k)" by (simp_all add: heard_def)
  have s: "symbol_cells w (cand_mag w c + int (data_index k * block_stride w)) = Inr (cell_db w c (data_index k))"
    using symbol_cells_in[OF assms, of "data_index k"] t by simp
  obtain ls where ls: "extract_loop w c ks = Inr ls" "list_all2 decides ls (concat (map (\<lambda>k. [4 \<le> v k, 2 \<le> v k mod 4, odd (v k)]) ks))"
    using Cons by auto
  have "extract_loop w c (k # ks) = Inr (ft8_extract_symbol (cell_db w c (data_index k)) @ ls)"
    using t(1,2) s ls(1) unfolding extract_loop.simps Let_def data_index_def [symmetric] by simp
  moreover have "list_all2 decides (ft8_extract_symbol (cell_db w c (data_index k)) @ ls)
      (concat (map (\<lambda>k. [4 \<le> v k, 2 \<le> v k mod 4, odd (v k)]) (k # ks)))"
    using list_all2_appendI[OF soft_bits[OF h(1) t(3)] ls(2)] by simp
  ultimately show ?case by blast
qed simp

lemma sym3_bits: "4 \<le> sym3 cw p \<longleftrightarrow> bit_at cw p" "2 \<le> sym3 cw p mod 4 \<longleftrightarrow> bit_at cw (p + 1)" "odd (sym3 cw p) \<longleftrightarrow> bit_at cw (p + 2)"
  by (cases "bit_at cw p"; cases "bit_at cw (p + 1)"; cases "bit_at cw (p + 2)"; simp add: sym3_def bit_num_def)+

lemma concat_triples: "concat (map (\<lambda>k. [f (3 * k), f (3 * k + 1), f (3 * k + 2)]) [0..<n]) = map f [0..<3 * n]"
proof (induction n)
  case (Suc n)
  have "[0..<3 * Suc n] = [0..<3 * n] @ [3 * n, 3 * n + 1, 3 * n + 2]"
    by (simp add: upt_add_eq_append[of 0 "3 * n" 3, simplified] upt_rec[of "3 * n"] numeral_eq_Suc)
  with Suc show ?case by simp
qed simp

lemma likelihood_heard:
  assumes "waterfall_ok w" "position_ok w c" "\<forall>k < FT8_ND. heard w c k (data_tones cw ! k)"
  shows "\<exists>ls. ft8_extract_likelihood w c = Inr ls \<and> list_all2 decides ls (map (bit_at cw) [0..<FTX_LDPC_N])"
proof -
  have "\<forall>k \<in> set [0..<FT8_ND]. sym3 cw (3 * k) < 8 \<and> heard w c k (kFT8_Gray_map ! sym3 cw (3 * k))"
    using assms(3) sym3_less by (simp add: data_tones_def)
  from extract_heard[OF assms(1,2) this]
  have "\<exists>ls. extract_loop w c [0..<FT8_ND] = Inr ls \<and> list_all2 decides ls (map (bit_at cw) [0..<3 * FT8_ND])"
    unfolding sym3_bits concat_triples .
  then show ?thesis by (simp add: ft8_extract_likelihood_def FT8_ND_def FTX_LDPC_N_def del: upt.simps upt_rec_numeral)
qed

subsection \<open>Normalisation keeps the signs\<close>

lemma sum_squares_split: "(\<Sum>x\<leftarrow>xs. (x - m) * (x - m)) = (\<Sum>x\<leftarrow>xs. x * x) - 2 * m * sum_list xs + real (length xs) * m * m"
  by (induction xs) (simp_all add: algebra_simps)

lemma sum_list_pos: "\<forall>x \<in> set xs. (0 :: real) \<le> f x \<Longrightarrow> y \<in> set xs \<Longrightarrow> 0 < f y \<Longrightarrow> 0 < sum_list (map f xs)"
proof (induction xs)
  case (Cons x xs)
  have "0 \<le> sum_list (map f xs)" using Cons.prems(1) by (intro sum_list_nonneg) auto
  with Cons show ?case by (cases "y = x") (auto intro: add_pos_nonneg add_nonneg_pos)
qed simp

lemma variance_pos:
  assumes "x \<in> set xs" "y \<in> set xs" "x \<noteq> (y :: real)" "length xs = FTX_LDPC_N"
  shows "0 < ((\<Sum>x\<leftarrow>xs. x * x) - sum_list xs * sum_list xs * (1 / real FTX_LDPC_N)) * (1 / real FTX_LDPC_N)"
proof -
  define m where "m = sum_list xs / 174"
  obtain z where z: "z \<in> set xs" "z \<noteq> m" using assms by metis
  then have "0 < (z - m) * (z - m)" by (metis eq_iff_diff_eq_0 not_square_less_zero linorder_neqE_linordered_idom mult_eq_0_iff)
  then have "0 < (\<Sum>x\<leftarrow>xs. (x - m) * (x - m))" using sum_list_pos[OF _ z(1), of "\<lambda>x. (x - m) * (x - m)"] by simp
  moreover have "(\<Sum>x\<leftarrow>xs. (x - m) * (x - m)) = (\<Sum>x\<leftarrow>xs. x * x) - sum_list xs * sum_list xs * (1 / 174)"
    unfolding sum_squares_split assms(4) FTX_LDPC_N_def by (simp add: m_def field_simps)
  ultimately show ?thesis by (simp add: FTX_LDPC_N_def)
qed

lemma normalize_decides:
  assumes "list_all2 decides ls bs" "length ls = FTX_LDPC_N" "True \<in> set bs" "False \<in> set bs"
  shows "\<exists>ls'. ftx_normalize_logl ls = Inr ls' \<and> list_all2 decides ls' bs"
proof -
  obtain i where i: "i < length ls" "0 < ls ! i"
    using assms(1,3) by (metis decides_def in_set_conv_nth list_all2_conv_all_nth)
  obtain j where j: "j < length ls" "ls ! j < 0"
    using assms(1,4) by (metis decides_def in_set_conv_nth list_all2_conv_all_nth)
  define v where "v = ((\<Sum>x\<leftarrow>ls. x * x) - sum_list ls * sum_list ls * (1 / real FTX_LDPC_N)) * (1 / real FTX_LDPC_N)"
  have v: "0 < v" unfolding v_def using variance_pos[of "ls ! i" ls "ls ! j"] i j assms(2) by fastforce
  then have s: "0 < sqrt (24 / v)" by simp
  have "ftx_normalize_logl ls = Inr (map (\<lambda>x. x * sqrt (24 / v)) ls)"
    using v unfolding ftx_normalize_logl_def Let_def v_def [symmetric] by simp
  moreover have "decides (x * sqrt (24 / v)) b = decides x b" for x b
    using s by (simp add: decides_def zero_less_mult_iff mult_less_0_iff)
  then have "list_all2 decides (map (\<lambda>x. x * sqrt (24 / v)) ls) bs" using assms(1) by (simp add: list_all2_map1)
  ultimately show ?thesis by blast
qed

subsection \<open>The first guess is the codeword\<close>

lemma hard_decision_decides:
  assumes "list_all2 decides ls (map B [0..<FTX_LDPC_N])"
  shows "hard_decision ls (replicate FTX_LDPC_N [0, 0, 0]) = map (\<lambda>k. if B k then 1 else 0) [0..<FTX_LDPC_N]"
proof -
  have d: "decides (ls ! n) (B n)" if "n < FTX_LDPC_N" for n using list_all2_nthD2[OF assms, of n] that by simp
  have "(if 0 < ls ! n then 1 else 0) = (if B n then 1 else 0 :: nat)" if "n < FTX_LDPC_N" for n
    using d[OF that] by (auto simp: decides_def split: if_splits)
  then show ?thesis unfolding hard_decision_def by (intro map_cong refl) simp
qed

lemma codeword_checks: "ldpc_check (code_bits bytes) = 0"
proof -
  have "even (sum_list (map (\<lambda>i. code_bits bytes ! (kFTX_LDPC_Nm ! m ! i - 1)) [0..<kFTX_LDPC_Num_rows ! m]))" if "m < FTX_LDPC_M" for m
    using codeword_check[OF that] unfolding check_cols_sum[OF that] .
  then show ?thesis unfolding ldpc_check_def by (auto simp: filter_empty_conv)
qed

text \<open>A codeword is never all ones.\<close>

lemma codeword_zero: "\<exists>k < FTX_LDPC_N. \<not> code_bit bytes k"
proof (rule ccontr)
  assume "\<not> ?thesis"
  then have b: "\<forall>k < FTX_LDPC_N. code_bit bytes k" by blast
  have m: "0 < FTX_LDPC_M" by (simp add: FTX_LDPC_M_def)
  have c: "map ((!) (code_bits bytes)) (check_cols 0) = map (\<lambda>_. 1) (check_cols 0)"
    using table_facts(1)[OF m] b by (intro map_cong refl) (simp add: code_bits_def)
  have "length (check_cols 0) = 7" by code_simp
  then have "sum_list (map ((!) (code_bits bytes)) (check_cols 0)) = 7" unfolding c by (simp add: sum_list_triv)
  then show False using codeword_check[OF m, of bytes] by simp
qed

lemma bp_decode_codeword:
  assumes "list_all2 decides ls (map (code_bit bytes) [0..<FTX_LDPC_N])" "k < FTX_LDPC_N" "code_bit bytes k" "0 < iters"
  shows "bp_decode ls iters plain = (0, code_bits bytes)"
proof -
  obtain j where j: "iters = Suc j" using assms(4) by (cases iters) simp_all
  have h: "hard_decision ls (replicate FTX_LDPC_N [0, 0, 0]) = code_bits bytes"
    using hard_decision_decides[OF assms(1)] by (simp add: code_bits_def)
  have "1 \<in> set (code_bits bytes)" using assms(2,3) by (auto simp: code_bits_def)
  then have "sum_list (code_bits bytes) \<noteq> 0" by auto
  then show ?thesis unfolding bp_decode_def j bp_loop.simps Let_def h codeword_checks by (simp add: FTX_LDPC_M_def)
qed

subsection \<open>Packing\<close>

definition pack_inv :: "nat list \<Rightarrow> nat \<Rightarrow> u8 list \<times> u8 \<times> nat \<Rightarrow> bool" where
  "pack_inv bits i st \<longleftrightarrow> snd st = (mask_at i, i div 8) \<and> length (fst st) = 12 \<and> (\<forall>k < 96. bit_at (fst st) k \<longleftrightarrow> k < i \<and> bits ! k \<noteq> 0)"

lemma pack_step_inv:
  assumes "pack_inv bits i st" "i < 96"
  shows "pack_inv bits (i + 1) (pack_step (bits ! i) st)"
proof -
  obtain pk where st: "st = (pk, mask_at i, i div 8)" and len: "length pk = 12" and bits: "\<forall>k < 96. bit_at pk k \<longleftrightarrow> k < i \<and> bits ! k \<noteq> 0"
    using assms(1) by (cases st) (simp add: pack_inv_def)
  define pk' where "pk' = (if bits ! i \<noteq> 0 then pk[i div 8 := pk ! (i div 8) OR mask_at i] else pk)"
  have "pack_step (bits ! i) st = (pk', mask_at (i + 1), (i + 1) div 8)"
    unfolding pack_step_def st prod.case Let_def pk'_def [symmetric] by (rule walk_step)
  moreover have "length pk' = 12" by (simp add: pk'_def len)
  moreover have "bit_at pk' k \<longleftrightarrow> k < i + 1 \<and> bits ! k \<noteq> 0" if "k < 96" for k
    using bits that bit_at_write[of i pk k] assms(2) len unfolding pk'_def by (cases "k = i") auto
  ultimately show ?thesis by (simp add: pack_inv_def)
qed

lemma pack_code_bits:
  assumes "message_bytes bytes"
  shows "pack_bits (code_bits bytes) FTX_LDPC_K = bytes"
proof -
  define bs where "bs = code_bits bytes"
  have len: "91 \<le> length bs" by (simp add: bs_def code_bits_def FTX_LDPC_N_def del: upt.simps upt_rec_numeral)
  define st where "st i = fold pack_step (take i bs) (replicate 12 0, 0x80, 0)" for i
  have inv: "pack_inv bs i (st i)" if "i \<le> 91" for i
    using that
  proof (induction i)
    case 0
    then show ?case by (simp add: pack_inv_def st_def mask_at_def bit_at_def)
  next
    case (Suc i)
    then have "st (Suc i) = pack_step (bs ! i) (st i)" using len by (simp add: st_def take_Suc_conv_app_nth)
    then show ?case using Suc pack_step_inv[of bs i "st i"] by simp
  qed
  have i: "pack_inv bs 91 (st 91)" by (rule inv) simp
  have p: "pack_bits bs FTX_LDPC_K = fst (st 91)" by (simp add: pack_bits_def st_def FTX_LDPC_K_def)
  have "fst (st 91) = bytes"
  proof (rule bytes_eqI)
    show "length (fst (st 91)) = length bytes" using i assms by (simp add: pack_inv_def message_bytes_def FTX_LDPC_K_BYTES_def FTX_LDPC_K_def)
    fix k assume "k < 8 * length (fst (st 91))"
    then have k: "k < 96" using i by (simp add: pack_inv_def)
    show "bit_at (fst (st 91)) k = bit_at bytes k"
    proof (cases "k < 91")
      case True
      then have "bs ! k \<noteq> 0 \<longleftrightarrow> bit_at bytes k"
        using code_bit_message[of k bytes] by (simp add: bs_def code_bits_def FTX_LDPC_K_def FTX_LDPC_N_def del: upt.simps upt_rec_numeral)
      then show ?thesis using i k True by (simp add: pack_inv_def)
    next
      case False
      then show ?thesis using i k assms by (simp add: pack_inv_def message_bytes_def FTX_LDPC_K_def)
    qed
  qed
  then show ?thesis using p bs_def by simp
qed

subsection \<open>The checksum\<close>

definition blank_tail :: "payload \<Rightarrow> payload" where
  "blank_tail p = (take 10 p)[9 := p ! 9 AND 0xF8]"

definition payload_crc :: "payload \<Rightarrow> u16" where
  "payload_crc p = ftx_compute_crc (blank_tail p @ [0, 0]) (96 - 14)"

lemma crc_local:
  assumes "\<forall>i < 11. xs ! i = ys ! i"
  shows "ftx_compute_crc xs (96 - 14) = ftx_compute_crc ys (96 - 14)"
proof -
  have "fold (crc_step xs) [0..<82] 0 = fold (crc_step ys) [0..<82] 0"
  proof (rule fold_cong)
    fix i assume "i \<in> set [0..<82 :: nat]"
    then have "i < 82" by (simp only: set_upt atLeastLessThan_iff)
    then have "i div 8 < 11" by simp
    then show "crc_step xs i = crc_step ys i" using assms by (intro ext) (simp add: crc_step_def)
  qed simp_all
  then show ?thesis unfolding ftx_compute_crc_def by (simp del: upt.simps upt_rec_numeral)
qed

lemma crc_14_bits: "take_bit 14 (ftx_compute_crc xs n) = ftx_compute_crc xs n"
proof -
  have m: "push_bit 1 TOPBIT - 1 = (mask 14 :: u16)" by (simp add: TOPBIT_def FT8_CRC_WIDTH_def mask_eq_exp_minus_1 push_bit_eq_mult)
  show ?thesis unfolding ftx_compute_crc_def m by (simp add: take_bit_eq_mask and.assoc)
qed

lemma add_crc_bytes:
  assumes "10 \<le> length p"
  shows "ftx_add_crc p = (blank_tail p)[9 := (p ! 9 AND 0xF8) OR ucast (drop_bit 11 (payload_crc p))]
    @ [ucast (drop_bit 3 (payload_crc p)), ucast (push_bit 5 (payload_crc p))]"
  unfolding ftx_add_crc_def Let_def payload_crc_def blank_tail_def by simp

lemma length_blank_tail [simp]: "10 \<le> length p \<Longrightarrow> length (blank_tail p) = 10"
  by (simp add: blank_tail_def)

lemma crc_fields:
  fixes a :: u8 and c :: u16
  assumes "take_bit 14 c = c"
  shows "push_bit 11 (ucast (((a AND 0xF8) OR ucast (drop_bit 11 c)) AND 7)) OR push_bit 3 (ucast (ucast (drop_bit 3 c) :: u8))
      OR ucast (drop_bit 5 (ucast (push_bit 5 c) :: u8)) = c"
    "((a AND 0xF8) OR ucast (drop_bit 11 c)) AND 0xF8 = a AND 0xF8"
proof -
  have c: "\<not> bit c 14" "\<not> bit c 15" using assms small_bits[of 14 c] by simp_all
  show "push_bit 11 (ucast (((a AND 0xF8) OR ucast (drop_bit 11 c)) AND 7)) OR push_bit 3 (ucast (ucast (drop_bit 3 c) :: u8))
      OR ucast (drop_bit 5 (ucast (push_bit 5 c) :: u8)) = c"
    by (rule word_bitwise) (simp_all add: bitwise c)
  show "((a AND 0xF8) OR ucast (drop_bit 11 c)) AND 0xF8 = a AND 0xF8"
    by (rule word_bitwise) (simp_all add: bitwise c)
qed

lemma add_crc_message_bytes:
  assumes "10 \<le> length p"
  shows "message_bytes (ftx_add_crc p)"
proof -
  have l: "length (ftx_add_crc p) = 12" unfolding add_crc_bytes[OF assms] using assms by simp
  have "\<not> bit_at (ftx_add_crc p) k" if "91 \<le> k" "k < 96" for k
  proof -
    have k: "k div 8 = 11" "7 - k mod 8 < 5" using that by (simp_all, presburger)
    have "ftx_add_crc p ! 11 = ucast (push_bit 5 (payload_crc p))"
      unfolding add_crc_bytes[OF assms] using assms by (simp add: nth_append)
    then show ?thesis using k by (simp add: bit_at_def bit_simps)
  qed
  then show ?thesis using l by (simp add: message_bytes_def FTX_LDPC_K_def FTX_LDPC_K_BYTES_def)
qed

text \<open>What the receiver does with the packed bits.\<close>

lemma crc_verified:
  assumes "10 \<le> length p"
  defines "a \<equiv> ftx_add_crc p"
  shows "ftx_extract_crc a = payload_crc p" "ftx_compute_crc (a[9 := a ! 9 AND 0xF8, 10 := 0]) (96 - 14) = payload_crc p"
    "take 10 (a[9 := a ! 9 AND 0xF8, 10 := 0]) = blank_tail p"
proof -
  define c where "c = payload_crc p"
  have l: "length (blank_tail p) = 10" using assms(1) by simp
  have c14: "take_bit 14 c = c" unfolding c_def payload_crc_def by (rule crc_14_bits)
  have a: "a = (blank_tail p)[9 := (p ! 9 AND 0xF8) OR ucast (drop_bit 11 c)] @ [ucast (drop_bit 3 c), ucast (push_bit 5 c)]"
    unfolding a_def c_def by (rule add_crc_bytes[OF assms(1)])
  have nth: "a ! 9 = (p ! 9 AND 0xF8) OR ucast (drop_bit 11 c)" "a ! 10 = ucast (drop_bit 3 c)" "a ! 11 = ucast (push_bit 5 c)"
    unfolding a using l by (simp_all add: nth_append)
  show "ftx_extract_crc a = payload_crc p"
    unfolding c_def [symmetric] ftx_extract_crc_def nth by (rule crc_fields(1)[OF c14])
  have ct: "blank_tail p ! 9 = p ! 9 AND 0xF8" using assms(1) by (simp add: blank_tail_def)
  have b: "a[9 := a ! 9 AND 0xF8, 10 := 0] = blank_tail p @ [0, ucast (push_bit 5 c)]"
    unfolding nth crc_fields(2)[OF c14] unfolding a using l ct list_update_id[of "blank_tail p" 9]
    by (simp add: list_update_append)
  show "ftx_compute_crc (a[9 := a ! 9 AND 0xF8, 10 := 0]) (96 - 14) = payload_crc p"
    unfolding b payload_crc_def by (rule crc_local) (use l in \<open>auto simp: nth_append nth_Cons'\<close>)
  show "take 10 (a[9 := a ! 9 AND 0xF8, 10 := 0]) = blank_tail p" unfolding b using l by simp
qed

lemma payload_bit:
  assumes "10 \<le> length p" "blank_tail p \<noteq> replicate 10 0"
  shows "\<exists>k < FTX_LDPC_N. code_bit (ftx_add_crc p) k"
proof (rule ccontr)
  assume "\<not> ?thesis"
  then have n: "\<not> bit_at (ftx_add_crc p) k" if "k < 91" for k
    using that code_bit_message[of k "ftx_add_crc p"] by (auto simp: FTX_LDPC_K_def FTX_LDPC_N_def)
  have l: "length (blank_tail p) = 10" using assms(1) by simp
  have "blank_tail p = replicate 10 0"
  proof (rule bytes_eqI)
    fix k assume "k < 8 * length (blank_tail p)"
    then have k: "k < 80" "k div 8 < 10" using l by simp_all
    have "\<not> bit_at (blank_tail p) k"
    proof (cases "k div 8 = 9")
      case True
      have "ftx_add_crc p ! 9 = (p ! 9 AND 0xF8) OR ucast (drop_bit 11 (payload_crc p))" "blank_tail p ! 9 = p ! 9 AND 0xF8"
        unfolding add_crc_bytes[OF assms(1)] using l assms(1) by (simp_all add: nth_append blank_tail_def)
      then show ?thesis using n[of k] k True by (auto simp: bit_at_def bit_simps)
    next
      case False
      then have "ftx_add_crc p ! (k div 8) = blank_tail p ! (k div 8)"
        unfolding add_crc_bytes[OF assms(1)] using l k by (simp add: nth_append)
      then show ?thesis using n[of k] k by (simp add: bit_at_def)
    qed
    then show "bit_at (blank_tail p) k = bit_at (replicate 10 0) k" using k(2) by (simp add: bit_at_def)
  qed (simp add: l)
  then show False using assms(2) by simp
qed

text \<open>A signal is heard when each of its data tones is the loudest of its symbol.\<close>

definition tones_heard :: "ftx_waterfall \<Rightarrow> ftx_candidate \<Rightarrow> nat list \<Rightarrow> bool" where
  "tones_heard w c tones \<longleftrightarrow> (\<forall>k < FT8_ND. heard w c k (tones ! data_index k))"

lemma heard_decodes:
  assumes "waterfall_ok w" "position_ok w c" "10 \<le> length p" "blank_tail p \<noteq> replicate 10 0" "0 < iters"
    and "tones_heard w c (ft8_encode p)"
  shows "ftx_decode_candidate plain w c iters = Inr (Some \<lparr>payload = blank_tail p, msg_hash = payload_crc p\<rparr>)"
proof -
  define a where "a = ftx_add_crc p"
  define cw where "cw = encode174 a"
  have mb: "message_bytes a" unfolding a_def by (rule add_crc_message_bytes[OF assms(3)])
  have "\<forall>k < FT8_ND. heard w c k (data_tones cw ! k)"
    using assms(6) frame_data[of "data_tones cw"] unfolding tones_heard_def ft8_encode_frame cw_def a_def data_index_def
    by (simp add: FT8_ND_def)
  from likelihood_heard[OF assms(1,2) this] obtain ls
    where ls: "ft8_extract_likelihood w c = Inr ls" "list_all2 decides ls (map (bit_at cw) [0..<FTX_LDPC_N])" by blast
  have bits: "map (bit_at cw) [0..<FTX_LDPC_N] = map (code_bit a) [0..<FTX_LDPC_N]"
    unfolding cw_def using encode174_bits(2)[OF mb] by (intro map_cong refl) simp
  have len: "length ls = FTX_LDPC_N" using list_all2_lengthD[OF ls(2)] by simp
  obtain k where k: "k < FTX_LDPC_N" "code_bit a k" using payload_bit[OF assms(3,4)] unfolding a_def by blast
  obtain z where z: "z < FTX_LDPC_N" "\<not> code_bit a z" using codeword_zero by blast
  have tf: "True \<in> set (map (code_bit a) [0..<FTX_LDPC_N])" "False \<in> set (map (code_bit a) [0..<FTX_LDPC_N])"
    using k z by force+
  obtain ls' where ls': "ftx_normalize_logl ls = Inr ls'" "list_all2 decides ls' (map (code_bit a) [0..<FTX_LDPC_N])"
    using normalize_decides[OF ls(2)[unfolded bits] len tf] by blast
  have bp: "bp_decode ls' iters plain = (0, code_bits a)" by (rule bp_decode_codeword[OF ls'(2) k assms(5)])
  show ?thesis
    unfolding ftx_decode_candidate_def ls(1) rbind_simps ls'(1) bp prod.case pack_code_bits[OF mb] Let_def
    using crc_verified[OF assms(3)] unfolding a_def by simp
qed

end
