(* ===== verification/FtxStandard.thy ===== *)
theory FtxStandard
  imports FtxMessage WordBits
begin

text \<open>
  Round trips of the codec's packed messages: the bit fields, the call signs, the locators and reports, and whole
  standard messages; and what the encoder makes of texts that are no such message.
\<close>

subsection \<open>The bit fields\<close>

lemma std_fields:
  assumes "take_bit 29 a = a" "take_bit 29 b = b" "take_bit 3 i = i"
  shows "std_n29a (std_payload a b g i) = a" "std_n29b (std_payload a b g i) = b"
    "std_igrid4 (std_payload a b g i) = take_bit 15 g" "std_ir (std_payload a b g i) = ucast (drop_bit 15 g)"
    "get_i3 (std_payload a b g i) = i"
  using assms
  by (rule_tac [!] word_bitwise)
    (simp_all add: std_n29a_def std_n29b_def std_igrid4_def std_ir_def get_i3_def std_payload_def bitwise)

subsection \<open>Base call signs\<close>

definition alnum :: "char \<Rightarrow> bool" where "alnum c \<longleftrightarrow> in_table ALPHANUM c"
definition upper_letter :: "char \<Rightarrow> bool" where "upper_letter c \<longleftrightarrow> 65 \<le> code c \<and> code c \<le> 90"
definition letters :: "string \<Rightarrow> bool" where "letters s \<longleftrightarrow> length s \<le> 3 \<and> (\<forall>c \<in> set s. upper_letter c)"

definition pad :: "string \<Rightarrow> string" where "pad s = s @ replicate (3 - length s) CHR '' ''"

text \<open>A standard call sign and its six characters, with the two prefixes that are packed in a form of their own.\<close>

inductive std_call :: "string \<Rightarrow> string \<Rightarrow> bool" where
  two: "alnum a \<Longrightarrow> alnum b \<Longrightarrow> is_digit d \<Longrightarrow> letters s \<Longrightarrow> \<not> (a = CHR ''3'' \<and> b = CHR ''D'' \<and> d = CHR ''0'' \<and> s \<noteq> [])
    \<Longrightarrow> \<not> (a = CHR ''Q'' \<and> upper_letter b) \<Longrightarrow> std_call (a # b # d # s) (a # b # d # pad s)"
| one: "alnum a \<Longrightarrow> is_digit d \<Longrightarrow> letters s \<Longrightarrow> s \<noteq> [] \<Longrightarrow> std_call (a # d # s) (CHR '' '' # a # d # pad s)"
| swazi: "letters s \<Longrightarrow> s \<noteq> [] \<Longrightarrow> std_call (''3DA0'' @ s) (''3D0'' @ pad s)"
| guinea: "upper_letter a \<Longrightarrow> is_digit d \<Longrightarrow> letters s \<Longrightarrow> std_call (''3X'' @ a # d # s) (CHR ''Q'' # a # d # pad s)"

lemma upper_letter_tables: "upper_letter c \<Longrightarrow> in_table LETTERS_SPACE c \<and> alnum c \<and> \<not> is_digit c \<and> is_letter c \<and> c \<noteq> CHR '' ''"
  by (auto simp: upper_letter_def alnum_def in_table_def nchar_def is_digit_def is_letter_def Let_def)

lemma alnum_chars: "alnum c \<Longrightarrow> in_table ALPHANUM_SPACE c \<and> in_table ALPHANUM_SPACE_SLASH c \<and> c \<noteq> CHR '' '' \<and> c \<noteq> CHR ''<''"
  by (auto simp: alnum_def in_table_def nchar_def is_digit_def Let_def code_def split: if_splits)

lemma digit_alnum: "is_digit c \<Longrightarrow> alnum c \<and> \<not> is_letter c \<and> \<not> upper_letter c"
  by (auto simp: alnum_def in_table_def nchar_def is_digit_def is_letter_def upper_letter_def Let_def)

lemma alnum_letter: "alnum c \<Longrightarrow> is_letter c = upper_letter c"
  by (auto simp: alnum_def in_table_def nchar_def is_digit_def is_letter_def upper_letter_def Let_def split: if_splits)

lemma pad_nth:
  assumes "letters s"
  shows "in_table LETTERS_SPACE (pad s ! 0)" "in_table LETTERS_SPACE (pad s ! Suc 0)" "in_table LETTERS_SPACE (pad s ! 2)" "length (pad s) = 3"
proof -
  have "\<forall>c \<in> set (pad s). in_table LETTERS_SPACE c" using assms upper_letter_tables
    by (auto simp: pad_def letters_def has_space_def)
  moreover show "length (pad s) = 3" using assms by (simp add: pad_def letters_def)
  ultimately show "in_table LETTERS_SPACE (pad s ! 0)" "in_table LETTERS_SPACE (pad s ! Suc 0)" "in_table LETTERS_SPACE (pad s ! 2)"
    by simp_all
qed

definition six_ok :: "string \<Rightarrow> bool" where
  "six_ok k \<longleftrightarrow> length k = 6 \<and> in_table ALPHANUM_SPACE (k ! 0) \<and> in_table ALPHANUM (k ! 1) \<and> in_table NUMERIC (k ! 2)
     \<and> in_table LETTERS_SPACE (k ! 3) \<and> in_table LETTERS_SPACE (k ! 4) \<and> in_table LETTERS_SPACE (k ! 5)"

definition six_val :: "string \<Rightarrow> nat" where
  "six_val k = (((((nat (nchar (k ! 0) ALPHANUM_SPACE) * 36 + nat (nchar (k ! 1) ALPHANUM)) * 10 + nat (nchar (k ! 2) NUMERIC)) * 27
     + nat (nchar (k ! 3) LETTERS_SPACE)) * 27 + nat (nchar (k ! 4) LETTERS_SPACE)) * 27 + nat (nchar (k ! 5) LETTERS_SPACE))"

lemma six_okI:
  assumes "in_table ALPHANUM_SPACE a" "alnum b" "is_digit d" "letters s"
  shows "six_ok (a # b # d # pad s)"
  using assms pad_nth[OF assms(4)] unfolding six_ok_def by (simp add: alnum_def numeral_3_eq_3 numeral_2_eq_2 eval_nat_numeral)

lemma three_chars: "alnum CHR ''3''" "alnum CHR ''D''" "alnum CHR ''X''" "alnum CHR ''Q''" "is_digit CHR ''0''" "alnum CHR ''A''"
  "alnum CHR ''/''= False" "in_table ALPHANUM_SPACE CHR '' ''"
  by (simp_all add: alnum_def in_table_def nchar_def is_digit_def code_def)

lemma call_six_ok: "std_call c k \<Longrightarrow> six_ok k"
proof (induction rule: std_call.induct)
  case (two a b d s)
  then show ?case by (intro six_okI) (simp_all add: alnum_chars)
next
  case (one a d s)
  then show ?case by (intro six_okI) (simp_all add: has_space_def)
next
  case (swazi s)
  then show ?case using six_okI[of "CHR ''3''" "CHR ''D''" "CHR ''0''" s] by (simp add: three_chars alnum_chars)
next
  case (guinea a d s)
  then show ?case by (intro six_okI) (simp_all add: three_chars alnum_chars upper_letter_tables)
qed

lemma radix: "(b :: nat) < m \<Longrightarrow> (a * m + b) div m = a \<and> (a * m + b) mod m = b"
  by simp

lemma radix_less: "(a :: nat) < n \<Longrightarrow> b < m \<Longrightarrow> a * m + b < n * m"
  by (metis add.commute less_mult_imp_div_less mod_less_divisor mult.commute order_less_le_trans radix div_less_iff_less_mult gr0I not_less_zero)

lemma list_six: "length k = 6 \<Longrightarrow> k = [k ! 0, k ! 1, k ! 2, k ! 3, k ! 4, k ! 5]"
  by (simp add: list_eq_iff_nth_eq eval_nat_numeral less_Suc_eq all_conj_distrib)

lemma six_chars_val:
  assumes "six_ok k"
  shows "six_chars (six_val k) = k" "six_val k < 262177560"
proof -
  define x0 x1 x2 x3 x4 x5 where "x0 = nat (nchar (k ! 0) ALPHANUM_SPACE)" and "x1 = nat (nchar (k ! 1) ALPHANUM)"
    and "x2 = nat (nchar (k ! 2) NUMERIC)" and "x3 = nat (nchar (k ! 3) LETTERS_SPACE)"
    and "x4 = nat (nchar (k ! 4) LETTERS_SPACE)" and "x5 = nat (nchar (k ! 5) LETTERS_SPACE)"
  note xs = x0_def x1_def x2_def x3_def x4_def x5_def
  have b: "x0 < 37" "x1 < 36" "x2 < 10" "x3 < 27" "x4 < 27" "x5 < 27"
    using assms nchar_nat unfolding xs six_ok_def by fastforce+
  have c: "charn x0 ALPHANUM_SPACE = k ! 0" "charn x1 ALPHANUM = k ! 1" "charn x2 NUMERIC = k ! 2"
    "charn x3 LETTERS_SPACE = k ! 3" "charn x4 LETTERS_SPACE = k ! 4" "charn x5 LETTERS_SPACE = k ! 5"
    using assms unfolding xs six_ok_def by simp_all
  have v: "six_val k = ((((x0 * 36 + x1) * 10 + x2) * 27 + x3) * 27 + x4) * 27 + x5" by (simp only: six_val_def xs)
  have "six_chars (six_val k) = [k ! 0, k ! 1, k ! 2, k ! 3, k ! 4, k ! 5]"
    unfolding six_chars_def v by (simp only: radix b c mod_less)
  also have "\<dots> = k" using assms list_six[of k] by (simp only: six_ok_def)
  finally show "six_chars (six_val k) = k" .
  show "six_val k < 262177560"
    using radix_less[OF radix_less[OF radix_less[OF radix_less[OF radix_less[OF b(1,2)] b(3)] b(4)] b(5)] b(6)] unfolding v by simp
qed

lemma trim_words:
  assumes "c \<noteq> []" "hd c \<noteq> CHR '' ''" "last c \<noteq> CHR '' ''"
  shows "trim_copy (replicate m CHR '' '' @ c @ replicate n CHR '' '') = c"
proof -
  have d: "dropWhile (\<lambda>x. x = CHR '' '') (replicate j CHR '' '' @ y) = dropWhile (\<lambda>x. x = CHR '' '') y" for j y
    by (induction j) simp_all
  have "trim_front (replicate m CHR '' '' @ c @ replicate n CHR '' '') = c @ replicate n CHR '' ''"
    using assms(1,2) by (cases c) (simp_all add: trim_front_def d)
  moreover have "trim_back (c @ replicate n CHR '' '') = c"
    using assms(1,3) by (cases "rev c") (simp_all add: trim_back_def d last_conv_nth hd_rev [symmetric] rev_swap)
  ultimately show ?thesis by (simp add: trim_copy_def)
qed

lemma letters_last: "letters s \<Longrightarrow> s \<noteq> [] \<Longrightarrow> last s \<noteq> CHR '' '' \<and> hd s \<noteq> CHR '' ''"
  using upper_letter_tables by (metis hd_in_set last_in_set letters_def)

lemma base_call_restored: "std_call c k \<Longrightarrow> base_call k = c"
proof (induction rule: std_call.induct)
  case (two a b d s)
  have "trim_copy (a # b # d # pad s) = a # b # d # s"
    using trim_words[of "a # b # d # s" 0 "3 - length s"] two letters_last[of s] alnum_chars[of a] digit_alnum[of d] alnum_chars[of d]
    by (auto simp: pad_def)
  moreover have "\<not> (starts_with (a # b # d # pad s) ''3D0'' \<and> \<not> is_space (cat (a # b # d # pad s) 3))"
    using two by (auto simp: starts_with_def cat_def pad_def is_space_def)
  ultimately show ?case using two alnum_letter[of b] by (auto simp: base_call_def cat_def)
next
  case (one a d s)
  have "trim_copy (CHR '' '' # a # d # pad s) = a # d # s"
    using trim_words[of "a # d # s" 1 "3 - length s"] one letters_last[of s] alnum_chars[of a] by (auto simp: pad_def)
  then show ?case by (simp add: base_call_def cat_def starts_with_def)
next
  case (swazi s)
  have "trim_copy (pad s) = s" using trim_words[of s 0 "3 - length s"] swazi letters_last[of s] by (simp add: pad_def)
  moreover have "\<not> is_space (cat (''3D0'' @ pad s) 3)" using swazi letters_last[of s]
    by (cases s) (simp_all add: pad_def cat_def is_space_def)
  ultimately show ?case by (simp add: base_call_def starts_with_def)
next
  case (guinea a d s)
  have "trim_copy (a # d # pad s) = a # d # s"
    using trim_words[of "a # d # s" 0 "3 - length s"] guinea letters_last[of s] upper_letter_tables[of a] digit_alnum[of d] alnum_chars[of d]
    by (auto simp: pad_def)
  then show ?case using guinea upper_letter_tables[of a] by (simp add: base_call_def cat_def starts_with_def)
qed

definition suffix_ok :: "string \<Rightarrow> bool" where "suffix_ok x \<longleftrightarrow> x = [] \<or> x = ''/P'' \<or> x = ''/R''"

lemma pad_drop: "length s \<le> 3 \<Longrightarrow> pad s = s @ drop (length s) ''   ''"
proof -
  assume "length s \<le> 3"
  then have "length s = 0 \<or> length s = 1 \<or> length s = 2 \<or> length s = 3" by linarith
  then show ?thesis by (elim disjE) (simp_all add: pad_def eval_nat_numeral)
qed

lemma base_chars_call:
  assumes "std_call c k" "suffix_ok x"
  shows "base_chars (c @ x) (length c) = k"
  using assms
proof (induction rule: std_call.induct)
  case (two a b d s)
  have l: "length s \<le> 3" using two by (simp add: letters_def)
  have "\<not> is_letter d" "d \<noteq> CHR ''A''" using digit_alnum[of d] two(3) upper_letter_tables[of "CHR ''A''"]
    by (auto simp: upper_letter_def)
  then show ?case using l two(3)
    by (auto simp: base_chars_def starts_with_def cat_def overlay_def Let_def pad_drop eval_nat_numeral)
next
  case (one a d s)
  have l: "length s \<le> 3" using one by (simp add: letters_def)
  obtain e t where s: "s = e # t" using one by (cases s) auto
  have "\<not> is_digit e" using one upper_letter_tables s by (simp add: letters_def)
  moreover have "d \<noteq> CHR ''D''" "d \<noteq> CHR ''X''" using one(2) by (auto simp: is_digit_def code_def)
  ultimately show ?case using l one(2) s
    by (auto simp: base_chars_def starts_with_def cat_def overlay_def Let_def pad_drop eval_nat_numeral)
next
  case (swazi s)
  then have l: "length s \<le> 3" "s \<noteq> []" by (simp_all add: letters_def)
  then have "base_chars ((''3DA0'' @ s) @ x) (length (''3DA0'' @ s)) = overlay 3 s (overlay 0 ''3D0'' (replicate 6 CHR '' ''))"
    by (cases s) (simp_all add: base_chars_def starts_with_def Let_def)
  then show ?case using l by (simp add: overlay_def pad_drop eval_nat_numeral)
next
  case (guinea a d s)
  then have l: "length s \<le> 3" "is_letter a" using upper_letter_tables by (simp_all add: letters_def)
  have "base_chars ((''3X'' @ a # d # s) @ x) (length (''3X'' @ a # d # s)) = overlay 1 (a # d # s) (overlay 0 ''Q'' (replicate 6 CHR '' ''))"
    using l by (simp add: base_chars_def starts_with_def Let_def cat_def)
  then show ?case using l by (simp add: overlay_def pad_drop eval_nat_numeral)
qed

lemma call_length: "std_call c k \<Longrightarrow> 3 \<le> length c \<and> length c \<le> 7"
  by (erule std_call.cases) (auto simp: letters_def Suc_le_eq)

lemma pack_basecall_call:
  assumes "std_call c k" "suffix_ok x"
  shows "pack_basecall (c @ x) (length c) = int (six_val k)"
proof -
  have k: "six_ok k" "2 < length c" using assms call_six_ok call_length by fastforce+
  then have n: "0 \<le> nchar (k ! 0) ALPHANUM_SPACE" "0 \<le> nchar (k ! 1) ALPHANUM" "0 \<le> nchar (k ! 2) NUMERIC"
    "0 \<le> nchar (k ! 3) LETTERS_SPACE" "0 \<le> nchar (k ! 4) LETTERS_SPACE" "0 \<le> nchar (k ! 5) LETTERS_SPACE"
    unfolding six_ok_def in_table_def by blast+
  then show ?thesis using k(2) unfolding pack_basecall_def base_chars_call[OF assms] Let_def six_val_def
    by (simp only: if_True simp_thms of_nat_add of_nat_mult of_nat_numeral int_nat_eq)
qed

lemma call_chars:
  assumes "std_call c k"
  shows "\<forall>x \<in> set c. alnum x"
  using assms
  by (induction rule: std_call.induct) (simp_all add: letters_def three_chars upper_letter_tables digit_alnum)

lemma hash_chars_some: "\<forall>c \<in> set s. in_table ALPHANUM_SPACE_SLASH c \<Longrightarrow> \<exists>v. hash_chars k s n = Some v"
proof (induction k s n rule: hash_chars.induct)
  case (3 k c cs n)
  then have "\<not> nchar c ALPHANUM_SPACE_SLASH < 0" by (simp add: in_table_def)
  then show ?case using 3 by (simp add: Let_def)
qed simp_all

lemma save_callsign_some:
  assumes "\<forall>c \<in> set s. in_table ALPHANUM_SPACE_SLASH c"
  shows "\<exists>v h'. save_callsign hi s h = (Some v, h')"
proof -
  obtain v where "hash_chars 11 s 0 = Some v" using hash_chars_some[OF assms] by blast
  then show ?thesis unfolding save_callsign_def Let_def by (simp only: option.case prod.inject option.inject) blast
qed

lemma call_digit: "std_call c k \<Longrightarrow> \<exists>d \<in> set c. is_digit d"
  by (induction rule: std_call.induct) (simp_all add: three_chars)

lemma alnum_not: "\<not> alnum CHR ''_''" "\<not> alnum CHR ''/''" "\<not> is_digit CHR ''Q''" "\<not> is_digit CHR ''R''" "\<not> is_digit CHR ''Z''"
  by (simp_all add: alnum_def in_table_def nchar_def is_digit_def code_def)

lemma call_no_token:
  assumes "std_call c k" "suffix_ok x"
  shows "c @ x \<noteq> ''DE''" "c @ x \<noteq> ''QRZ''" "c @ x \<noteq> ''CQ''" "\<not> starts_with (c @ x) ''CQ_''"
    "ends_with (c @ x) ''/P'' = (x = ''/P'')" "ends_with (c @ x) ''/R'' = (x = ''/R'')"
proof -
  have l: "3 \<le> length c" and a: "\<forall>x \<in> set c. alnum x" using assms(1) call_length call_chars by blast+
  show "c @ x \<noteq> ''DE''" "c @ x \<noteq> ''CQ''" using l by (auto simp: append_eq_Cons_conv)
  show "c @ x \<noteq> ''QRZ''"
  proof
    assume q: "c @ x = ''QRZ''"
    then have "length c + length x = 3" by (metis length_append list.size(3,4) numeral_3_eq_3 One_nat_def add.right_neutral add_Suc_right)
    then have "length x = 0" using l by linarith
    then have "c = ''QRZ''" using q by simp
    then show False using call_digit[OF assms(1)] alnum_not by auto
  qed
  obtain p q r c' where c: "c = p # q # r # c'" using l by (metis Suc_le_length_iff numeral_3_eq_3)
  show "\<not> starts_with (c @ x) ''CQ_''" using a alnum_not by (auto simp: c starts_with_def)
  have "last c \<noteq> CHR ''P'' \<or> last (butlast c) \<noteq> CHR ''/''" "last (butlast c) \<noteq> CHR ''/''"
    using a alnum_not by (metis c in_set_butlastD last_in_set butlast.simps(2) list.distinct(1))+
  moreover have "\<And>z. ends_with c [CHR ''/'', z] \<Longrightarrow> CHR ''/'' \<in> set c"
    unfolding ends_with_def by (metis in_set_dropD list.set_intros(1))
  ultimately have "\<not> ends_with c ''/P''" "\<not> ends_with c ''/R''" using a alnum_not by blast+
  then show "ends_with (c @ x) ''/P'' = (x = ''/P'')" "ends_with (c @ x) ''/R'' = (x = ''/R'')"
    using assms(2) by (auto simp: suffix_ok_def ends_with_def)
qed

lemma call_slash_chars: "std_call c k \<Longrightarrow> suffix_ok x \<Longrightarrow> \<forall>y \<in> set (c @ x). in_table ALPHANUM_SPACE_SLASH y"
  using call_chars alnum_chars by (fastforce simp: suffix_ok_def in_table_def nchar_def is_digit_def code_def Let_def)

lemma pack28_call:
  assumes "std_call c k" "suffix_ok x"
  shows "pack28 (c @ x) hi h = (NTOKENS + MAX22 + int (six_val k), if x = [] then 0 else 1, snd (save_callsign hi (c @ x) h))"
proof -
  obtain v h' where s: "save_callsign hi (c @ x) h = (Some v, h')"
    using save_callsign_some[OF call_slash_chars[OF assms], of hi h] by blast
  have len: "(if x = ''/P'' \<or> x = ''/R'' then length (c @ x) - 2 else length (c @ x)) = length c"
    using assms(2) by (auto simp: suffix_ok_def)
  show ?thesis using assms(2) call_no_token[OF assms] unfolding pack28_def Let_def call_no_token(5,6)[OF assms] len pack_basecall_call[OF assms]
    by (auto simp: s suffix_ok_def)
qed

lemma unpack28_call:
  assumes "std_call c k" "suffix_ok x" "ip = (if x = [] then 0 else 1)" "x = ''/P'' \<Longrightarrow> i3 = 2" "x = ''/R'' \<Longrightarrow> i3 = 1"
  shows "unpack28 (word_of_int (NTOKENS + MAX22 + int (six_val k))) ip i3 hi h = (True, c @ x, snd (save_callsign hi (c @ x) h))"
proof -
  have v: "six_chars (six_val k) = k" "six_val k < 262177560" using assms(1) call_six_ok six_chars_val by blast+
  then have "uint (word_of_int (NTOKENS + MAX22 + int (six_val k)) :: u32) = NTOKENS + MAX22 + int (six_val k)"
    by (intro uint_of_int) (simp_all add: NTOKENS_def MAX22_def)
  moreover have "3 \<le> length c" using assms(1) call_length by blast
  ultimately show ?thesis using assms(2-5) v(1) base_call_restored[OF assms(1)]
    by (auto simp: unpack28_def Let_def NTOKENS_def MAX22_def suffix_ok_def)
qed

lemma unpack28_token:
  "unpack28 (word_of_int 0) ip i3 hi h = (True, ''DE'', h)" "unpack28 (word_of_int 1) ip i3 hi h = (True, ''QRZ'', h)"
  "unpack28 (word_of_int 2) ip i3 hi h = (True, ''CQ'', h)"
  by (simp_all add: unpack28_def NTOKENS_def)

lemma n29_fields:
  fixes m ip :: u32
  assumes "take_bit 28 m = m" "ip = 0 \<or> ip = 1"
  shows "take_bit 29 (push_bit 1 m OR ip) = push_bit 1 m OR ip" "drop_bit 1 (push_bit 1 m OR ip) = m" "(push_bit 1 m OR ip) AND 1 = ip"
  using assms(2,1) by (elim disjE; rule_tac [!] word_bitwise; simp add: bitwise)+

subsection \<open>Locators and reports\<close>

definition locator_letter :: "char \<Rightarrow> bool" where "locator_letter c \<longleftrightarrow> in_range c CHR ''A'' CHR ''R''"

text \<open>The third word of a standard message: nothing, an acknowledgement, a locator, a report.\<close>

inductive std_extra :: "string \<Rightarrow> bool" where
  none: "std_extra []"
| rrr: "std_extra ''RRR''"
| rr73: "std_extra ''RR73''"
| fin: "std_extra ''73''"
| grid: "locator_letter a \<Longrightarrow> locator_letter b \<Longrightarrow> is_digit d \<Longrightarrow> is_digit e \<Longrightarrow> std_extra [a, b, d, e]"
| report: "- 30 \<le> dd \<Longrightarrow> dd \<le> 99 \<Longrightarrow> std_extra (int_to_dd dd 2 True)"
| r_report: "- 30 \<le> dd \<Longrightarrow> dd \<le> 99 \<Longrightarrow> std_extra (CHR ''R'' # int_to_dd dd 2 True)"

lemma two_digits: "v < 100 \<Longrightarrow> dd_digits 2 v = [digit_char (v div 10), digit_char (v mod 10)]"
  by (simp add: numeral_2_eq_2 digit_char_def minus_div_mult_eq_mod)

lemma digit_is: "n < 10 \<Longrightarrow> is_digit (digit_char n)"
  by (simp add: is_digit_def)

lemma report_shape:
  assumes "- 100 < dd" "dd \<le> 99"
  defines "v \<equiv> nat \<bar>dd\<bar>"
  shows "int_to_dd dd 2 True = [if dd < 0 then CHR ''-'' else CHR ''+'', digit_char (v div 10), digit_char (v mod 10)]"
proof -
  have "v < 100" using assms by simp
  then show ?thesis using assms by (simp add: int_to_dd_def two_digits v_def)
qed

lemma report_read:
  assumes "- 100 < dd" "dd \<le> 99"
  shows "dd_to_int (int_to_dd dd 2 True) 3 = dd"
proof -
  define v where "v = nat \<bar>dd\<bar>"
  have d: "v div 10 < 10" "v mod 10 < 10" using assms by (simp_all add: v_def)
  have "dd_loop 2 [digit_char (v div 10), digit_char (v mod 10)] 0 = int v"
    using d by (simp add: numeral_2_eq_2 digit_is) presburger
  then show ?thesis using assms unfolding report_shape[OF assms] by (simp add: dd_to_int_def cat_def v_def)
qed

lemma grid_word:
  assumes "0 \<le> v" "v < 2 ^ 15"
  shows "take_bit 15 (word_of_int v :: u16) = word_of_int v" "uint (word_of_int v :: u16) = v"
    "ucast (drop_bit 15 (word_of_int v :: u16)) = (0 :: u8)"
    "take_bit 15 (word_of_int v OR 0x8000 :: u16) = word_of_int v" "ucast (drop_bit 15 (word_of_int v OR 0x8000 :: u16)) = (1 :: u8)"
proof -
  show u: "uint (word_of_int v :: u16) = v" using assms by (intro uint_of_int) simp_all
  then have t: "take_bit 15 (word_of_int v :: u16) = word_of_int v" using assms by (intro take_bit_fits) simp
  then show "take_bit 15 (word_of_int v :: u16) = word_of_int v" .
  have b: "\<not> bit (word_of_int v :: u16) n" if "15 \<le> n" for n using small_bits[OF t that] .
  have "drop_bit 15 (word_of_int v :: u16) = 0" by (rule bit_word_eqI) (simp add: bit_drop_bit_eq b)
  then show "ucast (drop_bit 15 (word_of_int v :: u16)) = (0 :: u8)" by simp
  show "take_bit 15 (word_of_int v OR 0x8000 :: u16) = word_of_int v"
  proof (rule bit_word_eqI)
    fix n assume "n < LENGTH(16)"
    have "(0x8000 :: u16) = push_bit 15 1" by simp
    then have "bit (0x8000 :: u16) n \<Longrightarrow> n = 15" by (simp only: bit_push_bit_iff bit_1_iff) simp
    then show "bit (take_bit 15 (word_of_int v OR 0x8000) :: u16) n = bit (word_of_int v :: u16) n"
      using b[of n] by (cases "15 \<le> n") (auto simp: bit_take_bit_iff bit_or_iff simp del: bit_word_of_int_iff)
  qed
  show "ucast (drop_bit 15 (word_of_int v OR 0x8000 :: u16)) = (1 :: u8)"
    by (rule word_bitwise) (simp_all add: positions_def bit_simps b del: bit_word_of_int_iff)
qed

lemma grid_roundtrip:
  assumes "std_extra x"
  shows "unpackgrid (take_bit 15 (packgrid x)) (ucast (drop_bit 15 (packgrid x))) = x"
  using assms
proof (cases rule: std_extra.cases)
  case (grid a b d e)
  show ?thesis
  proof (cases "x = ''RR73''")
    case True
    then show ?thesis by (simp add: packgrid_def unpackgrid_def MAXGRID4_def)
  next
    case False
    define A B D E where v: "A = code a - 65" "B = code b - 65" "D = code d - 48" "E = code e - 48"
    have "65 \<le> code a \<and> code a \<le> 82" "65 \<le> code b \<and> code b \<le> 82" "48 \<le> code d \<and> code d \<le> 57" "48 \<le> code e \<and> code e \<le> 57"
      using grid by (simp_all add: locator_letter_def in_range_def is_digit_def)
    then have c: "code a = 65 + A" "code b = 65 + B" "code d = 48 + D" "code e = 48 + E" "A < 18" "B < 18" "D < 10" "E < 10"
      unfolding v by linarith+
    define N where "N = ((A * 18 + B) * 10 + D) * 10 + E"
    have n: "N < 32400" unfolding N_def
      using radix_less[OF radix_less[OF radix_less[OF c(5,6)] c(7)] c(8)] by simp
    have p: "packgrid x = word_of_int (int N)"
      unfolding N_def using False grid c(1-4) by (auto simp: packgrid_def cat_def locator_letter_def)
    have dig: "N div 10 div 10 div 18 = A" "N div 10 div 10 mod 18 = B" "N div 10 mod 10 = D" "N mod 10 = E"
      unfolding N_def by (simp_all only: radix c(5-8))
    have u: "uint (word_of_int (int N) :: u16) = int N" using n by (intro uint_of_int) simp_all
    have "unpackgrid (word_of_int (int N)) 0 = [char_of (65 + A), char_of (65 + B), char_of (48 + D), char_of (48 + E)]"
      using n c(5) unfolding unpackgrid_def Let_def u by (simp add: MAXGRID4_def dig)
    note f = this
    have "0 \<le> int N" "int N < 2 ^ 15" using n by simp_all
    note w = grid_word(1,3)[OF this]
    have "x = [char_of (65 + A), char_of (65 + B), char_of (48 + D), char_of (48 + E)]"
      using grid(1) char_ofI[OF c(1)] char_ofI[OF c(2)] char_ofI[OF c(3)] char_ofI[OF c(4)] by simp
    then show ?thesis unfolding p w f by (rule sym)
  qed
next
  case (report dd)
  define v where "v = MAXGRID4 + (35 + dd)"
  have v: "0 \<le> v" "v < 2 ^ 15" "MAXGRID4 < v" "v - MAXGRID4 = 35 + dd" using report by (simp_all add: v_def MAXGRID4_def)
  have "packgrid x = word_of_int v"
    using report report_read[of dd] report_shape[of dd]
    by (simp add: packgrid_def cat_def in_range_def v_def uint_of_int)
  then show ?thesis using v report grid_word[OF v(1,2)] by (simp add: unpackgrid_def Let_def)
next
  case (r_report dd)
  define v where "v = MAXGRID4 + (35 + dd)"
  have v: "0 \<le> v" "v < 2 ^ 15" "MAXGRID4 < v" "v - MAXGRID4 = 35 + dd" using r_report by (simp_all add: v_def MAXGRID4_def)
  have "packgrid x = word_of_int v OR 0x8000"
    using r_report report_read[of dd] report_shape[of dd]
    by (simp add: packgrid_def cat_def in_range_def v_def uint_of_int)
  then show ?thesis using v r_report grid_word[OF v(1,2)] by (simp add: unpackgrid_def Let_def)
qed (simp_all add: packgrid_def unpackgrid_def MAXGRID4_def)

subsection \<open>Whole messages\<close>

text \<open>A first or second word: a token or a standard call sign, with or without the suffix of the message.\<close>

inductive std_word :: "string \<Rightarrow> string \<Rightarrow> bool" for sfx where
  token: "w = ''CQ'' \<or> w = ''DE'' \<or> w = ''QRZ'' \<Longrightarrow> std_word sfx w"
| plain: "std_call c k \<Longrightarrow> std_word sfx c"
| suffixed: "std_call c k \<Longrightarrow> std_word sfx (c @ sfx)"

definition packed_ok :: "string \<Rightarrow> string \<Rightarrow> int \<Rightarrow> u32 \<Rightarrow> bool" where
  "packed_ok sfx w n ip \<longleftrightarrow> 0 \<le> n \<and> n < 2 ^ 28 \<and> (ip = 0 \<or> ip = 1)
     \<and> (ends_with w ''/P'' \<longleftrightarrow> ip = 1 \<and> sfx = ''/P'') \<and> (ends_with w ''/R'' \<longleftrightarrow> ip = 1 \<and> sfx = ''/R'')"

definition unpacks :: "'h hash_ptr \<Rightarrow> string \<Rightarrow> string \<Rightarrow> int \<Rightarrow> u32 \<Rightarrow> bool" where
  "unpacks hi sfx w n ip \<longleftrightarrow> (\<forall>h i3. (ip = 1 \<longrightarrow> i3 = (if sfx = ''/P'' then 2 else 1)) \<longrightarrow>
     (\<exists>h'. unpack28 (word_of_int n) ip i3 hi h = (True, w, h')))"

lemma word_packed:
  fixes hi :: "'h hash_ptr" and hi' :: "'g hash_ptr"
  assumes "sfx = ''/P'' \<or> sfx = ''/R''" "std_word sfx w"
  shows "\<exists>n ip h'. pack28 w hi h = (n, ip, h') \<and> packed_ok sfx w n ip \<and> unpacks hi' sfx w n ip"
  using assms(2)
proof cases
  case token
  then show ?thesis
    by (elim disjE) (simp_all add: pack28_def packed_ok_def unpacks_def unpack28_def NTOKENS_def ends_with_def)
next
  case (plain k)
  have x: "suffix_ok []" by (simp add: suffix_ok_def)
  have "six_val k < 262177560" using plain call_six_ok six_chars_val by blast
  then show ?thesis using pack28_call[OF plain x, of hi h] unpack28_call[OF plain x refl, of _ hi'] call_no_token(5,6)[OF plain x] assms(1)
    by (auto simp: packed_ok_def unpacks_def NTOKENS_def MAX22_def)
next
  case (suffixed c k)
  have x: "suffix_ok sfx" "sfx \<noteq> []" using assms(1) by (auto simp: suffix_ok_def)
  have "six_val k < 262177560" using suffixed call_six_ok six_chars_val by blast
  then show ?thesis using pack28_call[OF suffixed(2) x(1), of hi h] unpack28_call[OF suffixed(2) x(1) refl, of _ hi'] call_no_token(5,6)[OF suffixed(2) x(1)] assms(1) x(2)
    unfolding suffixed(1) by (auto simp: packed_ok_def unpacks_def NTOKENS_def MAX22_def)
qed

lemma std_encode_decode:
  fixes hi :: "'h hash_ptr" and hi' :: "'g hash_ptr"
  assumes sfx: "sfx = ''/P'' \<or> sfx = ''/R''" and w: "std_word sfx w1" "std_word sfx w2" and x: "std_extra x"
  shows "\<exists>p h1 h2. encode_std hi w1 w2 x h = (RC_OK, p, h1) \<and> length p = 10 \<and> get_type p = STANDARD
    \<and> decode_std p hi' h' = (RC_OK, (w1, w2, x), h2)"
proof -
  obtain n1 i1 g1 where 1: "pack28 w1 hi h = (n1, i1, g1)" "packed_ok sfx w1 n1 i1" "unpacks hi' sfx w1 n1 i1"
    using word_packed[OF sfx w(1), of hi h hi'] by blast
  obtain n2 i2 g2 where 2: "pack28 w2 hi g1 = (n2, i2, g2)" "packed_ok sfx w2 n2 i2" "unpacks hi' sfx w2 n2 i2"
    using word_packed[OF sfx w(2), of hi g1 hi'] by blast
  define i3 :: u8 where "i3 = (if sfx = ''/P'' \<and> (i1 = 1 \<or> i2 = 1) then 2 else 1)"
  define a b :: u32 where "a = push_bit 1 (word_of_int n1) OR i1" and "b = push_bit 1 (word_of_int n2) OR i2"
  have m: "take_bit 28 (word_of_int n1 :: u32) = word_of_int n1" "take_bit 28 (word_of_int n2 :: u32) = word_of_int n2"
    using 1(2) 2(2) by (auto simp: packed_ok_def uint_of_int intro!: take_bit_fits)
  have i: "i1 = 0 \<or> i1 = 1" "i2 = 0 \<or> i2 = 1" using 1(2) 2(2) by (auto simp: packed_ok_def)
  note fa = n29_fields[OF m(1) i(1), folded a_def] and fb = n29_fields[OF m(2) i(2), folded b_def]
  let ?p = "std_payload a b (packgrid x) i3"
  have a1: "a OR 1 = a" if "i1 = 1" unfolding a_def that by (simp only: or.assoc or.idem)
  have neg: "\<not> n1 < 0" "\<not> n2 < 0" using 1(2) 2(2) by (simp_all add: packed_ok_def)
  have e: "ends_with w1 ''/P'' \<longleftrightarrow> i1 = 1 \<and> sfx = ''/P''" "ends_with w1 ''/R'' \<longleftrightarrow> i1 = 1 \<and> sfx = ''/R''"
    "ends_with w2 ''/P'' \<longleftrightarrow> i2 = 1 \<and> sfx = ''/P''" "ends_with w2 ''/R'' \<longleftrightarrow> i2 = 1 \<and> sfx = ''/R''"
    using 1(2) 2(2) unfolding packed_ok_def by blast+
  have enc: "encode_std hi w1 w2 x h = (RC_OK, ?p, g2)"
    using sfx unfolding encode_std_def 1(1) Let_def prod.case 2(1) e a_def [symmetric] b_def [symmetric]
    by (elim disjE; cases "i1 = 1"; simp add: neg a1 i3_def)
  have t3: "take_bit 3 i3 = i3" by (simp add: i3_def)
  note f = std_fields[OF fa(1) fb(1) t3, of "packgrid x"]
  have ty: "get_type ?p = STANDARD" unfolding get_type_def f by (simp add: i3_def)
  have i3: "i1 = 1 \<longrightarrow> i3 = (if sfx = ''/P'' then 2 else 1)" "i2 = 1 \<longrightarrow> i3 = (if sfx = ''/P'' then 2 else 1)"
    by (simp_all add: i3_def)
  obtain k1 where u1: "unpack28 (word_of_int n1) i1 i3 hi' h' = (True, w1, k1)" using 1(3) i3(1) unfolding unpacks_def by blast
  obtain k2 where u2: "unpack28 (word_of_int n2) i2 i3 hi' k1 = (True, w2, k2)" using 2(3) i3(2) unfolding unpacks_def by blast
  have "decode_std ?p hi' h' = (RC_OK, (w1, w2, x), k2)"
    unfolding decode_std_def f fa fb Let_def u1 u2 by (simp add: grid_roundtrip[OF x] u2)
  then show ?thesis using enc ty by (auto simp: std_payload_def)
qed

subsection \<open>Texts\<close>

definition join3 :: "string \<Rightarrow> string \<Rightarrow> string \<Rightarrow> string" where
  "join3 a b c = a @ '' '' @ b @ (if c = [] then [] else '' '' @ c)"

lemma token_first: "is_word w \<Longrightarrow> length w \<le> n \<Longrightarrow> r = [] \<or> hd r \<noteq> CHR '' '' \<Longrightarrow> copy_token n (w @ CHR '' '' # r) = (w, r)"
  by (cases r) (auto simp: copy_token_def is_word_def dropWhile_append takeWhile_append)

lemma token_last: "CHR '' '' \<notin> set w \<Longrightarrow> length w \<le> n \<Longrightarrow> copy_token n w = (w, [])"
proof -
  assume a: "CHR '' '' \<notin> set w" "length w \<le> n"
  then have "\<forall>c \<in> set w. c \<noteq> CHR '' ''" by auto
  then have t: "takeWhile (\<lambda>c. c \<noteq> CHR '' '') w = w" "dropWhile (\<lambda>c. c \<noteq> CHR '' '') w = []" by simp_all
  show ?thesis unfolding copy_token_def t using a(2) by simp
qed

lemma token_join:
  assumes "is_word a" "is_word b" "CHR '' '' \<notin> set c" "length a < 12" "length b < 12" "length c < 20"
  shows "message_encode hi (join3 a b c) h =
     (let (rc, p, h) = encode_std hi a b c h in
      if rc = RC_OK then (rc, p, h)
      else (let (rc, p, h) = encode_nonstd hi a b c h in
            if rc = RC_OK then (rc, p, h) else (RC_OK, encode_free (join3 a b c), h)))"
proof -
  obtain b0 bs where b: "b = b0 # bs" using assms(2) by (cases b) (simp_all add: is_word_def)
  then have "b0 \<noteq> CHR '' ''" using assms(2) unfolding is_word_def by (metis list.set_intros(1))
  then have hd: "hd b \<noteq> CHR '' ''" "\<And>y. hd (b @ y) \<noteq> CHR '' ''" unfolding b by simp_all
  have 1: "copy_token 12 (join3 a b c) = (a, b @ (if c = [] then [] else '' '' @ c))"
    using token_first[of a 12 "b @ (if c = [] then [] else '' '' @ c)"] assms(1,4) hd by (simp add: join3_def)
  have 2: "copy_token 12 (b @ (if c = [] then [] else '' '' @ c)) = (b, c)"
    using token_first[of b 12 c] token_last[of b 12] assms(2,3,5) by (cases c) (auto simp: is_word_def)
  have 3: "copy_token 20 c = (c, [])" using token_last assms(3,6) by simp
  show ?thesis unfolding message_encode_def 1 2 3 Let_def prod.case using assms(4-6) by simp
qed

lemma std_word_shape:
  assumes "sfx = ''/P'' \<or> sfx = ''/R''" "std_word sfx w"
  shows "is_word w \<and> length w \<le> 9"
  using assms(2)
proof cases
  case token
  then show ?thesis by (auto simp: is_word_def)
next
  case (plain k)
  then have "CHR '' '' \<notin> set w" using call_chars alnum_chars by blast
  then show ?thesis using call_length[OF plain] by (auto simp: is_word_def)
next
  case (suffixed c k)
  then have "CHR '' '' \<notin> set c" using call_chars alnum_chars by blast
  then show ?thesis using call_length[OF suffixed(2)] assms(1) suffixed(1) by (auto simp: is_word_def)
qed

lemma digit_no_space: "n < 10 \<Longrightarrow> CHR '' '' \<noteq> digit_char n"
  using digit_not_space[of "digit_char n"] by auto

lemma std_extra_shape: "std_extra x \<Longrightarrow> CHR '' '' \<notin> set x \<and> length x \<le> 4"
proof (induction rule: std_extra.induct)
  case (grid a b d e)
  then show ?case by (auto simp: locator_letter_def in_range_def is_digit_def)
next
  case (report dd)
  then show ?case by (simp add: report_shape digit_no_space)
next
  case (r_report dd)
  then show ?case by (simp add: report_shape digit_no_space)
qed simp_all

lemma std_text_roundtrip:
  fixes hi :: "'h hash_ptr" and hi' :: "'g hash_ptr"
  assumes sfx: "sfx = ''/P'' \<or> sfx = ''/R''" and w: "std_word sfx w1" "std_word sfx w2" and x: "std_extra x"
  shows "\<exists>p h1 h2. message_encode hi (join3 w1 w2 x) h = (RC_OK, p, h1) \<and> length p = 10 \<and> get_type p = STANDARD
    \<and> message_decode p hi' h' = Inr (RC_OK, w1 @ '' '' @ w2 @ '' '' @ x, h2)"
proof -
  note s = std_word_shape[OF sfx w(1)] std_word_shape[OF sfx w(2)] std_extra_shape[OF x]
  obtain p h1 h2 where e: "encode_std hi w1 w2 x h = (RC_OK, p, h1)" "length p = 10" "get_type p = STANDARD"
      "decode_std p hi' h' = (RC_OK, (w1, w2, x), h2)"
    using std_encode_decode[OF sfx w x, of hi h hi' h'] by blast
  have "message_encode hi (join3 w1 w2 x) h = (RC_OK, p, h1)" using s e(1) by (simp add: token_join)
  moreover have "message_decode p hi' h' = Inr (RC_OK, w1 @ '' '' @ w2 @ '' '' @ x, h2)"
    using s e(3,4) by (simp add: message_decode_def append_string_def)
  ultimately show ?thesis using e(2,3) by blast
qed

text \<open>
  C10. What a standard message says survives the codec: two words, each a token (CQ, DE, QRZ) or a standard call
  sign, with or without the one suffix /P or /R of the message, and nothing, RRR, RR73, 73, a locator or a report
  from -30 to 99 with or without an R. The encoder packs it into ten bytes and the decoder, whatever call signs the
  two stations' hash tables hold, gives the same words back, separated by single spaces (with a space at the end
  when the third word is missing).
\<close>

theorem std_message_roundtrip:
  fixes hi :: "'h hash_ptr" and hi' :: "'g hash_ptr"
  assumes "sfx = ''/P'' \<or> sfx = ''/R''" "std_word sfx w1" "std_word sfx w2" "std_extra x"
  shows "\<exists>p h1 h2. message_encode hi (join3 w1 w2 x) h = (RC_OK, p, h1) \<and> length p = 10
    \<and> message_decode p hi' h' = Inr (RC_OK, w1 @ '' '' @ w2 @ '' '' @ x, h2)"
  using std_text_roundtrip[OF assms, of hi h hi' h'] by blast

lemma demo_calls:
  "std_call ''3DA0XYZ'' ''3D0XYZ''" "std_call ''K1JT'' '' K1JT ''" "std_call ''SA0PRF'' ''SA0PRF''"
proof -
  have l: "letters ''XYZ''" "letters ''JT''" "letters ''PRF''" by (simp_all add: letters_def upper_letter_def code_def)
  have a: "alnum CHR ''K''" "alnum CHR ''S''" "alnum CHR ''A''" "is_digit CHR ''1''" "is_digit CHR ''0''"
    by (simp_all add: alnum_def in_table_def nchar_def is_digit_def code_def)
  show "std_call ''3DA0XYZ'' ''3D0XYZ''" using swazi[OF l(1)] by (simp add: pad_def)
  show "std_call ''K1JT'' '' K1JT ''" using one[OF a(1,4) l(2)] by (simp add: pad_def)
  show "std_call ''SA0PRF'' ''SA0PRF''" using two[OF a(2,3,5) l(3)] by (simp add: pad_def)
qed

theorem std_message_roundtrip_witness:
  "\<exists>p h1 h2. message_encode (None :: unit hash_ptr) ''3DA0XYZ/P K1JT R-07'' () = (RC_OK, p, h1)
    \<and> message_decode p (Some \<lparr>lookup_hash = hashtable_lookup, save_hash = hashtable_add\<rparr>) [] = Inr (RC_OK, ''3DA0XYZ/P K1JT R-07'', h2)"
proof -
  have w: "std_word ''/P'' ''3DA0XYZ/P''" "std_word ''/P'' ''K1JT''"
    using suffixed[OF demo_calls(1), of "''/P''"] plain[OF demo_calls(2)] by simp_all
  have x: "std_extra ''R-07''" using r_report[of "-7"] by (simp add: report_shape digit_char_values)
  have p: "''/P'' = ''/P'' \<or> ''/P'' = ''/R''" by simp
  have t: "join3 ''3DA0XYZ/P'' ''K1JT'' ''R-07'' = ''3DA0XYZ/P K1JT R-07''" by (simp add: join3_def)
  show ?thesis using std_message_roundtrip[OF p w x, of "None :: unit hash_ptr" "()"
      "Some \<lparr>lookup_hash = hashtable_lookup, save_hash = hashtable_add\<rparr>" "[]"] unfolding t by auto
qed

end
