(* ===== verification/FtxBounds.thy ===== *)
theory FtxBounds
  imports FtxStandard DecodeSpots
begin

text \<open>
  The decoder of the codec on arbitrary payloads: its fields fit their buffers, its text fits the caller's, and
  the call sign table it fills keeps its invariant.
\<close>

definition table_if :: "hashtable hash_if" where
  "table_if = \<lparr>lookup_hash = hashtable_lookup, save_hash = hashtable_add\<rparr>"

lemma lookup_short: "hashtable_lookup ty x t = Some c \<Longrightarrow> length c \<le> 11"
  by (induction t) (auto simp: snprintf_s_def split: if_splits)

lemma lookup_callsign_short: "length (lookup_callsign (Some table_if) ty x t) \<le> 13"
  using lookup_short by (auto simp: lookup_callsign_def table_if_def add_brackets_def split: option.split)

lemma trim_length: "length (trim_front s) \<le> length s" "length (trim_back s) \<le> length s" "length (trim_copy s) \<le> length s" "length (trim s) \<le> length s"
proof -
  show f: "length (trim_front s) \<le> length s" for s by (simp add: trim_front_def length_dropWhile_le)
  show b: "length (trim_back s) \<le> length s" for s using length_dropWhile_le[of _ "rev s"] by (simp add: trim_back_def)
  show "length (trim_copy s) \<le> length s" using f[of s] by (simp add: trim_copy_def Let_def min_def)
  show "length (trim s) \<le> length s" using b[of "trim_front s"] f[of s] by (simp add: trim_def)
qed

lemma dd_digits_length: "length (dd_digits w v) = w"
  by (induction w v rule: dd_digits.induct) simp_all

lemma int_to_dd_length: "length (int_to_dd v w s) \<le> w + 1" "0 \<le> v \<Longrightarrow> length (int_to_dd v w False) = w"
  by (auto simp: int_to_dd_def dd_digits_length)

lemma six_chars_length: "length (six_chars n) = 6" "length (four_chars n) = 4"
  by (simp_all add: six_chars_def four_chars_def)

lemma base_call_length: "length c = 6 \<Longrightarrow> length (base_call c) \<le> 7"
  using trim_length(3)[of "drop 3 c"] trim_length(3)[of "drop 1 c"] trim_length(3)[of c] by (simp add: base_call_def)

lemma hash22_small: "hash22 v < 0x400000"
proof -
  have "hash22 v = take_bit 22 (ucast (drop_bit 42 (47055833459 * v)))"
    by (simp add: hash22_def take_bit_eq_mask mask_eq_exp_minus_1)
  then have "uint (hash22 v) < 2 ^ 22" using uint_fits[of 22 "hash22 v"] by simp
  then show ?thesis by (simp add: word_less_def)
qed

lemma save_keeps_good: "table_good t \<Longrightarrow> table_good (snd (save_callsign (Some table_if) c t))"
  using hash22_small by (auto simp: save_callsign_def table_if_def Let_def intro!: hashtable_add_good split: option.split)

lemma unpack28_fits:
  assumes "unpack28 n ip i3 (Some table_if) t = (ok, s, t')"
  shows "length s \<le> 13 \<and> (table_good t \<longrightarrow> table_good t')"
proof -
  define v r where "v = uint n" and "r = base_call (six_chars (nat (v - NTOKENS - MAX22)))"
  have r: "length r \<le> 7" unfolding r_def by (intro base_call_length six_chars_length)
  have f: "length (trim_front (four_chars m)) \<le> 4" for m using trim_length(1)[of "four_chars m"] by (simp add: six_chars_length)
  have d: "length (int_to_dd (v - 3) 3 False) \<le> 4" using int_to_dd_length(1)[of "v - 3" 3 False] by simp
  consider "v < NTOKENS" | "NTOKENS \<le> v" "v - NTOKENS < MAX22" | "NTOKENS \<le> v" "MAX22 \<le> v - NTOKENS" by linarith
  then show ?thesis
  proof cases
    case 1
    then show ?thesis using assms d f[of "nat (v - 1003)"] unfolding unpack28_def Let_def v_def [symmetric] by (auto split: if_splits)
  next
    case 2
    then show ?thesis using assms lookup_callsign_short unfolding unpack28_def Let_def v_def [symmetric] by auto
  next
    case 3
    then show ?thesis using assms r save_keeps_good unfolding unpack28_def Let_def v_def [symmetric] r_def [symmetric]
      by (auto split: if_splits)
  qed
qed

lemma unpackgrid_fits: "length (unpackgrid g ir) \<le> 6"
proof -
  define r where "r = int_to_dd (uint g - MAXGRID4 - 35) 2 True"
  have "length r \<le> 3" unfolding r_def using int_to_dd_length(1)[of _ 2 True] by simp
  then show ?thesis unfolding unpackgrid_def Let_def r_def [symmetric] by simp
qed

lemma chars58_length: "length (chars58 k n) = k"
  by (induction k n rule: chars58.induct) simp_all

lemma unpack58_fits: "unpack58 v (Some table_if) t = (s, t') \<Longrightarrow> length s \<le> 11 \<and> (table_good t \<longrightarrow> table_good t')"
  using trim_length(3)[of "chars58 11 (unat v)"] save_keeps_good by (auto simp: unpack58_def Let_def chars58_length split: if_splits)

lemma free_text_length: "length (free_text k b) = k"
  by (induction k b rule: free_text.induct) (simp add: Let_def split: prod.split)+

lemma shift_right_length: "length (shift_right b c) = length b"
  by (induction b c rule: shift_right.induct) simp_all

lemma decode_std_fits:
  assumes "decode_std p (Some table_if) t = (rc, (f1, f2, f3), t')"
  shows "length f1 \<le> 13 \<and> length f2 \<le> 13 \<and> length f3 \<le> 6 \<and> (table_good t \<longrightarrow> table_good t')"
proof -
  obtain ok1 s1 t1 where 1: "unpack28 (drop_bit 1 (std_n29a p)) (std_n29a p AND 1) (get_i3 p) (Some table_if) t = (ok1, s1, t1)"
    by (metis prod_cases3)
  obtain ok2 s2 t2 where 2: "unpack28 (drop_bit 1 (std_n29b p)) (std_n29b p AND 1) (get_i3 p) (Some table_if) t1 = (ok2, s2, t2)"
    by (metis prod_cases3)
  show ?thesis using assms unpack28_fits[OF 1] unpack28_fits[OF 2] unpackgrid_fits
    unfolding decode_std_def Let_def 1 2 prod.case by (auto split: if_splits)
qed

lemma decode_nonstd_fits:
  assumes "decode_nonstd p (Some table_if) t = (rc, (f1, f2, f3), t')"
  shows "length f1 \<le> 13 \<and> length f2 \<le> 13 \<and> length f3 \<le> 6 \<and> (table_good t \<longrightarrow> table_good t')"
proof -
  obtain c t1 where 1: "unpack58 (nonstd_n58 p) (Some table_if) t = (c, t1)" by fastforce
  define l where "l = lookup_callsign (Some table_if) HASH_12_BITS (nonstd_n12 p) t1"
  have "length c \<le> 13" "length l \<le> 13" "table_good t \<longrightarrow> table_good t1"
    using unpack58_fits[OF 1] lookup_callsign_short unfolding l_def by auto
  then show ?thesis using assms unfolding decode_nonstd_def Let_def 1 prod.case l_def [symmetric]
    by (auto split: if_splits)
qed

lemma hex_length: "length (decode_telemetry_hex p) \<le> 18"
proof -
  have "length (concat (map (\<lambda>b. [f b, g b]) bs)) = 2 * length bs" for f g :: "u8 \<Rightarrow> char" and bs by (induction bs) simp_all
  then show ?thesis by (simp add: decode_telemetry_hex_def decode_telemetry_def shift_right_length)
qed

lemma message_decode_fits:
  "\<exists>rc s t'. message_decode p (Some table_if) t = Inr (rc, s, t') \<and> length s < FTX_MAX_MESSAGE_LENGTH \<and> (table_good t \<longrightarrow> table_good t')"
proof (cases "get_type p")
  case STANDARD
  obtain rc f1 f2 f3 t' where d: "decode_std p (Some table_if) t = (rc, (f1, f2, f3), t')" by (metis prod_cases3)
  from decode_std_fits[OF this] show ?thesis
    using STANDARD by (simp add: message_decode_def d append_string_def FTX_MAX_MESSAGE_LENGTH_def)
next
  case NONSTD_CALL
  obtain rc f1 f2 f3 t' where d: "decode_nonstd p (Some table_if) t = (rc, (f1, f2, f3), t')" by (metis prod_cases3)
  from decode_nonstd_fits[OF this] show ?thesis
    using NONSTD_CALL by (simp add: message_decode_def d append_string_def FTX_MAX_MESSAGE_LENGTH_def)
next
  case FREE_TEXT
  have "length (decode_free p) \<le> 13" using trim_length(4)[of "free_text 13 (decode_telemetry p)"] by (simp add: decode_free_def free_text_length)
  then show ?thesis using FREE_TEXT by (simp add: message_decode_def append_string_def FTX_MAX_MESSAGE_LENGTH_def)
next
  case TELEMETRY
  then show ?thesis using hex_length[of p] by (simp add: message_decode_def append_string_def FTX_MAX_MESSAGE_LENGTH_def)
qed (simp_all add: message_decode_def FTX_MAX_MESSAGE_LENGTH_def)

end
