(* ===== verification/FtxLink.thy ===== *)
theory FtxLink
  imports FtxOnAir FtxBounds TxDaemon
begin

text \<open>
  The link: from the words of a request through the codec of the transmitter, the air and the decoder of a
  receiver to the text of the other station.
\<close>

subsection \<open>What the encoder of a message produces\<close>

lemma and_F8: "x AND 7 = 0 \<Longrightarrow> x AND 0xF8 = x" for x :: u8
proof -
  assume "x AND 7 = 0"
  then have "\<not> bit (x AND 7) 0" "\<not> bit (x AND 7) 1" "\<not> bit (x AND 7) 2" by simp_all
  then have b: "\<not> bit x 0" "\<not> bit x 1" "\<not> bit x 2" by (simp_all add: bit_simps)
  show "x AND 0xF8 = x" by (rule word_bitwise) (use b in \<open>simp_all add: bitwise\<close>)
qed

definition clean_payload :: "payload \<Rightarrow> bool" where
  "clean_payload p \<longleftrightarrow> length p = 10 \<and> p ! 9 AND 7 = 0"

lemma clean_tail: "clean_payload p \<Longrightarrow> blank_tail p = p"
  using and_F8[of "p ! 9"] by (simp add: clean_payload_def blank_tail_def)

lemma std_payload_clean: "clean_payload (std_payload a b g i)"
proof -
  have "(ucast (push_bit 6 y) OR push_bit 3 z) AND 7 = (0 :: u8)" for y :: u16 and z :: u8 by (rule word_bitwise) (simp_all add: bitwise)
  then show ?thesis by (simp add: clean_payload_def std_payload_def)
qed

lemma nonstd_payload_clean: "clean_payload (nonstd_payload a b c d e f)"
proof -
  have "(push_bit 7 x OR push_bit 6 y OR push_bit 3 z) AND 7 = (0 :: u8)" for x y z :: u8 by (rule word_bitwise) (simp_all add: bitwise)
  then show ?thesis by (simp add: clean_payload_def nonstd_payload_def)
qed

lemma length_mul42 [simp]: "length (mul42 bs k) = length bs"
  by (induction bs arbitrary: k) (simp_all add: Let_def)

lemma length_free_fold: "length (fold free_step cs b71) = length b71"
  by (induction cs arbitrary: b71) (simp_all add: free_step_def Let_def)

lemma length_shift_left: "length (fst (shift_left bs k)) = length bs"
  by (induction bs arbitrary: k) (simp_all add: Let_def case_prod_beta)

lemma encode_free_clean: "clean_payload (encode_free t)"
proof -
  define b71 where "b71 = fold free_step (free_chars t) (replicate 9 0)"
  obtain r c where s: "shift_left (rev b71) 0 = (r, c)" by fastforce
  have "length r = 9" using length_shift_left[of "rev b71" 0] length_free_fold[of "free_chars t" "replicate 9 0"] s
    by (simp add: b71_def)
  moreover have "push_bit 7 c AND 7 = (0 :: u8)" for c :: u8 by (rule word_bitwise) (simp_all add: bitwise)
  ultimately show ?thesis unfolding encode_free_def Let_def b71_def [symmetric] s by (simp add: clean_payload_def nth_append)
qed

lemma encode_std_clean: "encode_std hi a b x h = (RC_OK, p, h1) \<Longrightarrow> clean_payload p"
  unfolding encode_std_def by (auto simp: Let_def std_payload_clean split: prod.splits if_splits)

lemma encode_nonstd_clean: "encode_nonstd hi a b x h = (RC_OK, p, h1) \<Longrightarrow> clean_payload p"
  unfolding encode_nonstd_def by (auto simp: Let_def nonstd_payload_clean split: prod.splits if_splits option.splits)

lemma message_encode_clean: "message_encode hi t h = (RC_OK, p, h1) \<Longrightarrow> clean_payload p"
  unfolding message_encode_def
  by (auto simp: Let_def encode_free_clean encode_std_clean encode_nonstd_clean split: prod.splits if_splits)

lemma standard_not_blank: "get_type p = STANDARD \<Longrightarrow> p \<noteq> replicate 10 0"
  by (auto simp: get_type_def get_i3_def get_n3_def)

subsection \<open>The symbols\<close>

lemma costas_length: "length kFT8_Costas_pattern = 7" "\<forall>t \<in> set kFT8_Costas_pattern. t < 8"
  by (simp_all add: kFT8_Costas_pattern_def)

lemma data_tones_small: "\<forall>t \<in> set (data_tones cw). t < 8"
  using gray_tone sym3_less by (auto simp: data_tones_def)

lemma ft8_encode_tones: "length (ft8_encode p) = 79" "\<forall>t \<in> set (ft8_encode p). t < 8"
  "a = 0 \<or> a = 36 \<or> a = 72 \<Longrightarrow> take 7 (drop a (ft8_encode p)) = kFT8_Costas_pattern"
proof -
  define ds where "ds = data_tones (encode174 (ftx_add_crc p))"
  have e: "ft8_encode p = frame ds" by (simp add: ft8_encode_frame ds_def)
  have l: "length ds = 58" by (simp add: ds_def)
  show "length (ft8_encode p) = 79" unfolding e by (rule frame_length[OF l])
  show "\<forall>t \<in> set (ft8_encode p). t < 8"
    using costas_length(2) data_tones_small unfolding e frame_def ds_def by (auto dest: in_set_takeD in_set_dropD)
  show "a = 0 \<or> a = 36 \<or> a = 72 \<Longrightarrow> take 7 (drop a (ft8_encode p)) = kFT8_Costas_pattern"
    using l costas_length(1) unfolding e frame_def by (elim disjE) simp_all
qed

text \<open>
  C22. The encoder is well typed: for every ten bytes of payload it yields 79 symbols below 8, three Costas patterns
  around 58 Gray-coded groups of three bits of a codeword of 22 bytes whose first 91 bits are the message with its
  CRC and which passes all 83 parity checks of the decoder.
\<close>

theorem symbols_are_codeword:
  assumes "length p = 10" "cw = encode174 (ftx_add_crc p)"
  shows "ft8_encode p = frame (map (\<lambda>s. kFT8_Gray_map ! sym3 cw (3 * s)) [0..<FT8_ND])
    \<and> length (ft8_encode p) = FT8_NN \<and> (\<forall>t \<in> set (ft8_encode p). t < 8)
    \<and> pack_bits (map (bit_num cw) [0..<FTX_LDPC_N]) FTX_LDPC_K = ftx_add_crc p
    \<and> ldpc_check (map (bit_num cw) [0..<FTX_LDPC_N]) = 0"
proof -
  have mb: "message_bytes (ftx_add_crc p)" using add_crc_message_bytes assms(1) by simp
  have b: "map (bit_num cw) [0..<FTX_LDPC_N] = code_bits (ftx_add_crc p)"
    unfolding code_bits_def assms(2) using encode174_bits(2)[OF mb] by (intro map_cong refl) (simp add: bit_num_def)
  show ?thesis unfolding b
    using ft8_encode_frame[of p] ft8_encode_tones(1,2)[of p] pack_code_bits[OF mb] codeword_checks
    unfolding data_tones_def assms(2) [symmetric] by (simp add: FT8_NN_def)
qed

theorem symbols_are_codeword_witness:
  "length (ft8_encode (replicate 10 0)) = 79 \<and> ldpc_check (map (bit_num (encode174 (ftx_add_crc (replicate 10 0)))) [0..<FTX_LDPC_N]) = 0"
proof -
  have "length (replicate 10 (0 :: u8)) = 10" by simp
  from symbols_are_codeword[OF this refl] show ?thesis unfolding FT8_NN_def by (elim conjE) (intro conjI)
qed

text \<open>The encoder as \<^verbatim>\<open>mainFT8\<close> calls it: without a call sign table; any failure is the code of the codec.\<close>

definition rc_code :: "message_rc \<Rightarrow> int" where
  "rc_code rc = (case rc of RC_OK \<Rightarrow> 0 | ERROR_CALLSIGN1 \<Rightarrow> 1 | ERROR_CALLSIGN2 \<Rightarrow> 2 | ERROR_SUFFIX \<Rightarrow> 3 | ERROR_GRID \<Rightarrow> 4 | ERROR_TYPE \<Rightarrow> 5)"

definition message_symbols :: "string \<Rightarrow> int + nat list" where
  "message_symbols text =
     (let (rc, p, h) = message_encode (None :: unit hash_ptr) text () in if rc \<noteq> RC_OK then Inl (rc_code rc) else Inr (ft8_encode p))"

lemma payload_heard:
  assumes "clean_payload p" "p \<noteq> replicate 10 0" "0 < iters"
    and "rx_shape w" "position_ok w c" "tones_heard w c (ft8_encode p)"
  shows "ftx_decode_candidate plain w c iters = Inr (Some \<lparr>payload = p, msg_hash = payload_crc p\<rparr>)"
proof -
  have l: "10 \<le> length p" using assms(1) by (simp add: clean_payload_def)
  have "blank_tail p \<noteq> replicate 10 0" using assms(2) clean_tail[OF assms(1)] by simp
  from heard_decodes[OF rx_shape_ok[OF assms(4)] assms(5) l this assms(3,6)] show ?thesis unfolding clean_tail[OF assms(1)] .
qed

text \<open>
  C8. Whatever text \<^verbatim>\<open>ftx_message_encode\<close> packs gets through: its 79 symbols are tones below 8 that begin, go on
  in the middle and end with the Costas pattern, and every waterfall of a slot in which each of the 58 data tones
  is the loudest of its eight makes \<^verbatim>\<open>ftx_decode_candidate\<close> return exactly the packed message, with its CRC as
  the hash, in the first iteration. Only the all-blank payload, which the decoder rejects, is left out.
\<close>

theorem packed_message_heard:
  assumes "message_encode hi text h = (RC_OK, p, h1)" "p \<noteq> replicate 10 0" "0 < iters"
    and "rx_shape w" "position_ok w c" "tones_heard w c (ft8_encode p)"
  shows "ftx_decode_candidate plain w c iters = Inr (Some \<lparr>payload = p, msg_hash = payload_crc p\<rparr>)
    \<and> length (ft8_encode p) = FT8_NN \<and> (\<forall>t \<in> set (ft8_encode p). t < 8)
    \<and> (\<forall>a \<in> {0, 36, 72}. take FT8_LENGTH_SYNC (drop a (ft8_encode p)) = kFT8_Costas_pattern)"
  using payload_heard[OF message_encode_clean[OF assms(1)] assms(2-6)] ft8_encode_tones(1,2)[of p] ft8_encode_tones(3)[of _ p] by (auto simp: FT8_NN_def FT8_LENGTH_SYNC_def)

text \<open>A waterfall with nothing but these tones, from the first block and the hundredth bin on.\<close>

definition painted :: "nat list \<Rightarrow> ftx_waterfall" where
  "painted tones = \<lparr>num_blocks = NUM_BLOCKS, num_bins = NUM_BIN, time_osr = K_TIME_OSR, freq_osr = K_FREQ_OSR,
     mag = map (\<lambda>i. if i div 2048 < 79 \<and> i mod 2048 = 100 + tones ! (i div 2048) then 200 else 40) [0..<MAG_ARRAY],
     block_stride = K_TIME_OSR * K_FREQ_OSR * NUM_BIN\<rparr>"

definition painted_cand :: ftx_candidate where
  "painted_cand = \<lparr>score = 0, time_offset = 0, freq_offset = 100, time_sub = 0, freq_sub = 0\<rparr>"

lemma painted_shape: "rx_shape (painted tones)" "position_ok (painted tones) painted_cand"
  by (simp_all add: rx_shape_def position_ok_def painted_def painted_cand_def wide_constants del: upt.simps upt_rec_numeral)

lemma painted_heard:
  assumes "length tones = 79" "\<forall>t \<in> set tones. t < 8"
  shows "tones_heard (painted tones) painted_cand tones"
proof -
  have cell: "cell_db (painted tones) painted_cand i t = (if t = tones ! i then - 20 else - 100)" if "i < 79" "t < 8" for i t
  proof -
    have x: "nat (cand_mag (painted tones) painted_cand + int (i * block_stride (painted tones))) + t = 2048 * i + (100 + t)"
      by (simp add: cand_mag_def painted_def painted_cand_def wide_constants)
    have d: "(2048 * i + (100 + t)) div 2048 = i" "(2048 * i + (100 + t)) mod 2048 = 100 + t" "2048 * i + (100 + t) < MAG_ARRAY"
      using that by (simp_all add: wide_constants)
    have "mag (painted tones) ! (2048 * i + (100 + t)) = (if t = tones ! i then 200 else 40)"
      using d that(1) by (simp add: painted_def del: upt.simps upt_rec_numeral)
    then show ?thesis unfolding cell_db_def x by (simp add: byte_db_def)
  qed
  show ?thesis unfolding tones_heard_def
  proof (intro allI impI)
    fix k assume "k < FT8_ND"
    then have k: "data_index k < 72" "int (data_index k) < 92" by (auto simp: data_index_def FT8_ND_def)
    then have "tones ! data_index k < 8" using assms by simp
    then have "loudest (cell_db (painted tones) painted_cand (data_index k)) (tones ! data_index k)"
      using k cell[of "data_index k"] by (simp add: loudest_def)
    then show "heard (painted tones) painted_cand k (tones ! data_index k)"
      using k(2) by (simp add: heard_def painted_def painted_cand_def wide_constants del: upt.simps upt_rec_numeral)
  qed
qed

lemma demo_cq_packed:
  "\<exists>p. message_encode (None :: unit hash_ptr) ''CQ SA0PRF JO99'' () = (RC_OK, p, ()) \<and> p \<noteq> replicate 10 0"
proof -
  have w: "std_word ''/P'' ''CQ''" "std_word ''/P'' ''SA0PRF''" using plain[OF demo_calls(3)] token by simp_all
  have x: "std_extra ''JO99''" using grid[of "CHR ''J''" "CHR ''O''" "CHR ''9''" "CHR ''9''"]
    by (simp add: locator_letter_def in_range_def is_digit_def code_def)
  obtain p h1 where p: "message_encode (None :: unit hash_ptr) (join3 ''CQ'' ''SA0PRF'' ''JO99'') () = (RC_OK, p, h1)" "get_type p = STANDARD"
    using std_text_roundtrip[OF disjI1[OF refl] w x, of "None :: unit hash_ptr" "()" "None :: unit hash_ptr" "()"] by blast
  have t: "join3 ''CQ'' ''SA0PRF'' ''JO99'' = ''CQ SA0PRF JO99''" by (simp add: join3_def)
  show ?thesis using p(1) standard_not_blank[OF p(2)] unfolding t by auto
qed

theorem packed_message_heard_witness:
  "\<exists>p m. message_encode (None :: unit hash_ptr) ''CQ SA0PRF JO99'' () = (RC_OK, p, ())
    \<and> ftx_decode_candidate [] (painted (ft8_encode p)) painted_cand K_LDPC_ITERS = Inr (Some m) \<and> payload m = p"
proof -
  obtain p where p: "message_encode (None :: unit hash_ptr) ''CQ SA0PRF JO99'' () = (RC_OK, p, ())" "p \<noteq> replicate 10 0"
    using demo_cq_packed by blast
  have i: "0 < K_LDPC_ITERS" by (simp add: K_LDPC_ITERS_def)
  show ?thesis
    using packed_message_heard[OF p i painted_shape painted_heard[OF ft8_encode_tones(1,2)]] p(1) by auto
qed

subsection \<open>From a request to the other station's text\<close>

lemma upper_append: "upper (a @ b) = upper a @ upper b"
  by (simp add: upper_def)

lemma symbols_of_standard:
  fixes hi' :: "'g hash_ptr"
  assumes "sfx = ''/P'' \<or> sfx = ''/R''" "std_word sfx w1" "std_word sfx w2" "std_extra x" "x \<noteq> []"
  shows "\<exists>p h2. message_symbols (w1 @ '' '' @ w2 @ '' '' @ x) = Inr (ft8_encode p) \<and> clean_payload p \<and> p \<noteq> replicate 10 0
    \<and> message_decode p hi' h' = Inr (RC_OK, w1 @ '' '' @ w2 @ '' '' @ x, h2)"
proof -
  obtain p h1 h2 where p: "message_encode (None :: unit hash_ptr) (join3 w1 w2 x) () = (RC_OK, p, h1)" "get_type p = STANDARD"
    "message_decode p hi' h' = Inr (RC_OK, w1 @ '' '' @ w2 @ '' '' @ x, h2)"
    using std_text_roundtrip[OF assms(1-4), of "None :: unit hash_ptr" "()" hi' h'] by blast
  have j: "join3 w1 w2 x = w1 @ '' '' @ w2 @ '' '' @ x" using assms(5) by (simp add: join3_def)
  show ?thesis
    using p(1,3) message_encode_clean[OF p(1)] standard_not_blank[OF p(2)] unfolding j by (auto simp: message_symbols_def)
qed



end
