(* ===== verification/FtxReceive.thy ===== *)
theory FtxReceive
  imports FtxLink
begin

text \<open>
  The receiver with its own codec: \<^verbatim>\<open>ft8_subsystem\<close> over the candidate search, the candidate decoder and the
  message decoder of \<^verbatim>\<open>libft8\<close> as the other theories model them. Only the Fourier transform is left as a parameter.
\<close>

text \<open>
  The library as \<^verbatim>\<open>decode\<close> calls it; \<open>junk\<close> and \<open>plain\<close> are what the candidate and the bit arrays held before.
  A result that is an error does not happen (search and text), or is a division by a variance of zero (candidate).
\<close>

definition libft8 :: "((real \<times> real) list \<Rightarrow> (real \<times> real) list) \<Rightarrow> ftx_candidate list \<Rightarrow> nat list \<Rightarrow> rx_lib" where
  "libft8 F junk plain = \<lparr>fft = F,
     find_candidates = (\<lambda>w limit s. case ftx_find_candidates w limit junk s of Inl e \<Rightarrow> [] | Inr (hp, n) \<Rightarrow> take n hp),
     decode_candidate = (\<lambda>w c. case ftx_decode_candidate plain w c K_LDPC_ITERS of Inl e \<Rightarrow> None | Inr r \<Rightarrow> r)\<rparr>"

definition message_text :: unpack where
  "message_text m tab = (case message_decode (payload m) (Some table_if) tab of
     Inl e \<Rightarrow> (None, tab) | Inr (rc, s, tab') \<Rightarrow> ((if rc = RC_OK then Some s else None), tab'))"

subsection \<open>The table stays good\<close>

lemma message_text_good: "table_good tab \<Longrightarrow> table_good (snd (message_text m tab))"
  using message_decode_fits[of "payload m" tab] by (auto simp: message_text_def)

lemma handlers_keep_table [simp]:
  "calltable (log_message env c t s) = calltable s" "calltable (handle_ours env c d r s) = calltable s"
  "calltable (handle_other env q c t s) = calltable s" "handle_cq env c r s = Inr (Some s') \<Longrightarrow> calltable s' = calltable s"
  by (auto simp: log_message_def handle_ours_def handle_other_def handle_cq_def Let_def split: prod.splits option.splits if_splits)

lemma handle_new_table:
  assumes "d_unpack env = message_text" "handle_new env q c m s = Inr s'" "table_good (calltable s)"
  shows "table_good (calltable s')"
proof -
  obtain tx tab where u: "message_text m (calltable s) = (tx, tab)" by fastforce
  have g: "table_good tab" using message_text_good[OF assms(3), of m] u by simp
  have "calltable s' = tab"
    using assms(2) unfolding handle_new_def assms(1) u prod.case Let_def
    by (auto simp: rbind_Inr_iff split: option.splits prod.splits if_splits)
  then show ?thesis using g by simp
qed

lemma decode_loop_table:
  assumes "d_unpack env = message_text"
  shows "decode_loop env q cs s = Inr s' \<Longrightarrow> table_good (calltable s) \<Longrightarrow> table_good (calltable s')"
proof (induction cs arbitrary: s)
  case (Cons c cs)
  then obtain s1 where s1: "handle_candidate env q c s = Inr s1" "decode_loop env q cs s1 = Inr s'" by (auto simp: rbind_Inr_iff)
  have "table_good (calltable s1)"
    using s1(1) Cons.prems(2) handle_new_table[OF assms, of q c _ _ s1]
    by (fastforce simp: handle_candidate_def split: option.splits probe_result.splits)
  then show ?case using Cons.IH s1(2) by blast
qed simp

lemma decode_table:
  assumes "d_unpack env = message_text" "decode env cs results tab q = Inr (ds, n, tab', lg, q')" "table_good tab"
  shows "table_good tab'"
  using assms(2,3) decode_loop_table[OF assms(1), of q cs] by (fastforce simp: decode_def rbind_Inr_iff)

subsection \<open>What the search hands over\<close>

lemma search_candidates:
  assumes "rx_shape w" "length junk = K_MAX_CANDIDATES"
  shows "\<exists>hp n. ftx_find_candidates w K_MAX_CANDIDATES junk K_MIN_SCORE = Inr (hp, n) \<and> n \<le> K_MAX_CANDIDATES
    \<and> find_candidates (libft8 F junk plain) w K_MAX_CANDIDATES K_MIN_SCORE = take n hp
    \<and> best_of K_MAX_CANDIDATES (mset (above w K_MIN_SCORE)) (mset (take n hp))
    \<and> (\<forall>c \<in> set (take n hp). position_ok w c)"
proof -
  obtain hp n where r: "ftx_find_candidates w K_MAX_CANDIDATES junk K_MIN_SCORE = Inr (hp, n)" "length hp = length junk" "n \<le> length hp"
    "best_of K_MAX_CANDIDATES (mset (above w K_MIN_SCORE)) (mset (take n hp))"
    using search_result[OF rx_shape_ok[OF assms(1)], of K_MAX_CANDIDATES junk K_MIN_SCORE] assms(2) by auto
  have "position_ok w c" if "c \<in> set (take n hp)" for c
    using best_of_mem[OF r(4)] that above_facts[OF rx_shape_ok[OF assms(1)], of c K_MIN_SCORE] by simp
  then show ?thesis using r assms(2) by (auto simp: libft8_def)
qed

lemma position_candidate: "rx_shape w \<Longrightarrow> position_ok w c \<Longrightarrow> candidate_ok c"
  by (simp add: rx_shape_def position_ok_def candidate_ok_def)

text \<open>The candidate decoder fails only on likelihoods that are all equal.\<close>

lemma decode_candidate_total:
  assumes "waterfall_ok w" "position_ok w c"
  shows "\<exists>ls. ft8_extract_likelihood w c = Inr ls \<and> length ls = FTX_LDPC_N
    \<and> (ftx_decode_candidate plain w c iters = Inl e \<longrightarrow> e = InvalidCast \<and> (\<forall>x \<in> set ls. \<forall>y \<in> set ls. x = y))"
proof -
  obtain ls where ls: "ft8_extract_likelihood w c = Inr ls" "length ls = FTX_LDPC_N"
    using extract_total[OF assms, of "[0..<FT8_ND]"] by (auto simp: ft8_extract_likelihood_def FT8_ND_def FTX_LDPC_N_def simp del: upt.simps upt_rec_numeral)
  have "e = InvalidCast \<and> (\<forall>x \<in> set ls. \<forall>y \<in> set ls. x = y)" if "ftx_decode_candidate plain w c iters = Inl e"
  proof (cases "ftx_normalize_logl ls")
    case (Inl e')
    then have "e' = InvalidCast" "\<not> (0 < ((\<Sum>x\<leftarrow>ls. x * x) - sum_list ls * sum_list ls * (1 / real FTX_LDPC_N)) * (1 / real FTX_LDPC_N))"
      by (auto simp: ftx_normalize_logl_def Let_def split: if_splits)
    then show ?thesis using that Inl ls(1) variance_pos[OF _ _ _ ls(2)] by (auto simp: ftx_decode_candidate_def)
  next
    case (Inr ls')
    then show ?thesis using that ls(1) by (auto simp: ftx_decode_candidate_def Let_def split: prod.splits if_splits)
  qed
  then show ?thesis using ls by blast
qed

lemma kept_among_best:
  assumes "best_of limit M K" "x \<in># M" "size {#y \<in># M. score x \<le> score y#} \<le> limit"
  shows "x \<in># K"
proof (rule ccontr)
  assume n: "x \<notin># K"
  have sub: "K \<subseteq># M" and sz: "size K = min limit (size M)" and best: "\<forall>x \<in># M - K. \<forall>y \<in># K. score x \<le> score y"
    using assms(1) unfolding best_of_def by blast+
  have xm: "x \<in># M - K" using n assms(2) by (simp add: in_diff_count not_in_iff)
  then have le: "\<forall>y \<in># K. score x \<le> score y" using best by blast
  have "K \<noteq> M" using n assms(2) by blast
  then have "size K < size M" using sub by (metis mset_subset_size subset_mset.le_less)
  then have k: "size K = limit" using sz by simp
  have "add_mset x K \<subseteq># M" using xm sub by (metis add_mset_add_single insert_DiffM mset_subset_eq_add_right mset_subset_eq_insertD mset_subset_eq_mono_add single_subset_iff subset_mset.add_diff_inverse subset_mset.add_left_mono)
  then have "filter_mset (\<lambda>y. score x \<le> score y) (add_mset x K) \<subseteq># filter_mset (\<lambda>y. score x \<le> score y) M"
    by (rule multiset_filter_mono)
  moreover have "filter_mset (\<lambda>y. score x \<le> score y) (add_mset x K) = add_mset x K"
    using le by (simp add: filter_mset_eq_conv)
  ultimately have "size (add_mset x K) \<le> size {#y \<in># M. score x \<le> score y#}" by (metis size_mset_mono)
  then show False using k assms(3) by simp
qed

subsection \<open>A slot\<close>

lemma subsystem_table:
  assumes "d_unpack env = message_text" "ft8_subsystem lib env mem is qs results tab q = Inr (ds, n, tab', lg, q')" "table_good tab"
  shows "table_good tab'"
proof (cases mem)
  case True
  then obtain cs where "decode env cs results tab q = Inr (ds, n, tab', lg, q')"
    using assms(2) by (auto simp: ft8_subsystem_def rbind_Inr_iff)
  then show ?thesis using decode_table[OF assms(1)] assms(3) by blast
qed (use assms(2,3) in \<open>simp add: ft8_subsystem_def\<close>)


definition empty_table :: hashtable where
  "empty_table = hashtable_init (replicate CALLSIGN_HASH_TABLE_SIZE \<lparr>used = False, n22 = 0, entry_call = []\<rparr>)"


text \<open>
  C29. The text decoder is total on what a noisy channel may deliver: for every ten bytes of payload and every well
  formed call sign table the fields fit their slices of the 35-byte buffer, the text and its NUL fit
  \<^verbatim>\<open>FTX_MAX_MESSAGE_LENGTH\<close>, and the table is well formed afterwards.
\<close>

theorem message_decode_in_bounds:
  assumes "table_good t"
  shows "\<exists>rc s t'. message_decode p (Some table_if) t = Inr (rc, s, t') \<and> length s < FTX_MAX_MESSAGE_LENGTH \<and> table_good t'"
  using message_decode_fits[of p t] assms by blast

theorem message_decode_in_bounds_witness:
  "\<exists>rc s t'. message_decode (replicate 9 255 @ [0x60]) (Some table_if) empty_table = Inr (rc, s, t') \<and> length s < 35 \<and> table_good t'"
proof -
  have "table_good empty_table" unfolding empty_table_def by (rule hashtable_init_good) simp
  from message_decode_in_bounds[OF this] show ?thesis by (auto simp: FTX_MAX_MESSAGE_LENGTH_def)
qed

end
