(* ===== verification/FtxHeard.thy ===== *)
theory FtxHeard
  imports FtxReceive
begin

text \<open>
  A signal that is heard and is among the best 120 of the slot reaches the message loop. The second half shows that
  this can happen: a transmission alone in the waterfall has the highest score, and at most 120 positions share it.
\<close>

subsection \<open>From the waterfall to the decoded messages\<close>

lemma see_candidates_mem:
  "see_candidates dec w N cs = Inr xs \<Longrightarrow> c \<in> set cs \<Longrightarrow> \<exists>x \<in> set xs. see_candidate dec w N c = Inr x"
  by (induction cs arbitrary: xs) (auto simp: rbind_Inr_iff)

lemma heard_scored: "tones_heard w (c\<lparr>score := s\<rparr>) ts = tones_heard w c ts"
proof -
  have "cell_db w (c\<lparr>score := s\<rparr>) = cell_db w c" by (intro ext) (simp add: cell_db_def cand_mag_def)
  then show ?thesis by (simp add: tones_heard_def heard_def)
qed

lemma position_scored: "position_ok w (c\<lparr>score := s\<rparr>) = position_ok w c"
  by (simp add: position_ok_def)

text \<open>The positions that score as much.\<close>

definition rivals :: "ftx_waterfall \<Rightarrow> int \<Rightarrow> ftx_candidate list" where
  "rivals w s = filter (\<lambda>d. s \<le> score d) (above w K_MIN_SCORE)"

lemma heard_decoded:
  assumes "rx_shape w" "length junk = K_MAX_CANDIDATES" "c \<in> set (positions_of w)"
    and "message_encode hi text h = (RC_OK, p, h1)" "p \<noteq> replicate 10 0" "tones_heard w c (ft8_encode p)"
    and "ft8_sync_score w c = Inr s" "K_MIN_SCORE \<le> s" "length (rivals w s) \<le> K_MAX_CANDIDATES"
  shows "\<exists>cs. see_candidates (decode_candidate (libft8 F junk plain)) w N
        (find_candidates (libft8 F junk plain) w K_MAX_CANDIDATES K_MIN_SCORE) = Inr cs
    \<and> (\<exists>x \<in> set cs. decoded_msg x = Some \<lparr>payload = p, msg_hash = payload_crc p\<rparr>
        \<and> freq_hz x = c_int ((of_int (freq_offset c) + real (freq_sub c) / real (freq_osr w)) / FT8_SYMBOL_PERIOD))"
proof -
  define lib where "lib = libft8 F junk plain"
  define d where "d = c\<lparr>score := s\<rparr>"
  have d: "scored w c = d" using assms(7) by (simp add: scored_def d_def)
  obtain hp n where k: "find_candidates lib w K_MAX_CANDIDATES K_MIN_SCORE = take n hp"
    "best_of K_MAX_CANDIDATES (mset (above w K_MIN_SCORE)) (mset (take n hp))" "\<forall>c \<in> set (take n hp). position_ok w c"
    using search_candidates[OF assms(1,2), of F plain] unfolding lib_def by blast
  have "d \<in> scored w ` set (positions_of w)" using d assms(3) by (metis imageI)
  then have "d \<in># mset (above w K_MIN_SCORE)" using assms(8) by (simp add: above_def d_def)
  moreover have "{#y \<in># mset (above w K_MIN_SCORE). score d \<le> score y#} = mset (rivals w s)"
    by (simp add: rivals_def d_def)
  ultimately have dk: "d \<in> set (take n hp)" using kept_among_best[OF k(2)] assms(9) by simp
  have "\<forall>c \<in> set (take n hp). candidate_ok c" using k(3) position_candidate[OF assms(1)] by blast
  from see_candidates_total[OF assms(1) this] obtain cs where cs: "see_candidates (decode_candidate lib) w N (take n hp) = Inr cs" by blast
  obtain x where x: "x \<in> set cs" "see_candidate (decode_candidate lib) w N d = Inr x"
    using see_candidates_mem[OF cs dk] by blast
  have i: "0 < K_LDPC_ITERS" by (simp add: K_LDPC_ITERS_def)
  have "ftx_decode_candidate plain w d K_LDPC_ITERS = Inr (Some \<lparr>payload = p, msg_hash = payload_crc p\<rparr>)"
    using payload_heard[OF message_encode_clean[OF assms(4)] assms(5) i assms(1)] positions_ok[OF assms(3)] assms(6)
    unfolding d_def by (simp add: position_scored heard_scored)
  then have m: "decode_candidate lib w d = Some \<lparr>payload = p, msg_hash = payload_crc p\<rparr>" by (simp add: lib_def libft8_def)
  have "decoded_msg x = Some \<lparr>payload = p, msg_hash = payload_crc p\<rparr>
      \<and> freq_hz x = c_int ((of_int (freq_offset c) + real (freq_sub c) / real (freq_osr w)) / FT8_SYMBOL_PERIOD)"
    using x(2) unfolding see_candidate_def m Let_def by (auto simp: rbind_Inr_iff d_def)
  then show ?thesis using cs x(1) k(1) unfolding lib_def by auto
qed

subsection \<open>A transmission alone in the waterfall\<close>

lemma painted_fields: "num_blocks (painted ts) = 92" "block_stride (painted ts) = 2048" "num_bins (painted ts) = 512"
  "time_osr (painted ts) = 2" "freq_osr (painted ts) = 2" "length (mag (painted ts)) = 188416"
  by (simp_all add: painted_def wide_constants del: upt.simps upt_rec_numeral)

lemma painted_at:
  assumes "0 \<le> b" "b < 92" "0 \<le> r" "r < 2048"
  shows "mag_at (painted ts) (b * 2048 + r) = Inr (if b < 79 \<and> r = int (100 + ts ! nat b) then 200 else 40)"
proof -
  obtain i j where e: "b = int i" "r = int j" using assms by (metis nonneg_int_cases)
  have i: "i < 92" "j < 2048" using assms e by simp_all
  have n: "nat (b * 2048 + r) = 2048 * i + j" using e by (simp add: nat_add_distrib nat_mult_distrib)
  have "(2048 * i + j) div 2048 = i" "(2048 * i + j) mod 2048 = j" "2048 * i + j < 188416" using i by simp_all
  then have "mag (painted ts) ! (2048 * i + j) = (if i < 79 \<and> j = 100 + ts ! i then 200 else 40)"
    by (simp add: painted_def wide_constants del: upt.simps upt_rec_numeral)
  moreover have "0 \<le> b * 2048 + r" "b * 2048 + r < 188416" using assms by linarith+
  ultimately show ?thesis using e unfolding mag_at_def n painted_fields by simp
qed

text \<open>What a sum misses to the highest one; it never shrinks.\<close>

definition deficit :: "int \<times> int \<Rightarrow> int" where
  "deficit a = 160 * snd a - fst a"

lemma painted_value: "mag_at (painted ts) i = Inr v \<Longrightarrow> v = 200 \<or> v = 40"
  by (auto simp: mag_at_def painted_def split: if_splits simp del: upt.simps upt_rec_numeral)

lemma neighbours_deficit:
  assumes "mag_at (painted ts) p = Inr a"
  shows "add_neighbours (painted ts) p ds acc = Inr acc' \<Longrightarrow>
    deficit acc + (if a = 40 then 160 * int (length ds) else 0) \<le> deficit acc' \<and> snd acc' = snd acc + int (length ds)"
proof (induction ds arbitrary: acc)
  case Nil
  then show ?case by simp
next
  case (Cons d ds)
  obtain tot num where acc: "acc = (tot, num)" by fastforce
  obtain b where b: "mag_at (painted ts) (p + d) = Inr b" "add_neighbours (painted ts) p ds (tot + (uint a - uint b), num + 1) = Inr acc'"
    using Cons.prems assms unfolding acc by (auto simp: rbind_Inr_iff)
  have "a = 200 \<or> a = 40" "b = 200 \<or> b = 40" using painted_value assms b(1) by blast+
  then have "deficit acc + (if a = 40 then 160 else 0) \<le> deficit (tot + (uint a - uint b), num + 1)"
    unfolding acc deficit_def by auto
  then show ?case using Cons.IH[OF b(2)] unfolding acc by (auto simp: algebra_simps)
qed

lemma group_deficit:
  "score_group (painted ts) c m ks acc = Inr acc' \<Longrightarrow> deficit acc \<le> deficit acc'"
proof (induction ks arbitrary: acc)
  case (Cons k ks)
  define b where "b = time_offset c + int (FT8_SYNC_OFFSET * m + k)"
  define p where "p = cand_mag (painted ts) c + int ((FT8_SYNC_OFFSET * m + k) * block_stride (painted ts)) + int (kFT8_Costas_pattern ! k)"
  define ns where "ns = sync_neighbours (painted ts) (kFT8_Costas_pattern ! k) k b"
  note e = Cons.prems[unfolded score_group.simps Let_def, folded b_def, folded p_def, folded ns_def]
  consider "b < 0" | "\<not> b < 0" "int (num_blocks (painted ts)) \<le> b" | "\<not> b < 0" "\<not> int (num_blocks (painted ts)) \<le> b" by blast
  then show ?case
  proof cases
    case 1
    then show ?thesis using e Cons.IH by simp
  next
    case 2
    then show ?thesis using e by simp
  next
    case 3
    then obtain acc1 where a: "add_neighbours (painted ts) p ns acc = Inr acc1" "score_group (painted ts) c m ks acc1 = Inr acc'"
      using e by (auto simp: rbind_Inr_iff)
    have "deficit acc \<le> deficit acc1"
    proof (cases ns)
      case Nil
      then show ?thesis using a(1) by (cases acc) simp
    next
      case (Cons n ns')
      then obtain v where "mag_at (painted ts) p = Inr v" using a(1) by (cases acc) (auto simp: rbind_Inr_iff)
      from neighbours_deficit[OF this a(1)] show ?thesis by (simp split: if_splits)
    qed
    then show ?thesis using Cons.IH[OF a(2)] by linarith
  qed
qed simp

text \<open>The first symbol of the second Costas group is always inside the recording.\<close>

lemma second_group_deficit:
  assumes "position_ok (painted ts) c" "- 10 \<le> time_offset c" "time_offset c \<le> 19"
    and "row_pos (painted ts) c + 3 \<noteq> int (100 + ts ! nat (time_offset c + 36))"
    and "score_group (painted ts) c 1 [0..<7] acc = Inr acc'"
  shows "deficit acc + 160 \<le> deficit acc'"
proof -
  define b where "b = time_offset c + int (FT8_SYNC_OFFSET * 1 + 0)"
  have b: "b = time_offset c + 36" "0 \<le> b" "b < 79" using assms(2,3) by (simp_all add: b_def FT8_SYNC_OFFSET_def)
  have ok: "waterfall_ok (painted ts)" by (rule rx_shape_ok[OF painted_shape(1)])
  define p where "p = cand_mag (painted ts) c + int ((FT8_SYNC_OFFSET * 1 + 0) * block_stride (painted ts)) + int (kFT8_Costas_pattern ! 0)"
  have k0: "kFT8_Costas_pattern ! 0 = 3" by (simp add: kFT8_Costas_pattern_def)
  have p: "p = b * 2048 + (row_pos (painted ts) c + 3)"
    unfolding p_def cand_cell[OF ok] k0 by (simp add: b_def painted_fields)
  have r: "0 \<le> row_pos (painted ts) c + 3" "row_pos (painted ts) c + 3 < 2048"
    using row_pos_bounds[OF ok assms(1)] by (simp_all add: painted_fields)
  have v: "mag_at (painted ts) p = Inr 40"
    using painted_at[of b "row_pos (painted ts) c + 3" ts] b r assms(4) unfolding p by simp
  define ns where "ns = sync_neighbours (painted ts) (kFT8_Costas_pattern ! 0) 0 b"
  have ns: "2 \<le> length ns" unfolding ns_def k0 by (simp add: sync_neighbours_def)
  have "[0..<7] = 0 # [1..<7 :: nat]" by (simp add: upt_rec)
  then have "score_group (painted ts) c 1 (0 # [1..<7]) acc = Inr acc'" using assms(5) by simp
  note e = this[unfolded score_group.simps Let_def, folded b_def, folded p_def, folded ns_def]
  have nb: "\<not> b < 0" "\<not> int (num_blocks (painted ts)) \<le> b" using b by (simp_all add: painted_fields)
  obtain acc1 where a: "add_neighbours (painted ts) p ns acc = Inr acc1" "score_group (painted ts) c 1 [1..<7] acc1 = Inr acc'"
    using e nb by (auto simp: rbind_Inr_iff simp del: upt.simps upt_rec_numeral)
  from neighbours_deficit[OF v a(1)] ns have "deficit acc + 160 \<le> deficit acc1" by simp
  then show ?thesis using group_deficit[OF a(2)] by linarith
qed

lemma quotient_less: "0 < b \<Longrightarrow> a < c * b \<Longrightarrow> a div b < (c :: int)"
  using mult_right_mono[of c "a div b" b] div_mult_mod_eq[of a b] pos_mod_sign[of b a] by linarith

lemma rival_position:
  assumes "position_ok (painted ts) c" "- 10 \<le> time_offset c" "time_offset c \<le> 19" "ft8_sync_score (painted ts) c = Inr s" "160 \<le> s"
  shows "row_pos (painted ts) c + 3 = int (100 + ts ! nat (time_offset c + 36))"
proof (rule ccontr)
  assume n: "\<not> ?thesis"
  have g: "[0..<FT8_NUM_SYNC] = [0, 1, 2]" by (simp add: FT8_NUM_SYNC_def upt_rec)
  obtain a0 a1 a2 where a: "score_group (painted ts) c 0 [0..<7] (0, 0) = Inr a0" "score_group (painted ts) c 1 [0..<7] a0 = Inr a1"
      "score_group (painted ts) c 2 [0..<7] a1 = Inr a2" "s = (if 0 < snd a2 then c_div (fst a2) (snd a2) else fst a2)"
    using assms(4) unfolding ft8_sync_score_def g FT8_LENGTH_SYNC_def
    by (auto simp: rbind_Inr_iff simp del: upt.simps upt_rec_numeral)
  have "0 \<le> deficit a0" using group_deficit[OF a(1)] by (simp add: deficit_def)
  then have d: "160 \<le> deficit a2"
    using second_group_deficit[OF assms(1-3) n a(2)] group_deficit[OF a(3)] by linarith
  show False
  proof (cases "0 < snd a2")
    case True
    have "c_div (fst a2) (snd a2) < 160"
    proof (cases "0 \<le> fst a2")
      case pos: True
      have "fst a2 < 160 * snd a2" using d by (simp add: deficit_def)
      then have "fst a2 div snd a2 < 160" by (rule quotient_less[OF True])
      then show ?thesis using pos True by simp
    next
      case False
      then have "c_div (fst a2) (snd a2) \<le> 0" using True by (simp add: c_div_def pos_imp_zdiv_nonneg_iff)
      then show ?thesis by simp
    qed
    then show ?thesis using a(4) True assms(5) by simp
  next
    case False
    then show ?thesis using a(4) d assms(5) by (simp add: deficit_def)
  qed
qed

text \<open>At most one frequency for each time and sub-bin.\<close>

lemma filter_concat_bound:
  "\<forall>x \<in> set xs. length (filter P (g x)) \<le> B \<Longrightarrow> length (filter P (concat (map g xs))) \<le> length xs * B"
  by (induction xs) auto

lemma filter_single:
  "\<forall>f < n. P (g f) \<longrightarrow> int f = z \<Longrightarrow> length (filter P (map g [0..<n])) \<le> 1"
proof (induction n)
  case (Suc n)
  show ?case
  proof (cases "P (g n)")
    case True
    then have "int n = z" using Suc.prems by simp
    then have "\<not> P (g f)" if "f < n" for f using Suc.prems that by (metis less_SucI nat_int less_irrefl)
    then have "filter P (map g [0..<n]) = []" by (auto simp: filter_empty_conv)
    then show ?thesis using True by simp
  next
    case False
    then show ?thesis using Suc by simp
  qed
qed simp

lemma painted_rivals: "length (rivals (painted ts) 160) \<le> K_MAX_CANDIDATES"
proof -
  define w where "w = painted ts"
  define P where "P c \<longleftrightarrow> 160 \<le> score (scored w c)" for c
  have ok: "waterfall_ok w" unfolding w_def by (rule rx_shape_ok[OF painted_shape(1)])
  define pos_at where "pos_at t1 f1 t f = \<lparr>score = 0, time_offset = t, freq_offset = int f, time_sub = t1, freq_sub = f1\<rparr>" for t1 f1 t f
  have one: "length (filter P (map (pos_at t1 f1 t) [0..<num_bins w - 7])) \<le> 1" if "t1 < 2" "f1 < 2" "t \<in> set [-10..19]" for t1 f1 t
  proof (rule filter_single, intro allI impI)
    fix f assume f: "f < num_bins w - 7" "P (pos_at t1 f1 t f)"
    have pos: "position_ok w (pos_at t1 f1 t f)" using f(1) that by (simp add: position_ok_def pos_at_def w_def painted_fields)
    obtain s where s: "ft8_sync_score w (pos_at t1 f1 t f) = Inr s" using sync_score_total[OF ok pos] by blast
    then have "160 \<le> s" using f(2) by (simp add: P_def scored_def)
    have "- 10 \<le> t" "t \<le> 19" using that(3) by (simp_all only: set_upto atLeastAtMost_iff)
    then have "- 10 \<le> time_offset (pos_at t1 f1 t f)" "time_offset (pos_at t1 f1 t f) \<le> 19" by (simp_all add: pos_at_def)
    from rival_position[OF pos[unfolded w_def] this s[unfolded w_def] \<open>160 \<le> s\<close>]
    have "row_pos w (pos_at t1 f1 t f) + 3 = int (100 + ts ! nat (t + 36))" unfolding w_def by (simp add: pos_at_def)
    then show "int f = int (100 + ts ! nat (t + 36)) - 3 - (int t1 * 2 + int f1) * 512"
      by (simp add: row_pos_def pos_at_def w_def painted_fields)
  qed
  have "length (filter P (positions_of w)) \<le> length [0..<time_osr w] * (length [0..<freq_osr w] * (length [-10..19] * 1))"
    unfolding positions_of_def pos_at_def [symmetric]
    by (intro filter_concat_bound ballI one) (simp_all add: w_def painted_fields)
  also have "\<dots> = 120" by (simp add: w_def painted_fields)
  finally have "length (filter P (positions_of w)) \<le> 120" .
  moreover have "length (rivals w 160) = length (filter (\<lambda>c. P c) (positions_of w))"
  proof -
    have "rivals w 160 = filter (\<lambda>c. 160 \<le> score c) (map (scored w) (positions_of w))"
      unfolding rivals_def above_def filter_filter by (intro filter_cong) (auto simp: K_MIN_SCORE_def)
    moreover have "P = (\<lambda>c. 160 \<le> score (scored w c))" by (rule ext) (simp add: P_def)
    ultimately show ?thesis by (simp add: filter_map o_def)
  qed
  ultimately show ?thesis by (simp add: w_def K_MAX_CANDIDATES_def)
qed

subsection \<open>Its score\<close>

lemma costas_apart: "k < 6 \<Longrightarrow> kFT8_Costas_pattern ! k \<noteq> kFT8_Costas_pattern ! (k + 1)"
proof -
  have "list_all (\<lambda>k. kFT8_Costas_pattern ! k \<noteq> kFT8_Costas_pattern ! (k + 1)) [0..<6]" by code_simp
  then show "k < 6 \<Longrightarrow> kFT8_Costas_pattern ! k \<noteq> kFT8_Costas_pattern ! (k + 1)" by (simp add: list_all_iff)
qed

lemma neighbours_full:
  assumes "mag_at (painted ts) p = Inr 200" "\<forall>d \<in> set ds. mag_at (painted ts) (p + d) = Inr 40"
  shows "add_neighbours (painted ts) p ds (160 * n, n) = Inr (160 * (n + int (length ds)), n + int (length ds))"
  using assms(2)
proof (induction ds arbitrary: n)
  case (Cons d ds)
  have e: "add_neighbours (painted ts) p (d # ds) (160 * n, n) = add_neighbours (painted ts) p ds (160 * (n + 1), n + 1)"
    using Cons.prems assms(1) by simp
  show ?case unfolding e using Cons.IH[of "n + 1"] Cons.prems by simp
qed simp

lemma group_full:
  assumes c: "\<forall>k < 7. ts ! (36 * m + k) = kFT8_Costas_pattern ! k" and m: "m < 3"
  shows "\<forall>k \<in> set ks. k < 7 \<Longrightarrow> 0 \<le> n \<Longrightarrow> \<exists>n'. n \<le> n' \<and> (ks \<noteq> [] \<longrightarrow> n < n') \<and> score_group (painted ts) painted_cand m ks (160 * n, n) = Inr (160 * n', n')"
proof (induction ks arbitrary: n)
  case (Cons k ks)
  have k: "k < 7" using Cons.prems by simp
  define b where "b = 36 * m + k"
  have b: "b < 79" using m k by (simp add: b_def)
  define sm where "sm = kFT8_Costas_pattern ! k"
  have sm: "sm < 8" unfolding sm_def by (rule costas_tone[OF k])
  have at: "mag_at (painted ts) (int b' * 2048 + int (100 + t)) = Inr (if t = ts ! b' then 200 else 40)" if "b' < 79" "t < 8" for b' t
    using painted_at[of "int b'" "int (100 + t)" ts] that by simp
  have tb: "ts ! b = sm" using c k by (simp add: b_def sm_def)
  define p where "p = int b * 2048 + int (100 + sm)"
  have p: "cand_mag (painted ts) painted_cand + int ((FT8_SYNC_OFFSET * m + k) * block_stride (painted ts)) + int (kFT8_Costas_pattern ! k) = p"
    by (simp add: cand_mag_def painted_cand_def painted_fields p_def b_def sm_def FT8_SYNC_OFFSET_def)
  define ns where "ns = sync_neighbours (painted ts) sm k (int b)"
  have nb: "mag_at (painted ts) (p + d) = Inr 40" if d: "d \<in> set ns" for d
  proof -
    from d consider "d = - 1" "0 < sm" | "d = 1" "sm < 7" | "d = - 2048" "0 < k" | "d = 2048" "k + 1 < 7"
      unfolding ns_def sync_neighbours_def painted_fields FT8_LENGTH_SYNC_def by (auto split: if_splits)
    then show ?thesis
    proof cases
      case 1
      then have "p + d = int b * 2048 + int (100 + (sm - 1))" by (simp add: p_def)
      from this at[OF b, of "sm - 1"] show ?thesis using sm 1 tb by (simp only:) simp
    next
      case 2
      then have "p + d = int b * 2048 + int (100 + (sm + 1))" by (simp add: p_def)
      from this at[OF b, of "sm + 1"] show ?thesis using 2 tb by (simp only:) simp
    next
      case 3
      then obtain j where j: "k = j + 1" by (metis Suc_eq_plus1 gr0_implies_Suc)
      have "p + d = int (36 * m + j) * 2048 + int (100 + sm)" using 3 by (simp add: p_def b_def j)
      moreover have "ts ! (36 * m + j) \<noteq> sm" using c k costas_apart[of j] by (simp add: j sm_def)
      ultimately show ?thesis using at[of "36 * m + j" sm] sm b by (simp add: b_def j)
    next
      case 4
      have "p + d = int (36 * m + (k + 1)) * 2048 + int (100 + sm)" using 4 by (simp add: p_def b_def)
      moreover have "ts ! (36 * m + (k + 1)) = kFT8_Costas_pattern ! (k + 1)" using c 4(2) by blast
      then have "ts ! (36 * m + (k + 1)) \<noteq> sm" using 4 costas_apart[of k] by (simp add: sm_def)
      ultimately show ?thesis using at[of "36 * m + (k + 1)" sm] sm m 4 by simp
    qed
  qed
  have hit: "mag_at (painted ts) p = Inr 200" using at[OF b sm] tb by (simp add: p_def)
  have ns: "0 < length ns" unfolding ns_def sync_neighbours_def using sm by auto
  from neighbours_full[OF hit, of ns n] nb
  have a: "add_neighbours (painted ts) p ns (160 * n, n) = Inr (160 * (n + int (length ns)), n + int (length ns))" by blast
  have e: "score_group (painted ts) painted_cand m (k # ks) (160 * n, n)
      = score_group (painted ts) painted_cand m ks (160 * (n + int (length ns)), n + int (length ns))"
    unfolding score_group.simps Let_def p using a b
    by (simp add: painted_cand_def painted_fields b_def ns_def sm_def FT8_SYNC_OFFSET_def)
  obtain n' where n': "n + int (length ns) \<le> n'" "score_group (painted ts) painted_cand m ks (160 * (n + int (length ns)), n + int (length ns)) = Inr (160 * n', n')"
    using Cons.IH[of "n + int (length ns)"] Cons.prems by auto
  have "n \<le> n'" "n < n'" using n'(1) ns by linarith+
  moreover have "score_group (painted ts) painted_cand m (k # ks) (160 * n, n) = Inr (160 * n', n')" unfolding e by (rule n'(2))
  ultimately show ?case by blast
qed auto

lemma painted_score:
  assumes "\<forall>a \<in> {0, 36, 72}. take 7 (drop a ts) = kFT8_Costas_pattern"
  shows "ft8_sync_score (painted ts) painted_cand = Inr 160"
proof -
  have c: "\<forall>k < 7. ts ! (36 * m + k) = kFT8_Costas_pattern ! k" if "m < 3" for m
  proof (intro allI impI)
    fix k :: nat assume k: "k < 7"
    have "36 * m \<in> {0, 36, 72}" using that by (auto simp: less_Suc_eq numeral_3_eq_3)
    then have t: "take 7 (drop (36 * m) ts) = kFT8_Costas_pattern" using assms by blast
    then have "length (take 7 (drop (36 * m) ts)) = 7" by (simp only: t costas_length(1))
    then have "36 * m \<le> length ts" by simp
    then show "ts ! (36 * m + k) = kFT8_Costas_pattern ! k" using k t nth_take[of k 7 "drop (36 * m) ts"] by simp
  qed
  have ks: "\<forall>k \<in> set [0..<7 :: nat]. k < 7" "[0..<7 :: nat] \<noteq> []" by (simp_all add: upt_rec)
  have g: "[0..<FT8_NUM_SYNC] = [0, 1, 2]" by (simp add: FT8_NUM_SYNC_def upt_rec)
  have m3: "(0 :: nat) < 3" "(1 :: nat) < 3" "(2 :: nat) < 3" by simp_all
  obtain n0 where 0: "0 < n0" "score_group (painted ts) painted_cand 0 [0..<7] (0, 0) = Inr (160 * n0, n0)"
    using group_full[OF c[OF m3(1)] m3(1) ks(1), of 0] ks(2) by (auto simp del: upt.simps upt_rec_numeral)
  obtain n1 where 1: "n0 \<le> n1" "score_group (painted ts) painted_cand 1 [0..<7] (160 * n0, n0) = Inr (160 * n1, n1)"
    using group_full[OF c[OF m3(2)] m3(2) ks(1), of n0] 0(1) by (auto simp del: upt.simps upt_rec_numeral)
  obtain n2 where 2: "n1 \<le> n2" "score_group (painted ts) painted_cand 2 [0..<7] (160 * n1, n1) = Inr (160 * n2, n2)"
    using group_full[OF c[OF m3(3)] m3(3) ks(1), of n1] 0(1) 1(1) by (auto simp del: upt.simps upt_rec_numeral)
  have "0 < n2" using 0(1) 1(1) 2(1) by linarith
  then have "c_div (160 * n2) n2 = 160" by simp
  then show ?thesis using \<open>0 < n2\<close> 0(2) 1(2) 2(2) unfolding ft8_sync_score_def g FT8_LENGTH_SYNC_def
    by (simp del: upt.simps upt_rec_numeral One_nat_def)
qed

text \<open>
  C3. A signal that is heard comes out. When the data tones of a packed message are the loudest of their symbols at a
  position of the search grid, the sync score of the position reaches the minimum of 10, and no more than 120
  positions score as much, then one of the candidates the receiver looks at is decoded to exactly this message, and
  its frequency is the one of the position.
\<close>

theorem heard_signal_received:
  assumes "rx_shape w" "length junk = K_MAX_CANDIDATES" "c \<in> set (positions_of w)"
    and "message_encode hi text h = (RC_OK, p, h1)" "p \<noteq> replicate 10 0" "tones_heard w c (ft8_encode p)"
    and "ft8_sync_score w c = Inr s" "K_MIN_SCORE \<le> s" "length (rivals w s) \<le> K_MAX_CANDIDATES"
  shows "\<exists>cs. see_candidates (decode_candidate (libft8 F junk plain)) w N
        (find_candidates (libft8 F junk plain) w K_MAX_CANDIDATES K_MIN_SCORE) = Inr cs
    \<and> (\<exists>x \<in> set cs. decoded_msg x = Some \<lparr>payload = p, msg_hash = payload_crc p\<rparr>
        \<and> freq_hz x = c_int ((of_int (freq_offset c) + real (freq_sub c) / real (freq_osr w)) / FT8_SYMBOL_PERIOD))"
  by (rule heard_decoded[OF assms])

theorem heard_signal_received_witness:
  "\<exists>p w cs x. message_encode (None :: unit hash_ptr) ''CQ SA0PRF JO99'' () = (RC_OK, p, ())
    \<and> see_candidates (decode_candidate (libft8 id (replicate 120 painted_cand) [])) w 1
        (find_candidates (libft8 id (replicate 120 painted_cand) []) w K_MAX_CANDIDATES K_MIN_SCORE) = Inr cs
    \<and> x \<in> set cs \<and> decoded_msg x = Some \<lparr>payload = p, msg_hash = payload_crc p\<rparr> \<and> freq_hz x = 625"
proof -
  obtain p where p: "message_encode (None :: unit hash_ptr) ''CQ SA0PRF JO99'' () = (RC_OK, p, ())" "p \<noteq> replicate 10 0"
    using demo_cq_packed by blast
  define ts where "ts = ft8_encode p"
  have tones: "length ts = 79" "\<forall>t \<in> set ts. t < 8" "\<forall>a \<in> {0, 36, 72}. take 7 (drop a ts) = kFT8_Costas_pattern"
    using ft8_encode_tones unfolding ts_def by blast+
  have l: "length (replicate 120 painted_cand) = K_MAX_CANDIDATES" by (simp add: K_MAX_CANDIDATES_def)
  have pos: "painted_cand \<in> set (positions_of (painted ts))"
    by (auto simp: positions_of_def painted_cand_def painted_fields simp del: upt.simps upt_rec_numeral intro!: bexI[of _ 0])
  have ten: "K_MIN_SCORE \<le> 160" by (simp add: K_MIN_SCORE_def)
  have f: "c_int ((of_int (freq_offset painted_cand) + real (freq_sub painted_cand) / real (freq_osr (painted ts))) / FT8_SYMBOL_PERIOD) = 625"
    by (simp add: painted_cand_def FT8_SYMBOL_PERIOD_def c_int_def)
  have h: "tones_heard (painted ts) painted_cand (ft8_encode p)" using painted_heard[OF tones(1,2)] unfolding ts_def .
  from heard_signal_received[OF painted_shape(1) l pos p h painted_score[OF tones(3)] ten painted_rivals, of id "[]" 1] p(1)
  show ?thesis unfolding f by blast
qed

end
