(* ===== verification/Client.thy ===== *)
theory Client
  imports QsoHandler RxOptions RxSlots
begin

text \<open>
  The terminal client (\<^verbatim>\<open>ft8_ncurses.cpp\<close>): the keyboard state machine and its command line, the panes of the screen,
  the thread that owns the screen (\<^verbatim>\<open>CQHandler\<close>) and the thread that talks to the transmitter (\<^verbatim>\<open>TXHandler\<close>).
  A window is the list of the lines printed to it; what curses does with them is left out.
\<close>

subsection \<open>State\<close>

definition MAXTXSTRING :: nat where "MAXTXSTRING = 40"
definition CQWIN :: int where "CQWIN = 0"
definition TXWIN :: int where "TXWIN = 2"

definition IDLE_KBD :: int where "IDLE_KBD = 0"
definition ESC1 :: int where "ESC1 = 27"
definition ESC2 :: int where "ESC2 = 91"
definition KEY_UP_CHAR :: int where "KEY_UP_CHAR = 65"
definition KEY_DOWN_CHAR :: int where "KEY_DOWN_CHAR = 66"
definition DEL :: int where "DEL = 127"
definition TAB :: int where "TAB = 9"
definition ENTER :: int where "ENTER = 10"

datatype pen = Normal | Red | Green | Yellow

type_synonym line = "pen \<times> string"

record panes =
  header_line :: string \<comment> \<open>the clock in the header\<close>
  cq_lines :: "line list"
  qso_lines :: "line list"
  traffic_lines :: "line list"
  status_lines :: "line list"
  call_line :: string

record ui =
  kbdStatus :: int
  activeWin :: int
  editString :: string
  cqFirst :: int
  cqLast :: int
  cqIdx :: int
  trafficWLines :: int
  termRefresh :: bool
  clockRefresh :: u32
  staged :: panes \<comment> \<open>the windows\<close>
  terminal :: panes \<comment> \<open>what the last \<^verbatim>\<open>doupdate\<close> brought to the terminal\<close>

text \<open>The state shared by the threads of the client: the panel, the handler, options, receiver and queues.\<close>

record client =
  panel :: ui
  handler :: qso
  ropts :: receiver_options
  rx :: rx_state
  log_q :: "plain_message list"
  cq_q :: "decoder_results list"
  qsoFreq :: u32
  transmitting :: bool
  exitKBHThread :: bool
  exitCQThread :: bool

text \<open>Options of the own station, the broken-down local time and Greenwich time.\<close>

record uenv =
  u_opts :: decoder_options
  u_local :: "int \<Rightarrow> tm"
  u_gm :: "int \<Rightarrow> tm"

definition setTransmitting :: "client \<Rightarrow> client" where "setTransmitting a = a\<lparr>transmitting := True\<rparr>"
definition resetTransmitting :: "client \<Rightarrow> client" where "resetTransmitting a = a\<lparr>transmitting := False\<rparr>"
definition getTransmitting :: "client \<Rightarrow> bool" where "getTransmitting a \<longleftrightarrow> transmitting a = True"

text \<open>\<open>midH\<close> is the height of the middle panes, \<open>blank\<close> the cleared screen.\<close>

definition init_panel :: "int \<Rightarrow> panes \<Rightarrow> ui \<Rightarrow> ui" where
  "init_panel midH blank u =
     u\<lparr>trafficWLines := midH - 2, editString := [], cqFirst := 0, cqLast := 0, cqIdx := 0, staged := blank, terminal := blank\<rparr>"

definition init_ncurses :: "u32 \<Rightarrow> int \<Rightarrow> panes \<Rightarrow> client \<Rightarrow> client" where
  "init_ncurses initialFreq midH blank a = a\<lparr>qsoFreq := initialFreq + 850, panel := init_panel midH blank (panel a)\<rparr>"

text \<open>The statics as the program starts.\<close>

definition static_ui :: "panes \<Rightarrow> ui" where
  "static_ui junk = \<lparr>kbdStatus = IDLE_KBD, activeWin = CQWIN, editString = [], cqFirst = 0, cqLast = 0, cqIdx = 0, trafficWLines = 0,
     termRefresh = True, clockRefresh = 60, staged = junk, terminal = junk\<rparr>"

subsection \<open>The command line\<close>

definition programQuit :: "client \<Rightarrow> client" where
  "programQuit a = a\<lparr>rx := (rx a)\<lparr>exit_flag := True\<rparr>\<rparr>"

definition switch_handler :: "qcmd \<Rightarrow> client \<Rightarrow> client" where
  "switch_handler c a = a\<lparr>handler := set_switch c (handler a)\<rparr>"

text \<open>The tests are exclusive, so at most one of them acts.\<close>

definition run_command :: "string \<Rightarrow> client \<Rightarrow> client" where
  "run_command s a =
     (if s = ''AUTOCQ ON'' then switch_handler EnableAutoCQ a
      else if s = ''AUTOCQ OFF'' then switch_handler DisableAutoCQ a
      else if s = ''PSK ON'' then a\<lparr>ropts := enableReporting (ropts a)\<rparr>
      else if s = ''PSK OFF'' then a\<lparr>ropts := disableReporting (ropts a)\<rparr>
      else if s = ''AUTOREPLY ON'' then switch_handler EnableAutoCQReply a
      else if s = ''AUTOREPLY OFF'' then switch_handler DisableAutoCQReply a
      else if s = ''AUTOQSO ON'' then switch_handler EnableAutoQSO a
      else if s = ''AUTOQSO OFF'' then switch_handler DisableAutoQSO a
      else if s = ''SLOT ODD'' then switch_handler (SetActiveSlot odd_slot) a
      else if s = ''SLOT EVEN'' then switch_handler (SetActiveSlot even_slot) a
      else if s = ''QUIT'' then programQuit a
      else a)"

definition set_panel :: "(ui \<Rightarrow> ui) \<Rightarrow> client \<Rightarrow> client" where
  "set_panel f a = a\<lparr>panel := f (panel a)\<rparr>"

definition toupper_key :: "int \<Rightarrow> int" where
  "toupper_key k = (if 97 \<le> k \<and> k \<le> 122 then k - 32 else k)"

text \<open>A key at the end of the text: \<^verbatim>\<open>(char)key\<close> keeps the lowest byte, and a NUL leaves the text as it is.\<close>

definition type_key :: "int \<Rightarrow> string \<Rightarrow> string" where
  "type_key k s =
     (if length s < MAXTXSTRING - 1 then (if k mod 256 = 0 then s else s @ [char_of (nat (k mod 256))]) else s)"

definition idle_key :: "int \<Rightarrow> client \<Rightarrow> client" where
  "idle_key k a =
     (if k = ESC1 then set_panel (\<lambda>u. u\<lparr>kbdStatus := k\<rparr>) a
      else if k = TAB then set_panel (\<lambda>u. u\<lparr>activeWin := (if TXWIN < activeWin u + 1 then CQWIN else activeWin u + 1)\<rparr>) a
      else if k = ENTER then set_panel (\<lambda>u. u\<lparr>editString := []\<rparr>) (run_command (editString (panel a)) a)
      else if k = DEL then set_panel (\<lambda>u. u\<lparr>editString := butlast (editString u)\<rparr>) a
      else set_panel (\<lambda>u. u\<lparr>editString := type_key k (editString u)\<rparr>) a)"

text \<open>Every key asks for a redraw.\<close>

definition move_cursor :: "int \<Rightarrow> ui \<Rightarrow> ui" where
  "move_cursor k u =
     (if activeWin u = CQWIN then
        (let u = (if k = KEY_UP_CHAR \<and> cqIdx u \<noteq> 0 then u\<lparr>cqIdx := cqIdx u - 1\<rparr> else u) in
         if k = KEY_DOWN_CHAR then
           (if cqFirst u < cqLast u then (if cqIdx u < cqLast u - 1 then u\<lparr>cqIdx := cqIdx u + 1\<rparr> else u)
            else if cqIdx u < trafficWLines u - 1 then u\<lparr>cqIdx := cqIdx u + 1\<rparr> else u)
         else u)
      else u)"

definition processKey :: "int \<Rightarrow> client \<Rightarrow> bool \<times> client" where
  "processKey rawKey a =
     (let k = toupper_key rawKey in
      (True,
       if kbdStatus (panel a) = IDLE_KBD then idle_key k a
       else if kbdStatus (panel a) = ESC1 then set_panel (\<lambda>u. u\<lparr>kbdStatus := (if k = ESC2 then k else IDLE_KBD)\<rparr>) a
       else if kbdStatus (panel a) = ESC2 then set_panel (\<lambda>u. (move_cursor k u)\<lparr>kbdStatus := IDLE_KBD\<rparr>) a
       else set_panel (\<lambda>u. u\<lparr>kbdStatus := IDLE_KBD\<rparr>) a))"

subsection \<open>Printing\<close>

text \<open>\<^verbatim>\<open>%wd\<close> and \<^verbatim>\<open>%ws\<close>: spaces before.\<close>

definition pad_to :: "nat \<Rightarrow> string \<Rightarrow> string" where
  "pad_to w s = replicate (w - length s) CHR '' '' @ s"

definition slot_name :: "ft8slot \<Rightarrow> string" where
  "slot_name sl = (if sl = odd_slot then ''ODD '' else ''EVEN'')"

definition on_staged :: "(panes \<Rightarrow> panes) \<Rightarrow> client \<Rightarrow> client" where
  "on_staged f = set_panel (\<lambda>u. u\<lparr>staged := f (staged u)\<rparr>)"

definition printCQ :: "uenv \<Rightarrow> decoder_results \<Rightarrow> client \<Rightarrow> client" where
  "printCQ e r = on_staged (\<lambda>p. p\<lparr>cq_lines := cq_lines p @
     [(if strncmp_eq (r_call r) (rcall (u_opts e)) then Red else Normal,
       hms '':'' (u_local e (r_tempus r)) @ '' '' @ pad_to 8 (int_dec (r_freq r)) @ ''Hz '' @ take 6 (r_cmd r) @ '' DE  ''
       @ pad_to 13 (r_call r) @ '' '' @ pad_to 2 (int_dec (r_snr r)) @ ''dB '' @ slot_name (slot_of_time (r_tempus r)) @ newline)]\<rparr>)"

text \<open>\<open>t\<close> is the time of day, which own messages are printed with.\<close>

definition printQSORemote :: "uenv \<Rightarrow> int \<Rightarrow> plain_message \<Rightarrow> client \<Rightarrow> client" where
  "printQSORemote e t m = on_staged (\<lambda>p. p\<lparr>qso_lines := qso_lines p @
     [(if strncmp_eq (src m) (rcall (u_opts e)) then
         (Red, hms '':'' (u_local e t) @ '' '' @ int_dec (freq m) @ ''Hz '' @ dest m @ '' '' @ src m @ '' '' @ message m
            @ '' '' @ slot_name (slot_of_time (tempus m)) @ newline)
       else
         (Green, hms '':'' (u_local e (tempus m)) @ '' '' @ int_dec (freq m) @ ''Hz  '' @ pad_to 3 (int_dec (snr m)) @ ''dB ''
            @ dest m @ '' '' @ src m @ '' '' @ message m @ '' '' @ slot_name (slot_of_time (tempus m)) @ newline))]\<rparr>)"

definition displayTxString :: "uenv \<Rightarrow> int \<Rightarrow> string \<Rightarrow> client \<Rightarrow> client" where
  "displayTxString e t s =
     on_staged (\<lambda>p. p\<lparr>qso_lines := qso_lines p @ [(Red, hms '':'' (u_gm e t) @ '' '' @ s @ newline)]\<rparr>)"

definition printClock :: "uenv \<Rightarrow> int \<Rightarrow> client \<Rightarrow> client" where
  "printClock e t = on_staged (\<lambda>p. p\<lparr>header_line := ymd (u_local e t) @ '' '' @ hms '':'' (u_local e t) @ '' ''
     @ (if slot_of_time t = odd_slot then ''O'' else ''E'')\<rparr>)"

definition printLog :: "uenv \<Rightarrow> plain_message \<Rightarrow> client \<Rightarrow> client" where
  "printLog e m = on_staged (\<lambda>p. p\<lparr>traffic_lines := traffic_lines p @
     [(if strncmp_eq (dest m) (rcall (u_opts e)) then Green else if strncmp_eq (dest m) ''CQ'' then Red else Normal,
       hms '':'' (u_local e (tempus m)) @ '' '' @ int_dec (freq m) @ ''Hz  '' @ pad_to 3 (int_dec (snr m)) @ ''dB ''
       @ dest m @ '' '' @ src m @ '' '' @ message m @ '' '' @ slot_name (slot_of_time (tempus m)) @ newline)]\<rparr>)"

definition printCall :: "bool \<Rightarrow> client \<Rightarrow> client" where
  "printCall refresh a =
     (if \<not> refresh then a else on_staged (\<lambda>p. p\<lparr>call_line := ''CMD>'' @ editString (panel a)\<rparr>) a)"

definition on_off :: "bool \<Rightarrow> string" where
  "on_off b = (if b then ''ON '' else ''OFF'')"

definition status_text :: "client \<Rightarrow> line list" where
  "status_text a =
     [(Normal, '' PSK Report : '' @ on_off (getReportingStatus (ropts a))), (Normal, '' Auto Reply : '' @ on_off (autoCqReply (handler a))),
      (Normal, '' Self CQ    : '' @ on_off (autoCq (handler a))), (Normal, '' Auto QSO   : '' @ on_off (autoQSO (handler a))),
      (Normal, '' Active Slot: '' @ slot_name (activeSlot (handler a))), (Normal, '' RTx        : ''),
      (if getTransmitting a then (Red, ''Tx'') else (Green, ''Rx'')),
      (Normal, ''Commands: PSK ON/OFF, SLOT ODD/EVEN, AUTOCQ ON/OFF''), (Normal, ''          AUTOREPLY ON/OFF, AUTOQSO ON/OFF'')]"

definition refreshStatus :: "bool \<Rightarrow> client \<Rightarrow> client" where
  "refreshStatus refresh a = (if \<not> refresh then a else on_staged (\<lambda>p. p\<lparr>status_lines := status_text a\<rparr>) a)"

definition doupdate :: "client \<Rightarrow> client" where
  "doupdate = set_panel (\<lambda>u. u\<lparr>terminal := staged u\<rparr>)"

subsection \<open>The thread of the screen\<close>

definition want_refresh :: "client \<Rightarrow> client" where
  "want_refresh = set_panel (\<lambda>u. u\<lparr>termRefresh := True\<rparr>)"

definition show_log :: "uenv \<Rightarrow> client \<Rightarrow> client" where
  "show_log e a = (case tsq_pop (log_q a) of (None, _) \<Rightarrow> a | (Some m, r) \<Rightarrow> want_refresh (printLog e m (a\<lparr>log_q := r\<rparr>)))"

definition show_cq :: "uenv \<Rightarrow> client \<Rightarrow> client" where
  "show_cq e a = (case tsq_pop (cq_q a) of (None, _) \<Rightarrow> a | (Some m, r) \<Rightarrow> want_refresh (printCQ e m (a\<lparr>cq_q := r\<rparr>)))"

definition show_qso :: "uenv \<Rightarrow> int \<Rightarrow> client \<Rightarrow> client" where
  "show_qso e t a =
     (case tsq_pop (qso_queue (handler a)) of
        (None, _) \<Rightarrow> a
      | (Some m, r) \<Rightarrow> want_refresh (printQSORemote e t m (a\<lparr>handler := (handler a)\<lparr>qso_queue := r\<rparr>\<rparr>)))"

text \<open>The keys that wait; \<^verbatim>\<open>wgetch\<close> gives \<^verbatim>\<open>ERR\<close> behind them.\<close>

fun drain_keys :: "int list \<Rightarrow> client \<Rightarrow> client" where
  "drain_keys [] a = a"
| "drain_keys (k # ks) a = (let (changed, a) = processKey k a in drain_keys ks (if changed then want_refresh a else a))"

text \<open>The clock and the update of the terminal at the end of a turn.\<close>

definition flush_turn :: "uenv \<Rightarrow> int \<Rightarrow> client \<Rightarrow> client" where
  "flush_turn e t a =
     (let needUpdate = termRefresh (panel a); due = clockRefresh (panel a) = 0;
          a = set_panel (\<lambda>u. u\<lparr>clockRefresh := clockRefresh u - 1\<rparr>) a;
          a = (if due then set_panel (\<lambda>u. u\<lparr>clockRefresh := 100\<rparr>) (printClock e t a) else a);
          a = (if needUpdate \<or> due then doupdate a else a)
      in set_panel (\<lambda>u. u\<lparr>termRefresh := False\<rparr>) a)"

definition CQHandler_iter :: "uenv \<Rightarrow> int \<Rightarrow> int list \<Rightarrow> client \<Rightarrow> client" where
  "CQHandler_iter e t keys a =
     (let a = show_qso e t (drain_keys keys (show_cq e (show_log e a))); refresh = termRefresh (panel a);
          a = refreshStatus refresh (printCall refresh a)
      in flush_turn e t a)"

definition close_KbhThread :: "client \<Rightarrow> client" where "close_KbhThread a = a\<lparr>exitKBHThread := True\<rparr>"
definition close_CQThread :: "client \<Rightarrow> client" where "close_CQThread a = a\<lparr>exitCQThread := True\<rparr>"

text \<open>\<^verbatim>\<open>KBDHandler\<close> only waits for its flag.\<close>

definition KBDHandler_goes_on :: "client \<Rightarrow> bool" where "KBDHandler_goes_on a \<longleftrightarrow> exitKBHThread a = False"
definition CQHandler_goes_on :: "client \<Rightarrow> bool" where "CQHandler_goes_on a \<longleftrightarrow> exitCQThread a = False"

subsection \<open>The thread of the transmitter's socket\<close>

datatype tx_state = TX_IDLE | TX_WAITING | TX_ONGOING | TX_END

datatype tx_pc = Polling | Reading1 | Reading2 | Reading3 | Leaving | TxEnded

record tx_thread =
  tx_pc :: tx_pc
  txStatusFlag :: tx_state
  exitTxThread :: bool
  sent_letters :: "FT8Msg list" \<comment> \<open>the letters that went out\<close>

definition FT8MSG_SIZE :: int where "FT8MSG_SIZE = 48"

text \<open>What a \<^verbatim>\<open>read\<close> leaves: its result and the letter in the array, an old one when less than a letter came.\<close>

type_synonym reading = "int \<times> FT8Msg"

text \<open>\<^verbatim>\<open>sscanf\<close> with \<^verbatim>\<open>"FREQ %ld"\<close>: 0 when it does not match, the largest \<^verbatim>\<open>long\<close> for a number above it.\<close>

definition scan_freq :: "string \<Rightarrow> int" where
  "scan_freq s = (if take 4 s = ''FREQ'' then min (atoi (drop 4 s)) (2 ^ 63 - 1) else 0)"

definition parseTxFreqReply :: "reading \<Rightarrow> client \<Rightarrow> client" where
  "parseTxFreqReply r a =
     (if fst r < FT8MSG_SIZE then a
      else (let f = scan_freq (ft8Message (snd r)) in if 0 < f then a\<lparr>qsoFreq := word_of_int f\<rparr> else a))"

text \<open>
  The thread between two waits: at the head of its loop (the queue), behind each \<^verbatim>\<open>read\<close>, and behind the second it
  sleeps. \<open>r\<close> is used by the reads only.
\<close>

fun TXHandler_step :: "reading \<Rightarrow> tx_thread \<times> client \<Rightarrow> tx_thread \<times> client" where
  "TXHandler_step r (th, a) =
     (case tx_pc th of
        Polling \<Rightarrow>
          (if exitTxThread th then (th\<lparr>tx_pc := TxEnded\<rparr>, a)
           else
             (case tsq_pop (tx_queue (handler a)) of
                (None, _) \<Rightarrow> (th, a)
              | (Some m, q) \<Rightarrow>
                  (th\<lparr>tx_pc := Reading1, sent_letters := sent_letters th @ [m\<lparr>msg_type := SEND_F8_REQ\<rparr>]\<rparr>,
                   a\<lparr>handler := (handler a)\<lparr>tx_queue := q\<rparr>\<rparr>)))
      | Reading1 \<Rightarrow> (th\<lparr>tx_pc := Reading2, txStatusFlag := TX_WAITING\<rparr>, parseTxFreqReply r a)
      | Reading2 \<Rightarrow> (th\<lparr>tx_pc := Reading3, txStatusFlag := TX_ONGOING\<rparr>, setTransmitting (parseTxFreqReply r a))
      | Reading3 \<Rightarrow> (th\<lparr>tx_pc := Leaving, txStatusFlag := TX_END\<rparr>, resetTransmitting (parseTxFreqReply r a))
      | Leaving \<Rightarrow> (th\<lparr>tx_pc := Polling, txStatusFlag := TX_IDLE\<rparr>, a)
      | TxEnded \<Rightarrow> (th, a))"

definition close_TxThread :: "tx_thread \<Rightarrow> tx_thread" where
  "close_TxThread th = th\<lparr>exitTxThread := True\<rparr>"

text \<open>The letters a socket delivers, each as one reading.\<close>

definition whole_letter :: "FT8Msg \<Rightarrow> reading" where
  "whole_letter m = (FT8MSG_SIZE, m)"

definition read_letters :: "FT8Msg list \<Rightarrow> tx_thread \<times> client \<Rightarrow> tx_thread \<times> client" where
  "read_letters ms s = fold (\<lambda>m. TXHandler_step (whole_letter m)) ms s"

end
