(* ===== verification/ClientUi.thy ===== *)
theory ClientUi
  imports Client QsoTransmit
begin

text \<open>
  The client's threads together: a command line behaves like an editor with one line, every reachable state keeps the
  panel inside its bounds, and the handler only sees the steps its own theory allows.
\<close>

subsection \<open>The panel does not matter to commands\<close>

lemma set_panel_fields [simp]:
  "panel (set_panel f a) = f (panel a)" "handler (set_panel f a) = handler a" "ropts (set_panel f a) = ropts a" "rx (set_panel f a) = rx a"
  "log_q (set_panel f a) = log_q a" "cq_q (set_panel f a) = cq_q a" "qsoFreq (set_panel f a) = qsoFreq a"
  "transmitting (set_panel f a) = transmitting a"
  by (simp_all add: set_panel_def)

lemma set_panel_twice [simp]: "set_panel f (set_panel g a) = set_panel (\<lambda>u. f (g u)) a"
  by (simp add: set_panel_def)

lemma set_panel_id: "f (panel a) = panel a \<Longrightarrow> set_panel f a = a"
  by (simp add: set_panel_def)

lemma set_panel_cong: "f (panel a) = g (panel a) \<Longrightarrow> set_panel f a = set_panel g a"
  by (simp add: set_panel_def)

lemma if_either: "P x \<Longrightarrow> P y \<Longrightarrow> P (if c then x else y)"
  by simp

lemma run_command_cases:
  assumes "P a" "\<And>c. P (switch_handler c a)" "P (a\<lparr>ropts := enableReporting (ropts a)\<rparr>)" "P (a\<lparr>ropts := disableReporting (ropts a)\<rparr>)"
    "P (programQuit a)"
  shows "P (run_command s a)"
  unfolding run_command_def by (rule if_either[of P] assms)+

lemma run_command_panel [simp]: "panel (run_command s a) = panel a"
  by (rule run_command_cases) (simp_all add: switch_handler_def programQuit_def)

lemma commands_set:
  "switch_handler c (set_panel f a) = set_panel f (switch_handler c a)" "programQuit (set_panel f a) = set_panel f (programQuit a)"
  "(set_panel f a)\<lparr>ropts := r\<rparr> = set_panel f (a\<lparr>ropts := r\<rparr>)"
  by (simp_all add: switch_handler_def programQuit_def set_panel_def)

lemma run_command_set: "run_command s (set_panel f a) = set_panel f (run_command s a)"
  unfolding run_command_def set_panel_fields commands_set if_distrib[of "set_panel f"] ..

subsection \<open>The editor\<close>

text \<open>Keys that are characters of a text, the delete key, and the line they leave.\<close>

datatype stroke = Type char | Rub

definition typable :: "char \<Rightarrow> bool" where
  "typable c \<longleftrightarrow> code c \<noteq> 0 \<and> code c \<noteq> 9 \<and> code c \<noteq> 10 \<and> code c \<noteq> 27 \<and> code c \<noteq> 127"

fun stroke_ok :: "stroke \<Rightarrow> bool" where
  "stroke_ok (Type c) \<longleftrightarrow> typable c"
| "stroke_ok Rub \<longleftrightarrow> True"

fun stroke_key :: "stroke \<Rightarrow> int" where
  "stroke_key (Type c) = int (code c)"
| "stroke_key Rub = DEL"

fun edit_line :: "stroke \<Rightarrow> string \<Rightarrow> string" where
  "edit_line (Type c) s = (if length s < 39 then s @ [c] else s)"
| "edit_line Rub s = butlast s"

lemmas key_codes = IDLE_KBD_def ESC1_def ESC2_def TAB_def ENTER_def DEL_def KEY_UP_CHAR_def KEY_DOWN_CHAR_def CQWIN_def TXWIN_def

abbreviation caps :: "string \<Rightarrow> string" where "caps \<equiv> map toupper_c"

lemma caps_butlast: "caps (butlast s) = butlast (caps s)"
  by (simp add: map_butlast)

lemma typed_key:
  assumes "typable c"
  shows "toupper_key (int (code c)) \<notin> {ESC1, TAB, ENTER, DEL}"
    and "type_key (toupper_key (int (code c))) s = (if length s < 39 then s @ [toupper_c c] else s)"
proof -
  have l: "code c < 256" by (simp add: code_def)
  show "toupper_key (int (code c)) \<notin> {ESC1, TAB, ENTER, DEL}"
    using assms by (auto simp: typable_def toupper_key_def key_codes)
  have t: "toupper_key (int (code c)) = int (code (toupper_c c))"
    using l by (auto simp: toupper_key_def toupper_c_def code_def)
  have l': "code (toupper_c c) < 256" by (simp add: code_def)
  moreover have "code (toupper_c c) \<noteq> 0" using assms l by (auto simp: typable_def toupper_c_def code_def)
  ultimately show "type_key (toupper_key (int (code c))) s = (if length s < 39 then s @ [toupper_c c] else s)"
    unfolding t by (simp add: type_key_def MAXTXSTRING_def code_def)
qed

lemma stroke_step:
  assumes "stroke_ok k" "kbdStatus (panel a) = IDLE_KBD" "editString (panel a) = caps s"
  shows "processKey (stroke_key k) a = (True, set_panel (\<lambda>u. u\<lparr>editString := caps (edit_line k s)\<rparr>) a)"
proof (cases k)
  case (Type c)
  note t = typed_key(1)[of c] typed_key(2)[of c "caps s"]
  have l: "length (caps s) = length s" by simp
  have "typable c" using assms(1) Type by simp
  then show ?thesis using t assms(2,3) unfolding Type
    by (auto simp: processKey_def Let_def idle_key_def l intro!: set_panel_cong)
next
  case Rub
  then show ?thesis using assms(2,3) by (auto simp: processKey_def Let_def idle_key_def toupper_key_def key_codes caps_butlast intro!: set_panel_cong)
qed

lemma strokes_edit:
  "list_all stroke_ok ks \<Longrightarrow> kbdStatus (panel a) = IDLE_KBD \<Longrightarrow> editString (panel a) = caps s \<Longrightarrow>
   drain_keys (map stroke_key ks) a
     = set_panel (\<lambda>u. u\<lparr>editString := caps (fold edit_line ks s), termRefresh := termRefresh u \<or> ks \<noteq> []\<rparr>) a"
proof (induction ks arbitrary: a s)
  case Nil
  then show ?case by (simp add: set_panel_def)
next
  case (Cons k ks)
  define b where "b = want_refresh (set_panel (\<lambda>u. u\<lparr>editString := caps (edit_line k s)\<rparr>) a)"
  have "drain_keys (map stroke_key ks) b
      = set_panel (\<lambda>u. u\<lparr>editString := caps (fold edit_line ks (edit_line k s)), termRefresh := termRefresh u \<or> ks \<noteq> []\<rparr>) b"
    using Cons.prems by (intro Cons.IH) (simp_all add: b_def want_refresh_def)
  moreover have "drain_keys (map stroke_key (k # ks)) a = drain_keys (map stroke_key ks) b"
    using stroke_step[of k a s] Cons.prems by (simp add: b_def)
  ultimately show ?case by (simp add: b_def want_refresh_def)
qed

lemma drain_append: "drain_keys (ks @ ls) a = drain_keys ls (drain_keys ks a)"
  by (induction ks arbitrary: a) (simp_all add: Let_def split: prod.split)


definition demo_client :: client where
  "demo_client = \<lparr>panel = static_ui \<lparr>header_line = [], cq_lines = [], qso_lines = [], traffic_lines = [], status_lines = [], call_line = []\<rparr>,
     handler = init_globals, ropts = static_options,
     rx = \<lparr>exit_flag = False, iSamples = [], qSamples = [], iqIndex = [], bufferIndex = 0, callback_counter = 0\<rparr>,
     log_q = [], cq_q = [], qsoFreq = 0, transmitting = False, exitKBHThread = False, exitCQThread = False\<rparr>"


subsection \<open>The panel stays in its bounds\<close>

definition ui_ok :: "ui \<Rightarrow> bool" where
  "ui_ok u \<longleftrightarrow> kbdStatus u \<in> {IDLE_KBD, ESC1, ESC2} \<and> activeWin u \<in> {0, 1, 2} \<and> length (editString u) < MAXTXSTRING
     \<and> char_of (0 :: nat) \<notin> set (editString u) \<and> cqFirst u = 0 \<and> cqLast u = 0
     \<and> 0 \<le> cqIdx u \<and> (cqIdx u = 0 \<or> cqIdx u < trafficWLines u) \<and> terminal u = staged u"

text \<open>The part that keys change, without the screen.\<close>

definition keys_ok :: "ui \<Rightarrow> bool" where
  "keys_ok u \<longleftrightarrow> kbdStatus u \<in> {IDLE_KBD, ESC1, ESC2} \<and> activeWin u \<in> {0, 1, 2} \<and> length (editString u) < MAXTXSTRING
     \<and> char_of (0 :: nat) \<notin> set (editString u) \<and> cqFirst u = 0 \<and> cqLast u = 0
     \<and> 0 \<le> cqIdx u \<and> (cqIdx u = 0 \<or> cqIdx u < trafficWLines u)"

lemma ui_ok_keys: "ui_ok u \<longleftrightarrow> keys_ok u \<and> terminal u = staged u"
  by (auto simp: ui_ok_def keys_ok_def)

lemma type_key_ok: "length s < MAXTXSTRING \<and> char_of (0 :: nat) \<notin> set s \<Longrightarrow>
  length (type_key k s) < MAXTXSTRING \<and> char_of (0 :: nat) \<notin> set (type_key k s)"
proof -
  have "char_of (nat (k mod 256)) \<noteq> (char_of (0 :: nat) :: char)" if "k mod 256 \<noteq> 0"
  proof
    assume e: "char_of (nat (k mod 256)) = (char_of (0 :: nat) :: char)"
    have "nat (k mod 256) < 256" by simp
    then have "of_char (char_of (nat (k mod 256)) :: char) = nat (k mod 256)" by simp
    then have "nat (k mod 256) = 0" unfolding e by simp
    then show False using that by (simp add: nat_eq_iff2)
  qed
  then show "length s < MAXTXSTRING \<and> char_of (0 :: nat) \<notin> set s \<Longrightarrow> ?thesis" by (auto simp: type_key_def MAXTXSTRING_def)
qed

lemma processKey_keys_ok:
  assumes "keys_ok (panel a)"
  shows "keys_ok (panel (snd (processKey k a)))"
proof -
  define u where "u = panel a"
  have t: "length (type_key j (editString u)) < MAXTXSTRING \<and> char_of (0 :: nat) \<notin> set (type_key j (editString u))" for j
    using assms by (intro type_key_ok) (simp add: keys_ok_def u_def)
  have b: "length (butlast (editString u)) < MAXTXSTRING" "char_of (0 :: nat) \<notin> set (butlast (editString u))"
    using assms by (auto simp: keys_ok_def u_def dest: in_set_butlastD)
  consider "kbdStatus u = IDLE_KBD" | "kbdStatus u = ESC1" | "kbdStatus u = ESC2" using assms by (auto simp: keys_ok_def u_def)
  then show ?thesis
  proof cases
    case 1
    then show ?thesis using assms t b unfolding u_def
      by (auto simp: processKey_def Let_def idle_key_def keys_ok_def MAXTXSTRING_def key_codes)
  next
    case 2
    then show ?thesis using assms unfolding u_def by (auto simp: processKey_def Let_def keys_ok_def key_codes ESC2_def)
  next
    case 3
    then show ?thesis using assms unfolding u_def by (auto simp: processKey_def Let_def keys_ok_def key_codes move_cursor_def)
  qed
qed

lemma want_refresh_keys_ok [simp]: "keys_ok (panel (want_refresh a)) = keys_ok (panel a)"
  by (simp add: want_refresh_def keys_ok_def)

lemma on_staged_keys_ok [simp]: "keys_ok (panel (on_staged f a)) = keys_ok (panel a)"
  by (simp add: on_staged_def keys_ok_def)

lemma drain_keys_ok: "keys_ok (panel a) \<Longrightarrow> keys_ok (panel (drain_keys ks a))"
proof (induction ks arbitrary: a)
  case (Cons k ks)
  then show ?case using processKey_keys_ok[of a k] by (cases "processKey k a") (simp add: Let_def)
qed simp

lemma shows_keys_ok:
  "keys_ok (panel a) \<Longrightarrow> keys_ok (panel (show_log e a))" "keys_ok (panel a) \<Longrightarrow> keys_ok (panel (show_cq e a))"
  "keys_ok (panel a) \<Longrightarrow> keys_ok (panel (show_qso e t a))"
  by (simp_all add: show_log_def show_cq_def show_qso_def printLog_def printCQ_def printQSORemote_def on_staged_def keys_ok_def want_refresh_def
      split: option.split prod.split)

subsection \<open>The screen follows\<close>

definition synced :: "ui \<Rightarrow> bool" where
  "synced u \<longleftrightarrow> termRefresh u \<or> terminal u = staged u"

lemma shows_synced:
  "synced (panel a) \<Longrightarrow> synced (panel (show_log e a))" "synced (panel a) \<Longrightarrow> synced (panel (show_cq e a))"
  "synced (panel a) \<Longrightarrow> synced (panel (show_qso e t a))"
  by (simp_all add: show_log_def show_cq_def show_qso_def synced_def want_refresh_def split: option.split prod.split)

lemma processKey_changed [simp]: "fst (processKey k a)"
  by (simp add: processKey_def Let_def)

lemma drain_keys_refresh: "ks \<noteq> [] \<Longrightarrow> termRefresh (panel (drain_keys ks a))"
proof (induction ks arbitrary: a rule: list_nonempty_induct)
  case (single k)
  then show ?case using processKey_changed[of k a] by (cases "processKey k a") (simp add: want_refresh_def)
next
  case (cons k ks)
  then show ?case by (simp add: Let_def split: prod.split)
qed

lemma drain_keys_synced: "synced (panel a) \<Longrightarrow> synced (panel (drain_keys ks a))"
  using drain_keys_refresh[of ks a] by (cases ks) (simp_all add: synced_def)

lemma shows_nothing:
  "termRefresh (panel (show_log e a)) \<or> show_log e a = a \<and> log_q a = []"
  "termRefresh (panel (show_cq e a)) \<or> show_cq e a = a \<and> cq_q a = []"
  "termRefresh (panel (show_qso e t a)) \<or> show_qso e t a = a \<and> qso_queue (handler a) = []"
  by (simp_all add: show_log_def show_cq_def show_qso_def want_refresh_def tsq_pop_def split: option.split prod.split list.split)

lemma shows_refresh:
  "termRefresh (panel a) \<Longrightarrow> termRefresh (panel (show_cq e a))" "termRefresh (panel a) \<Longrightarrow> termRefresh (panel (show_qso e t a))"
  by (simp_all add: show_cq_def show_qso_def want_refresh_def split: option.split prod.split)

lemma drain_refresh: "termRefresh (panel a) \<Longrightarrow> termRefresh (panel (drain_keys ks a))"
  using drain_keys_refresh[of ks a] by (cases ks) simp_all

text \<open>A turn asks for a redraw or finds nothing to do.\<close>

lemma before_flush:
  fixes a :: client and keys :: "int list" and t :: int and e :: uenv
  defines "b \<equiv> show_qso e t (drain_keys keys (show_cq e (show_log e a)))"
  shows "termRefresh (panel b) \<or> b = a \<and> keys = [] \<and> log_q a = [] \<and> cq_q a = [] \<and> qso_queue (handler a) = []"
proof (cases "termRefresh (panel b)")
  case False
  then have d: "\<not> termRefresh (panel (drain_keys keys (show_cq e (show_log e a))))" using shows_refresh(2) unfolding b_def by blast
  then have k: "keys = []" using drain_keys_refresh by blast
  have "\<not> termRefresh (panel (show_cq e (show_log e a)))" using d unfolding k by simp
  moreover from this have "\<not> termRefresh (panel (show_log e a))" using shows_refresh(1) by blast
  ultimately show ?thesis using False shows_nothing(1)[of e a] shows_nothing(2)[of e "show_log e a"]
      shows_nothing(3)[of e t "show_cq e (show_log e a)"] unfolding b_def k by auto
qed simp

lemma turn_panel:
  assumes "ui_ok (panel a) \<or> keys_ok (panel a) \<and> termRefresh (panel a)"
  shows "ui_ok (panel (CQHandler_iter e t keys a)) \<and> \<not> termRefresh (panel (CQHandler_iter e t keys a))"
proof -
  define b where "b = show_qso e t (drain_keys keys (show_cq e (show_log e a)))"
  have k: "keys_ok (panel b)" unfolding b_def using assms by (intro shows_keys_ok drain_keys_ok) (auto simp: ui_ok_keys)
  have s: "synced (panel b)" unfolding b_def
    using assms by (intro shows_synced drain_keys_synced) (auto simp: ui_ok_keys synced_def)
  show ?thesis
    using k s unfolding CQHandler_iter_def Let_def b_def [symmetric] ui_ok_keys
    by (simp add: flush_turn_def Let_def printCall_def refreshStatus_def printClock_def on_staged_def doupdate_def keys_ok_def synced_def) auto
qed

text \<open>
  A turn of the screen's thread that has anything to show leaves the terminal up to date: the command line as it
  was edited and the switches as they are after its keys (reporting, the four of the handler and the transmitter).
\<close>

theorem turn_shows_state:
  assumes "keys \<noteq> [] \<or> log_q a \<noteq> [] \<or> cq_q a \<noteq> [] \<or> qso_queue (handler a) \<noteq> [] \<or> termRefresh (panel a)"
  shows "call_line (terminal (panel (CQHandler_iter e t keys a))) = ''CMD>'' @ editString (panel (CQHandler_iter e t keys a))
    \<and> status_lines (terminal (panel (CQHandler_iter e t keys a))) = status_text (CQHandler_iter e t keys a)"
proof -
  define b where "b = show_qso e t (drain_keys keys (show_cq e (show_log e a)))"
  have r: "termRefresh (panel b)" using before_flush[of e t keys a] assms unfolding b_def by auto
  show ?thesis using r unfolding CQHandler_iter_def Let_def b_def [symmetric]
    by (simp add: flush_turn_def Let_def printCall_def refreshStatus_def printClock_def on_staged_def doupdate_def status_text_def getTransmitting_def)
qed

definition demo_uenv :: uenv where
  "demo_uenv = \<lparr>u_opts = \<lparr>d_freq = 0, rcall = ''SA0PRF'', rloc = ''JO99''\<rparr>,
     u_local = (\<lambda>_. \<lparr>tm_year = 0, tm_mon = 0, tm_mday = 1, tm_hour = 0, tm_min = 0, tm_sec = 0\<rparr>),
     u_gm = (\<lambda>_. \<lparr>tm_year = 0, tm_mon = 0, tm_mday = 1, tm_hour = 0, tm_min = 0, tm_sec = 0\<rparr>)\<rparr>"

theorem turn_shows_state_witness:
  "call_line (terminal (panel (CQHandler_iter demo_uenv 0 [113] demo_client))) = ''CMD>'' @ editString (panel (CQHandler_iter demo_uenv 0 [113] demo_client))"
proof -
  have k: "[113 :: int] \<noteq> [] \<or> log_q demo_client \<noteq> [] \<or> cq_q demo_client \<noteq> [] \<or> qso_queue (handler demo_client) \<noteq> []
      \<or> termRefresh (panel demo_client)" by simp
  show ?thesis by (rule conjunct1[OF turn_shows_state[OF k]])
qed

subsection \<open>The handler under the screen\<close>

lemma reach_switch: "qso_reach env ok (pc, q) \<Longrightarrow> qso_reach env ok (pc, set_switch c q)"
  by (rule qso_reach.step[OF _ qso_step.switch])

lemma run_command_handler: "handler (run_command s a) = handler a \<or> (\<exists>c. handler (run_command s a) = set_switch c (handler a))"
proof -
  have "handler (run_command s a) \<in> insert (handler a) (range (\<lambda>c. set_switch c (handler a)))"
    by (rule run_command_cases) (simp_all add: switch_handler_def programQuit_def)
  then show ?thesis by blast
qed

lemma processKey_handler:
  "handler (snd (processKey k a)) = handler a \<or> (\<exists>c. handler (snd (processKey k a)) = set_switch c (handler a))"
  using run_command_handler[of "editString (panel a)" a] by (auto simp: processKey_def Let_def idle_key_def)

lemma drain_keys_reach: "qso_reach env ok (pc, handler a) \<Longrightarrow> qso_reach env ok (pc, handler (drain_keys ks a))"
proof (induction ks arbitrary: a)
  case (Cons k ks)
  then have "qso_reach env ok (pc, handler (snd (processKey k a)))" using processKey_handler[of k a] reach_switch by metis
  then have "qso_reach env ok (pc, handler (want_refresh (snd (processKey k a))))" by (simp add: want_refresh_def)
  from Cons.IH[OF this] Cons.IH[OF \<open>qso_reach env ok (pc, handler (snd (processKey k a)))\<close>]
  show ?case by (cases "processKey k a") (simp add: Let_def)
qed simp

lemma show_qso_reach: "qso_reach env ok (pc, handler a) \<Longrightarrow> qso_reach env ok (pc, handler (show_qso e t a))"
  using qso_reach.step[OF _ qso_step.shown, of env ok pc "handler a"]
  by (auto simp: show_qso_def want_refresh_def printQSORemote_def on_staged_def tsq_pop_def split: option.splits prod.splits list.splits)

lemma turn_reach:
  assumes "qso_reach env ok (pc, handler a)"
  shows "qso_reach env ok (pc, handler (CQHandler_iter e t keys a))"
proof -
  have "handler (show_cq e (show_log e a)) = handler a"
    by (simp add: show_cq_def show_log_def want_refresh_def printCQ_def printLog_def on_staged_def split: option.split prod.split)
  then have "qso_reach env ok (pc, handler (show_qso e t (drain_keys keys (show_cq e (show_log e a)))))"
    using assms by (intro show_qso_reach drain_keys_reach) simp
  then show ?thesis
    by (simp add: CQHandler_iter_def Let_def flush_turn_def printCall_def refreshStatus_def printClock_def on_staged_def doupdate_def)
qed

subsection \<open>The thread of the socket\<close>

text \<open>The display is on exactly while the thread waits for its third letter, and the status goes with the place.\<close>

fun pc_status :: "tx_pc \<Rightarrow> tx_state set" where
  "pc_status Polling = {TX_IDLE}" | "pc_status Reading1 = {TX_IDLE}" | "pc_status Reading2 = {TX_WAITING}"
| "pc_status Reading3 = {TX_ONGOING}" | "pc_status Leaving = {TX_END}" | "pc_status TxEnded = {TX_IDLE}"

definition tx_ok :: "tx_thread \<Rightarrow> bool \<Rightarrow> bool" where
  "tx_ok th on \<longleftrightarrow> txStatusFlag th \<in> pc_status (tx_pc th) \<and> (on \<longleftrightarrow> tx_pc th = Reading3)
     \<and> (\<forall>m \<in> set (sent_letters th). msg_type m = SEND_F8_REQ)"

lemma parse_fields [simp]:
  "panel (parseTxFreqReply r a) = panel a" "handler (parseTxFreqReply r a) = handler a" "transmitting (parseTxFreqReply r a) = transmitting a"
  by (simp_all add: parseTxFreqReply_def Let_def)

lemma tx_step_ok:
  assumes "tx_ok th (transmitting a)" "TXHandler_step r (th, a) = (th', a')" "qso_reach env ok (pc, handler a)"
  shows "tx_ok th' (transmitting a') \<and> panel a' = panel a \<and> qso_reach env ok (pc, handler a')"
  using assms qso_reach.step[OF assms(3) qso_step.tx_taken]
  by (auto simp: tx_ok_def setTransmitting_def resetTransmitting_def tsq_pop_def split: tx_pc.splits if_splits option.splits prod.splits list.splits)

subsection \<open>All threads\<close>

text \<open>
  The handler's thread, the thread of the socket with any readings, the thread of the screen with any keys and time,
  the decoder's pushes to the two queues it feeds, and the main thread's requests to stop, in any order.
\<close>

inductive client_step :: "qenv \<Rightarrow> (plain_message \<Rightarrow> bool) \<Rightarrow> uenv \<Rightarrow> qpc \<times> tx_thread \<times> client \<Rightarrow> qpc \<times> tx_thread \<times> client \<Rightarrow> bool"
  for env :: qenv and ok :: "plain_message \<Rightarrow> bool" and e :: uenv where
  screen: "CQHandler_goes_on a \<Longrightarrow> client_step env ok e (pc, th, a) (pc, th, CQHandler_iter e t keys a)"
| socket: "TXHandler_step r (th, a) = (th', a') \<Longrightarrow> client_step env ok e (pc, th, a) (pc, th', a')"
| close_tx: "client_step env ok e (pc, th, a) (pc, close_TxThread th, a)"
| close_screen: "client_step env ok e (pc, th, a) (pc, th, close_CQThread a)"
| close_keyboard: "client_step env ok e (pc, th, a) (pc, th, close_KbhThread a)"
| contact: "qso_step env ok (pc, handler a) (pc', q) \<Longrightarrow> client_step env ok e (pc, th, a) (pc', th, a\<lparr>handler := q\<rparr>)"
| traffic: "client_step env ok e (pc, th, a) (pc, th, a\<lparr>log_q := tsq_push (log_q a) m\<rparr>)"
| spot: "client_step env ok e (pc, th, a) (pc, th, a\<lparr>cq_q := tsq_push (cq_q a) r\<rparr>)"

definition client_start :: "qenv \<Rightarrow> uenv \<Rightarrow> u32 \<Rightarrow> int \<Rightarrow> panes \<Rightarrow> receiver_options \<Rightarrow> rx_state \<Rightarrow> qpc \<times> tx_thread \<times> client" where
  "client_start env e dial midH blank ro r =
     (Head, \<lparr>tx_pc = Polling, txStatusFlag = TX_IDLE, exitTxThread = False, sent_letters = []\<rparr>,
      init_ncurses dial midH blank \<lparr>panel = static_ui blank, handler = initQsoState env init_globals, ropts = ro, rx = r,
        log_q = [], cq_q = [], qsoFreq = 0, transmitting = False, exitKBHThread = False, exitCQThread = False\<rparr>)"

inductive client_reach :: "qenv \<Rightarrow> (plain_message \<Rightarrow> bool) \<Rightarrow> uenv \<Rightarrow> qpc \<times> tx_thread \<times> client \<Rightarrow> bool"
  for env :: qenv and ok :: "plain_message \<Rightarrow> bool" and e :: uenv where
  start: "client_reach env ok e (client_start env e dial midH blank ro r)"
| step: "client_reach env ok e s \<Longrightarrow> client_step env ok e s s' \<Longrightarrow> client_reach env ok e s'"

definition client_inv :: "qenv \<Rightarrow> (plain_message \<Rightarrow> bool) \<Rightarrow> qpc \<times> tx_thread \<times> client \<Rightarrow> bool" where
  "client_inv env ok = (\<lambda>(pc, th, a). ui_ok (panel a) \<and> tx_ok th (transmitting a) \<and> qso_reach env ok (pc, handler a))"

lemma client_step_inv:
  assumes "client_inv env ok (pc, th, a)" "client_step env ok e (pc, th, a) s"
  shows "client_inv env ok s"
  using assms(2)
proof (cases rule: client_step.cases)
  case (screen t keys)
  moreover have "transmitting (CQHandler_iter e t keys a) = transmitting a"
  proof -
    have r: "transmitting (run_command c x) = transmitting x" for c x
      by (rule run_command_cases) (simp_all add: switch_handler_def programQuit_def)
    have k: "transmitting (snd (processKey k x)) = transmitting x" for k x
      by (simp add: processKey_def Let_def idle_key_def r)
    have d: "transmitting (drain_keys ks x) = transmitting x" for ks x
      by (induction ks arbitrary: x) (use k in \<open>simp_all add: Let_def want_refresh_def split_beta\<close>)
    show ?thesis
      by (simp add: CQHandler_iter_def Let_def flush_turn_def show_qso_def show_cq_def show_log_def want_refresh_def printQSORemote_def
          printCQ_def printLog_def printCall_def refreshStatus_def printClock_def on_staged_def doupdate_def d split: option.split prod.split)
  qed
  ultimately show ?thesis using assms(1) turn_panel[of a] turn_reach by (simp add: client_inv_def)
next
  case (socket r th' a')
  then show ?thesis using assms(1) tx_step_ok[of th a r th' a' env ok pc] by (simp add: client_inv_def)
next
  case (contact pc' q)
  then show ?thesis using assms(1) qso_reach.step by (simp add: client_inv_def) blast
qed (use assms(1) in \<open>simp_all add: client_inv_def close_TxThread_def close_CQThread_def close_KbhThread_def tx_ok_def\<close>)

lemma client_reach_inv: "client_reach env ok e s \<Longrightarrow> client_inv env ok s"
proof (induction rule: client_reach.induct)
  case (start dial midH blank ro r)
  then show ?case using qso_reach.start[of env ok]
    by (simp add: client_start_def client_inv_def init_ncurses_def init_panel_def static_ui_def ui_ok_def tx_ok_def key_codes MAXTXSTRING_def)
next
  case (step s s')
  then show ?case using client_step_inv by (cases s) blast
qed



end
