(* ===== verification/ClientLink.thy ===== *)
theory ClientLink
  imports ClientUi TxDaemon
begin

text \<open>
  The client and the transmitter together: what the client reads of the daemon's letters while the daemon serves its
  request.
\<close>

fun letters_to :: "int \<Rightarrow> tx_event list \<Rightarrow> FT8Msg list" where
  "letters_to fd [] = []"
| "letters_to fd (SentTo g m # es) = (if g = fd then m # letters_to fd es else letters_to fd es)"
| "letters_to fd (_ # es) = letters_to fd es"

lemma scan_freq_letter: "0 < f \<Longrightarrow> f < 2 ^ 32 \<Longrightarrow> scan_freq (''FREQ '' @ int_dec f) = f"
proof -
  have s: "dropWhile isspace_c (CHR '' '' # int_dec f) = dropWhile isspace_c (int_dec f)" by (simp add: isspace_c_def code_def)
  have "atoi (CHR '' '' # int_dec f) = atoi (int_dec f)" unfolding atoi_def s ..
  then show "0 < f \<Longrightarrow> f < 2 ^ 32 \<Longrightarrow> ?thesis" by (simp add: scan_freq_def atoi_int_dec)
qed

lemma scan_freq_others: "scan_freq ''SEND_F8_REQ'' = 0" "scan_freq (''Transmitting...'' @ x) = 0"
  by (simp_all add: scan_freq_def)

lemma whole_letter_parse: "parseTxFreqReply (whole_letter m) a =
    (let f = scan_freq (ft8Message m) in if 0 < f then a\<lparr>qsoFreq := word_of_int f\<rparr> else a)"
  by (simp add: parseTxFreqReply_def whole_letter_def)

lemma three_letters_read:
  assumes "tx_pc th = Reading1" "ft8Message m1 = ''SEND_F8_REQ''" "ft8Message m2 = ''FREQ '' @ int_dec f"
    "ft8Message m3 = ''Transmitting...'' @ newline" "0 < f" "f < 2 ^ 32"
  shows "read_letters [m1, m2, m3] (th, a)
    = (th\<lparr>tx_pc := Leaving, txStatusFlag := TX_END\<rparr>, a\<lparr>qsoFreq := word_of_int f, transmitting := False\<rparr>)"
proof -
  have p: "parseTxFreqReply (whole_letter m1) b = b" "parseTxFreqReply (whole_letter m2) b = b\<lparr>qsoFreq := word_of_int f\<rparr>"
    "parseTxFreqReply (whole_letter m3) b = b" for b
    unfolding whole_letter_parse assms(2-4) scan_freq_letter[OF assms(5,6)] scan_freq_others using assms(5) by simp_all
  show ?thesis using assms(1) by (simp add: read_letters_def p setTransmitting_def resetTransmitting_def)
qed



end
