(* ===== verification/FtxFreeText.thy ===== *)
theory FtxFreeText
  imports FtxBounds
begin

text \<open>
  Free text: thirteen characters of an alphabet of 42 as a number of 71 bits, and back. The byte arrays are read as
  numbers in base 256; the encoder multiplies by 42 from the last byte on, the decoder divides from the first.
\<close>

subsection \<open>Byte arrays as numbers\<close>

text \<open>Last byte first, and first byte first.\<close>

fun lval :: "u8 list \<Rightarrow> nat" where
  "lval [] = 0"
| "lval (b # bs) = unat b + 256 * lval bs"

definition bval :: "u8 list \<Rightarrow> nat" where "bval bs = lval (rev bs)"

lemma lval_append: "lval (as @ bs) = lval as + 256 ^ length as * lval bs"
  by (induction as) (simp_all add: algebra_simps)

lemma bval_simps [simp]: "bval [] = 0" "bval (b # bs) = unat b * 256 ^ length bs + bval bs"
  by (simp_all add: bval_def lval_append)

lemma byte_less: "unat (b :: u8) < 256"
  using unsigned_less[of b] by simp

lemma lval_less: "lval bs < 256 ^ length bs"
proof (induction bs)
  case (Cons b bs)
  then have "lval bs + 1 \<le> 256 ^ length bs" by simp
  then have "256 * (lval bs + 1) \<le> 256 * 256 ^ length bs" by (rule mult_le_mono2)
  then show ?case using byte_less[of b] by simp
qed simp

lemma bval_less: "bval bs < 256 ^ length bs"
  using lval_less[of "rev bs"] by (simp add: bval_def)

subsection \<open>Times 42\<close>

lemma unat_ucast_byte: "unat (ucast (b :: u8) :: u32) = unat b"
  using byte_less[of b] by (simp add: unsigned_ucast_eq unsigned_take_bit_eq take_bit_eq_mod)

lemma mul_word: "unat c \<le> 42 \<Longrightarrow> unat (ucast (b :: u8) * 42 + c :: u32) = unat b * 42 + unat c"
  using byte_less[of b] by (simp add: unat_word_ariths unat_ucast_byte)

lemma mod_carry: "(x + 256 * y) mod (256 * m) = x mod 256 + 256 * ((x div 256 + y) mod (m :: nat))"
  by (simp add: mod_mult2_eq add.commute)

lemma mul42_value: "unat c \<le> 42 \<Longrightarrow> lval (mul42 bs c) = (42 * lval bs + unat c) mod 256 ^ length bs"
proof (induction bs c rule: mul42.induct)
  case (2 b bs c)
  define v where "v = (ucast b * 42 + c :: u32)"
  have v: "unat v = unat b * 42 + unat c" unfolding v_def using 2(2) by (rule mul_word)
  have d: "unat (drop_bit 8 v) = unat v div 256" by (simp add: drop_bit_eq_div unat_div_distrib)
  have "unat (drop_bit 8 v) \<le> 42" using byte_less[of b] 2(2) unfolding d v by simp
  then have i: "lval (mul42 bs (drop_bit 8 v)) = (42 * lval bs + unat v div 256) mod 256 ^ length bs"
    using 2(1)[OF v_def] unfolding d by simp
  have l: "unat (ucast (v AND 0xFF) :: u8) = unat v mod 256"
  proof -
    have u: "unat (ucast x :: u8) = unat x mod 256" for x :: u32
      by (simp add: unsigned_ucast_eq unsigned_take_bit_eq take_bit_eq_mod)
    have "v AND 0xFF = take_bit 8 v" by (simp add: take_bit_eq_mask mask_eq_exp_minus_1)
    then have "unat (v AND 0xFF) = take_bit 8 (unat v)" by (simp only: unsigned_take_bit_eq)
    then have "unat (v AND 0xFF) = unat v mod 256" by (simp only: take_bit_eq_mod) simp
    then show ?thesis by (simp only: u mod_mod_trivial)
  qed
  have "(42 * lval (b # bs) + unat c) mod 256 ^ length (b # bs) = (unat v + 256 * (42 * lval bs)) mod (256 * 256 ^ length bs)"
    by (simp add: v algebra_simps)
  also have "\<dots> = unat v mod 256 + 256 * ((unat v div 256 + 42 * lval bs) mod 256 ^ length bs)"
    by (rule mod_carry)
  finally show ?case unfolding mul42.simps Let_def v_def [symmetric] lval.simps l i by (simp add: add.commute)
qed simp

lemma length_mul [simp]: "length (mul42 bs c) = length bs"
  by (induction bs c rule: mul42.induct) (simp_all add: Let_def)

definition free_digit :: "char \<Rightarrow> nat" where
  "free_digit c = nat (nchar c FULL)"

lemma free_digit_less: "free_digit c < 42"
  using nchar_range(1)[of c FULL] by (simp add: free_digit_def)

lemma free_step_value: "bval (free_step c b) = (42 * bval b + free_digit c) mod 256 ^ length b"
proof -
  have n: "unat (if nchar c FULL < 0 then 0 else word_of_int (nchar c FULL) :: u32) = free_digit c"
  proof (cases "nchar c FULL < 0")
    case False
    moreover from this have "uint (word_of_int (nchar c FULL) :: u32) = nchar c FULL"
      using nchar_range(1)[of c FULL] by (intro uint_of_int) simp_all
    ultimately show ?thesis by (simp only: free_digit_def unat_eq_nat_uint if_False)
  qed (simp add: free_digit_def)
  have "unat (if nchar c FULL < 0 then 0 else word_of_int (nchar c FULL) :: u32) \<le> 42" unfolding n using free_digit_less[of c] by simp
  from mul42_value[OF this, of "rev b"] show ?thesis unfolding n by (simp add: free_step_def Let_def bval_def)
qed

lemma length_free_step [simp]: "length (free_step c b) = length b"
  by (simp add: free_step_def Let_def)

text \<open>The number of a text, and that thirteen digits do not reach bit 71.\<close>

definition free_num :: "string \<Rightarrow> nat" where
  "free_num cs = fold (\<lambda>c n. 42 * n + free_digit c) cs 0"

lemma free_num_snoc: "free_num (cs @ [c]) = 42 * free_num cs + free_digit c"
  by (simp add: free_num_def)

lemma free_num_less: "free_num cs < 42 ^ length cs"
proof (induction cs rule: rev_induct)
  case (snoc c cs)
  then have "42 * (free_num cs + 1) \<le> 42 * 42 ^ length cs" by (intro mult_le_mono2) simp
  then show ?case using free_digit_less[of c] by (simp add: free_num_snoc)
qed (simp add: free_num_def)

lemma free_fold_value:
  assumes "length b = 9" "bval b = 0" "length cs \<le> 13"
  shows "bval (fold free_step cs b) = free_num cs \<and> length (fold free_step cs b) = 9"
  using assms(3)
proof (induction cs rule: rev_induct)
  case (snoc c cs)
  then have i: "bval (fold free_step cs b) = free_num cs" "length (fold free_step cs b) = 9" by simp_all
  have "free_num (cs @ [c]) < 42 ^ 13"
    using free_num_less[of "cs @ [c]"] power_increasing[of "length (cs @ [c])" 13 "42 :: nat"] snoc.prems by simp
  then have "free_num (cs @ [c]) < 256 ^ 9" by simp
  then show ?case using i by (simp add: free_step_value free_num_snoc)
qed (simp add: assms free_num_def)

subsection \<open>The shifts\<close>

lemma top_bit: "unat (drop_bit 7 b AND 1 :: u8) = unat b div 128"
proof -
  have "unat b div 128 < 2" using byte_less[of b] by simp
  then show ?thesis by (simp add: and_one_eq unat_mod_distrib drop_bit_eq_div unat_div_distrib)
qed

lemma low_bit: "unat (b AND 1 :: u8) = unat b mod 2"
  by (simp add: and_one_eq unat_mod_distrib)

lemma bit_or_zero: "unat c < 2 \<Longrightarrow> c = 0 \<or> c = (1 :: u8)"
  by (simp add: word_unat_eq_iff) linarith

lemma shifted_up:
  assumes "unat c < 2"
  shows "unat (push_bit 1 b OR c :: u8) = 2 * unat b mod 256 + unat c"
proof -
  have "push_bit 1 b AND 1 = (0 :: u8)" by (rule word_bitwise) (simp_all add: bitwise)
  then have "push_bit 1 b AND c = 0" using bit_or_zero[OF assms] by auto
  then have e: "push_bit 1 b OR c = push_bit 1 b + c" by (simp add: disjunctive_add_eq_or)
  have p: "unat (push_bit 1 b) = 2 * unat b mod 256" by (simp add: push_bit_eq_mult unat_word_ariths mult.commute)
  have "2 * unat b mod 256 = 2 * (unat b mod 128)" using mult_mod_right[of 2 "unat b" 128] by simp
  then have "2 * unat b mod 256 + unat c < 256" using assms pos_mod_bound[of 128 "int (unat b)"] by (simp add: zmod_int [symmetric])
  then show ?thesis unfolding e unat_word_ariths(1) p by simp
qed

lemma shifted_down:
  assumes "unat c < 2"
  shows "unat (push_bit 7 c OR drop_bit 1 b :: u8) = 128 * unat c + unat b div 2"
proof -
  have "push_bit 7 1 AND drop_bit 1 b = (0 :: u8)" by (rule word_bitwise) (simp_all add: bitwise)
  then have "push_bit 7 c AND drop_bit 1 b = 0" using bit_or_zero[OF assms] by auto
  then have e: "push_bit 7 c OR drop_bit 1 b = push_bit 7 c + drop_bit 1 b" by (simp add: disjunctive_add_eq_or)
  have p: "unat (push_bit 7 c) = 128 * unat c" using bit_or_zero[OF assms] by auto
  have d: "unat (drop_bit 1 b) = unat b div 2" by (simp add: drop_bit_eq_div unat_div_distrib)
  have "128 * unat c + unat b div 2 < 256" using assms byte_less[of b] by simp
  then show ?thesis unfolding e unat_word_ariths(1) p d by simp
qed

lemma shift_left_value:
  "shift_left bs c = (r, t) \<Longrightarrow> unat c < 2 \<Longrightarrow>
   lval r + 256 ^ length bs * unat t = 2 * lval bs + unat c \<and> length r = length bs \<and> unat t < 2"
proof (induction bs c arbitrary: r t rule: shift_left.induct)
  case (2 b bs c)
  obtain r' where r: "shift_left bs (drop_bit 7 b AND 1) = (r', t)" "r = (push_bit 1 b OR c) # r'"
    using 2(2) by (auto split: prod.splits)
  have "unat (drop_bit 7 b AND 1) < 2" using byte_less[of b] unfolding top_bit by simp
  with 2(1)[OF r(1)] have i: "lval r' + 256 ^ length bs * unat t = 2 * lval bs + unat b div 128" "length r' = length bs" "unat t < 2"
    unfolding top_bit by simp_all
  have a: "2 * unat b mod 256 + 256 * (unat b div 128) = 2 * unat b"
  proof -
    have "2 * unat b mod 256 = 2 * (unat b mod 128)" using mult_mod_right[of 2 "unat b" 128] by simp
    moreover have "unat b div 128 * 128 + unat b mod 128 = unat b" by (rule div_mult_mod_eq)
    ultimately show ?thesis by linarith
  qed
  have m: "256 * lval r' + 256 * (256 ^ length bs * unat t) = 256 * (2 * lval bs + unat b div 128)"
    unfolding i(1) [symmetric] by (simp add: algebra_simps)
  have "lval r = (2 * unat b mod 256 + unat c) + 256 * lval r'" unfolding r(2) lval.simps shifted_up[OF 2(3)] ..
  moreover have "256 ^ length (b # bs) * unat t = 256 * (256 ^ length bs * unat t)" by simp
  ultimately show ?case using a m i(2,3) by (simp add: r(2))
qed auto

lemma halves: "2 * ((x div 2) * m) + m * (x mod 2) = x * (m :: nat)"
proof -
  have "(2 * (x div 2) + x mod 2) * m = x * m" by simp
  then show ?thesis unfolding add_mult_distrib by (simp only: mult.assoc mult.commute[of m])
qed

lemma top_half: "(128 * c + d) * m = 128 * (m * c) + d * (m :: nat)"
  unfolding add_mult_distrib by (simp only: mult.assoc mult.commute[of m])

lemma add_parts: "2 * d + r = u \<Longrightarrow> 2 * x + k = r + y \<Longrightarrow> a = 128 * q + d \<Longrightarrow> 2 * (a + x) + k = 256 * q + (u + y)" for a d r u x k y q :: nat
  by simp

lemma shift_right_value:
  "bs \<noteq> [] \<Longrightarrow> unat c < 2 \<Longrightarrow> 2 * bval (shift_right bs c) + bval bs mod 2 = 256 ^ length bs * unat c + bval bs"
proof (induction bs c rule: shift_right.induct)
  case (2 b bs c)
  have l: "length (shift_right bs (b AND 1)) = length bs" by (simp add: shift_right_length)
  have i: "2 * bval (shift_right bs (b AND 1)) + bval bs mod 2 = 256 ^ length bs * (unat b mod 2) + bval bs" if "bs \<noteq> []"
    using 2(1)[OF that] unfolding low_bit by simp
  have e: "bval (shift_right (b # bs) c) = (128 * unat c + unat b div 2) * 256 ^ length bs + bval (shift_right bs (b AND 1))"
    by (simp only: shift_right.simps bval_simps shifted_down[OF 2(3)] l)
  have h: "2 * (unat b div 2) + unat b mod 2 = unat b" by simp
  show ?case
  proof (cases bs)
    case Nil
    then show ?thesis unfolding e using h by simp
  next
    case (Cons x xs)
    then have ne: "bs \<noteq> []" and "even (unat b * 256 ^ length bs)" by simp_all
    then have m: "bval (b # bs) mod 2 = bval bs mod 2" by (simp add: mod_2_eq_odd)
    have p: "256 ^ length (b # bs) * unat c = 256 * (256 ^ length bs * unat c)" "bval (b # bs) = unat b * 256 ^ length bs + bval bs"
      by simp_all
    show ?thesis unfolding m unfolding e p by (rule add_parts[OF halves i[OF ne] top_half])
  qed
qed simp

subsection \<open>By 42\<close>

lemma div_word:
  fixes rm :: u16 and b :: u8
  assumes "unat rm < 42"
  defines "w \<equiv> push_bit 8 rm OR ucast b"
  shows "unat (ucast (w div 42) :: u8) = (unat rm * 256 + unat b) div 42" "unat (w mod 42) = (unat rm * 256 + unat b) mod 42"
proof -
  have "push_bit 8 rm AND ucast b = 0" by (rule word_bitwise) (simp_all add: bitwise)
  then have e: "w = push_bit 8 rm + ucast b" unfolding w_def by (simp add: disjunctive_add_eq_or)
  have p: "unat (push_bit 8 rm) = unat rm * 256" using assms(1) by (simp add: push_bit_eq_mult unat_word_ariths mult.commute)
  have u: "unat (ucast b :: u16) = unat b" using byte_less[of b] by (simp add: unsigned_ucast_eq unsigned_take_bit_eq take_bit_eq_mod)
  have w: "unat w = unat rm * 256 + unat b" unfolding e unat_word_ariths(1) p u using assms(1) byte_less[of b] by simp
  have d: "unat (w div 42) = (unat rm * 256 + unat b) div 42" by (simp add: unat_div_distrib w)
  have "(unat rm * 256 + unat b) div 42 < 256" using assms(1) byte_less[of b] by (simp add: less_mult_imp_div_less)
  then show "unat (ucast (w div 42) :: u8) = (unat rm * 256 + unat b) div 42"
    by (simp add: unsigned_ucast_eq unsigned_take_bit_eq take_bit_eq_mod d)
  show "unat (w mod 42) = (unat rm * 256 + unat b) mod 42" by (simp add: unat_mod_distrib w)
qed

lemma div42_value:
  "div42 bs rm = (q, r) \<Longrightarrow> unat rm < 42 \<Longrightarrow>
   unat rm * 256 ^ length bs + bval bs = 42 * bval q + unat r \<and> length q = length bs \<and> unat r < 42"
proof (induction bs rm arbitrary: q r rule: div42.induct)
  case (2 b bs rm)
  define w where "w = push_bit 8 rm OR ucast b"
  obtain q' where q: "div42 bs (w mod 42) = (q', r)" "q = ucast (w div 42) # q'"
    using 2(2) unfolding div42.simps Let_def w_def [symmetric] by (auto split: prod.splits)
  define n where "n = unat rm * 256 + unat b"
  have dm: "unat (ucast (w div 42) :: u8) = n div 42" "unat (w mod 42) = n mod 42" using div_word[OF 2(3)] unfolding n_def w_def by simp_all
  have i: "n mod 42 * 256 ^ length bs + bval bs = 42 * bval q' + unat r" "length q' = length bs" "unat r < 42"
    using 2(1)[of w q' r] q(1) unfolding w_def dm(2) [unfolded w_def] by (simp_all add: dm(2) [unfolded w_def])
  have "(42 * (n div 42) + n mod 42) * 256 ^ length bs = n * 256 ^ length bs" by simp
  then have "42 * ((n div 42) * 256 ^ length bs) + n mod 42 * 256 ^ length bs = n * 256 ^ length bs"
    by (simp only: add_mult_distrib mult.assoc)
  moreover have "n * 256 ^ length bs = unat rm * 256 ^ length (b # bs) + unat b * 256 ^ length bs"
    by (simp add: n_def algebra_simps)
  moreover have "42 * bval q = 42 * ((n div 42) * 256 ^ length bs) + 42 * bval q'" by (simp add: q(2) dm(1) i(2) algebra_simps)
  ultimately show ?case using i by (simp add: q(2))
qed auto

fun digits42 :: "nat \<Rightarrow> nat \<Rightarrow> string" where
  "digits42 0 n = []"
| "digits42 (Suc k) n = digits42 k (n div 42) @ [charn (n mod 42) FULL]"

lemma free_text_digits: "free_text k b = digits42 k (bval b)"
proof (induction k b rule: free_text.induct)
  case (2 k b)
  obtain q r where d: "div42 b 0 = (q, r)" by fastforce
  from div42_value[OF d] have v: "bval b = 42 * bval q + unat r" "unat r < 42" by simp_all
  have "bval b div 42 = bval q" "bval b mod 42 = unat r" unfolding v(1) using v(2) by simp_all
  then show ?case using 2[of "(q, r)" q r] d by simp
qed simp

text \<open>What a character becomes.\<close>

definition free_char :: "char \<Rightarrow> char" where
  "free_char c = (if in_table FULL (to_upper c) then to_upper c else CHR '' '')"

lemma charn_digit: "charn (free_digit c) FULL = (if in_table FULL c then c else CHR '' '')"
  using charn_nchar[of FULL c] by (auto simp: free_digit_def in_table_def charn_def)

lemma digits42_num: "digits42 (length cs) (free_num cs) = map (\<lambda>c. charn (free_digit c) FULL) cs"
proof (induction cs rule: rev_induct)
  case (snoc c cs)
  have "free_num (cs @ [c]) div 42 = free_num cs" "free_num (cs @ [c]) mod 42 = free_digit c"
    using free_digit_less[of c] by (simp_all add: free_num_snoc)
  then show ?case using snoc by simp
qed simp

lemma free_chars_length: "length (free_chars s) = 13"
  by (simp add: free_chars_def)

lemma trim_blank_front: "trim (replicate n CHR '' '' @ s) = trim s"
  by (induction n) (simp_all add: trim_def trim_front_def)

subsection \<open>There and back\<close>

lemma encode_free_value:
  fixes s :: string
  defines "p \<equiv> encode_free s"
  shows "bval (decode_telemetry p) = free_num (free_chars s)" "length p = 10" "p ! 9 = 0" "bit (p ! 8) 0 = False"
proof -
  define b where "b = fold free_step (free_chars s) (replicate 9 0)"
  have zs: "bval (replicate n (0 :: u8)) = 0" for n by (induction n) simp_all
  have z: "bval (replicate 9 (0 :: u8)) = 0" by (rule zs)
  have b: "bval b = free_num (free_chars s)" "length b = 9"
    using free_fold_value[of "replicate 9 0" "free_chars s"] z unfolding b_def by (simp_all add: free_chars_length)
  obtain r t where r: "shift_left (rev b) 0 = (r, t)" by fastforce
  have p: "p = rev r @ [push_bit 7 t]" unfolding p_def encode_free_def b_def [symmetric] by (simp add: r)
  note sh = shift_left_value[OF r]
  have n: "free_num (free_chars s) < 42 ^ 13" using free_num_less[of "free_chars s"] by (simp add: free_chars_length)
  have l: "lval r + 256 ^ 9 * unat t = 2 * bval b" "length r = 9" "unat t < 2" using sh b(2) by (simp_all add: bval_def)
  have "256 ^ 9 * unat t < 256 ^ 9" using l(1) n unfolding b(1) by simp
  then have t0: "t = 0" by (simp add: word_unat_eq_iff)
  show "length p = 10" using l(2) by (simp add: p)
  show "p ! 9 = 0" using l(2) t0 by (simp add: p nth_append)
  have bv: "bval (rev r) = 2 * free_num (free_chars s)" using l(1) t0 b(1) by (simp add: bval_def)
  have "2 * bval (shift_right (rev r) 0) + bval (rev r) mod 2 = bval (rev r)" using shift_right_value[of "rev r" 0] l(2) by (cases r) simp_all
  then have "bval (shift_right (rev r) 0) = free_num (free_chars s)" unfolding bv by simp
  then show "bval (decode_telemetry p) = free_num (free_chars s)" using l(2) by (simp add: decode_telemetry_def p)
  obtain x xs where x: "r = x # xs" using l(2) by (cases r) auto
  have "rev b \<noteq> []" using b(2) by auto
  then obtain y ys where "rev b = y # ys" by (cases "rev b") auto
  then have "x = push_bit 1 y OR 0" using r x by (auto split: prod.splits)
  then have "\<not> bit x 0" using bit_times_two[of y 0] by (simp add: mult.commute)
  moreover have "p ! 8 = x" using l(2) x by (simp add: p nth_append)
  ultimately show "bit (p ! 8) 0 = False" by simp
qed

lemma free_decoded: "decode_free (encode_free s) = trim (map free_char (drop (length s - 13) s))"
proof -
  have "decode_free (encode_free s) = trim (digits42 13 (free_num (free_chars s)))"
    by (simp add: decode_free_def free_text_digits encode_free_value)
  also have "\<dots> = trim (map (\<lambda>c. charn (free_digit c) FULL) (free_chars s))"
    using digits42_num[of "free_chars s"] by (simp add: free_chars_length)
  also have "map (\<lambda>c. charn (free_digit c) FULL) (free_chars s)
      = replicate (13 - length s) CHR '' '' @ map free_char (drop (length s - 13) s)"
    by (simp add: free_chars_def charn_digit free_char_def has_space_def)
  finally show ?thesis by (simp only: trim_blank_front)
qed

lemma free_type: "get_type (encode_free s) = FREE_TEXT"
proof -
  have n: "push_bit 2 (encode_free s ! 8) AND 4 = 0"
    using encode_free_value(4)[of s] by (intro word_bitwise) (simp_all add: bitwise)
  show ?thesis by (simp add: get_type_def get_i3_def get_n3_def encode_free_value n Let_def)
qed

text \<open>
  C24. Free text survives the codec as far as thirteen characters go: for every text the packed bytes are of the free
  text type and decode, with any call sign table, to the last thirteen characters in capitals, with a blank for each
  character outside the alphabet of 42 and without blanks at the ends.
\<close>

theorem free_text_roundtrip:
  fixes hi :: "'h hash_ptr"
  shows "message_decode (encode_free s) hi h = Inr (RC_OK, trim (map free_char (drop (length s - 13) s)), h)"
proof -
  have "length (trim (map free_char (drop (length s - 13) s))) < 35"
    using trim_length(4)[of "map free_char (drop (length s - 13) s)"] by simp
  then show ?thesis by (simp add: message_decode_def free_type free_decoded append_string_def)
qed

end
