(* ===== verification/FtxSound.thy ===== *)
theory FtxSound
  imports FtxLink
begin

text \<open>
  The decoder invents nothing: what \<^verbatim>\<open>ftx_decode_candidate\<close> delivers comes from bits that pass every parity check,
  and its checksum is right.
\<close>

subsection \<open>Belief propagation\<close>

lemma hard_bits: "length (hard_decision cw tov) = FTX_LDPC_N" "set (hard_decision cw tov) \<subseteq> {0, 1}"
  by (auto simp: hard_decision_def simp del: upt.simps upt_rec_numeral)

lemma bp_loop_sound:
  "bp_loop k cw tov me pl0 = (0, pl) \<Longrightarrow> 0 < me \<Longrightarrow> ldpc_check pl = 0 \<and> sum_list pl \<noteq> 0 \<and> length pl = FTX_LDPC_N \<and> set pl \<subseteq> {0, 1}"
proof (induction k cw tov me pl0 rule: bp_loop.induct)
  case (2 k cw tov me pl0)
  define h where "h = hard_decision cw tov"
  note e = 2(2)[unfolded bp_loop.simps Let_def, folded h_def]
  have s: "sum_list h \<noteq> 0"
  proof
    assume "sum_list h = 0"
    then show False using e 2(3) by simp
  qed
  show ?case
  proof (cases "ldpc_check h = 0")
    case True
    then have "pl = h" using e s by (simp split: if_splits)
    then show ?thesis using True s hard_bits[of cw tov] by (simp add: h_def)
  next
    case False
    define m where "m = (if ldpc_check h < me then ldpc_check h else me)"
    have "0 < m" using False 2(3) by (simp add: m_def)
    moreover have "bp_loop k cw (checks_to_bits (bits_to_checks cw tov)) m h = (0, pl)"
      using e unfolding if_not_P[OF s] if_not_P[OF False] m_def by simp
    ultimately show ?thesis using 2(1) s False unfolding h_def m_def by (simp add: Let_def)
  qed
qed simp

subsection \<open>The packed bits\<close>

lemma packed_bits_at:
  assumes "91 \<le> length bits"
  shows "length (pack_bits bits FTX_LDPC_K) = 12" "k < 96 \<Longrightarrow> bit_at (pack_bits bits FTX_LDPC_K) k \<longleftrightarrow> k < 91 \<and> bits ! k \<noteq> 0"
proof -
  define st where "st i = fold pack_step (take i bits) (replicate 12 0, 0x80, 0)" for i
  have inv: "pack_inv bits i (st i)" if "i \<le> 91" for i
    using that
  proof (induction i)
    case 0
    then show ?case by (simp add: pack_inv_def st_def mask_at_def bit_at_def)
  next
    case (Suc i)
    then have "st (Suc i) = pack_step (bits ! i) (st i)" using assms by (simp add: st_def take_Suc_conv_app_nth)
    then show ?case using Suc pack_step_inv[of bits i "st i"] by simp
  qed
  have i: "pack_inv bits 91 (st 91)" by (rule inv) simp
  have p: "pack_bits bits FTX_LDPC_K = fst (st 91)" by (simp add: pack_bits_def st_def FTX_LDPC_K_def)
  show "length (pack_bits bits FTX_LDPC_K) = 12" "k < 96 \<Longrightarrow> bit_at (pack_bits bits FTX_LDPC_K) k \<longleftrightarrow> k < 91 \<and> bits ! k \<noteq> 0"
    using i unfolding p pack_inv_def by auto
qed

lemma packed_message_bytes: "91 \<le> length bits \<Longrightarrow> message_bytes (pack_bits bits FTX_LDPC_K)"
  using packed_bits_at[of bits] by (auto simp: message_bytes_def FTX_LDPC_K_BYTES_def FTX_LDPC_K_def)

subsection \<open>The checksum put back\<close>

lemma crc_fields_back:
  fixes a9 a10 a11 :: u8
  defines "c \<equiv> push_bit 11 (ucast (a9 AND 7)) OR push_bit 3 (ucast a10) OR ucast (drop_bit 5 a11) :: u16"
  assumes "\<not> bit a11 0" "\<not> bit a11 1" "\<not> bit a11 2" "\<not> bit a11 3" "\<not> bit a11 4"
  shows "(a9 AND 0xF8) OR ucast (drop_bit 11 c) = a9" "ucast (drop_bit 3 c) = a10" "ucast (push_bit 5 c) = a11"
  unfolding c_def by (rule word_bitwise; simp add: bitwise assms assms(3)[unfolded One_nat_def]; blast?)+

lemma last_byte_clear:
  assumes "message_bytes a"
  shows "\<not> bit (a ! 11) 0" "\<not> bit (a ! 11) 1" "\<not> bit (a ! 11) 2" "\<not> bit (a ! 11) 3" "\<not> bit (a ! 11) 4"
proof -
  have "\<not> bit_at a k" if "91 \<le> k" "k < 96" for k using assms that by (simp add: message_bytes_def FTX_LDPC_K_def)
  from this[of 95] this[of 94] this[of 93] this[of 92] this[of 91]
  show "\<not> bit (a ! 11) 0" "\<not> bit (a ! 11) 1" "\<not> bit (a ! 11) 2" "\<not> bit (a ! 11) 3" "\<not> bit (a ! 11) 4"
    by (simp_all add: bit_at_def)
qed

lemma crc_put_back:
  assumes "message_bytes a" "ftx_extract_crc a = ftx_compute_crc (a[9 := a ! 9 AND 0xF8, 10 := 0]) (96 - 14)"
  defines "p \<equiv> take 10 (a[9 := a ! 9 AND 0xF8, 10 := 0])"
  shows "ftx_add_crc p = a" "payload_crc p = ftx_compute_crc (a[9 := a ! 9 AND 0xF8, 10 := 0]) (96 - 14)" "clean_payload p"
proof -
  have l: "length a = 12" using assms(1) by (simp add: message_bytes_def FTX_LDPC_K_BYTES_def FTX_LDPC_K_def)
  have p: "length p = 10" "p = (take 10 a)[9 := a ! 9 AND 0xF8]" unfolding p_def by (simp_all add: l take_update_swap list_update_beyond)
  have p9: "p ! 9 = a ! 9 AND 0xF8" unfolding p(2) by (simp add: l)
  have f8: "(x AND 0xF8) AND 0xF8 = x AND (0xF8 :: u8)" for x by (simp add: and.assoc)
  have bt: "blank_tail p = p" unfolding blank_tail_def p9 using p by (simp add: f8 p9 list_update_id)
  show c: "payload_crc p = ftx_compute_crc (a[9 := a ! 9 AND 0xF8, 10 := 0]) (96 - 14)"
    unfolding payload_crc_def bt
  proof (rule crc_local, intro allI impI)
    fix i :: nat assume "i < 11"
    then show "(p @ [0, 0]) ! i = a[9 := a ! 9 AND 0xF8, 10 := 0] ! i"
      using p(1) unfolding p_def by (cases "i = 10") (auto simp: nth_append l)
  qed
  define cr where "cr = ftx_extract_crc a"
  have pc: "payload_crc p = cr" using c assms(2) by (simp add: cr_def)
  note restored = crc_fields_back[OF last_byte_clear[OF assms(1)], of "a ! 9" "a ! 10"]
  have b: "(p ! 9 AND 0xF8) OR ucast (drop_bit 11 cr) = a ! 9" "ucast (drop_bit 3 cr) = a ! 10" "ucast (push_bit 5 cr) = a ! 11"
    unfolding cr_def ftx_extract_crc_def p9 f8 using restored by simp_all
  have "ftx_add_crc p = p[9 := a ! 9] @ [a ! 10, a ! 11]"
    using add_crc_bytes[of p] p(1) unfolding bt pc b by simp
  also have "p[9 := a ! 9] = take 10 a" unfolding p(2) using l by (simp add: list_update_id take_update_swap [symmetric])
  also have "[a ! 10, a ! 11] = drop 10 a" using l Cons_nth_drop_Suc[of 10 a] Cons_nth_drop_Suc[of 11 a] by simp
  also have "take 10 a @ drop 10 a = a" by simp
  finally show "ftx_add_crc p = a" .
  have "(a ! 9 AND 0xF8) AND 7 = 0" by (simp add: and.assoc)
  then show "clean_payload p" using p9 p(1) by (simp add: clean_payload_def f8)
qed

text \<open>
  C16. No message out of thin air: when \<^verbatim>\<open>ftx_decode_candidate\<close> delivers a message, there is a word of 174 bits, not all
  zero, that passes all 83 parity checks and whose first 91 bits are exactly the delivered ten bytes with their
  checksum; the bytes end in three zero bits and the hash is the checksum of the bytes. A delivered message
  therefore passes the checks again when it is encoded.
\<close>

theorem no_false_message:
  assumes "ftx_decode_candidate plain w c iters = Inr (Some m)"
  shows "\<exists>bits. length bits = FTX_LDPC_N \<and> set bits \<subseteq> {0, 1} \<and> sum_list bits \<noteq> 0 \<and> ldpc_check bits = 0
    \<and> pack_bits bits FTX_LDPC_K = ftx_add_crc (payload m) \<and> clean_payload (payload m) \<and> msg_hash m = payload_crc (payload m)"
proof -
  obtain l1 l2 where l: "ft8_extract_likelihood w c = Inr l1" "ftx_normalize_logl l1 = Inr l2"
    and r0: "(let (errors, plain) = bp_decode l2 iters plain in if 0 < errors then Inr None
      else (let a91 = pack_bits plain FTX_LDPC_K; extracted = ftx_extract_crc a91; a91 = a91[9 := a91 ! 9 AND 0xF8, 10 := 0];
          calculated = ftx_compute_crc a91 (96 - 14) in if extracted \<noteq> calculated then Inr None
          else Inr (Some \<lparr>payload = take 10 a91, msg_hash = calculated\<rparr>))) = (Inr (Some m) :: ftx_message option result)"
    using assms unfolding ftx_decode_candidate_def rbind_Inr_iff by blast
  obtain er pl where bp: "bp_decode l2 iters plain = (er, pl)" by fastforce
  have "er = 0" using r0 unfolding bp by (simp split: if_splits)
  then have d: "bp_decode l2 iters plain = (0, pl)"
    and r: "(let a = pack_bits pl FTX_LDPC_K; x = ftx_extract_crc a; a = a[9 := a ! 9 AND 0xF8, 10 := 0]; y = ftx_compute_crc a (96 - 14)
        in if x \<noteq> y then Inr None else Inr (Some \<lparr>payload = take 10 a, msg_hash = y\<rparr>)) = (Inr (Some m) :: ftx_message option result)"
    using bp r0 by simp_all
  have b: "ldpc_check pl = 0" "sum_list pl \<noteq> 0" "length pl = FTX_LDPC_N" "set pl \<subseteq> {0, 1}"
    using bp_loop_sound[OF d[unfolded bp_decode_def]] by (simp_all add: FTX_LDPC_M_def)
  define a where "a = pack_bits pl FTX_LDPC_K"
  have mb: "message_bytes a" unfolding a_def using b(3) by (intro packed_message_bytes) (simp add: FTX_LDPC_N_def)
  have x: "ftx_extract_crc a = ftx_compute_crc (a[9 := a ! 9 AND 0xF8, 10 := 0]) (96 - 14)"
    and m: "m = \<lparr>payload = take 10 (a[9 := a ! 9 AND 0xF8, 10 := 0]), msg_hash = ftx_compute_crc (a[9 := a ! 9 AND 0xF8, 10 := 0]) (96 - 14)\<rparr>"
    using r unfolding Let_def a_def [symmetric] by (auto split: if_splits)
  note restored = crc_put_back[OF mb x]
  show ?thesis using b restored by (intro exI[of _ pl]) (simp add: m a_def [symmetric])
qed

theorem no_false_message_witness:
  "\<exists>p m bits. ftx_decode_candidate [] (painted (ft8_encode p)) painted_cand K_LDPC_ITERS = Inr (Some m)
    \<and> ldpc_check bits = 0 \<and> pack_bits bits FTX_LDPC_K = ftx_add_crc (payload m)"
proof -
  obtain p where p: "message_encode (None :: unit hash_ptr) ''CQ SA0PRF JO99'' () = (RC_OK, p, ())" "p \<noteq> replicate 10 0"
    using demo_cq_packed by blast
  have "0 < K_LDPC_ITERS" by (simp add: K_LDPC_ITERS_def)
  from payload_heard[OF message_encode_clean[OF p(1)] p(2) this painted_shape painted_heard[OF ft8_encode_tones(1,2)], of "[]"]
  show ?thesis using no_false_message by blast
qed

end
