(* ===== verification/FtxLoops.thy ===== *)
theory FtxLoops
  imports FtxDecode
begin

text \<open>
  The two endless loops of the candidate heap end: written with a number of rounds they may take, as the code has them,
  they give what the recursive definitions give within the logarithm of the heap's size.
\<close>

text \<open>\<^verbatim>\<open>while (true)\<close> of \<open>heapify_down\<close> and \<^verbatim>\<open>while (current > 0)\<close> of \<open>heapify_up\<close>; \<open>None\<close>: not done in so many rounds.\<close>

fun down_rounds :: "nat \<Rightarrow> ftx_candidate list \<Rightarrow> nat \<Rightarrow> nat \<Rightarrow> ftx_candidate list option" where
  "down_rounds 0 hp n cur = None"
| "down_rounds (Suc k) hp n cur =
     (let s = smallest_child hp n cur in if s = cur then Some hp else down_rounds k (exchange_at s cur hp) n s)"

fun up_rounds :: "nat \<Rightarrow> ftx_candidate list \<Rightarrow> nat \<Rightarrow> ftx_candidate list option" where
  "up_rounds 0 hp cur = None"
| "up_rounds (Suc k) hp cur =
     (if cur = 0 then Some hp
      else
        (let parent = (cur - 1) div 2 in
         if \<not> score_at hp cur < score_at hp parent then Some hp else up_rounds k (exchange_at parent cur hp) parent))"

lemma smallest_child_next: "smallest_child hp n cur = cur \<or> 2 * cur + 1 \<le> smallest_child hp n cur \<and> smallest_child hp n cur < n"
  by (auto simp: smallest_child_def Let_def)

lemma down_rounds_enough:
  "n \<le> (cur + 1) * 2 ^ k \<Longrightarrow> down_rounds (Suc k) hp n cur = Some (heapify_down hp n cur)"
proof (induction k arbitrary: hp cur)
  case 0
  then have "smallest_child hp n cur = cur" using smallest_child_next[of hp n cur] by auto
  then show ?case by (simp add: heapify_down.simps[of hp n cur])
next
  case (Suc k)
  define s where "s = smallest_child hp n cur"
  show ?case
  proof (cases "s = cur")
    case True
    then show ?thesis by (simp add: s_def heapify_down.simps[of hp n cur])
  next
    case False
    then have "2 * (cur + 1) \<le> s + 1" using smallest_child_next[of hp n cur] by (simp add: s_def)
    then have "2 * (cur + 1) * 2 ^ k \<le> (s + 1) * 2 ^ k" by (rule mult_le_mono1)
    then have "n \<le> (s + 1) * 2 ^ k" using Suc.prems by simp
    from Suc.IH[OF this] False show ?thesis
      unfolding down_rounds.simps(2)[of "Suc k"] Let_def s_def [symmetric] by (simp add: heapify_down.simps[of hp n cur] s_def [symmetric])
  qed
qed

lemma up_rounds_enough:
  "cur < 2 ^ k \<Longrightarrow> up_rounds (Suc k) hp cur = Some (heapify_up hp cur)"
proof (induction k arbitrary: hp cur)
  case 0
  then have "cur = 0" by simp
  then show ?case using heapify_up.simps[of hp 0] by simp
next
  case (Suc k)
  define q where "q = (cur - 1) div 2"
  have "q < 2 ^ k" using Suc.prems by (auto simp: q_def)
  then have ih: "up_rounds (Suc k) h q = Some (heapify_up h q)" for h by (rule Suc.IH)
  have u: "heapify_up hp cur = (if cur = 0 \<or> \<not> score_at hp cur < score_at hp q then hp else heapify_up (exchange_at q cur hp) q)"
    by (subst heapify_up.simps) (simp add: q_def Let_def)
  show ?case unfolding up_rounds.simps(2)[of "Suc k"] Let_def q_def [symmetric] ih u by simp
qed

text \<open>
  C26. Restoring the heap terminates: for a heap of at most \<open>2 ^ k\<close> candidates (seven for the 120 of the receiver) both
  loops leave after at most \<open>k + 1\<close> rounds, the last of which only looks, with the array the model's heap operations
  give, whatever scores the array holds.
\<close>

theorem heap_loops_end:
  assumes "n \<le> 2 ^ k" "cur < n"
  shows "down_rounds (k + 1) hp n 0 = Some (heapify_down hp n 0) \<and> up_rounds (k + 1) hp cur = Some (heapify_up hp cur)"
  using down_rounds_enough[of n 0 k hp] up_rounds_enough[of cur k hp] assms by simp

theorem heap_loops_end_witness:
  "let hp = map (\<lambda>i. \<lparr>score = int (i * 37 mod 120), time_offset = 0, freq_offset = int i, time_sub = 0, freq_sub = 0\<rparr>) [0..<120] in
     down_rounds 8 hp 120 0 = Some (heapify_down hp 120 0) \<and> up_rounds 8 hp 119 = Some (heapify_up hp 119)"
  unfolding Let_def using heap_loops_end[of 120 7 119] by simp

end
