(* ===== verification/TxCal.thy ===== *)
theory TxCal
  imports CReal
begin

text \<open>
  The calibration file of the transmitter (\<^verbatim>\<open>txcal.h\<close>): where it lies, how \<^verbatim>\<open>calibrate\<close> writes it and how
  \<^verbatim>\<open>ft8\<close> reads it, with the conversions of floating point numbers to and from text that the C library
  does for both programs. Doubles are real numbers.
\<close>

subsection \<open>Decimal fractions\<close>

text \<open>\<^verbatim>\<open>printf\<close> rounds to the nearest last digit, ties to even.\<close>

definition round_even :: "real \<Rightarrow> int" where
  "round_even x =
     (let n = \<lfloor>x\<rfloor>; d = x - of_int n in if d < 1 / 2 \<or> d = 1 / 2 \<and> even n then n else n + 1)"

text \<open>\<^verbatim>\<open>%.nf\<close> of a finite number.\<close>

definition fixed_dec :: "nat \<Rightarrow> real \<Rightarrow> string" where
  "fixed_dec n x =
     (let k = nat (round_even (\<bar>x\<bar> * 10 ^ n)); d = nat_dec (k mod 10 ^ n)
      in (if x < 0 then ''-'' else []) @ nat_dec (k div 10 ^ n)
           @ (if n = 0 then [] else ''.'' @ replicate (n - length d) CHR ''0'' @ d))"

text \<open>
  \<^verbatim>\<open>fscanf("%lf")\<close>: white space, a sign, digits with a point, and an exponent; \<open>None\<close> when nothing matches. The
  hexadecimal numbers, infinities and NaNs the C library also takes, and which neither program writes, are left out.
\<close>

definition scan_sign :: "string \<Rightarrow> bool \<times> string" where
  "scan_sign s = (case s of c # r \<Rightarrow> if c = CHR ''-'' then (True, r) else if c = CHR ''+'' then (False, r) else (False, s)
     | [] \<Rightarrow> (False, []))"

definition scan_lf :: "string \<Rightarrow> real option" where
  "scan_lf s =
     (let (neg, r) = scan_sign (dropWhile isspace_c s);
          ip = takeWhile isdigit_c r; r = dropWhile isdigit_c r;
          (fp, r) = (if take 1 r = ''.'' then (takeWhile isdigit_c (tl r), dropWhile isdigit_c (tl r)) else ([], r));
          mant = of_int (digits_val (ip @ fp)) * (if neg then - 1 else 1)
      in if ip = [] \<and> fp = [] then None
         else if take 1 r = ''e'' \<or> take 1 r = ''E'' then
           (let (eneg, r) = scan_sign (tl r); ex = takeWhile isdigit_c r
            in if ex = [] then None
               else Some (mant * 10 powi ((if eneg then - digits_val ex else digits_val ex) - int (length fp))))
         else Some (mant * 10 powi (- int (length fp))))"

subsection \<open>The file\<close>

text \<open>What there is under \<open>HOME\<close>: the files that can be read, and the directories \<^verbatim>\<open>mkdir\<close> was asked for.\<close>

record disk =
  files :: "string \<rightharpoonup> string"
  dirs :: "string list"

text \<open>\<open>home\<close> is \<^verbatim>\<open>getenv("HOME")\<close>.\<close>

definition txcal_path :: "string option \<Rightarrow> nat \<Rightarrow> string" where
  "txcal_path home outsz =
     (case home of
        Some (c # h) \<Rightarrow> snprintf_s outsz ((c # h) @ ''/.config/rtlsdr-ft8d/txcal'')
      | _ \<Rightarrow> snprintf_s outsz ''txcal.conf'')"

definition txcal_read :: "string option \<Rightarrow> disk \<Rightarrow> real option" where
  "txcal_read home d = (case files d (txcal_path home 512) of None \<Rightarrow> None | Some s \<Rightarrow> scan_lf s)"

text \<open>\<open>may_open\<close> tells whether \<^verbatim>\<open>fopen(.., "w")\<close> succeeds once the directories are made.\<close>

definition make_dirs :: "string option \<Rightarrow> disk \<Rightarrow> disk" where
  "make_dirs home d =
     (case home of
        Some (c # h) \<Rightarrow> d\<lparr>dirs := dirs d @ [snprintf_s 512 ((c # h) @ ''/.config''),
                                         snprintf_s 512 ((c # h) @ ''/.config/rtlsdr-ft8d'')]\<rparr>
      | _ \<Rightarrow> d)"

definition txcal_write :: "(string list \<Rightarrow> string \<Rightarrow> bool) \<Rightarrow> string option \<Rightarrow> real \<Rightarrow> disk \<Rightarrow> bool \<times> disk" where
  "txcal_write may_open home p d =
     (let d = make_dirs home d; path = txcal_path home 512 in
      if \<not> may_open (dirs d) path then (False, d)
      else (True, d\<lparr>files := (files d)(path \<mapsto> fixed_dec 4 p @ newline)\<rparr>))"

subsection \<open>Reading what was printed\<close>

lemma round_even_close: "\<bar>of_int (round_even x) - x\<bar> \<le> 1 / 2"
  unfolding round_even_def Let_def using floor_correct[of x] by (auto simp: abs_le_iff)

lemma round_even_nonneg: "0 \<le> x \<Longrightarrow> 0 \<le> round_even x"
  by (auto simp: round_even_def Let_def)

lemma digits_val_append: "digits_val (a @ b) = digits_val a * 10 ^ length b + digits_val b"
proof (induction b rule: rev_induct)
  case (snoc c b)
  have "digits_val (a @ b @ [c]) = 10 * digits_val (a @ b) + (int (code c) - 48)" using digits_val_snoc[of "a @ b" c] by simp
  then show ?case using snoc by (simp add: digits_val_snoc algebra_simps)
qed (simp add: digits_val_def)

lemma digits_val_zeros [simp]: "digits_val (replicate n CHR ''0'') = 0"
proof (induction n)
  case (Suc n)
  then have "digits_val (CHR ''0'' # replicate n CHR ''0'') = digits_val ([CHR ''0''] @ replicate n CHR ''0'')" by simp
  also have "\<dots> = 0" unfolding digits_val_append using Suc by (simp add: digits_val_def code_def)
  finally show ?case by simp
qed (simp add: digits_val_def)

text \<open>The fraction has exactly \<open>n\<close> digits.\<close>

lemma fraction_digits:
  assumes "0 < n" "m < 10 ^ n"
  defines "fp \<equiv> replicate (n - length (nat_dec m)) CHR ''0'' @ nat_dec m"
  shows "length fp = n" "digits_val fp = int m" "\<forall>c \<in> set fp. isdigit_c c"
proof -
  have l: "length (nat_dec m) \<le> n" using nat_dec_length[OF assms(2,1)] .
  then show "length fp = n" by (simp add: fp_def)
  show "digits_val fp = int m" by (simp add: fp_def digits_val_append)
  show "\<forall>c \<in> set fp. isdigit_c c" using nat_dec_digits by (auto simp: fp_def isdigit_c_def code_def)
qed

lemma scan_digits: "\<forall>c \<in> set w. isdigit_c c \<Longrightarrow> r = [] \<or> \<not> isdigit_c (hd r)
    \<Longrightarrow> takeWhile isdigit_c (w @ r) = w \<and> dropWhile isdigit_c (w @ r) = r"
  by (cases r) (auto simp: takeWhile_append dropWhile_append)

lemma scan_fixed:
  fixes n x
  assumes "0 < n" and k: "k = nat (round_even (\<bar>x\<bar> * 10 ^ n))"
  shows "scan_lf (fixed_dec n x @ newline) = Some (of_int (if x < 0 then - int k else int k) / 10 ^ n)"
proof -
  define ip where "ip = nat_dec (k div 10 ^ n)"
  define fp where "fp = replicate (n - length (nat_dec (k mod 10 ^ n))) CHR ''0'' @ nat_dec (k mod 10 ^ n)"
  have fp: "length fp = n" "digits_val fp = int (k mod 10 ^ n)" "\<forall>c \<in> set fp. isdigit_c c"
    unfolding fp_def by (rule fraction_digits; use assms(1) in simp)+
  have ip: "digits_val ip = int (k div 10 ^ n)" "\<forall>c \<in> set ip. isdigit_c c" "ip \<noteq> []" using nat_dec_digits by (auto simp: ip_def)
  have "int (k div 10 ^ n * 10 ^ n + k mod 10 ^ n) = int k" by (simp only: div_mult_mod_eq)
  then have d: "digits_val (ip @ fp) = int k"
    unfolding digits_val_append ip fp by (simp only: of_nat_add of_nat_mult of_nat_power of_nat_numeral)
  have nl: "\<not> isdigit_c (char_of (10 :: nat))" "\<not> isdigit_c CHR ''.''" by (simp_all add: isdigit_c_def code_def)
  let ?t = "ip @ CHR ''.'' # fp @ newline"
  have 1: "takeWhile isdigit_c ?t = ip" "dropWhile isdigit_c ?t = CHR ''.'' # fp @ newline"
    using scan_digits[OF ip(2), of "CHR ''.'' # fp @ newline"] nl by simp_all
  have 2: "takeWhile isdigit_c (fp @ newline) = fp" "dropWhile isdigit_c (fp @ newline) = newline"
    using scan_digits[OF fp(3), of newline] nl by (simp_all add: newline_def)
  have "char_of (10 :: nat) \<noteq> CHR ''e''" "char_of (10 :: nat) \<noteq> CHR ''E''" by code_simp+
  then have e: "take 1 newline \<noteq> ''e''" "take 1 newline \<noteq> ''E''" "take 1 (CHR ''.'' # fp @ newline) = ''.''" by (simp_all add: newline_def)
  obtain c ip' where c: "ip = c # ip'" "isdigit_c c" using ip by (cases ip) auto
  have "scan_sign (dropWhile isspace_c (fixed_dec n x @ newline)) = (x < 0, ?t)"
  proof -
    have f: "fixed_dec n x @ newline = (if x < 0 then ''-'' else []) @ ?t"
      unfolding fixed_dec_def k [symmetric] Let_def ip_def fp_def using assms(1) by simp
    have "\<not> isspace_c CHR ''-''" "\<not> isspace_c c" "c \<noteq> CHR ''-''" "c \<noteq> CHR ''+''"
      using digit_not_space[OF c(2)] by (simp_all add: isspace_c_def code_def)
    then show ?thesis unfolding f by (simp add: scan_sign_def c)
  qed
  then show ?thesis
    unfolding scan_lf_def Let_def by (simp only: prod.case 1 e if_True list.sel 2 d if_False simp_thms ip(3)) (simp add: fp(1) power_int_minus field_simps)
qed

text \<open>What comes back is the written number to half a unit of the fourth place.\<close>

lemma written_is_read:
  fixes may_open :: "string list \<Rightarrow> string \<Rightarrow> bool"
  assumes "may_open (dirs (make_dirs home d)) (txcal_path home 512)"
  shows "\<exists>d' r. txcal_write may_open home p d = (True, d') \<and> txcal_read home d' = Some r \<and> \<bar>r - p\<bar> \<le> 1 / 20000
    \<and> (\<forall>n. n \<noteq> txcal_path home 512 \<longrightarrow> files d' n = files d n)"
proof -
  define k where "k = nat (round_even (\<bar>p\<bar> * 10 ^ 4))"
  define r where "r = (of_int (if p < 0 then - int k else int k) / 10 ^ 4 :: real)"
  have k: "of_nat k = of_int (round_even (\<bar>p\<bar> * 10 ^ 4))" using round_even_nonneg[of "\<bar>p\<bar> * 10 ^ 4"] by (simp add: k_def)
  have "\<bar>real k - \<bar>p\<bar> * 10 ^ 4\<bar> \<le> 1 / 2" unfolding k by (rule round_even_close)
  then have "\<bar>r - p\<bar> \<le> 1 / 20000" by (cases "p < 0") (simp_all add: r_def abs_if field_simps split: if_splits)
  moreover have "scan_lf (fixed_dec 4 p @ newline) = Some r" unfolding r_def by (rule scan_fixed[OF _ k_def]) simp
  moreover have "files (make_dirs home d) = files d" by (simp add: make_dirs_def split: option.split list.split)
  ultimately show ?thesis using assms by (simp add: txcal_write_def txcal_read_def Let_def)
qed

text \<open>
  C1. The calibration file: when it can be opened, \<^verbatim>\<open>txcal_write\<close> succeeds, \<^verbatim>\<open>txcal_read\<close> gives the number back,
  rounded to the fourth place, and no other file is touched, for any \<open>HOME\<close> (none, empty, or so long that the path is cut).
\<close>

theorem txcal_roundtrip:
  fixes may_open :: "string list \<Rightarrow> string \<Rightarrow> bool"
  assumes "may_open (dirs (make_dirs home d)) (txcal_path home 512)"
  shows "\<exists>d' r. txcal_write may_open home p d = (True, d') \<and> txcal_read home d' = Some r \<and> \<bar>r - p\<bar> \<le> 1 / 20000
    \<and> (\<forall>n. n \<noteq> txcal_path home 512 \<longrightarrow> files d' n = files d n)"
  using assms by (rule written_is_read)

theorem txcal_roundtrip_witness:
  "\<exists>d' r. txcal_write (\<lambda>ds p. ''/home/pi/.config/rtlsdr-ft8d'' \<in> set ds) (Some ''/home/pi'') (- 2.34567) \<lparr>files = Map.empty, dirs = []\<rparr> = (True, d')
    \<and> txcal_read (Some ''/home/pi'') d' = Some r \<and> \<bar>r - (- 2.34567)\<bar> \<le> 1 / 20000"
  using txcal_roundtrip[of "\<lambda>ds p. ''/home/pi/.config/rtlsdr-ft8d'' \<in> set ds" "Some ''/home/pi''" "\<lparr>files = Map.empty, dirs = []\<rparr>" "- 2.34567"]
  by (fastforce simp: make_dirs_def)

end
