(* ===== verification/Calibrate.thy ===== *)
theory Calibrate
  imports TxCal RxOptions TxTone TxMain
begin

text \<open>
  The program \<^verbatim>\<open>calibrate\<close> (\<^verbatim>\<open>calibrate.cpp\<close>): it lets the transmitter send a tone, looks for it in the
  spectrum the receiver's stick delivers, and stores the mean deviation in the calibration file. The stick, the
  Fourier transform, \<^verbatim>\<open>atof\<close>, \<^verbatim>\<open>fork\<close> and the signals are parameters; doubles and floats are real numbers.
\<close>

subsection \<open>Looking for the tone\<close>

definition CAL_SAMPLE_RATE :: nat where "CAL_SAMPLE_RATE = 2400000"
definition CAL_NFFT :: nat where "CAL_NFFT = 2 ^ 20"
definition CAL_MEASUREMENTS :: int where "CAL_MEASUREMENTS = 8"

definition bin_hz :: real where "bin_hz = real CAL_SAMPLE_RATE / real CAL_NFFT"
definition dc_guard :: int where "dc_guard = c_int (2000 / bin_hz)"
definition cal_win :: int where "cal_win = c_int (3000 / bin_hz)"

text \<open>The upper half of the bins are the negative frequencies.\<close>

definition signed_bin :: "nat \<Rightarrow> int" where
  "signed_bin k = (if k < CAL_NFFT div 2 then int k else int k - int CAL_NFFT)"

definition near_dc :: "nat \<Rightarrow> bool" where
  "near_dc k \<longleftrightarrow> - dc_guard < signed_bin k \<and> signed_bin k < dc_guard"

text \<open>The strongest bin outside the guard band: magnitude and number, \<open>- 1\<close> when there is none.\<close>

definition peak_step :: "real list \<Rightarrow> real \<times> int \<Rightarrow> nat \<Rightarrow> real \<times> int" where
  "peak_step mag2 = (\<lambda>(maxMag, maxBin) k.
     if near_dc k then (maxMag, maxBin)
     else if maxMag < mag2 ! k then (mag2 ! k, int k) else (maxMag, maxBin))"

definition find_peak :: "real list \<Rightarrow> real \<times> int" where
  "find_peak mag2 = foldl (peak_step mag2) (- 1, - 1) [0..<CAL_NFFT]"

text \<open>A bin at a distance from the peak, cyclically; the sums are positive, so that C's remainder is \<open>mod\<close>.\<close>

definition bin_at :: "int \<Rightarrow> int \<Rightarrow> nat" where
  "bin_at maxBin d = nat ((maxBin + d + int CAL_NFFT) mod int CAL_NFFT)"

definition noise_floor :: "real list \<Rightarrow> int \<Rightarrow> real" where
  "noise_floor mag2 maxBin =
     (case foldl (\<lambda>(acc, n) d. (acc + (mag2 ! bin_at maxBin d + mag2 ! bin_at maxBin (- d)), n + 2)) (0, 0 :: nat)
            [cal_win + dc_guard..cal_win + dc_guard + 2000 - 1] of
        (acc, n) \<Rightarrow> if 0 < n then acc / real n else 0)"

text \<open>Weighted sum and sum of what rises over the noise.\<close>

definition centroid_step :: "real list \<Rightarrow> int \<Rightarrow> real \<Rightarrow> real \<times> real \<Rightarrow> int \<Rightarrow> real \<times> real" where
  "centroid_step mag2 maxBin noise = (\<lambda>(num, den) d.
     let k = bin_at maxBin d; p = mag2 ! k - noise in
     if near_dc k then (num, den)
     else if p \<le> 0 then (num, den)
     else (num + p * of_int (signed_bin k), den + p))"

definition centroid :: "real list \<Rightarrow> int \<Rightarrow> real \<Rightarrow> real \<times> real" where
  "centroid mag2 maxBin noise = foldl (centroid_step mag2 maxBin noise) (0, 0) [- cal_win..cal_win]"

record capture =
  buf_mem :: bool \<comment> \<open>\<^verbatim>\<open>malloc\<close> of the buffer\<close>
  bytes :: "u8 list option" \<comment> \<open>\<^verbatim>\<open>rtlsdr_reset_buffer\<close> and \<^verbatim>\<open>rtlsdr_read_sync\<close>\<close>
  mag_mem :: bool \<comment> \<open>\<^verbatim>\<open>malloc\<close> of the magnitudes\<close>

definition iq_of :: "u8 list \<Rightarrow> (real \<times> real) list" where
  "iq_of buf = map (\<lambda>i. ((of_int (uint (buf ! (2 * i))) - 127.5) / 127.5, (of_int (uint (buf ! (2 * i + 1))) - 127.5) / 127.5))
     [0..<CAL_NFFT]"

definition measureToneOffset :: "((real \<times> real) list \<Rightarrow> (real \<times> real) list) \<Rightarrow> capture \<Rightarrow> real option" where
  "measureToneOffset dft c =
     (if \<not> buf_mem c then None
      else case bytes c of
        None \<Rightarrow> None
      | Some buf \<Rightarrow>
          if length buf \<noteq> CAL_NFFT * 2 \<or> \<not> mag_mem c then None
          else
            (let mag2 = map (\<lambda>(re, im). re * re + im * im) (dft (iq_of buf)); (_, maxBin) = find_peak mag2 in
             if maxBin < 0 then None
             else
               (let (num, den) = centroid mag2 maxBin (noise_floor mag2 maxBin) in
                if den \<le> 0 then None else Some (num / den * bin_hz))))"

subsection \<open>The command line\<close>

record cal_opts =
  testFreq :: real
  cal_gain :: int
  devIndex :: int
  ft8Path :: string
  measurements :: int
  dryRun :: bool

definition default_cal :: cal_opts where
  "default_cal = \<lparr>testFreq = 0, cal_gain = 290, devIndex = 0, ft8Path = ''./ft8'', measurements = CAL_MEASUREMENTS, dryRun = False\<rparr>"

definition cal_short_option :: "char \<Rightarrow> bool option" where
  "cal_short_option c = (if c \<in> set ''fgien'' then Some True else if c \<in> set ''dh'' then Some False else None)"

definition cal_long_options :: "(string \<times> char) list" where
  "cal_long_options = [(''help'', CHR ''h'')]"

text \<open>The exit code of the usage text, or the options.\<close>

fun apply_cal_opts :: "(string \<Rightarrow> real) \<Rightarrow> opt_event list \<Rightarrow> cal_opts \<Rightarrow> int + cal_opts" where
  "apply_cal_opts atof [] po = Inr po"
| "apply_cal_opts atof (BadOption # evs) po = Inl 1"
| "apply_cal_opts atof (Opt c v # evs) po =
     (if c = CHR ''f'' then apply_cal_opts atof evs (po\<lparr>testFreq := atof v\<rparr>)
      else if c = CHR ''g'' then apply_cal_opts atof evs (po\<lparr>cal_gain := i32 (i32 (atoi v) * 10)\<rparr>)
      else if c = CHR ''i'' then apply_cal_opts atof evs (po\<lparr>devIndex := i32 (atoi v)\<rparr>)
      else if c = CHR ''e'' then apply_cal_opts atof evs (po\<lparr>ft8Path := v\<rparr>)
      else if c = CHR ''n'' then apply_cal_opts atof evs (po\<lparr>measurements := i32 (atoi v)\<rparr>)
      else if c = CHR ''d'' then apply_cal_opts atof evs (po\<lparr>dryRun := True\<rparr>)
      else if c = CHR ''h'' then Inl 0
      else Inl 1)"

subsection \<open>The program\<close>

record cal_env =
  cal_atof :: "string \<Rightarrow> real"
  cal_home :: "string option"
  cal_may_open :: "string list \<Rightarrow> string \<Rightarrow> bool"
  dev_count :: nat
  can_open :: "u32 \<Rightarrow> bool"
  can_fork :: bool
  grab :: "nat \<Rightarrow> capture" \<comment> \<open>the capture of each measurement\<close>
  abort_flag :: "nat \<Rightarrow> bool" \<comment> \<open>as read before each measurement\<close>
  cal_fft :: "(real \<times> real) list \<Rightarrow> (real \<times> real) list"

text \<open>What the program does to the device and to the transmitter, in order.\<close>

datatype cal_event =
    OpenedDev u32
  | SetSampleRate nat
  | SetGainMode int
  | SetGain int
  | Tuned u32
  | ResetBuffer
  | StartedTx "string list" \<comment> \<open>the arguments of the child\<close>
  | StoppedTx \<comment> \<open>\<^verbatim>\<open>kill\<close> and \<^verbatim>\<open>waitpid\<close>\<close>
  | ClosedDev

definition startTxTone :: "string \<Rightarrow> real \<Rightarrow> cal_event" where
  "startTxTone path f = StartedTx [path, ''-t'', snprintf_s 32 (fixed_dec 0 f), ''-f'']"

definition ppm_of :: "real \<Rightarrow> real \<Rightarrow> real \<Rightarrow> real" where
  "ppm_of f centerFreq offsetHz = (let measuredFreq = centerFreq + offsetHz; errorHz = measuredFreq - f in errorHz / f * 1000000)"

text \<open>The measurements that are left, \<open>m\<close> being done: the sum and the number of good ones.\<close>

fun measure_loop :: "cal_env \<Rightarrow> real \<Rightarrow> real \<Rightarrow> nat \<Rightarrow> nat \<Rightarrow> real \<times> nat \<Rightarrow> real \<times> nat" where
  "measure_loop env f centerFreq 0 m acc = acc"
| "measure_loop env f centerFreq (Suc left) m (sumPpm, good) =
     (if abort_flag env m then (sumPpm, good)
      else case measureToneOffset (cal_fft env) (grab env m) of
          None \<Rightarrow> measure_loop env f centerFreq left (m + 1) (sumPpm, good)
        | Some off \<Rightarrow> measure_loop env f centerFreq left (m + 1) (sumPpm + ppm_of f centerFreq off, good + 1))"

definition cal_set_up :: "cal_opts \<Rightarrow> u32 \<Rightarrow> cal_event list" where
  "cal_set_up po centerFreq =
     [OpenedDev (word_of_int (devIndex po)), SetSampleRate CAL_SAMPLE_RATE, SetGainMode 1, SetGain (cal_gain po),
      Tuned centerFreq, ResetBuffer]"

definition calibrate_main :: "cal_env \<Rightarrow> string list \<Rightarrow> disk \<Rightarrow> (int \<times> cal_event list \<times> disk) result" where
  "calibrate_main env argv d =
     (let (evs, _) = getopt_long cal_short_option cal_long_options [] (tl argv) in
      case apply_cal_opts (cal_atof env) evs default_cal of
        Inl rc \<Rightarrow> Inr (rc, [], d)
      | Inr po \<Rightarrow>
          if testFreq po < 1000000 then Inr (1, [], d)
          else
            (let n = (if measurements po < 1 then 1 else measurements po) in
             if dev_count env = 0 then Inr (1, [], d)
             else if \<not> can_open env (word_of_int (devIndex po)) then Inr (1, [], d)
             else
               rbind (cast_u32 (testFreq po - 100000)) (\<lambda>centerFreq.
               let evs = cal_set_up po centerFreq in
               if \<not> can_fork env then Inr (1, evs @ [ClosedDev], d)
               else
                 (let evs = evs @ [startTxTone (ft8Path po) (testFreq po), StoppedTx, ClosedDev];
                      (sumPpm, good) = measure_loop env (testFreq po) (of_int (uint centerFreq)) (nat n) 0 (0, 0)
                  in if good = 0 then Inr (1, evs, d)
                     else if dryRun po then Inr (0, evs, d)
                     else
                       (let (ok, d') = txcal_write (cal_may_open env) (cal_home env) (sumPpm / real good) d
                        in Inr (if ok then 0 else 1, evs, d'))))))"

subsection \<open>A symmetric tone is measured at its centre\<close>

lemma cal_constants: "bin_hz = 9375 / 4096" "dc_guard = 873" "cal_win = 1310"
proof -
  show b: "bin_hz = 9375 / 4096" by (simp add: bin_hz_def CAL_SAMPLE_RATE_def CAL_NFFT_def)
  have "\<lfloor>2000 / (9375 / 4096) :: real\<rfloor> = 873" "\<lfloor>3000 / (9375 / 4096) :: real\<rfloor> = 1310" by (rule floor_unique; simp)+
  then show "dc_guard = 873" "cal_win = 1310" by (simp_all add: dc_guard_def cal_win_def b c_int_def)
qed

text \<open>The tone: a bin that is stronger than all others, with a spectrum around it that is the same on both sides.\<close>

definition tone_at :: "real list \<Rightarrow> nat \<Rightarrow> bool" where
  "tone_at mag2 k0 \<longleftrightarrow> k0 < CAL_NFFT \<and> 0 \<le> mag2 ! k0
     \<and> (\<forall>k < CAL_NFFT. k \<noteq> k0 \<longrightarrow> \<not> near_dc k \<longrightarrow> mag2 ! k < mag2 ! k0)
     \<and> cal_win + dc_guard \<le> int k0 \<and> int k0 + cal_win < int CAL_NFFT div 2
     \<and> (\<forall>d. 0 \<le> d \<longrightarrow> d \<le> cal_win \<longrightarrow> mag2 ! nat (int k0 + d) = mag2 ! nat (int k0 - d))
     \<and> noise_floor mag2 (int k0) < mag2 ! k0"

lemma peak_found:
  assumes "k0 \<in> set ks" "\<not> near_dc k0" "0 \<le> mag2 ! k0" "\<forall>k \<in> set ks. k \<noteq> k0 \<longrightarrow> \<not> near_dc k \<longrightarrow> mag2 ! k < mag2 ! k0"
  shows "foldl (peak_step mag2) (- 1, - 1) ks = (mag2 ! k0, int k0)"
proof -
  have "case foldl (peak_step mag2) (- 1, - 1) xs of (m, b) \<Rightarrow>
      if k0 \<in> set xs then (m, b) = (mag2 ! k0, int k0) else m < mag2 ! k0" if "set xs \<subseteq> set ks" for xs
    using that
  proof (induction xs rule: rev_induct)
    case (snoc x xs)
    then show ?case using assms(2-4)
      by (cases "foldl (peak_step mag2) (- 1, - 1) xs"; cases "x = k0") (auto simp: peak_step_def split: if_splits)
  qed (use assms(3) in simp)
  from this[of ks] assms(1) show ?thesis by (auto split: prod.splits)
qed

lemma bin_at_near: "\<bar>d\<bar> \<le> int k0 \<Longrightarrow> int k0 + d < int CAL_NFFT \<Longrightarrow> bin_at (int k0) d = nat (int k0 + d)"
  unfolding bin_at_def by (simp add: abs_le_iff)

text \<open>Both sides of the window add the same to the sums, and their centre is the peak.\<close>

lemma window_bins:
  assumes "tone_at mag2 k0" "\<bar>d\<bar> \<le> cal_win"
  shows "bin_at (int k0) d = nat (int k0 + d)" "\<not> near_dc (nat (int k0 + d))" "signed_bin (nat (int k0 + d)) = int k0 + d"
proof -
  have t: "cal_win + dc_guard \<le> int k0" "int k0 + cal_win < int CAL_NFFT div 2" using assms(1) by (simp_all add: tone_at_def)
  show "bin_at (int k0) d = nat (int k0 + d)" using t assms(2) by (intro bin_at_near) (simp_all add: cal_constants abs_le_iff CAL_NFFT_def)
  have "0 \<le> int k0 + d" "int k0 + d < int (CAL_NFFT div 2)" using t assms(2) by (simp_all add: cal_constants abs_le_iff of_nat_div)
  then show s: "signed_bin (nat (int k0 + d)) = int k0 + d" by (simp add: signed_bin_def nat_less_iff)
  show "\<not> near_dc (nat (int k0 + d))" unfolding near_dc_def s using t assms(2) by (simp add: cal_constants abs_le_iff)
qed

definition excess :: "real list \<Rightarrow> nat \<Rightarrow> real \<Rightarrow> int \<Rightarrow> real" where
  "excess mag2 k0 noise d = max 0 (mag2 ! nat (int k0 + d) - noise)"

lemma centroid_sums:
  assumes "tone_at mag2 k0" "\<forall>d \<in> set ds. \<bar>d\<bar> \<le> cal_win"
  shows "foldl (centroid_step mag2 (int k0) noise) (num, den) ds =
    (num + (\<Sum>d\<leftarrow>ds. excess mag2 k0 noise d * of_int (int k0 + d)), den + (\<Sum>d\<leftarrow>ds. excess mag2 k0 noise d))"
  using assms(2)
proof (induction ds arbitrary: num den)
  case (Cons d ds)
  then have "\<bar>d\<bar> \<le> cal_win" by simp
  note w = window_bins[OF assms(1) this]
  have "centroid_step mag2 (int k0) noise (num, den) d =
      (num + excess mag2 k0 noise d * of_int (int k0 + d), den + excess mag2 k0 noise d)"
    using w by (auto simp: centroid_step_def Let_def excess_def max_def)
  then show ?case using Cons by (simp add: algebra_simps)
qed simp

lemma centroid_centre:
  assumes "tone_at mag2 k0"
  shows "\<exists>den. 0 < den \<and> centroid mag2 (int k0) (noise_floor mag2 (int k0)) = (den * real k0, den)"
proof -
  define e where "e = excess mag2 k0 (noise_floor mag2 (int k0))"
  have sym: "e (- d) = e d" if "\<bar>d\<bar> \<le> cal_win" for d
    using assms that unfolding tone_at_def e_def excess_def by (cases "0 \<le> d") (auto dest: spec[of _ d] spec[of _ "- d"])
  have S: "(\<Sum>d\<leftarrow>[- cal_win..cal_win]. g d) = (\<Sum>d\<in>{- cal_win..cal_win}. g d)" for g :: "int \<Rightarrow> real"
    by (simp add: sum_list_distinct_conv_sum_set)
  have "(\<Sum>d\<in>{- cal_win..cal_win}. e d * of_int d) = (\<Sum>d\<in>{- cal_win..cal_win}. e (- d) * of_int (- d))"
    by (rule sum.reindex_bij_witness[of _ uminus uminus]) auto
  also have "\<dots> = (\<Sum>d\<in>{- cal_win..cal_win}. - (e d * of_int d))" by (rule sum.cong) (simp_all add: sym abs_le_iff)
  finally have odd: "(\<Sum>d\<in>{- cal_win..cal_win}. e d * of_int d) = 0" by (simp add: sum_negf)
  have "(\<Sum>d\<in>{- cal_win..cal_win}. e d * of_int (int k0 + d)) = (\<Sum>d\<in>{- cal_win..cal_win}. e d * real k0 + e d * of_int d)"
    by (rule sum.cong) (simp_all add: algebra_simps)
  also have "\<dots> = (\<Sum>d\<in>{- cal_win..cal_win}. e d) * real k0" by (simp add: sum.distrib odd sum_distrib_right)
  finally have num: "(\<Sum>d\<in>{- cal_win..cal_win}. e d * of_int (int k0 + d)) = (\<Sum>d\<in>{- cal_win..cal_win}. e d) * real k0" .
  have "e 0 \<le> (\<Sum>d\<in>{- cal_win..cal_win}. e d)" by (rule member_le_sum) (simp_all add: cal_constants e_def excess_def)
  moreover have "0 < e 0" using assms by (simp add: tone_at_def e_def excess_def)
  ultimately have "0 < (\<Sum>d\<in>{- cal_win..cal_win}. e d)" by linarith
  moreover have "centroid mag2 (int k0) (noise_floor mag2 (int k0)) =
      ((\<Sum>d\<in>{- cal_win..cal_win}. e d) * real k0, \<Sum>d\<in>{- cal_win..cal_win}. e d)"
  proof -
    have b: "\<forall>d \<in> set [- cal_win..cal_win]. \<bar>d\<bar> \<le> cal_win" by (auto simp: abs_le_iff)
    show ?thesis
      unfolding centroid_def centroid_sums[OF assms b] e_def [symmetric] S num by simp
  qed
  ultimately show ?thesis by blast
qed

lemma tone_measured:
  assumes "buf_mem c" "mag_mem c" "bytes c = Some buf" "length buf = CAL_NFFT * 2"
    and "tone_at (map (\<lambda>(re, im). re * re + im * im) (dft (iq_of buf))) k0"
  shows "measureToneOffset dft c = Some (real k0 * bin_hz)"
proof -
  let ?m = "map (\<lambda>(re, im). re * re + im * im) (dft (iq_of buf))"
  obtain den where d: "0 < den" "centroid ?m (int k0) (noise_floor ?m (int k0)) = (den * real k0, den)"
    using centroid_centre[OF assms(5)] by blast
  have "find_peak ?m = (?m ! k0, int k0)"
    unfolding find_peak_def using assms(5) window_bins(2)[OF assms(5), of 0] by (intro peak_found) (simp_all add: tone_at_def cal_constants)
  then show ?thesis unfolding measureToneOffset_def Let_def using assms(1-4) d by simp
qed

subsection \<open>A calibration run\<close>

lemma measure_loop_same:
  assumes "\<And>m. \<not> abort_flag env m" "\<And>m. measureToneOffset (cal_fft env) (grab env m) = Some off"
  shows "measure_loop env f c n m (s, g) = (s + real n * ppm_of f c off, g + n)"
proof (induction n arbitrary: m s g)
  case (Suc n)
  then show ?case by (simp add: assms algebra_simps)
qed simp

lemma cal_command: "getopt_long cal_short_option cal_long_options [] [''-f'', v] = ([Opt CHR ''f'' v], [])"
proof -
  have f: "cal_short_option CHR ''f'' = Some True" by (simp add: cal_short_option_def)
  show ?thesis by (simp add: strncmp_eq_def f getopt_long.simps)
qed

lemma u32_of_int: "0 \<le> n \<Longrightarrow> n < 2 ^ 32 \<Longrightarrow> uint (word_of_int n :: u32) = n"
  by (simp add: unsigned_of_int take_bit_int_eq_self)

lemma cast_freq:
  assumes "1000000 \<le> f" "f < 2 ^ 32"
  shows "cast_u32 (f - 100000) = Inr (word_of_int \<lfloor>f - 100000\<rfloor>)" "uint (word_of_int \<lfloor>f - 100000\<rfloor> :: u32) = \<lfloor>f - 100000\<rfloor>"
proof -
  show "cast_u32 (f - 100000) = Inr (word_of_int \<lfloor>f - 100000\<rfloor>)" using assms by (simp add: cast_u32_def c_int_def)
  show "uint (word_of_int \<lfloor>f - 100000\<rfloor> :: u32) = \<lfloor>f - 100000\<rfloor>"
    by (rule u32_of_int) (use assms in \<open>simp_all add: le_floor_iff floor_less_iff\<close>)
qed

lemma doubled:
  fixes e p :: real
  assumes "1 / 10 ^ 7 \<le> \<bar>e\<bar>" "\<bar>e\<bar> \<le> 1 / 1000" "\<bar>p - e * 1000000\<bar> \<le> 1 / 20000"
  defines "q \<equiv> p / 1000000"
  shows "1.99 * \<bar>e\<bar> \<le> \<bar>(1 + e) / (1 - q) - 1\<bar>" "\<bar>(1 + e) / (1 + q) - 1\<bar> \<le> 1 / 10 ^ 10"
proof -
  have q: "\<bar>q - e\<bar> \<le> 5 / 10 ^ 11" using assms(3) by (simp add: q_def abs_le_iff field_simps)
  have m: "0 < 1 - q" "1 - q \<le> 1.0011" "0.99 \<le> 1 + q"
    using q assms(2) by (simp_all add: abs_if split: if_splits)
  have "(1 + e) / (1 - q) - 1 = (e + q) / (1 - q)" using m by (simp add: field_simps)
  then have a: "\<bar>(1 + e) / (1 - q) - 1\<bar> = \<bar>e + q\<bar> / (1 - q)" using m by simp
  have "2 * \<bar>e\<bar> - 5 / 10 ^ 11 \<le> \<bar>e + q\<bar>" using q by (simp add: abs_if split: if_splits)
  moreover have "1.99 * \<bar>e\<bar> * 1.0011 \<le> 2 * \<bar>e\<bar> - 5 / 10 ^ 11" using assms(1) by simp
  moreover have "1.99 * \<bar>e\<bar> * (1 - q) \<le> 1.99 * \<bar>e\<bar> * 1.0011" using m(2) by (rule mult_left_mono) simp
  ultimately have "1.99 * \<bar>e\<bar> * (1 - q) \<le> \<bar>e + q\<bar>" by linarith
  then show "1.99 * \<bar>e\<bar> \<le> \<bar>(1 + e) / (1 - q) - 1\<bar>" unfolding a using m(1) by (simp only: pos_le_divide_eq)
  have "(1 + e) / (1 + q) - 1 = (e - q) / (1 + q)" using m by (simp add: field_simps)
  then have "\<bar>(1 + e) / (1 + q) - 1\<bar> = \<bar>q - e\<bar> / (1 + q)" using m by (simp add: abs_minus_commute)
  also have "\<dots> \<le> (5 / 10 ^ 11) / 0.99" using q m(3) by (intro frac_le) simp_all
  finally show "\<bar>(1 + e) / (1 + q) - 1\<bar> \<le> 1 / 10 ^ 10" by simp
qed

lemma calibration_run:
  assumes "1000000 \<le> f" "f < 2 ^ 32" "cal_atof env v = f" "dev_count env \<noteq> 0" "can_open env 0" "can_fork env"
    and "\<And>m. \<not> abort_flag env m"
    and "\<And>m. measureToneOffset (cal_fft env) (grab env m) = Some (f * (1 + e) - of_int \<lfloor>f - 100000\<rfloor>)"
    and "cal_may_open env (dirs (make_dirs (cal_home env) d)) (txcal_path (cal_home env) 512)"
  shows "\<exists>evs d' p. calibrate_main env [''calibrate'', ''-f'', v] d = Inr (0, evs, d') \<and> txcal_read (cal_home env) d' = Some p
    \<and> \<bar>p - e * 1000000\<bar> \<le> 1 / 20000"
proof -
  define cf where "cf = \<lfloor>f - 100000\<rfloor>"
  define off where "off = f * (1 + e) - of_int cf"
  note c = cast_freq[OF assms(1,2), folded cf_def]
  have u: "(of_int (uint (word_of_int cf :: u32)) :: real) = of_int cf" unfolding c(2) ..
  have "ppm_of f (of_int cf) off = e * 1000000" using assms(1) by (simp add: ppm_of_def off_def Let_def field_simps)
  then have ml: "measure_loop env f (of_int cf) 8 0 (0, 0) = (8 * (e * 1000000), 8)"
    using measure_loop_same[where env = env and off = off, OF assms(7) assms(8)[folded cf_def off_def], of f "of_int cf" 8 0 0 0] by simp
  obtain d' p where w: "txcal_write (cal_may_open env) (cal_home env) (e * 1000000) d = (True, d')" "txcal_read (cal_home env) d' = Some p"
      "\<bar>p - e * 1000000\<bar> \<le> 1 / 20000"
    using written_is_read[of "cal_may_open env", OF assms(9), of "e * 1000000"] by blast
  have n: "\<not> f < 1000000" "(8 * (e * 1000000)) / real 8 = e * 1000000" using assms(1) by simp_all
  have "\<exists>evs. calibrate_main env [''calibrate'', ''-f'', v] d = Inr (0, evs, d')"
    unfolding calibrate_main_def list.sel cal_command prod.case
    by (simp add: assms(3-6) default_cal_def CAL_MEASUREMENTS_def n(1) c(1) u[simplified] ml w(1)[unfolded mult.commute[of e]] Let_def)
  then show ?thesis using w by blast
qed

text \<open>The whole run either leaves the device alone or ends with the child stopped and the device closed.\<close>

lemma calibrate_shape:
  assumes "calibrate_main env argv d = Inr (rc, evs, d')"
  shows "(evs = [] \<or> (\<exists>po c. evs = cal_set_up po c @ [ClosedDev])
      \<or> (\<exists>po c. evs = cal_set_up po c @ [startTxTone (ft8Path po) (testFreq po), StoppedTx, ClosedDev] \<and> 1000000 \<le> testFreq po))
    \<and> (files d' \<noteq> files d \<longrightarrow> rc = 0 \<and> (\<exists>x. files d' = (files d)(txcal_path (cal_home env) 512 \<mapsto> fixed_dec 4 x @ newline)))"
proof -
  have mk: "files (make_dirs h d) = files d" for h by (simp add: make_dirs_def split: option.split list.split)
  obtain os fr where g: "getopt_long cal_short_option cal_long_options [] (tl argv) = (os, fr)" by fastforce
  show ?thesis
  proof (cases "apply_cal_opts (cal_atof env) os default_cal")
    case (Inl x)
    then show ?thesis using assms by (simp add: calibrate_main_def g)
  next
    case (Inr po)
    have "1000000 \<le> testFreq po" if "\<not> testFreq po < 1000000" using that by simp
    with Inr show ?thesis
      using assms unfolding calibrate_main_def g txcal_write_def Let_def
      by (simp split: if_splits prod.splits add: rbind_Inr_iff mk) (auto simp: mk split: prod.splits if_splits)
  qed
qed

text \<open>
  C1. \<^verbatim>\<open>calibrate\<close> leaves nothing running: whatever the stick, the transmitter and the options do, a run that
  started the transmitter stops it and closes the stick before it ends, whether or not it has a result, and the only
  file it ever writes is the calibration file, when its exit code is 0.
\<close>

theorem calibrate_cleans_up:
  assumes "calibrate_main env argv d = Inr (rc, evs, d')"
  shows "(\<forall>a. StartedTx a \<in> set evs \<longrightarrow> (\<exists>pre. evs = pre @ [StartedTx a, StoppedTx, ClosedDev] \<and> (\<forall>b. StartedTx b \<notin> set pre)))
    \<and> ((\<exists>n. OpenedDev n \<in> set evs) \<longrightarrow> last evs = ClosedDev)
    \<and> (files d' \<noteq> files d \<longrightarrow> rc = 0 \<and> (\<exists>x. files d' = (files d)(txcal_path (cal_home env) 512 \<mapsto> fixed_dec 4 x @ newline)))"
  using calibrate_shape[OF assms] by (auto simp: cal_set_up_def startTxTone_def)

subsection \<open>What the transmitter makes of it\<close>

lemma entry_on_air:
  assumes "tune tenv q c sp cp s = Some (Inr (ca, table, s'))" "c \<noteq> 0" "i < 16" "table ! i \<noteq> 0" "F_PLLD_CLK tenv \<noteq> 0"
  shows "clk / (of_int (tuning_word (F_PLLD_CLK tenv * (1 - q / 1000000)) (ca - 1.5 * sp) sp i) / 4096) / table ! i
    = clk / (F_PLLD_CLK tenv * (1 - q / 1000000))"
proof -
  obtain b where "setupDMATab c sp (F_PLLD_CLK tenv * (1 - q / 1000000)) cp (board s) = Inr (ca, table, b)"
    using assms(1,2) by (auto simp: tune_def map_sum_def split: sum.splits)
  from setupDMATab_result(9)[OF this assms(3)]
  have t: "table ! i = F_PLLD_CLK tenv * (1 - q / 1000000) / (of_int (tuning_word (F_PLLD_CLK tenv * (1 - q / 1000000)) (ca - 1.5 * sp) sp i) / 4096)" .
  then have "tuning_word (F_PLLD_CLK tenv * (1 - q / 1000000)) (ca - 1.5 * sp) sp i \<noteq> 0" using assms(4) by auto
  then show ?thesis unfolding t by (cases "F_PLLD_CLK tenv * (1 - q / 1000000) = 0") (simp_all del: right_diff_distrib)
qed

text \<open>
  C15. Calibrating makes a transmitter worse. Let its clock be off by the factor \<open>1 + e\<close> (0.1 to 1000 parts per million)
  and let \<^verbatim>\<open>calibrate\<close> find the uncorrected tone exactly where it is in each of its eight measurements. The file then
  holds \<open>e\<close> in parts per million, to half a unit of the fourth place, and the next \<^verbatim>\<open>ft8\<close> takes it; but it programs its
  dividers for a clock that is slower by this amount, so that each table entry comes out at \<open>1 + e\<close> over \<open>1 - p\<close> of what
  it stands for: at least 1.99 times as far off as without calibration. With the opposite sign the error would have been
  below a ten-thousandth part per million.
\<close>

theorem calibration_doubles_error:
  assumes "1000000 \<le> f" "f < 2 ^ 32" "cal_atof env v = f" "dev_count env \<noteq> 0" "can_open env 0" "can_fork env"
    and "\<And>m. \<not> abort_flag env m"
    and "\<And>m. measureToneOffset (cal_fft env) (grab env m) = Some (f * (1 + e) - of_int \<lfloor>f - 100000\<rfloor>)"
    and "cal_may_open env (dirs (make_dirs (cal_home env) d)) (txcal_path (cal_home env) 512)"
    and e: "1 / 10 ^ 7 \<le> \<bar>e\<bar>" "\<bar>e\<bar> \<le> 1 / 1000"
  shows "\<exists>evs d' p. calibrate_main env [''calibrate'', ''-f'', v] d = Inr (0, evs, d') \<and> txcal_read (cal_home env) d' = Some p
    \<and> \<bar>p - e * 1000000\<bar> \<le> 1 / 20000
    \<and> (\<forall>tenv po c sp cp s ca table s' i.
         txcal tenv = Some p \<and> \<not> self_cal po \<and> ppm po = 0 \<and> F_PLLD_CLK tenv \<noteq> 0 \<and> c \<noteq> 0
         \<and> tune tenv (start_ppm tenv po) c sp cp s = Some (Inr (ca, table, s')) \<and> i < 16 \<and> table ! i \<noteq> 0 \<longrightarrow>
           1.99 * \<bar>e\<bar> \<le> \<bar>F_PLLD_CLK tenv * (1 + e)
               / (of_int (tuning_word (F_PLLD_CLK tenv * (1 - p / 1000000)) (ca - 1.5 * sp) sp i) / 4096) / table ! i - 1\<bar>)
    \<and> \<bar>(1 + e) / (1 + p / 1000000) - 1\<bar> \<le> 1 / 10 ^ 10"
proof -
  obtain evs d' p where r: "calibrate_main env [''calibrate'', ''-f'', v] d = Inr (0, evs, d')" "txcal_read (cal_home env) d' = Some p"
      "\<bar>p - e * 1000000\<bar> \<le> 1 / 20000"
    using calibration_run[OF assms(1-9)] by blast
  note dbl = doubled[OF e r(3)]
  have "1.99 * \<bar>e\<bar> \<le> \<bar>F_PLLD_CLK tenv * (1 + e)
      / (of_int (tuning_word (F_PLLD_CLK tenv * (1 - p / 1000000)) (ca - 1.5 * sp) sp i) / 4096) / table ! i - 1\<bar>"
    if t: "txcal tenv = Some p" "\<not> self_cal po" "ppm po = 0" "F_PLLD_CLK tenv \<noteq> 0" "c \<noteq> 0"
      "tune tenv (start_ppm tenv po) c sp cp s = Some (Inr (ca, table, s'))" "i < 16" "table ! i \<noteq> 0" for tenv po c sp cp s ca table s' i
  proof -
    have q: "start_ppm tenv po = p" using t(1-3) by (simp add: start_ppm_def)
    from t(4) have "F_PLLD_CLK tenv * (1 + e) / (F_PLLD_CLK tenv * (1 - p / 1000000)) = (1 + e) / (1 - p / 1000000)" by simp
    then show ?thesis unfolding entry_on_air[OF t(6)[unfolded q] t(5,7,8,4)] using dbl(1) by simp
  qed
  then show ?thesis using r dbl(2) by blast
qed

subsection \<open>A run\<close>

definition demo_line :: "(real \<times> real) list" where
  "demo_line = map (\<lambda>k. if k = 43691 then (1, 0) else (0, 0)) [0..<CAL_NFFT]"

definition demo_cal :: cal_env where
  "demo_cal = \<lparr>cal_atof = (\<lambda>_. 1000000), cal_home = Some ''/root'', cal_may_open = (\<lambda>_ _. True), dev_count = 1,
     can_open = (\<lambda>_. True), can_fork = True,
     grab = (\<lambda>_. \<lparr>buf_mem = True, bytes = Some (replicate (CAL_NFFT * 2) 0), mag_mem = True\<rparr>),
     abort_flag = (\<lambda>_. False), cal_fft = (\<lambda>_. demo_line)\<rparr>"

lemma silent_noise:
  assumes "\<And>d. 2183 \<le> d \<Longrightarrow> d \<le> 4182 \<Longrightarrow> mag2 ! bin_at b d = 0 \<and> mag2 ! bin_at b (- d) = 0"
  shows "noise_floor mag2 b = 0"
proof -
  have "fst (foldl (\<lambda>(acc, n) d. (acc + (mag2 ! bin_at b d + mag2 ! bin_at b (- d)), n + 2)) (0, n) ds) = 0"
    if "\<forall>d \<in> set ds. 2183 \<le> d \<and> d \<le> 4182" for ds and n :: nat
    using that by (induction ds arbitrary: n) (auto simp: assms)
  from this[of "[cal_win + dc_guard..cal_win + dc_guard + 2000 - 1]" 0] show ?thesis
    by (auto simp: noise_floor_def cal_constants simp del: upto.simps upto_rec_numeral split: prod.splits)
qed

lemma demo_tone: "tone_at (map (\<lambda>(re, im). re * re + im * im) demo_line) 43691"
proof -
  let ?m = "map (\<lambda>(re, im). re * re + im * im) demo_line"
  have m: "?m ! k = (if k = 43691 then 1 else 0)" if "k < CAL_NFFT" for k using that by (simp add: demo_line_def)
  have "?m ! bin_at 43691 d = 0" if "d \<noteq> 0" "\<bar>d\<bar> \<le> 4182" for d
  proof -
    have "bin_at (int 43691) d = nat (int 43691 + d)" using that by (intro bin_at_near) (auto simp: CAL_NFFT_def abs_le_iff)
    then show ?thesis using that by (subst m) (auto simp: CAL_NFFT_def abs_le_iff nat_less_iff)
  qed
  then have "noise_floor ?m (int 43691) = 0" by (intro silent_noise) auto
  then show ?thesis unfolding tone_at_def by (auto simp: m cal_constants CAL_NFFT_def nat_less_iff)
qed

lemma demo_measured: "measureToneOffset (cal_fft demo_cal) (grab demo_cal m) = Some (real 43691 * bin_hz)"
  by (rule tone_measured[where buf = "replicate (CAL_NFFT * 2) 0"]) (simp_all add: demo_cal_def demo_tone)

theorem calibration_doubles_error_witness:
  "\<exists>evs d' p. calibrate_main demo_cal [''calibrate'', ''-f'', ''1e6''] \<lparr>files = Map.empty, dirs = []\<rparr> = Inr (0, evs, d')
     \<and> txcal_read (Some ''/root'') d' = Some p \<and> \<bar>p - 3125 / 4096\<bar> \<le> 1 / 20000"
proof -
  define e :: real where "e = 3125 / 4096 / 1000000"
  have o: "1000000 * (1 + e) - of_int \<lfloor>1000000 - 100000 :: real\<rfloor> = real 43691 * bin_hz" by (simp add: e_def cal_constants)
  have m: "measureToneOffset (cal_fft demo_cal) (grab demo_cal m) = Some (1000000 * (1 + e) - of_int \<lfloor>1000000 - 100000 :: real\<rfloor>)" for m
    unfolding o by (rule demo_measured)
  have e: "1 / 10 ^ 7 \<le> \<bar>e\<bar>" "\<bar>e\<bar> \<le> 1 / 1000" "e * 1000000 = 3125 / 4096" by (simp_all add: e_def)
  show ?thesis
    using calibration_doubles_error[where env = demo_cal and e = e and f = 1000000 and v = "''1e6''" and d = "\<lparr>files = Map.empty, dirs = []\<rparr>",
        OF _ _ _ _ _ _ _ m _ e(1,2)] unfolding e(3) by (fastforce simp: demo_cal_def)
qed

theorem calibrate_cleans_up_witness:
  "\<exists>evs d'. calibrate_main (demo_cal\<lparr>abort_flag := \<lambda>_. True\<rparr>) [''calibrate'', ''-f'', ''1e6''] \<lparr>files = Map.empty, dirs = []\<rparr> = Inr (1, evs, d')
     \<and> last evs = ClosedDev"
proof -
  let ?env = "demo_cal\<lparr>abort_flag := \<lambda>_. True\<rparr>"
  have "\<exists>pre d'. calibrate_main ?env [''calibrate'', ''-f'', ''1e6''] \<lparr>files = Map.empty, dirs = []\<rparr> = Inr (1, OpenedDev 0 # pre, d')"
    unfolding calibrate_main_def list.sel cal_command prod.case
    by (simp add: demo_cal_def default_cal_def CAL_MEASUREMENTS_def cast_u32_def cal_set_up_def numeral_eq_Suc)
  then obtain pre d' where r: "calibrate_main ?env [''calibrate'', ''-f'', ''1e6''] \<lparr>files = Map.empty, dirs = []\<rparr> = Inr (1, OpenedDev 0 # pre, d')"
    by blast
  from calibrate_cleans_up[OF r] r show ?thesis by auto
qed

end
