(* ===== verification/RxSynth.thy ===== *)
theory RxSynth
  imports RxSlots FtxLink
begin

text \<open>
  The receiver without a receiver (\<^verbatim>\<open>rtlsdr_ft8d.cpp\<close>): the generator of FT8 signals with its noise, the two
  sources that fill a window of samples for \<^verbatim>\<open>--rx-test\<close> and \<^verbatim>\<open>--fake-tx\<close>, and the turn of the main loop that uses
  them. Floating point numbers are real numbers; \<^verbatim>\<open>rand\<close> is a stream of 31-bit words.
\<close>

subsection \<open>Noise\<close>

text \<open>The static variables of \<^verbatim>\<open>whiteGaussianNoise\<close>, and how many random numbers were drawn.\<close>

record gauss =
  g_phase :: nat
  V1 :: real
  V2 :: real
  S12 :: real
  drawn :: nat

definition rand_unit :: "31 word \<Rightarrow> real" where
  "rand_unit r = of_int (uint r) / (2 ^ 31 - 1)"

text \<open>Points of the square are drawn until one is inside the circle; \<open>None\<close> when that never happens.\<close>

partial_function (option) polar_draw :: "(nat \<Rightarrow> 31 word) \<Rightarrow> nat \<Rightarrow> (real \<times> real \<times> real \<times> nat) option" where
  "polar_draw rd j =
     (let v1 = 2 * rand_unit (rd j) - 1; v2 = 2 * rand_unit (rd (j + 1)) - 1; s = v1 * v1 + v2 * v2 in
      if 1 \<le> s \<or> s = 0 then polar_draw rd (j + 2) else Some (v1, v2, s, j + 2))"

definition whiteGaussianNoise :: "(nat \<Rightarrow> 31 word) \<Rightarrow> real \<Rightarrow> gauss \<Rightarrow> (real \<times> gauss) option" where
  "whiteGaussianNoise rd factor g =
     (if g_phase g = 0 then
        (case polar_draw rd (drawn g) of
           None \<Rightarrow> None
         | Some (v1, v2, s, j) \<Rightarrow>
             Some (v1 * sqrt (- 2 * ln s / s) * factor, \<lparr>g_phase = 1, V1 = v1, V2 = v2, S12 = s, drawn = j\<rparr>))
      else Some (V2 g * sqrt (- 2 * ln (S12 g) / S12 g) * factor, g\<lparr>g_phase := 1 - g_phase g\<rparr>))"

subsection \<open>A signal\<close>

type_synonym iq = "real list \<times> real list"

definition spsym :: nat where "spsym = nat (c_int (real SIGNAL_SAMPLE_RATE / K_FSK_DEV))"

text \<open>One sample; the arrays have \<open>BUF\<close> elements.\<close>

definition add_sample :: "(nat \<Rightarrow> 31 word) \<Rightarrow> real \<Rightarrow> real \<Rightarrow> real \<Rightarrow> nat \<Rightarrow> iq \<times> gauss \<Rightarrow> (iq \<times> gauss) option" where
  "add_sample rd amp wgn phi index = (\<lambda>((is, qs), g).
     case whiteGaussianNoise rd wgn g of
       None \<Rightarrow> None
     | Some (x, g) \<Rightarrow>
         (case whiteGaussianNoise rd wgn g of
            None \<Rightarrow> None
          | Some (y, g) \<Rightarrow>
              Some ((is[index := is ! index + (amp * cos phi + x)], qs[index := qs ! index + (amp * sin phi + y)]), g)))"

text \<open>The loop over the samples \<open>j\<close> of symbol \<open>i\<close> that are left; it stops at the end of the arrays.\<close>

fun add_symbol :: "(nat \<Rightarrow> 31 word) \<Rightarrow> real \<Rightarrow> real \<Rightarrow> real \<Rightarrow> nat \<Rightarrow> nat \<Rightarrow> nat \<Rightarrow> real \<times> iq \<times> gauss \<Rightarrow> (real \<times> iq \<times> gauss) option" where
  "add_symbol rd amp wgn dphi i j 0 st = Some st"
| "add_symbol rd amp wgn dphi i j (Suc left) (phi, s) =
     (let index = spsym * i + j in
      if BUF \<le> index then Some (phi, s)
      else case add_sample rd amp wgn phi index s of
          None \<Rightarrow> None
        | Some s \<Rightarrow> add_symbol rd amp wgn dphi i (j + 1) left (phi + dphi, s))"

definition tone_step :: "real \<Rightarrow> nat \<Rightarrow> real" where
  "tone_step audioFreq t = 2 * pi * (1 / real SIGNAL_SAMPLE_RATE) * (audioFreq + (real t - 3.5) * K_FSK_DEV)"

fun add_tones :: "(nat \<Rightarrow> 31 word) \<Rightarrow> real \<Rightarrow> real \<Rightarrow> real \<Rightarrow> nat \<Rightarrow> nat list \<Rightarrow> real \<times> iq \<times> gauss \<Rightarrow> (real \<times> iq \<times> gauss) option" where
  "add_tones rd audioFreq amp wgn i [] st = Some st"
| "add_tones rd audioFreq amp wgn i (t # ts) st =
     (case add_symbol rd amp wgn (tone_step audioFreq t) i 0 spsym st of
        None \<Rightarrow> None
      | Some st \<Rightarrow> add_tones rd audioFreq amp wgn (i + 1) ts st)"

text \<open>The call sign table is the receiver's own. A text that cannot be packed changes nothing but this table.\<close>

definition genFT8Signal :: "(nat \<Rightarrow> 31 word) \<Rightarrow> string \<Rightarrow> real \<Rightarrow> real \<Rightarrow> real \<Rightarrow> hashtable \<times> iq \<times> gauss
    \<Rightarrow> (bool \<times> hashtable \<times> iq \<times> gauss) option" where
  "genFT8Signal rd text audioFreq amp wgn = (\<lambda>(tab, s).
     (let (rc, p, tab) = message_encode (Some table_if) text tab in
      if rc \<noteq> RC_OK then Some (False, tab, s)
      else map_option (\<lambda>(phi, s). (True, tab, s)) (add_tones rd audioFreq amp wgn 0 (ft8_encode p) (0, s))))"

subsection \<open>The sources\<close>

record synth =
  sy_rx :: rx_state
  sy_table :: hashtable
  sy_gauss :: gauss
  rot :: u32
  sy_fake :: fake

text \<open>A whole window: the arrays are cleared, the signals added, the index set to the end.\<close>

fun add_signals :: "(nat \<Rightarrow> 31 word) \<Rightarrow> (string \<times> real \<times> real) list \<Rightarrow> hashtable \<times> iq \<times> gauss \<Rightarrow> (bool list \<times> hashtable \<times> iq \<times> gauss) option" where
  "add_signals rd [] st = Some ([], st)"
| "add_signals rd ((text, audio, amp) # sigs) st =
     (case genFT8Signal rd text audio amp 0.02 st of
        None \<Rightarrow> None
      | Some (ok, st) \<Rightarrow> map_option (\<lambda>(oks, st). (ok # oks, st)) (add_signals rd sigs st))"

definition fill_window :: "(nat \<Rightarrow> 31 word) \<Rightarrow> nat \<Rightarrow> (string \<times> real \<times> real) list \<Rightarrow> synth \<Rightarrow> synth option" where
  "fill_window rd idx sigs s =
     map_option (\<lambda>(oks, tab, (is, qs), g).
         s\<lparr>sy_rx := (sy_rx s)\<lparr>iSamples := (iSamples (sy_rx s))[idx := is], qSamples := (qSamples (sy_rx s))[idx := qs],
                              iqIndex := (iqIndex (sy_rx s))[idx := BUF]\<rparr>, sy_table := tab, sy_gauss := g\<rparr>)
       (add_signals rd sigs (sy_table s, (replicate BUF 0, replicate BUF 0), sy_gauss s))"

definition test_calls :: "string list" where
  "test_calls = [''A1TEST'', ''A2TEST'', ''A3TEST'', ''A4TEST'', ''A5TEST'', ''A6TEST'', ''A7TEST'', ''A8TEST'']"

definition test_grids :: "string list" where
  "test_grids = [''JO65'', ''IO91'', ''FN20'', ''JN58'', ''EM12'', ''JO99'', ''IO83'', ''KP20'']"

definition test_audio :: "real list" where
  "test_audio = [500, 1000, 1500, 2000, 2500]"

definition test_message :: "string \<Rightarrow> nat \<Rightarrow> string" where
  "test_message myCall n =
     snprintf_s 32
       (let call = test_calls ! (n mod 8); grid = test_grids ! (n mod 8) in
        if n mod 4 = 0 then ''CQ '' @ call @ '' '' @ grid
        else if n mod 4 = 1 then myCall @ '' '' @ call @ '' '' @ grid
        else if n mod 4 = 2 then myCall @ '' '' @ call @ '' -12''
        else myCall @ '' '' @ call @ '' RR73'')"

definition test_signals :: "string \<Rightarrow> u32 \<Rightarrow> (string \<times> real \<times> real) list" where
  "test_signals own turn =
     (let myCall = (if own \<noteq> [] then own else ''A0TEST'') in
      map (\<lambda>s. (test_message myCall (unat (turn + of_nat s)), test_audio ! (s mod 5), 0.15 + 0.12 * real (s mod 5)))
        [0..<4 + unat (turn mod 2)])"

definition fillRxTestBuffer :: "(nat \<Rightarrow> 31 word) \<Rightarrow> string \<Rightarrow> nat \<Rightarrow> synth \<Rightarrow> synth option" where
  "fillRxTestBuffer rd own idx s = map_option (\<lambda>s. s\<lparr>rot := rot s + 1\<rparr>) (fill_window rd idx (test_signals own (rot s)) s)"

definition fillFakeTxBuffer :: "(nat \<Rightarrow> 31 word) \<Rightarrow> nat \<Rightarrow> synth \<Rightarrow> synth option" where
  "fillFakeTxBuffer rd idx s =
     (let (own, f) = fakeTxPopOwn MAXMSGSIZE (sy_fake s); (peer, f) = fakeTxPopPeer MAXMSGSIZE f;
          sigs = (case own of None \<Rightarrow> [] | Some (m, a) \<Rightarrow> [(m, of_int a, 0.5)]) @ (case peer of None \<Rightarrow> [] | Some (m, a) \<Rightarrow> [(m, of_int a, 0.35)])
      in fill_window rd idx sigs (s\<lparr>sy_fake := f\<rparr>))"

text \<open>
  The turn of the main loop: in the normal case the source fills the half the decoder will take, then the halves are
  switched and the decoder is signalled (the second component); the new half is emptied when the slot ends.
\<close>

definition synth_turn :: "(nat \<Rightarrow> 31 word) \<Rightarrow> receiver_options \<Rightarrow> string \<Rightarrow> int \<Rightarrow> synth \<Rightarrow> (u32 \<times> bool \<times> synth) option" where
  "synth_turn rd ro own t0 s =
     (if ft8wait t0 < uwait t0 then
        map_option (\<lambda>s. (ft8wait t0, True, s\<lparr>sy_rx := reset_index (flip (sy_rx s))\<rparr>))
          (if faketx ro then fillFakeTxBuffer rd (bufferIndex (sy_rx s)) s
           else fillRxTestBuffer rd own (bufferIndex (sy_rx s)) s)
      else Some (uwait t0, False, s\<lparr>sy_rx := reset_index (sy_rx s)\<rparr>))"

subsection \<open>What a signal adds\<close>

text \<open>The phase before sample \<open>k\<close>.\<close>

definition carrier :: "nat list \<Rightarrow> real \<Rightarrow> nat \<Rightarrow> real" where
  "carrier tones audio k = (\<Sum>l<k. tone_step audio (tones ! (l div spsym)))"

text \<open>The random numbers never stay outside the circle for good.\<close>

definition noise_source :: "(nat \<Rightarrow> 31 word) \<Rightarrow> bool" where
  "noise_source rd \<longleftrightarrow> (\<forall>j. \<exists>k. let v1 = 2 * rand_unit (rd (j + 2 * k)) - 1; v2 = 2 * rand_unit (rd (j + 2 * k + 1)) - 1; s = v1 * v1 + v2 * v2
     in s < 1 \<and> s \<noteq> 0)"

lemma polar_draw_ends:
  assumes "noise_source rd"
  shows "polar_draw rd j \<noteq> None"
proof -
  define hit where "hit i \<longleftrightarrow> (let v1 = 2 * rand_unit (rd i) - 1; v2 = 2 * rand_unit (rd (i + 1)) - 1; s = v1 * v1 + v2 * v2 in s < 1 \<and> s \<noteq> 0)" for i
  have "hit (j + 2 * k) \<Longrightarrow> polar_draw rd j \<noteq> None" for k
  proof (induction k arbitrary: j)
    case 0
    then show ?case by (subst polar_draw.simps) (auto simp: hit_def Let_def)
  next
    case (Suc k)
    then have "polar_draw rd (j + 2) \<noteq> None" by simp
    then show ?case by (subst polar_draw.simps) (auto simp: Let_def)
  qed
  moreover obtain k where "hit (j + 2 * k)" using assms unfolding noise_source_def hit_def by blast
  ultimately show ?thesis by blast
qed

lemma noise_returns:
  assumes "noise_source rd"
  shows "\<exists>x g'. whiteGaussianNoise rd w g = Some (w * x, g')"
proof -
  obtain v1 v2 s j where "polar_draw rd (drawn g) = Some (v1, v2, s, j)"
    using polar_draw_ends[OF assms, of "drawn g"] by (metis not_None_eq prod_cases4)
  then show ?thesis by (auto simp: whiteGaussianNoise_def mult.commute)
qed

text \<open>The arrays after \<open>n\<close> samples of a signal.\<close>

definition rendered :: "iq \<Rightarrow> nat list \<Rightarrow> real \<Rightarrow> real \<Rightarrow> real \<Rightarrow> nat \<Rightarrow> iq \<Rightarrow> bool" where
  "rendered old tones audio amp w n = (\<lambda>(ia, qa). length ia = BUF \<and> length qa = BUF \<and>
     (\<exists>nI nQ. \<forall>k < BUF.
        ia ! k = fst old ! k + (if k < n then amp * cos (carrier tones audio k) + w * nI k else 0)
      \<and> qa ! k = snd old ! k + (if k < n then amp * sin (carrier tones audio k) + w * nQ k else 0)))"

lemma add_sample_renders:
  assumes "noise_source rd" "rendered old tones audio amp w n s" "n < BUF"
  shows "\<exists>s' g'. add_sample rd amp w (carrier tones audio n) n (s, g) = Some (s', g') \<and> rendered old tones audio amp w (n + 1) s'"
proof -
  obtain ia qa where s: "s = (ia, qa)" by (cases s)
  obtain x g1 where x: "whiteGaussianNoise rd w g = Some (w * x, g1)" using noise_returns[OF assms(1)] by blast
  obtain y g2 where y: "whiteGaussianNoise rd w g1 = Some (w * y, g2)" using noise_returns[OF assms(1)] by blast
  obtain nI nQ where l: "length ia = BUF" "length qa = BUF" and r: "\<forall>k < BUF.
        ia ! k = fst old ! k + (if k < n then amp * cos (carrier tones audio k) + w * nI k else 0)
      \<and> qa ! k = snd old ! k + (if k < n then amp * sin (carrier tones audio k) + w * nQ k else 0)"
    using assms(2) unfolding rendered_def s by auto
  have "rendered old tones audio amp w (n + 1)
      (ia[n := ia ! n + (amp * cos (carrier tones audio n) + w * x)], qa[n := qa ! n + (amp * sin (carrier tones audio n) + w * y)])"
    unfolding rendered_def prod.case
    using l r assms(3) by (intro conjI exI[of _ "nI(n := x)"] exI[of _ "nQ(n := y)"]) (auto simp: nth_list_update)
  then show ?thesis by (simp add: add_sample_def s x y)
qed

lemma spsym_eq: "spsym = 1024"
  by (simp add: spsym_def c_int_def SIGNAL_SAMPLE_RATE_def K_FSK_DEV_def)

lemma add_symbol_renders:
  assumes "noise_source rd" "i < length tones" "length tones = 79"
  shows "rendered old tones audio amp w (spsym * i + j) s \<Longrightarrow> j + left = spsym \<Longrightarrow>
    \<exists>s' g'. add_symbol rd amp w (tone_step audio (tones ! i)) i j left (carrier tones audio (spsym * i + j), s, g)
        = Some (carrier tones audio (spsym * (i + 1)), s', g') \<and> rendered old tones audio amp w (spsym * (i + 1)) s'"
proof (induction left arbitrary: j s g)
  case 0
  then show ?case by (simp add: algebra_simps)
next
  case (Suc left)
  have j: "j < 1024" "i \<le> 78" using Suc.prems(2) assms(2,3) by (simp_all add: spsym_eq)
  then have b: "spsym * i + j < BUF" by (simp add: spsym_eq BUF_def SIGNAL_LENGHT_def SIGNAL_SAMPLE_RATE_def)
  have d: "(spsym * i + j) div spsym = i" using j by (simp add: spsym_eq)
  have c: "carrier tones audio (spsym * i + j) + tone_step audio (tones ! i) = carrier tones audio (spsym * i + (j + 1))"
    using d by (simp add: carrier_def)
  obtain s' g' where 1: "add_sample rd amp w (carrier tones audio (spsym * i + j)) (spsym * i + j) (s, g) = Some (s', g')"
      "rendered old tones audio amp w (spsym * i + (j + 1)) s'"
    using add_sample_renders[OF assms(1) Suc.prems(1) b, of g] unfolding add.assoc by blast
  have "j + 1 + left = spsym" using Suc.prems(2) by simp
  from Suc.IH[OF 1(2) this] show ?case using b by (simp add: Let_def 1(1) c del: One_nat_def)
qed

lemma add_tones_renders:
  assumes "noise_source rd" "length tones = 79"
  shows "rendered old tones audio amp w (spsym * i) s \<Longrightarrow> drop i tones = ts \<Longrightarrow> i \<le> 79 \<Longrightarrow>
    \<exists>s' g'. add_tones rd audio amp w i ts (carrier tones audio (spsym * i), s, g) = Some (carrier tones audio (spsym * 79), s', g')
      \<and> rendered old tones audio amp w (spsym * 79) s'"
proof (induction ts arbitrary: i s g)
  case Nil
  then have "i = 79" using assms(2) by simp
  then show ?case using Nil by simp
next
  case (Cons t ts)
  then have i: "i < length tones" by (metis drop_all list.distinct(1) not_le)
  then have t: "t = tones ! i" "drop (i + 1) tones = ts" using Cons.prems(2) by (simp_all add: Cons_nth_drop_Suc [symmetric])
  have r: "rendered old tones audio amp w (spsym * i + 0) s" "(0 :: nat) + spsym = spsym" using Cons.prems(1) by simp_all
  obtain s' g' where 1: "add_symbol rd amp w (tone_step audio (tones ! i)) i 0 spsym (carrier tones audio (spsym * i), s, g)
        = Some (carrier tones audio (spsym * (i + 1)), s', g')" "rendered old tones audio amp w (spsym * (i + 1)) s'"
    using add_symbol_renders[OF assms(1) i assms(2) r, of g] unfolding add_0_right by blast
  have "i + 1 \<le> 79" using i assms(2) by simp
  from Cons.IH[OF 1(2) t(2) this] show ?case using 1(1) t(1) by simp
qed



end
