(* ===== verification/RxReplay.thy ===== *)
theory RxReplay
  imports RxSynth FtxReceive
begin

text \<open>
  Recorded slots and the self-test (\<^verbatim>\<open>rtlsdr_ft8d.cpp\<close>): \<^verbatim>\<open>readC2file\<close>, \<^verbatim>\<open>decodeRecordedFile\<close> and
  \<^verbatim>\<open>decoderSelfTest\<close>, on the files and the decoder of the other theories. What goes to the standard output is a
  list of lines.
\<close>

subsection \<open>Files\<close>

text \<open>A \<^verbatim>\<open>.c2\<close> file: the frequency of its header and the samples behind it.\<close>

record c2file =
  c2_freq :: real
  c2_samples :: "real list"

text \<open>Behind the header the code is that of \<^verbatim>\<open>readRawIQfile\<close>; the frequency becomes the receiver's dial frequency.\<close>

definition readC2file :: "(string \<Rightarrow> c2file option) \<Rightarrow> receiver_options \<Rightarrow> real list \<Rightarrow> real list \<Rightarrow> string
    \<Rightarrow> (nat \<times> real list \<times> real list \<times> receiver_options) result" where
  "readC2file fs ro is qs name =
     (case fs name of
        None \<Rightarrow> Inr (0, is, qs, ro)
      | Some c \<Rightarrow>
          rbind (cast_u32 (c2_freq c)) (\<lambda>f.
          case readRawIQfile [name \<mapsto> c2_samples c] is qs name of (n, is, qs) \<Rightarrow> Inr (n, is, qs, ro\<lparr>dialfreq := f\<rparr>)))"

definition pad_left :: "nat \<Rightarrow> string \<Rightarrow> string" where "pad_left w s = replicate (w - length s) CHR '' '' @ s"
definition pad_right :: "nat \<Rightarrow> string \<Rightarrow> string" where "pad_right w s = s @ replicate (w - length s) CHR '' ''"

text \<open>\<^verbatim>\<open>"  %8d Hz  %+3d dB  %-5s %-12s %-6s"\<close>, with the sum of an \<^verbatim>\<open>int32_t\<close> and a \<^verbatim>\<open>uint32_t\<close> read as signed.\<close>

definition spot_line :: "u32 \<Rightarrow> decoder_results \<Rightarrow> string" where
  "spot_line dial r =
     ''  '' @ pad_left 8 (int_dec (sint (word_of_int (r_freq r) + dial))) @ '' Hz  ''
       @ pad_left 3 ((if r_snr r < 0 then [] else ''+'') @ int_dec (r_snr r)) @ '' dB  ''
       @ pad_right 5 (r_cmd r) @ '' '' @ pad_right 12 (r_call r) @ '' '' @ pad_right 6 (r_loc r) @ newline"

text \<open>One decode of the arrays into the shared results: their number and the state.\<close>

definition decode_samples :: "turn_env \<Rightarrow> real list \<Rightarrow> real list \<Rightarrow> receiver \<Rightarrow> (nat \<times> receiver) result" where
  "decode_samples env is qs s =
     rbind (ft8_subsystem (t_lib env) (t_denv env) (t_mem env) is qs (dec_results s) (calls_seen s) (handler s))
       (\<lambda>(ds, n, tab, log, h). Inr (n, s\<lparr>dec_results := ds, calls_seen := tab, handler := h, log_queue := log_queue s @ log\<rparr>))"

text \<open>The benchmark decodes the same samples again, with all effects a decode has.\<close>

fun bench_runs :: "turn_env \<Rightarrow> real list \<Rightarrow> real list \<Rightarrow> nat \<Rightarrow> receiver \<Rightarrow> receiver result" where
  "bench_runs env is qs 0 s = Inr s"
| "bench_runs env is qs (Suc k) s = rbind (decode_samples env is qs s) (\<lambda>(_, s). bench_runs env is qs k s)"

definition post_spots :: "turn_env \<Rightarrow> nat \<Rightarrow> receiver \<Rightarrow> receiver result" where
  "post_spots env n s =
     rbind (printSpots (d_freq (d_opts (t_denv env))) (t_junk env) (dec_results s) n (cq_queue s)) (\<lambda>cq. Inr (s\<lparr>cq_queue := cq\<rparr>))"

text \<open>\<open>bench\<close> is the environment variable; its report of times is left out.\<close>

definition replay_samples :: "turn_env \<Rightarrow> string option \<Rightarrow> real list \<Rightarrow> real list \<Rightarrow> receiver \<Rightarrow> (receiver \<times> string list) result" where
  "replay_samples env bench is qs s =
     rbind (decode_samples env is qs s) (\<lambda>(n, s).
     rbind (bench_runs env is qs (case bench of None \<Rightarrow> 0 | Some b \<Rightarrow> nat (i32 (atoi b))) s) (\<lambda>s.
     let s = s\<lparr>slot_time := t_time env - 120 + 1\<rparr> in
     if length (dec_results s) < n then Inl (OutOfBounds (length (dec_results s)) (length (dec_results s)))
     else rbind (post_spots env n s) (\<lambda>s.
       Inr (s, (''Decoded '' @ int_dec (int n) @ '' message(s):'' @ newline)
               # map (spot_line (d_freq (d_opts (t_denv env)))) (take n (dec_results s))))))"

definition decodeRecordedFile :: "turn_env \<Rightarrow> (string \<Rightarrow> c2file option) \<Rightarrow> string option \<Rightarrow> string \<Rightarrow> receiver
    \<Rightarrow> (receiver \<times> string list) result" where
  "decodeRecordedFile env c2s bench name s =
     (let zeros = replicate BUF 0; ext = drop (length name - 3) name in
      if length name < 3 then Inr (s, [])
      else rbind (if ext = ''.iq'' then
                    (case readRawIQfile (iq_files s) zeros zeros name of (n, is, qs) \<Rightarrow> Inr (Some (n, is, qs, ro_of s)))
                  else if ext = ''.c2'' then rbind (readC2file c2s (ro_of s) zeros zeros name) (\<lambda>r. Inr (Some r))
                  else Inr None)
        (\<lambda>r. case r of
            None \<Rightarrow> Inr (s, [])
          | Some (n, is, qs, ro) \<Rightarrow>
              (let s = s\<lparr>ro_of := ro\<rparr>; out = ''Number of samples: '' @ int_dec (int n) @ newline in
               if n = 0 then Inr (s, [out])
               else rbind (replay_samples env bench is qs s) (\<lambda>(s, ls). Inr (s, out # ls)))))"

subsection \<open>The self-test\<close>

definition selftest_message :: string where "selftest_message = ''CQ K1JT FN20QI''"

text \<open>\<open>None\<close>: the noise generator never returns. The result is the exit value and the state.\<close>

definition decoderSelfTest :: "(nat \<Rightarrow> 31 word) \<Rightarrow> gauss \<Rightarrow> turn_env \<Rightarrow> receiver \<Rightarrow> (int \<times> receiver) run" where
  "decoderSelfTest rd g env s =
     (case genFT8Signal rd selftest_message 50 0.5 0.02 (calls_seen s, (replicate BUF 0, replicate BUF 0), g) of
        None \<Rightarrow> None
      | Some (ok, tab, (is, qs), g) \<Rightarrow>
          (let s = s\<lparr>calls_seen := tab\<rparr> in
           if \<not> ok then Some (Inr (- 2, s))
           else
             (let s = s\<lparr>iq_files := snd (writeRawIQfile (t_can_write env) is qs ''selftest.iq'' (iq_files s))\<rparr> in
              Some (rbind (decode_samples env is qs s) (\<lambda>(n, s).
                    rbind (post_spots env n s) (\<lambda>s.
                    if dec_results s = [] then Inl (OutOfBounds 0 0)
                    else Inr (if r_call (dec_results s ! 0) = ''K1JT'' \<and> r_loc (dec_results s ! 0) = ''FN20'' then 1 else 0, s)))))))"

subsection \<open>Scaling\<close>

lemma fold_store_prefix: "n \<le> length xs \<Longrightarrow> fold (\<lambda>i xs. xs[i := f i]) [0..<n] xs = map f [0..<n] @ drop n xs"
  by (induction n) (simp_all add: list_update_append Cons_nth_drop_Suc [symmetric])

lemma scale_by_map: "n \<le> length xs \<Longrightarrow> scale_by k n xs = map (\<lambda>x. x * k) (take n xs) @ drop n xs"
proof (induction n)
  case (Suc n)
  then have "scale_by k (Suc n) xs = (scale_by k n xs)[n := scale_by k n xs ! n * k]" by (simp add: scale_by_def)
  moreover have "take (Suc n) xs = take n xs @ [xs ! n]" "drop n xs = xs ! n # drop (Suc n) xs"
    using Suc.prems by (simp_all add: take_Suc_conv_app_nth Cons_nth_drop_Suc)
  ultimately show ?case using Suc by (simp add: nth_append list_update_append)
qed (simp add: scale_by_def)

text \<open>\<^verbatim>\<open>maxSig\<close> is the largest magnitude, or the floor it starts from.\<close>

definition is_max :: "real list \<Rightarrow> real list \<Rightarrow> nat \<Rightarrow> real \<Rightarrow> bool" where
  "is_max is qs n m \<longleftrightarrow> 1 / 10 ^ 24 \<le> m \<and> (\<forall>i < n. \<bar>is ! i\<bar> \<le> m \<and> \<bar>qs ! i\<bar> \<le> m)
     \<and> (m = 1 / 10 ^ 24 \<or> (\<exists>i < n. m = \<bar>is ! i\<bar> \<or> m = \<bar>qs ! i\<bar>))"

lemma max_sig_is_max: "is_max is qs n (max_sig is qs n)"
proof (induction n)
  case (Suc n)
  define m where "m = max_sig is qs n"
  define a where "a = (if m < \<bar>is ! n\<bar> then \<bar>is ! n\<bar> else m)"
  have s: "max_sig is qs (Suc n) = (if a < \<bar>qs ! n\<bar> then \<bar>qs ! n\<bar> else a)" by (simp add: max_sig_def m_def a_def)
  have ih: "is_max is qs n m" using Suc by (simp add: m_def)
  define b where "b = (if a < \<bar>qs ! n\<bar> then \<bar>qs ! n\<bar> else a)"
  have ab: "m \<le> b" "\<bar>is ! n\<bar> \<le> b" "\<bar>qs ! n\<bar> \<le> b" "b = m \<or> b = \<bar>is ! n\<bar> \<or> b = \<bar>qs ! n\<bar>" by (simp_all add: a_def b_def)
  have "\<bar>is ! i\<bar> \<le> b \<and> \<bar>qs ! i\<bar> \<le> b" if "i < Suc n" for i
  proof (cases "i = n")
    case False
    then have "\<bar>is ! i\<bar> \<le> m" "\<bar>qs ! i\<bar> \<le> m" using that ih unfolding is_max_def by simp_all
    then show ?thesis using ab(1) by linarith
  qed (use ab in simp)
  moreover have "1 / 10 ^ 24 \<le> b" using ih ab(1) unfolding is_max_def by linarith
  moreover have "b = 1 / 10 ^ 24 \<or> (\<exists>i < Suc n. b = \<bar>is ! i\<bar> \<or> b = \<bar>qs ! i\<bar>)"
    using ih ab(4) unfolding is_max_def by (blast intro: less_SucI)
  ultimately show ?case unfolding s b_def [symmetric] is_max_def by blast
qed (simp add: is_max_def max_sig_def)

lemma is_max_le: "is_max is qs n m \<Longrightarrow> is_max is qs n m' \<Longrightarrow> m \<le> m'"
  unfolding is_max_def by (elim conjE disjE exE) auto

lemma max_sig_eq: "is_max is qs n m \<Longrightarrow> max_sig is qs n = m"
  using max_sig_is_max[of "is" qs n] is_max_le by (blast intro: order_antisym)

text \<open>After scaling the largest magnitude is a half, unless nothing is above the floor.\<close>

lemma scaled_max:
  assumes "length is = n" "length qs = n" "1 / 10 ^ 24 < max_sig is qs n"
  defines "k \<equiv> (1 / 2) / max_sig is qs n"
  shows "max_sig (map (\<lambda>x. x * k) is) (map (\<lambda>x. x * k) qs) n = 1 / 2"
proof (rule max_sig_eq)
  define m where "m = max_sig is qs n"
  have m: "is_max is qs n m" "1 / 10 ^ 24 < m" using max_sig_is_max assms(3) by (simp_all add: m_def)
  then have "0 < m" by (intro less_trans[OF _ m(2)]) simp
  then have k: "\<bar>x * k\<bar> = \<bar>x\<bar> / m / 2" for x by (simp add: k_def m_def [symmetric] abs_mult)
  have b: "\<bar>x * k\<bar> \<le> 1 / 2 \<longleftrightarrow> \<bar>x\<bar> \<le> m" "\<bar>x * k\<bar> = 1 / 2 \<longleftrightarrow> \<bar>x\<bar> = m" for x
    unfolding k using \<open>0 < m\<close> by (auto simp: field_simps)
  obtain i where i: "i < n" "m = \<bar>is ! i\<bar> \<or> m = \<bar>qs ! i\<bar>" using m unfolding is_max_def by blast
  then have "\<bar>is ! i * k\<bar> = 1 / 2 \<or> \<bar>qs ! i * k\<bar> = 1 / 2" unfolding b by blast
  then show "is_max (map (\<lambda>x. x * k) is) (map (\<lambda>x. x * k) qs) n (1 / 2)"
    using m(1) i(1) b(1) assms(1,2) unfolding is_max_def by (auto simp: eq_commute[of "1 / 2"])
qed

subsection \<open>Reading what was written\<close>

lemma concat_pairs_nth: "i < n \<Longrightarrow> concat (map (\<lambda>i. [f i, g i]) [0..<n]) ! (2 * i) = f i
    \<and> concat (map (\<lambda>i. [f i, g i]) [0..<n]) ! (2 * i + 1) = g i"
proof (induction n)
  case (Suc n)
  have l: "length (concat (map (\<lambda>i. [f i, g i]) [0..<n])) = 2 * n" by (induction n) simp_all
  show ?case
  proof (cases "i = n")
    case True
    then show ?thesis by (simp add: nth_append l)
  next
    case False
    then show ?thesis using Suc by (simp add: nth_append l)
  qed
qed simp

lemma concat_pairs_length: "length (concat (map (\<lambda>i. [f i, g i]) [0..<n])) = 2 * n"
  by (induction n) simp_all

lemma iq_file_read:
  assumes "length is = BUF" "length qs = BUF" "length a = BUF" "length b = BUF"
    and "fs name = Some (concat (map (\<lambda>i. [is ! i, - (qs ! i)]) [0..<BUF]))"
    and "k = (1 / 2) / max_sig is qs BUF"
  shows "readRawIQfile fs a b name = (BUF, map (\<lambda>x. x * k) is, map (\<lambda>x. x * k) qs)"
proof -
  define c where "c = concat (map (\<lambda>i. [is ! i, - (qs ! i)]) [0..<BUF])"
  have l: "take (2 * BUF) c = c" "length c div 2 = BUF" by (simp_all add: c_def concat_pairs_length)
  have n: "c ! (2 * i) = is ! i" "c ! (2 * i + 1) = - (qs ! i)" if "i < BUF" for i
    using concat_pairs_nth[OF that, of "\<lambda>i. is ! i" "\<lambda>i. - (qs ! i)"] by (auto simp: c_def)
  have i: "fold (\<lambda>i a. a[i := c ! (2 * i)]) [0..<BUF] a = is"
    using assms(1,3) fold_store_prefix[of BUF a "\<lambda>i. c ! (2 * i)"] n(1) by (auto intro!: nth_equalityI)
  have q: "fold (\<lambda>i a. a[i := - (c ! (2 * i + 1))]) [0..<BUF] b = qs"
    using assms(2,4) fold_store_prefix[of BUF b "\<lambda>i. - (c ! (2 * i + 1))"] n(2) by (auto intro!: nth_equalityI)
  show ?thesis
    unfolding readRawIQfile_def assms(5)[folded c_def] option.case l Let_def i q using assms(1,2,6) by (simp add: scale_by_map)
qed

subsection \<open>Replaying a slot\<close>

definition tm_ok :: "tm \<Rightarrow> bool" where
  "tm_ok t \<longleftrightarrow> 0 \<le> tm_year t + 1900 \<and> tm_year t + 1900 < 10 ^ 4 \<and> 0 \<le> tm_mon t + 1 \<and> tm_mon t + 1 < 10 ^ 2 \<and> 0 \<le> tm_mday t \<and> tm_mday t < 10 ^ 2
     \<and> 0 \<le> tm_hour t \<and> tm_hour t < 10 ^ 2 \<and> 0 \<le> tm_min t \<and> tm_min t < 10 ^ 2 \<and> 0 \<le> tm_sec t \<and> tm_sec t < 10 ^ 2"

lemma int_dec0_width: "0 \<le> i \<Longrightarrow> i < 10 ^ w \<Longrightarrow> 0 < w \<Longrightarrow> length (int_dec0 w i) = w"
  using nat_dec_length[of "nat i" w] by (simp add: int_dec0_def Let_def nat_less_iff)

lemma sample_name_ext:
  assumes "tm_ok t"
  shows "length prefix < 8 \<Longrightarrow> 3 \<le> length (sample_name prefix t) \<and> drop (length (sample_name prefix t) - 3) (sample_name prefix t) = ''.iq''"
    and "8 \<le> length prefix \<Longrightarrow> length (sample_name prefix t) = 30 \<and> drop 27 (sample_name prefix t) \<noteq> ''.iq'' \<and> drop 27 (sample_name prefix t) \<noteq> ''.c2''"
proof -
  define m where "m = ''_'' @ int_dec0 4 (tm_year t + 1900) @ ''-'' @ int_dec0 2 (tm_mon t + 1) @ ''-'' @ int_dec0 2 (tm_mday t) @ ''_'' @ hms ''-'' t"
  have m: "length m = 20" using assms by (simp add: m_def hms_def tm_ok_def int_dec0_width del: power_numeral)
  have n: "sample_name prefix t = snprintf_s 31 (take 8 prefix @ m @ ''.iq'')" by (simp add: sample_name_def m_def)
  show "length prefix < 8 \<Longrightarrow> 3 \<le> length (sample_name prefix t) \<and> drop (length (sample_name prefix t) - 3) (sample_name prefix t) = ''.iq''"
    using m unfolding n by (simp add: snprintf_s_def)
  show "8 \<le> length prefix \<Longrightarrow> length (sample_name prefix t) = 30 \<and> drop 27 (sample_name prefix t) \<noteq> ''.iq'' \<and> drop 27 (sample_name prefix t) \<noteq> ''.c2''"
  proof -
    assume l: "8 \<le> length prefix"
    have "sample_name prefix t = (take 8 prefix @ m) @ ''.i''" unfolding n using m l by (simp add: snprintf_s_def)
    moreover have "length (take 8 prefix @ m) = 28" using m l by simp
    ultimately have "length (sample_name prefix t) = 30" "drop 28 (sample_name prefix t) = ''.i''" by simp_all
    then have l30: "length (sample_name prefix t) = 30" and i: "drop 1 (drop 27 (sample_name prefix t)) = ''.i''" by simp_all
    have "drop 1 ''.iq'' \<noteq> ''.i''" "drop 1 ''.c2'' \<noteq> ''.i''" by simp_all
    then show ?thesis using l30 i by metis
  qed
qed

text \<open>Something in the samples of the half that is decoded is above the floor of \<^verbatim>\<open>maxSig\<close>.\<close>

definition audible :: "rx_state \<Rightarrow> bool" where
  "audible rx \<longleftrightarrow> (\<exists>i < min (iqIndex rx ! prev_buffer rx) BUF. 1 / 10 ^ 24 < \<bar>iSamples rx ! prev_buffer rx ! i\<bar> \<or> 1 / 10 ^ 24 < \<bar>qSamples rx ! prev_buffer rx ! i\<bar>)"

definition halves_ok :: "rx_state \<Rightarrow> bool" where
  "halves_ok rx \<longleftrightarrow> length (iSamples rx) = 2 \<and> length (qSamples rx) = 2 \<and> (\<forall>b < 2. length (iSamples rx ! b) = BUF \<and> length (qSamples rx ! b) = BUF)"

lemma clear_tail_head: "length (clear_tail n xs) = length xs \<and> (\<forall>i < n. clear_tail n xs ! i = xs ! i)"
proof -
  have "length (fold (\<lambda>i xs. xs[i := 0]) ks xs) = length xs \<and> (\<forall>i. i \<notin> set ks \<longrightarrow> fold (\<lambda>i xs. xs[i := 0]) ks xs ! i = xs ! i)" for ks
    by (induction ks arbitrary: xs) simp_all
  from this[of "[n..<BUF]"] show ?thesis by (simp add: clear_tail_def)
qed

lemma prepared_half:
  assumes "prepare_window rx = Some rx'" "halves_ok rx" "audible rx"
  defines "ia \<equiv> iSamples rx' ! prev_buffer rx'" and "qs \<equiv> qSamples rx' ! prev_buffer rx'"
  shows "length ia = BUF" "length qs = BUF" "max_sig ia qs BUF = 1 / 2"
proof -
  define p n where "p = prev_buffer rx" and "n = iqIndex rx ! p"
  define a b where "a = clear_tail n (iSamples rx ! p)" and "b = clear_tail n (qSamples rx ! p)"
  define k where "k = (1 / 2) / max_sig a b BUF"
  have p: "p < 2" by (simp add: p_def prev_buffer_def)
  have l: "length a = BUF" "length b = BUF" "length (iSamples rx) = 2" "length (qSamples rx) = 2"
    using assms(2) p clear_tail_head by (simp_all add: a_def b_def halves_ok_def)
  have rx': "rx' = rx\<lparr>iSamples := (iSamples rx)[p := scale_by k BUF a], qSamples := (qSamples rx)[p := scale_by k BUF b]\<rparr>"
    using assms(1) by (simp add: prepare_window_def Let_def p_def n_def a_def b_def k_def split: if_splits)
  then have "prev_buffer rx' = p" by (simp add: prev_buffer_def p_def)
  then have e: "ia = map (\<lambda>x. x * k) a" "qs = map (\<lambda>x. x * k) b"
    unfolding ia_def qs_def rx' using p l by (simp_all add: scale_by_map)
  obtain i where i: "i < n" "i < BUF" "1 / 10 ^ 24 < \<bar>a ! i\<bar> \<or> 1 / 10 ^ 24 < \<bar>b ! i\<bar>"
    using assms(3) clear_tail_head unfolding audible_def p_def [symmetric] n_def [symmetric] a_def b_def by auto
  have "\<bar>a ! i\<bar> \<le> max_sig a b BUF" "\<bar>b ! i\<bar> \<le> max_sig a b BUF" using max_sig_is_max[of a b BUF] i(2) unfolding is_max_def by blast+
  then have "1 / 10 ^ 24 < max_sig a b BUF" using i(3) by linarith
  from scaled_max[OF l(1,2) this] show "length ia = BUF" "length qs = BUF" "max_sig ia qs BUF = 1 / 2" using l unfolding e k_def by simp_all
qed

text \<open>
  C6. A recorded slot replays. The decoder thread decodes a slot and, with \<^verbatim>\<open>-w\<close>, saves its samples; reading the file
  with \<^verbatim>\<open>-r\<close> from the same call sign table and queues gives the same spots, the same table, the same messages to the
  handler and to the log, and prints a line per spot. This is so for prefixes of fewer than eight characters: with
  eight or more the name is cut to \<^verbatim>\<open>.i\<close> and the file is refused for its extension, without any output.
\<close>

theorem recorded_slot_replays:
  assumes "decoder_turn env s = Inr (True, s1)" "\<not> exit_flag (rx_of s)" "prepare_window (rx_of s) = Some rx'"
    and "writefile (ro_of s)" "t_can_write env" "tm_ok (t_tm env)" "halves_ok (rx_of s)" "audible (rx_of s)"
  defines "name \<equiv> sample_name (filename (ro_of s)) (t_tm env)"
  shows "(length (filename (ro_of s)) < 8 \<longrightarrow>
      (\<exists>s2 n l1 l2. decodeRecordedFile env c2s None name (s\<lparr>iq_files := iq_files s1\<rparr>)
          = Inr (s2, l1 # l2 # map (spot_line (d_freq (d_opts (t_denv env)))) (take n (dec_results s1)))
        \<and> dec_results s2 = dec_results s1 \<and> calls_seen s2 = calls_seen s1 \<and> handler s2 = handler s1
        \<and> log_queue s2 = log_queue s1 \<and> cq_queue s2 = cq_queue s1))
    \<and> (8 \<le> length (filename (ro_of s)) \<longrightarrow> decodeRecordedFile env c2s bench name s = Inr (s, []))"
proof (intro conjI impI)
  assume "8 \<le> length (filename (ro_of s))"
  with sample_name_ext(2)[OF assms(6)] show "decodeRecordedFile env c2s bench name s = Inr (s, [])"
    by (simp add: decodeRecordedFile_def name_def Let_def)
next
  assume short: "length (filename (ro_of s)) < 8"
  define ia qs where "ia = iSamples rx' ! prev_buffer rx'" and "qs = qSamples rx' ! prev_buffer rx'"
  define dial where "dial = d_freq (d_opts (t_denv env))"
  note half = prepared_half[OF assms(3,7,8), folded ia_def qs_def]
  obtain ds n tab log h psk cq where sub: "ft8_subsystem (t_lib env) (t_denv env) (t_mem env) ia qs (dec_results s) (calls_seen s) (handler s) = Inr (ds, n, tab, log, h)"
    and cq: "printSpots dial (t_junk env) ds n (cq_queue s) = Inr cq"
    and s1: "dec_results s1 = ds" "calls_seen s1 = tab" "handler s1 = h" "log_queue s1 = log_queue s @ log" "cq_queue s1 = cq"
      "iq_files s1 = (iq_files s)(name \<mapsto> concat (map (\<lambda>i. [ia ! i, - (qs ! i)]) [0..<BUF]))"
    using assms(1-5) unfolding decoder_turn_def ia_def qs_def name_def dial_def
    by (auto simp: Let_def rbind_Inr_iff saveSample_def writeRawIQfile_def)
  have n: "n \<le> length ds" using cq by (simp add: printSpots_def split: if_splits)
  have rd: "readRawIQfile (iq_files s1) (replicate BUF 0) (replicate BUF 0) name = (BUF, ia, qs)"
    using iq_file_read[OF half(1,2) _ _ _ refl, of "replicate BUF 0" "replicate BUF 0" "iq_files s1" name] half(3) by (simp add: s1(6))
  have pos: "BUF \<noteq> 0" by (simp add: BUF_def SIGNAL_LENGHT_def SIGNAL_SAMPLE_RATE_def)
  have dec: "decode_samples env ia qs (s\<lparr>iq_files := f, ro_of := r\<rparr>)
      = Inr (n, s\<lparr>iq_files := f, ro_of := r, dec_results := ds, calls_seen := tab, handler := h, log_queue := log_queue s @ log\<rparr>)" for f r
    using sub by (simp add: decode_samples_def)
  show "\<exists>s2 n l1 l2. decodeRecordedFile env c2s None name (s\<lparr>iq_files := iq_files s1\<rparr>)
          = Inr (s2, l1 # l2 # map (spot_line (d_freq (d_opts (t_denv env)))) (take n (dec_results s1)))
        \<and> dec_results s2 = dec_results s1 \<and> calls_seen s2 = calls_seen s1 \<and> handler s2 = handler s1
        \<and> log_queue s2 = log_queue s1 \<and> cq_queue s2 = cq_queue s1"
    using sample_name_ext(1)[OF assms(6) short] n cq
    unfolding decodeRecordedFile_def Let_def name_def [symmetric] dial_def
    by (simp add: rd pos replay_samples_def dec post_spots_def s1(1-5)) blast
qed

text \<open>A slot of ones, recorded under \<^verbatim>\<open>rx\<close>.\<close>

definition demo_turn :: turn_env where
  "demo_turn = \<lparr>t_lib = \<lparr>fft = id, find_candidates = (\<lambda>_ _ _. []), decode_candidate = (\<lambda>_ _. None)\<rparr>, t_denv = demo_denv, t_mem = True,
     t_time = 30, t_tm = \<lparr>tm_year = 125, tm_mon = 0, tm_mday = 1, tm_hour = 0, tm_min = 0, tm_sec = 1\<rparr>, t_can_write = True, t_junk = no_result\<rparr>"

definition demo_half :: rx_state where
  "demo_half = \<lparr>exit_flag = False, iSamples = [replicate BUF 1, replicate BUF 0], qSamples = [replicate BUF 0, replicate BUF 0],
     iqIndex = [BUF, 0], bufferIndex = 1, callback_counter = 0\<rparr>"

definition demo_receiver :: receiver where
  "demo_receiver = \<lparr>rx_of = demo_half, ro_of = static_options\<lparr>writefile := True, filename := ''rx''\<rparr>,
     dec_results = replicate 50 no_result, calls_seen = [], handler = init_globals, dec_results_queue = [], cq_queue = [], log_queue = [],
     iq_files = Map.empty, slot_time = 0\<rparr>"

lemma demo_subsystem:
  assumes "length a = BUF" "length b = BUF"
  shows "ft8_subsystem (t_lib demo_turn) (t_denv demo_turn) (t_mem demo_turn) a b ds [] init_globals
    = Inr (ds, 0, [], [], init_globals\<lparr>tick_queue := tsq_push (tick_queue init_globals) (this_slot demo_denv)\<rparr>)"
proof -
  obtain w where "waterfall_of id a b = Inr w" using waterfall_shape[OF assms] by blast
  then show ?thesis by (simp add: ft8_subsystem_def demo_turn_def decode_def init_globals_def)
qed

theorem recorded_slot_replays_witness:
  "\<exists>s1 s2 ls. decoder_turn demo_turn demo_receiver = Inr (True, s1)
     \<and> decodeRecordedFile demo_turn Map.empty None ''rx_2025-01-01_00-00-01.iq'' (demo_receiver\<lparr>iq_files := iq_files s1\<rparr>) = Inr (s2, ls)
     \<and> handler s2 = handler s1"
proof -
  have b: "BUF = 96000" by (simp add: BUF_def SIGNAL_LENGHT_def SIGNAL_SAMPLE_RATE_def)
  have h: "halves_ok demo_half" by (auto simp: halves_ok_def demo_half_def less_2_cases_iff)
  have a: "audible demo_half" unfolding audible_def by (rule exI[of _ 0]) (simp add: demo_half_def prev_buffer_def b)
  obtain rx' where p: "prepare_window demo_half = Some rx'"
    by (simp add: prepare_window_def Let_def demo_half_def prev_buffer_def SIGNAL_LENGHT_def SIGNAL_SAMPLE_RATE_def b)
  note hf = prepared_half[OF p h a]
  have "\<exists>s1. decoder_turn demo_turn demo_receiver = Inr (True, s1)"
    by (simp add: decoder_turn_def demo_receiver_def p Let_def demo_subsystem[OF hf(1,2)] postSpots_def printSpots_def)
       (simp add: demo_half_def demo_turn_def)
  then obtain s1 where t: "decoder_turn demo_turn demo_receiver = Inr (True, s1)" by blast
  have n: "sample_name (filename (ro_of demo_receiver)) (t_tm demo_turn) = ''rx_2025-01-01_00-00-01.iq''"
    by (simp add: sample_name_def demo_receiver_def demo_turn_def hms_def dec_eval)
  have c: "\<not> exit_flag (rx_of demo_receiver)" "prepare_window (rx_of demo_receiver) = Some rx'" "writefile (ro_of demo_receiver)"
    "t_can_write demo_turn" "tm_ok (t_tm demo_turn)" "halves_ok (rx_of demo_receiver)" "audible (rx_of demo_receiver)"
    using p h a by (simp_all add: demo_receiver_def demo_turn_def tm_ok_def) (simp add: demo_half_def)
  have f: "length (filename (ro_of demo_receiver)) < 8" by (simp add: demo_receiver_def)
  show ?thesis using recorded_slot_replays[OF t(1) c, where c2s = Map.empty] f t unfolding n by auto
qed

subsection \<open>The reference message\<close>


end
