(* ===== verification/Spec2Isabelle.thy ===== *)
theory Spec2Isabelle
  imports QsoContacts PskDatagram DecodeSpots FakeTiming TxDaemon WsprReceive RxWindow RxStall FtxHeard ClientLink
    FtxFreeText FtxSound FtxLoops Calibrate RxReplay
begin

text \<open>
  rtlsdr-ft8d receives and sends FT8, the weak-signal mode of amateur radio, in slots of 15 seconds. These theories
  model its programs and prove what makes them correct. All paths are relative to \<^verbatim>\<open>src/\<close>; the definitions keep the
  names of the code, and one definition stands for one function wherever the code allows it.

  \<^bold>\<open>The programs and how they interact.\<close> \<^verbatim>\<open>rtlsdr_ft8d\<close> reads samples from a stick in a callback, filters them into
  a double buffer, switches its halves in every slot, and decodes the half that is complete. New messages go to the
  screen, to a log, as spots to the reporter thread, and to the QSO handler, which runs one contact at a time and puts
  transmit requests into a queue. The terminal client, threads of the same process, owns keyboard and screen
  and sends each request over a socket to \<^verbatim>\<open>ft8\<close>, which as a daemon splits it into words, encodes the message,
  waits for the slot and modulates a clock pin through a ring of DMA control blocks; it answers with single letters.
  For tests \<^verbatim>\<open>fakeTx.cpp\<close> takes the place of \<^verbatim>\<open>ft8\<close>, and synthetic sources take the place of the stick.
  \<^verbatim>\<open>calibrate\<close> measures the transmitter with the stick and leaves a file that \<^verbatim>\<open>ft8\<close> reads.

  \<^bold>\<open>Theories and sources.\<close>

  \<^item> Foundations. \<open>Prelude\<close>: C strings, the conversions of \<^verbatim>\<open>printf\<close>, token scanners, 32-bit integers,
    the type \<open>result\<close> of values or errors. \<open>CReal\<close>: casts and rounding of floating point. \<open>GetOpt\<close>:
    \<^verbatim>\<open>getopt_long\<close>. \<open>Probing\<close>: linear probing over abstract tables. \<open>WordBits\<close>: words bit by bit.
    \<open>FT8Types\<close>: \<^verbatim>\<open>ft8tx/FT8Types.h\<close> and \<^verbatim>\<open>rtlsdr_ft8d.h\<close>. \<open>TSQueue\<close>: \<^verbatim>\<open>tsqueue.h\<close>.

  \<^item> The contact. \<open>QsoHandler\<close>: all of \<^verbatim>\<open>qsoHandler.cpp\<close>; its file-scope variables are the record
    \<open>qso\<close>, its thread's loop is \<open>QSOHandler_iter\<close>, and \<open>qso_step\<close> interleaves it with the other
    threads. Proofs in \<open>QsoInvariant\<close>, \<open>QsoTransmit\<close>, \<open>QsoContacts\<close>.

  \<^item> The codec. \<open>FtxText\<close>, \<open>FtxMessage\<close>, \<open>FtxTables\<close>, \<open>FtxEncode\<close>, \<open>FtxDecode\<close>: \<^verbatim>\<open>text.c\<close>,
    \<^verbatim>\<open>message.c\<close>, \<^verbatim>\<open>constants.c\<close>, \<^verbatim>\<open>crc.c\<close>, \<^verbatim>\<open>encode.c\<close>, \<^verbatim>\<open>decode.c\<close> and \<^verbatim>\<open>ldpc.c\<close> of \<^verbatim>\<open>libft8/ft8\<close>.
    Proofs in \<open>FtxStandard\<close> and \<open>FtxFreeText\<close> (payloads), \<open>FtxBits\<close>, \<open>FtxMatrix\<close> and \<open>FtxOnAir\<close>
    (the physical layer), \<open>FtxHeap\<close>, \<open>FtxLoops\<close> and \<open>FtxSearch\<close> (the candidate search),
    \<open>FtxBounds\<close> and \<open>FtxSound\<close> (arbitrary input).

  \<^item> The receiver, \<^verbatim>\<open>rtlsdr_ft8d.cpp\<close>. \<open>RxDsp\<close>: \<^verbatim>\<open>rtlsdr_callback\<close>. \<open>RxWaterfall\<close>:
    \<^verbatim>\<open>ft8_subsystem\<close> and the levels. \<open>CallsignHash\<close>: the call sign table. \<open>Decode\<close>: \<^verbatim>\<open>decode\<close>.
    \<open>RxSlots\<close>: the main loop, the decoder thread and its files. \<open>RxSynth\<close>: the signal generator and the synthetic
    sources. \<open>RxReplay\<close>: recorded slots and the self-test. \<open>RxOptions\<close>, \<open>RxDevice\<close>: start-up, device and
    stall watchdog. Proofs in \<open>RxFilter\<close>, \<open>RxWindow\<close>, \<open>RxLevels\<close>, \<open>RxStall\<close>, \<open>DecodeSpots\<close>; with
    the codec put in place of its parameters in \<open>FtxReceive\<close> and \<open>FtxHeard\<close>.

  \<^item> The reporter, \<^verbatim>\<open>pskreporter.cpp\<close> and the uploader thread. \<open>PskReporter\<close>; proofs in \<open>PskDatagram\<close>.

  \<^item> The terminal client, \<^verbatim>\<open>ft8_ncurses.cpp\<close>. \<open>Client\<close>; proofs in \<open>ClientUi\<close>, and with the daemon in
    \<open>ClientLink\<close>.

  \<^item> The transmitter, \<^verbatim>\<open>ft8.cpp\<close>. \<open>TxCommand\<close>: options. \<open>TxDma\<close>: pages, control blocks, registers,
    dividers and symbols. \<open>TxMain\<close>: \<^verbatim>\<open>mainFT8\<close>. \<open>Wspr\<close>, \<open>WsprMain\<close>: the WSPR mode. \<open>TxDaemon\<close>: \<^verbatim>\<open>main\<close>.
    Proofs in \<open>TxTone\<close>, \<open>TxOnAir\<close>, \<open>TxRequests\<close>, \<open>WsprReceive\<close>; with codec and receiver in \<open>FtxLink\<close>.

  \<^item> The fake transmitter, \<^verbatim>\<open>fakeTx.cpp\<close>. \<open>FakeTx\<close>; proofs in \<open>FakeTiming\<close>.

  \<^item> Calibration. \<open>TxCal\<close>: \<^verbatim>\<open>txcal.h\<close>. \<open>Calibrate\<close>: \<^verbatim>\<open>calibrate.cpp\<close>.
\<close>

text \<open>
  \<^bold>\<open>What the theorems show.\<close>

  \<^item> A contact: the messages of an FT8 exchange move the handler as its table says, except on two rows; nobody
    but the peer moves it; a silent contact ends in bounded time; every request has the documented text. The
    unchecked \<^verbatim>\<open>sprintf\<close> into 40 bytes overflows for long call signs only.

  \<^item> From request to air: a request queued by the handler is acknowledged, timed and sent as 79 symbols whose clocks
    add up exactly; a negative report makes the option parser abort instead; a centre frequency that has to be moved
    fails an assertion.

  \<^item> From air to message: the sample chain equals a reference filter, each slot is handed over complete and
    unchanged, the search keeps the best candidates in order, and whatever the encoder packs is decoded by every
    receiver in whose waterfall its tones are loudest, down to the text of the QSO handler. What the decoder returns
    always has a valid checksum over a codeword.

  \<^item> Data: round trips of standard messages, free text, report datagrams, WSPR symbols and recorded slots; the call
    sign table refines a map and the duplicate table a set; every spot is reported in exactly one datagram.

  \<^item> Safety and liveness: stores stay inside their arrays, or the theorem says which input breaks them; the heap's
    loops end within the logarithm of its size; each interleaving of the client's threads is consistent.

  \<^item> Flaws: where the code does not do what it means to, the theorem states what it does: a contact
    opened by the own CQ is not logged, the database of peers forgets everyone when it is full, a restarted device
    overflows a text, a calibration doubles the error it measured, a moved centre frequency aborts, and a saved slot
    with a long name is refused when it is read.

  \<^bold>\<open>Interfaces.\<close> A lemma that needs only a contract is proved in a locale, and the locale is interpreted on the
  model's own definitions: \<open>fifo\<close> (the queues), \<open>open_addressing\<close> (both hash tables), \<open>callsign_store\<close> (what the
  codec expects of the table), \<open>cand_store\<close> (what the search expects of the heap), \<open>report_sink\<close> (what the
  uploader expects of the reporter) and \<open>freq_rule\<close> (the frequency rule of both transmitters).

  \<^bold>\<open>Conventions.\<close>

  \<^item> A function that can go wrong returns \<open>result\<close>: \<open>Inl\<close> with a \<open>c_error\<close> (a store or read outside an array,
    an overflowing text, a failed assertion, a cast of a value that does not fit, an exit, a read of an
    uninitialised value), or \<open>Inr\<close> with the value.

  \<^item> Shared state is a record; a thread's turn is a function on it; threads are interleaved by lists of
    operations or by inductive step relations. A helper that holds its mutex throughout is one step.

  \<^item> What comes from outside is an argument: device readings, polled registers, clock readings, random numbers, the
    contents of uninitialised arrays, the outcomes of calls of the system and of libraries. Readings
    are lists the model consumes; a list that runs out means that the program is still polling, \<open>None\<close>, and a
    theorem that a transmission ends says how many readings are enough: when the DMA engine is seen to move within
    every \<open>m\<close> readings, \<open>4 * m\<close> for each round of a symbol's loop. Loops that may go on for ever, a transmission
    with \<^verbatim>\<open>--repeat\<close>, the test tone and the draw of noise by rejection, are defined by
    \<open>partial_function (option)\<close>; all other recursion is total. The number of rounds in \<open>FtxLoops\<close> is the
    logarithm of the heap's size, at most 8 for its 120 places.

  \<^item> Integers have their width where it matters: filters, hashes, counters, clocks and payload bits are words. Where a
    bound shows that nothing wraps, they are integers. Floating point numbers are real numbers, so rounding errors
    are not modelled; casts to integers are, and a division by zero that would lead to an infinite likelihood is
    an error.

  \<^item> The receiver is the default wide build, nominally 6400 samples per second; its counter keeps one of 376 samples.

  \<^bold>\<open>Not modelled.\<close> The Fourier transforms (FFTW, KISS FFT), librtlsdr, curses, libcurl, sockets, getopt's
  messages, \<^verbatim>\<open>strtod\<close>, \<^verbatim>\<open>wordexp\<close> beyond plain words and \<^verbatim>\<open>fork\<close> are parameters or left out, as the theories
  say. Left out are also: the FT4 variants in \<^verbatim>\<open>libft8\<close>, \<^verbatim>\<open>ldpc_decode\<close> and \<^verbatim>\<open>ft8_decode_multi_symbols\<close>, which nothing
  calls; the functions of \<^verbatim>\<open>libft8/common/monitor.c\<close>, which are linked and not called, and the wave and audio
  helpers; \<^verbatim>\<open>webClusterSpots\<close>, which has no caller; the layout of windows, the splash screen and
  printed summaries; the firmware calls of \<^verbatim>\<open>mailbox.c\<close>; and the small programs \<^verbatim>\<open>client.c\<close>,
  \<^verbatim>\<open>sk150lm_beacon.c\<close> and \<^verbatim>\<open>mktestiq.cpp\<close>, with \<^verbatim>\<open>stoargc.c\<close>.
\<close>

end
